(* ===== verification/Prelude.thy ===== *)
theory Prelude
  imports Main "HOL-Library.Char_ord" "HOL-Library.Sublist" "HOL-Library.Word"
begin

text \<open>
  Shared vocabulary of the development: JavaScript strings and slices, JSON values, and the
  generic lemmas on lists that the component theories use.

  A JavaScript string is a sequence of UTF-16 code units; the model's \<^typ>\<open>string\<close> is the same
  sequence restricted to code units below 256 (Latin-1), so \<open>length\<close> is JavaScript's \<open>.length\<close>.
  A JSON value is \<open>json\<close>; an object is the list of its entries in insertion order, which is
  what \<open>Object.entries\<close> enumerates. A walk that returns \<open>undefined\<close> returns \<^const>\<open>None\<close>.
\<close>

named_theorems store_simps \<open>laws of the object stores\<close>

named_theorems db_simps \<open>rewriting of table operations\<close>

subsection \<open>Strings\<close>

definition js_space :: "char \<Rightarrow> bool" where
  \<comment> \<open>the white space of \<open>String.prototype.trim\<close> and of \<open>\s\<close>, within Latin-1\<close>
  "js_space c \<longleftrightarrow> (of_char c :: nat) \<in> {9, 10, 11, 12, 13, 32, 160}"

definition js_trim :: "string \<Rightarrow> string" where
  "js_trim s = rev (dropWhile js_space (rev (dropWhile js_space s)))"

definition lower_char :: "char \<Rightarrow> char" where
  \<comment> \<open>\<open>toLowerCase\<close> on one Latin-1 code unit\<close>
  "lower_char c =
     (let n = (of_char c :: nat)
      in if (65 \<le> n \<and> n \<le> 90) \<or> (192 \<le> n \<and> n \<le> 222 \<and> n \<noteq> 215) then char_of (n + 32) else c)"

definition upper_ascii :: "char \<Rightarrow> char" where
  "upper_ascii c =
     (let n = (of_char c :: nat) in if 97 \<le> n \<and> n \<le> 122 then char_of (n - 32) else c)"

definition to_lower :: "string \<Rightarrow> string" where
  "to_lower s = map lower_char s"

definition starts_with :: "string \<Rightarrow> string \<Rightarrow> bool" where
  "starts_with s p \<longleftrightarrow> take (length p) s = p"

definition ends_with :: "string \<Rightarrow> string \<Rightarrow> bool" where
  "ends_with s p \<longleftrightarrow> length p \<le> length s \<and> drop (length s - length p) s = p"

definition ellipsis :: char where
  \<comment> \<open>the character U+2026, outside Latin-1, stands for itself as one unit\<close>
  "ellipsis = char_of (133 :: nat)"

fun join_with :: "string \<Rightarrow> string list \<Rightarrow> string" where
  "join_with sep [] = []"
| "join_with sep [x] = x"
| "join_with sep (x # y # ys) = x @ sep @ join_with sep (y # ys)"

lemma starts_with_prefix: "starts_with s p \<longleftrightarrow> prefix p s"
  by (auto simp: starts_with_def prefix_def) (metis append_take_drop_id)

lemma ends_with_suffix: "ends_with s p \<longleftrightarrow> suffix p s"
proof
  assume "ends_with s p"
  then have "s = take (length s - length p) s @ p"
    by (simp add: ends_with_def) (metis append_take_drop_id)
  then show "suffix p s" by (metis suffix_def)
qed (auto simp: ends_with_def suffix_def)

lemma length_js_trim: "length (js_trim s) \<le> length s"
proof -
  have "length (dropWhile js_space (rev (dropWhile js_space s))) \<le> length (dropWhile js_space s)"
    by (metis length_dropWhile_le length_rev)
  then show ?thesis
    using length_dropWhile_le [of js_space s] by (simp add: js_trim_def)
qed

fun split_on :: "char \<Rightarrow> string \<Rightarrow> string list" where
  \<comment> \<open>\<open>s.split(c)\<close> for a separator of one character\<close>
  "split_on c [] = [[]]"
| "split_on c (x # xs) =
     (if x = c then [] # split_on c xs
      else case split_on c xs of [] \<Rightarrow> [[x]] | y # ys \<Rightarrow> (x # y) # ys)"

lemma split_on_ne [simp]: "split_on c s \<noteq> []"
  by (cases s) (auto split: list.splits)

lemma split_on_no_sep: "c \<notin> set s \<Longrightarrow> split_on c s = [s]"
  by (induction s) auto

lemma split_on_append: "c \<notin> set s \<Longrightarrow> split_on c (s @ c # t) = s # split_on c t"
  by (induction s) auto

lemma split_on_append2: "split_on c (s @ c # t) = split_on c s @ split_on c t"
proof (induction s)
  case (Cons x s)
  obtain y ys where "split_on c s = y # ys" by (cases "split_on c s") auto
  then show ?case using Cons by auto
qed simp

lemma join_with_append:
  "xs \<noteq> [] \<Longrightarrow> ys \<noteq> [] \<Longrightarrow> join_with p (xs @ ys) = join_with p xs @ p @ join_with p ys"
proof (induction p xs rule: join_with.induct)
  case (2 p x)
  then show ?case by (cases ys) auto
qed auto

lemma split_on_parts: "p \<in> set (split_on c s) \<Longrightarrow> c \<notin> set p"
proof (induction s arbitrary: p)
  case (Cons x s)
  obtain y ys where "split_on c s = y # ys" by (cases "split_on c s") auto
  then show ?case using Cons by (auto split: if_splits)
qed simp

lemma split_on_join:
  "ps \<noteq> [] \<Longrightarrow> \<forall>p\<in>set ps. c \<notin> set p \<Longrightarrow> split_on c (join_with [c] ps) = ps"
  by (induction "[c]" ps rule: join_with.induct) (auto simp: split_on_no_sep split_on_append)

lemma join_split_on: "join_with [c] (split_on c s) = s"
proof (induction s)
  case (Cons x s)
  obtain y ys where y: "split_on c s = y # ys" by (cases "split_on c s") auto
  show ?case
  proof (cases "x = c")
    case True
    then show ?thesis using Cons y by simp
  next
    case False
    then show ?thesis using Cons y by (cases ys) auto
  qed
qed simp

type_synonym bytes = "8 word list"

subsection \<open>Slices and list updates\<close>

definition slice_last :: "nat \<Rightarrow> 'a list \<Rightarrow> 'a list" where
  \<comment> \<open>\<open>xs.slice(-n)\<close>: for \<open>n = 0\<close> it is \<open>xs.slice(0)\<close>, the whole array\<close>
  "slice_last n xs = (if n = 0 then xs else drop (length xs - n) xs)"

lemma length_slice_last: "0 < n \<Longrightarrow> length (slice_last n xs) = min n (length xs)"
  by (auto simp: slice_last_def)

lemma set_slice_last: "set (slice_last n xs) \<subseteq> set xs"
  by (auto simp: slice_last_def dest: in_set_dropD)

lemma suffix_slice_last: "suffix (slice_last n xs) xs"
  by (auto simp: slice_last_def suffix_drop)

fun drop_first :: "('a \<Rightarrow> bool) \<Rightarrow> 'a list \<Rightarrow> 'a list" where
  \<comment> \<open>\<open>xs.splice(xs.indexOf(x), 1)\<close> for the first \<open>x\<close> with \<open>p x\<close>\<close>
  "drop_first p [] = []"
| "drop_first p (x # xs) = (if p x then xs else x # drop_first p xs)"

lemma set_drop_first: "set (drop_first p xs) \<subseteq> set xs"
  by (induction xs) auto

lemma subseq_drop_first: "subseq (drop_first p xs) xs"
  by (induction xs) auto

lemma filter_drop_first_same: "filter p (drop_first p xs) = tl (filter p xs)"
  by (induction xs) auto

lemma filter_drop_first_other:
  "(\<And>x. p x \<Longrightarrow> \<not> q x) \<Longrightarrow> filter q (drop_first p xs) = filter q xs"
  by (induction xs) auto

lemma length_drop_first:
  "length (drop_first p xs) = (if \<exists>x\<in>set xs. p x then length xs - 1 else length xs)"
proof (induction xs)
  case (Cons x xs)
  then show ?case by (cases xs) auto
qed simp

lemma subseq_in: "subseq xs ys \<Longrightarrow> x \<in> set xs \<Longrightarrow> x \<in> set ys"
  by (induction rule: list_emb.induct) auto

lemma sorted_wrt_subseq: "subseq xs ys \<Longrightarrow> sorted_wrt P ys \<Longrightarrow> sorted_wrt P xs"
  by (induction rule: list_emb.induct) (auto dest: subseq_in)

subsection \<open>JSON values\<close>

datatype json =
    JNull
  | JBool bool
  | JNum int
  | JStr string
  | JArr "json list"
  | JObj "(string \<times> json) list"

fun jget :: "string \<Rightarrow> json \<Rightarrow> json option" where
  \<comment> \<open>\<open>v[k]\<close>; \<open>None\<close> is \<open>undefined\<close>\<close>
  "jget k (JObj fs) = map_of fs k"
| "jget k _ = None"

fun obj_set :: "'k \<Rightarrow> 'v \<Rightarrow> ('k \<times> 'v) list \<Rightarrow> ('k \<times> 'v) list" where
  \<comment> \<open>\<open>o[k] = v\<close> and \<open>map.set(k, v)\<close>: an existing key keeps its place\<close>
  "obj_set k v [] = [(k, v)]"
| "obj_set k v ((k', v') # fs) = (if k' = k then (k, v) # fs else (k', v') # obj_set k v fs)"

lemma map_of_obj_set: "map_of (obj_set k v fs) = (map_of fs)(k \<mapsto> v)"
  by (induction fs) auto

lemma keys_obj_set: "set (map fst (obj_set k v fs)) = insert k (set (map fst fs))"
  by (induction k v fs rule: obj_set.induct) auto

lemma distinct_obj_set: "distinct (map fst fs) \<Longrightarrow> distinct (map fst (obj_set k v fs))"
proof (induction fs)
  case (Cons f fs)
  then show ?case using keys_obj_set [of k v fs] by (cases f) auto
qed simp

definition tally_add :: "'k \<Rightarrow> nat \<Rightarrow> ('k \<times> nat) list \<Rightarrow> ('k \<times> nat) list" where
  \<comment> \<open>\<open>t[k] = (t[k] ?? 0) + n\<close>\<close>
  "tally_add k n t = obj_set k ((case map_of t k of None \<Rightarrow> 0 | Some c \<Rightarrow> c) + n) t"

definition tally_total :: "('k \<times> nat) list \<Rightarrow> nat" where
  "tally_total t = sum_list (map snd t)"

lemma tally_total_add: "tally_total (tally_add k n t) = tally_total t + n"
proof -
  have "sum_list (map snd (obj_set k ((case map_of t k of None \<Rightarrow> 0 | Some c \<Rightarrow> c) + n) t)) =
        sum_list (map snd t) + n"
    by (induction t) (auto split: option.splits)
  then show ?thesis by (simp add: tally_total_def tally_add_def)
qed

lemma tally_total_Nil [simp]: "tally_total [] = 0"
  by (simp add: tally_total_def)

fun nat_str :: "nat \<Rightarrow> string" where
  "nat_str n = (if n < 10 then [char_of (48 + n)] else nat_str (n div 10) @ [char_of (48 + n mod 10)])"

declare nat_str.simps [simp del]

lemma nat_str_ne: "nat_str n \<noteq> []"
  by (subst nat_str.simps) simp

subsection \<open>Values that may be missing\<close>

definition truthy :: "string option \<Rightarrow> bool" where
  \<comment> \<open>JavaScript truthiness of a string that may be null\<close>
  "truthy s \<longleftrightarrow> s \<noteq> None \<and> s \<noteq> Some []"

definition coalesce :: "'a option \<Rightarrow> 'a option \<Rightarrow> 'a option" where
  \<comment> \<open>the operator \<open>??\<close>\<close>
  "coalesce a b = (case a of None \<Rightarrow> b | Some x \<Rightarrow> Some x)"

subsection \<open>Replies and fallible steps\<close>

datatype 'a response = Reply nat 'a | Refuse nat string | Raise string
  \<comment> \<open>an answer of a route handler: a body with its status, an error code, or an exception\<close>

definition and_then :: "('d \<Rightarrow> ('e + 'a) \<times> 'd) \<Rightarrow> ('a \<Rightarrow> 'd \<Rightarrow> ('e + 'b) \<times> 'd) \<Rightarrow> 'd \<Rightarrow> ('e + 'b) \<times> 'd" where
  \<comment> \<open>run one step; on its normal result go on, on an early exit stop\<close>
  "and_then f g d = (case f d of (Inl e, d1) \<Rightarrow> (Inl e, d1) | (Inr x, d1) \<Rightarrow> g x d1)"

lemma and_then_cases:
  assumes "and_then f g d = (r, d')"
  obtains (stop) e where "f d = (Inl e, d')" "r = Inl e"
  | (go) x dm where "f d = (Inr x, dm)" "g x dm = (r, d')"
  using assms by (auto simp: and_then_def split: prod.splits sum.splits)

end
