(* ===== verification/Live_Buffer.thy ===== *)
theory Live_Buffer
  imports Prelude
begin

text \<open>
  \<^verbatim>\<open>packages/context-engine/src/live-buffer.ts\<close> with the limits of
  \<^verbatim>\<open>packages/schema/src/live.ts\<close>: the bounded in-memory buffer of one live session. Times are
  milliseconds as \<^typ>\<open>int\<close>; sizes are string lengths. A method that changes the object returns the new
  object. The loops of \<open>evict\<close> are recursive functions; that each of them ends is proved.
\<close>

record live_limits =
  lim_session_max_ms :: int
  lim_buffer_window_ms :: int
  lim_max_frames :: nat
  lim_max_frame_bytes :: nat
  lim_max_buffer_bytes :: nat
  lim_max_text_snippets :: nat
  lim_max_qa_exchanges :: nat
  lim_qa_frames_per_request :: nat

definition default_limits :: live_limits where
  \<comment> \<open>\<open>LIVE_LIMITS\<close>\<close>
  "default_limits =
     \<lparr>lim_session_max_ms = 30 * 60 * 1000, lim_buffer_window_ms = 90 * 1000, lim_max_frames = 12,
      lim_max_frame_bytes = 400000, lim_max_buffer_bytes = 6000000, lim_max_text_snippets = 12,
      lim_max_qa_exchanges = 10, lim_qa_frames_per_request = 3\<rparr>"

datatype buffer_entry =
    Frame_entry (e_at: int) (e_content: string) (e_bytes: nat)
  | Text_entry (e_at: int) (e_content: string) (e_bytes: nat)

fun is_frame :: "buffer_entry \<Rightarrow> bool" where
  "is_frame (Frame_entry _ _ _) = True"
| "is_frame (Text_entry _ _ _) = False"

abbreviation is_snippet :: "buffer_entry \<Rightarrow> bool" where
  "is_snippet e \<equiv> \<not> is_frame e"

record qa_exchange =
  qa_question :: string
  qa_answer :: string
  qa_at :: string

record live_buffer =
  lb_entries :: "buffer_entry list"
  lb_qa :: "qa_exchange list"
  lb_started_at :: int
  lb_limits :: live_limits

definition new_buffer :: "int \<Rightarrow> live_limits \<Rightarrow> live_buffer" where
  "new_buffer started_at limits =
     \<lparr>lb_entries = [], lb_qa = [], lb_started_at = started_at, lb_limits = limits\<rparr>"

definition expired :: "live_buffer \<Rightarrow> int \<Rightarrow> bool" where
  "expired b now \<longleftrightarrow> lim_session_max_ms (lb_limits b) \<le> now - lb_started_at b"

definition remaining_ms :: "live_buffer \<Rightarrow> int \<Rightarrow> int" where
  "remaining_ms b now = max 0 (lim_session_max_ms (lb_limits b) - (now - lb_started_at b))"

definition total_bytes :: "buffer_entry list \<Rightarrow> nat" where
  "total_bytes es = sum_list (map e_bytes es)"

function drop_oldest :: "(buffer_entry \<Rightarrow> bool) \<Rightarrow> nat \<Rightarrow> buffer_entry list \<Rightarrow> buffer_entry list" where
  \<comment> \<open>while more than \<open>cap\<close> entries are of the kind, splice the oldest of them out\<close>
  "drop_oldest kind cap es =
     (if cap < length (filter kind es) then drop_oldest kind cap (drop_first kind es) else es)"
  by pat_completeness auto
termination
proof (relation "measure (\<lambda>(kind, cap, es). length es)", goal_cases)
  case (2 kind cap es)
  then have "filter kind es \<noteq> []" by auto
  then have "\<exists>x\<in>set es. kind x" "es \<noteq> []" by (auto simp: filter_empty_conv)
  then show ?case by (simp add: length_drop_first)
qed simp

declare drop_oldest.simps [simp del]

fun fit_budget :: "nat \<Rightarrow> buffer_entry list \<Rightarrow> buffer_entry list" where
  "fit_budget budget [] = []"
| "fit_budget budget (e # es) = (if budget < total_bytes (e # es) then fit_budget budget es else e # es)"

definition evict :: "int \<Rightarrow> live_buffer \<Rightarrow> live_buffer" where
  "evict now b =
     (let lim = lb_limits b;
          fresh = filter (\<lambda>e. now - lim_buffer_window_ms lim \<le> e_at e) (lb_entries b)
      in b\<lparr>lb_entries :=
             fit_budget (lim_max_buffer_bytes lim)
               (drop_oldest is_snippet (lim_max_text_snippets lim)
                 (drop_oldest is_frame (lim_max_frames lim) fresh))\<rparr>)"

definition add_frame :: "string \<Rightarrow> int \<Rightarrow> live_buffer \<Rightarrow> live_buffer" where
  "add_frame data_url now b =
     (if lim_max_frame_bytes (lb_limits b) < length data_url then b
      else evict now (b\<lparr>lb_entries := lb_entries b @ [Frame_entry now data_url (length data_url)]\<rparr>))"

definition add_text :: "string \<Rightarrow> int \<Rightarrow> live_buffer \<Rightarrow> live_buffer" where
  "add_text tx now b =
     (let trimmed = js_trim tx
      in if trimmed = [] then b
         else if (case find is_snippet (rev (lb_entries b)) of None \<Rightarrow> False | Some e \<Rightarrow> e_content e = trimmed) then b
         else evict now (b\<lparr>lb_entries := lb_entries b @ [Text_entry now trimmed (length trimmed)]\<rparr>))"

definition add_qa :: "qa_exchange \<Rightarrow> live_buffer \<Rightarrow> live_buffer" where
  "add_qa ex b =
     (let qa = lb_qa b @ [ex]; cap = lim_max_qa_exchanges (lb_limits b)
      in b\<lparr>lb_qa := (if cap < length qa then slice_last cap qa else qa)\<rparr>)"

definition frame_count :: "live_buffer \<Rightarrow> nat" where
  "frame_count b = length (filter is_frame (lb_entries b))"

definition recent_frames :: "nat \<Rightarrow> live_buffer \<Rightarrow> string list" where
  "recent_frames n b = map e_content (slice_last n (filter is_frame (lb_entries b)))"

definition recent_text_snippets :: "nat \<Rightarrow> live_buffer \<Rightarrow> string list" where
  "recent_text_snippets n b = map e_content (slice_last n (filter is_snippet (lb_entries b)))"

record saved_segment =
  seg_frame :: "string option"
  seg_text_snippets :: "string list"
  seg_qa :: "qa_exchange list"
  seg_started_at :: int
  seg_saved_at :: int
  seg_duration_ms :: int
  seg_frame_count :: nat

definition save_segment :: "int \<Rightarrow> live_buffer \<Rightarrow> saved_segment" where
  "save_segment now b =
     (let frames = recent_frames 1 b
      in \<lparr>seg_frame = (if frames = [] then None else Some (last frames)),
          seg_text_snippets = recent_text_snippets 3 b,
          seg_qa = slice_last 3 (lb_qa b),
          seg_started_at = lb_started_at b, seg_saved_at = now,
          seg_duration_ms = now - lb_started_at b, seg_frame_count = frame_count b\<rparr>)"

definition clear :: "live_buffer \<Rightarrow> live_buffer" where
  "clear b = b\<lparr>lb_entries := [], lb_qa := []\<rparr>"

record buffer_size =
  sz_entries :: nat
  sz_frames :: nat
  sz_texts :: nat
  sz_qa :: nat
  sz_bytes :: nat

definition size_of :: "live_buffer \<Rightarrow> buffer_size" where
  "size_of b = \<lparr>sz_entries = length (lb_entries b), sz_frames = frame_count b,
     sz_texts = length (filter is_snippet (lb_entries b)), sz_qa = length (lb_qa b),
     sz_bytes = total_bytes (lb_entries b)\<rparr>"

subsection \<open>The loops\<close>

lemma total_bytes_simps [simp]:
  "total_bytes [] = 0" "total_bytes (e # es) = e_bytes e + total_bytes es"
  "total_bytes (es @ fs) = total_bytes es + total_bytes fs"
  by (simp_all add: total_bytes_def)

lemma drop_oldest_subseq: "subseq (drop_oldest kind cap es) es"
proof (induction kind cap es rule: drop_oldest.induct)
  case (1 kind cap es)
  then show ?case
    using subseq_order.trans [OF _ subseq_drop_first [of kind es]] by (subst drop_oldest.simps) auto
qed

lemma drop_oldest_kind: "filter kind (drop_oldest kind cap es) = drop (length (filter kind es) - cap) (filter kind es)"
proof (induction kind cap es rule: drop_oldest.induct)
  case (1 kind cap es)
  show ?case
  proof (cases "cap < length (filter kind es)")
    case True
    then have "filter kind (drop_oldest kind cap es) = filter kind (drop_oldest kind cap (drop_first kind es))"
      by (simp add: drop_oldest.simps [of kind cap es])
    also have "\<dots> = drop (length (filter kind es) - 1 - cap) (tl (filter kind es))"
      by (simp add: "1.IH" [OF True] filter_drop_first_same)
    also have "\<dots> = drop (length (filter kind es) - cap) (filter kind es)"
      using True by (simp add: drop_Suc [symmetric] Suc_diff_Suc)
    finally show ?thesis .
  qed (simp add: drop_oldest.simps [of kind cap es])
qed

lemma drop_oldest_other:
  "(\<And>x. kind x \<Longrightarrow> \<not> other x) \<Longrightarrow> filter other (drop_oldest kind cap es) = filter other es"
proof (induction kind cap es rule: drop_oldest.induct)
  case (1 kind cap es)
  then show ?case
    by (subst drop_oldest.simps) (simp add: filter_drop_first_other)
qed

lemma drop_oldest_id: "length (filter kind es) \<le> cap \<Longrightarrow> drop_oldest kind cap es = es"
  by (simp add: drop_oldest.simps)

lemma drop_first_append: "\<exists>x\<in>set xs. p x \<Longrightarrow> drop_first p (xs @ ys) = drop_first p xs @ ys"
  by (induction xs) auto

lemma drop_oldest_snoc:
  "(kind e \<Longrightarrow> 0 < cap) \<Longrightarrow> \<exists>ys. drop_oldest kind cap (xs @ [e]) = ys @ [e]"
proof (induction kind cap "xs @ [e]" arbitrary: xs rule: drop_oldest.induct)
  case (1 kind cap)
  show ?case
  proof (cases "cap < length (filter kind (xs @ [e]))")
    case True
    then have "filter kind xs \<noteq> []" using "1.prems" by (auto split: if_splits)
    then have d: "drop_first kind (xs @ [e]) = drop_first kind xs @ [e]"
      by (intro drop_first_append) (auto simp: filter_empty_conv)
    then obtain ys where "drop_oldest kind cap (drop_first kind xs @ [e]) = ys @ [e]"
      using "1.hyps" [OF True d] "1.prems" d by auto
    then show ?thesis using True d by (subst drop_oldest.simps) simp
  qed (simp add: drop_oldest.simps)
qed

lemma fit_budget_suffix: "suffix (fit_budget n es) es"
  by (induction es) (auto intro: suffix_ConsI)

lemma fit_budget_bytes: "total_bytes (fit_budget n es) \<le> n"
  by (induction es) auto

lemma fit_budget_keeps_last:
  "es \<noteq> [] \<Longrightarrow> e_bytes (last es) \<le> n \<Longrightarrow> fit_budget n es \<noteq> [] \<and> last (fit_budget n es) = last es"
  by (induction es) auto

lemma fit_budget_id: "total_bytes es \<le> n \<Longrightarrow> fit_budget n es = es"
  by (cases es) auto

lemma filter_suffix_length: "suffix xs ys \<Longrightarrow> length (filter p xs) \<le> length (filter p ys)"
  by (auto simp: suffix_def)


lemma length_filter_drop_oldest: "length (filter kind (drop_oldest kind cap es)) \<le> cap"
  by (simp add: drop_oldest_kind)

subsection \<open>What eviction keeps\<close>

definition within_limits :: "live_limits \<Rightarrow> buffer_entry list \<Rightarrow> bool" where
  "within_limits lim es \<longleftrightarrow>
     length (filter is_frame es) \<le> lim_max_frames lim \<and>
     length (filter is_snippet es) \<le> lim_max_text_snippets lim \<and>
     total_bytes es \<le> lim_max_buffer_bytes lim"

definition kept :: "live_limits \<Rightarrow> int \<Rightarrow> buffer_entry list \<Rightarrow> buffer_entry list" where
  \<comment> \<open>the entries before the byte budget\<close>
  "kept lim now es =
     drop_oldest is_snippet (lim_max_text_snippets lim)
       (drop_oldest is_frame (lim_max_frames lim)
         (filter (\<lambda>e. now - lim_buffer_window_ms lim \<le> e_at e) es))"

lemma evict_kept:
  "evict now b = b\<lparr>lb_entries := fit_budget (lim_max_buffer_bytes (lb_limits b)) (kept (lb_limits b) now (lb_entries b))\<rparr>"
  by (simp add: evict_def kept_def Let_def)

lemma kept_frames:
  "filter is_frame (kept lim now es) =
     (let fs = filter is_frame (filter (\<lambda>e. now - lim_buffer_window_ms lim \<le> e_at e) es)
      in drop (length fs - lim_max_frames lim) fs)"
  by (simp add: kept_def drop_oldest_other drop_oldest_kind Let_def)

lemma kept_caps:
  "length (filter is_frame (kept lim now es)) \<le> lim_max_frames lim"
  "length (filter is_snippet (kept lim now es)) \<le> lim_max_text_snippets lim"
  unfolding kept_def by (simp_all add: length_filter_drop_oldest drop_oldest_other)

lemma evict_within_limits: "within_limits (lb_limits b) (lb_entries (evict now b))"
proof -
  let ?lim = "lb_limits b"
  let ?es = "kept ?lim now (lb_entries b)"
  have s: "suffix (fit_budget (lim_max_buffer_bytes ?lim) ?es) ?es" by (rule fit_budget_suffix)
  show ?thesis
    using filter_suffix_length [OF s, of is_frame] filter_suffix_length [OF s, of is_snippet]
      kept_caps [of ?lim now "lb_entries b"] fit_budget_bytes [of "lim_max_buffer_bytes ?lim" ?es]
    by (simp add: evict_kept within_limits_def)
qed

lemma evict_subseq: "subseq (lb_entries (evict now b)) (filter (\<lambda>e. now - lim_buffer_window_ms (lb_limits b) \<le> e_at e) (lb_entries b))"
proof -
  let ?lim = "lb_limits b"
  let ?fresh = "filter (\<lambda>e. now - lim_buffer_window_ms ?lim \<le> e_at e) (lb_entries b)"
  have "subseq (fit_budget (lim_max_buffer_bytes ?lim) (kept ?lim now (lb_entries b))) (kept ?lim now (lb_entries b))"
    using fit_budget_suffix suffix_imp_subseq by blast
  moreover have "subseq (kept ?lim now (lb_entries b)) ?fresh"
    unfolding kept_def using drop_oldest_subseq subseq_order.trans by blast
  ultimately show ?thesis using subseq_order.trans by (simp add: evict_kept)
qed

lemma evict_other [simp]:
  "lb_limits (evict now b) = lb_limits b" "lb_qa (evict now b) = lb_qa b" "lb_started_at (evict now b) = lb_started_at b"
  by (simp_all add: evict_kept)

subsection \<open>Reachable buffers\<close>

inductive live_run :: "live_limits \<Rightarrow> int \<Rightarrow> live_buffer \<Rightarrow> int \<Rightarrow> bool" for lim t0 where
  \<comment> \<open>the buffers of a session started at \<open>t0\<close>, with the time of the last call; the clock does not go back\<close>
  run_new: "live_run lim t0 (new_buffer t0 lim) t0"
| run_frame: "live_run lim t0 b t \<Longrightarrow> t \<le> now \<Longrightarrow> live_run lim t0 (add_frame url now b) now"
| run_text: "live_run lim t0 b t \<Longrightarrow> t \<le> now \<Longrightarrow> live_run lim t0 (add_text tx now b) now"
| run_qa: "live_run lim t0 b t \<Longrightarrow> live_run lim t0 (add_qa ex b) t"
| run_clear: "live_run lim t0 b t \<Longrightarrow> live_run lim t0 (clear b) t"

definition entry_ok :: "live_limits \<Rightarrow> int \<Rightarrow> buffer_entry \<Rightarrow> bool" where
  "entry_ok lim t e \<longleftrightarrow>
     e_bytes e = length (e_content e) \<and> e_at e \<le> t \<and>
     (if is_frame e then e_bytes e \<le> lim_max_frame_bytes lim else e_content e \<noteq> [])"

definition buffer_ok :: "live_limits \<Rightarrow> int \<Rightarrow> int \<Rightarrow> live_buffer \<Rightarrow> bool" where
  "buffer_ok lim t0 t b \<longleftrightarrow>
     lb_limits b = lim \<and> lb_started_at b = t0 \<and> within_limits lim (lb_entries b) \<and>
     list_all (entry_ok lim t) (lb_entries b) \<and>
     sorted_wrt (\<lambda>e f. e_at e \<le> e_at f) (lb_entries b) \<and>
     (if lim_max_qa_exchanges lim = 0 then True else length (lb_qa b) \<le> lim_max_qa_exchanges lim)"

lemma evict_ok:
  assumes "list_all (entry_ok lim t) es" "sorted_wrt (\<lambda>e f. e_at e \<le> e_at f) es"
    "lb_entries b = es" "lb_limits b = lim"
  shows "list_all (entry_ok lim t) (lb_entries (evict now b))"
    "sorted_wrt (\<lambda>e f. e_at e \<le> e_at f) (lb_entries (evict now b))"
    "within_limits lim (lb_entries (evict now b))"
proof -
  have s: "subseq (lb_entries (evict now b)) es"
    using evict_subseq [of now b] subseq_filter_left subseq_order.trans assms(3) by metis
  then show "list_all (entry_ok lim t) (lb_entries (evict now b))"
    using assms(1) subseq_in by (fastforce simp: list_all_iff)
  show "sorted_wrt (\<lambda>e f. e_at e \<le> e_at f) (lb_entries (evict now b))"
    using sorted_wrt_subseq [OF s] assms(2) .
  show "within_limits lim (lb_entries (evict now b))"
    using evict_within_limits [of b now] assms(4) by simp
qed

lemma push_ok:
  assumes b: "buffer_ok lim t0 t b" and t: "t \<le> now" and e: "entry_ok lim now e" "e_at e = now"
  shows "buffer_ok lim t0 now (evict now (b\<lparr>lb_entries := lb_entries b @ [e]\<rparr>))"
proof -
  let ?b = "b\<lparr>lb_entries := lb_entries b @ [e]\<rparr>"
  have l: "list_all (entry_ok lim now) (lb_entries b @ [e])"
    using b t e by (fastforce simp: buffer_ok_def list_all_iff entry_ok_def)
  have s: "sorted_wrt (\<lambda>e f. e_at e \<le> e_at f) (lb_entries b @ [e])"
    using b t e by (fastforce simp: buffer_ok_def list_all_iff entry_ok_def sorted_wrt_append)
  show ?thesis
    using evict_ok [OF l s, of ?b now] b by (simp add: buffer_ok_def)
qed

lemma later_ok: "buffer_ok lim t0 t b \<Longrightarrow> t \<le> now \<Longrightarrow> buffer_ok lim t0 now b"
  by (fastforce simp: buffer_ok_def list_all_iff entry_ok_def)

text \<open>C4. Every buffer a session can reach respects its budgets: frame count, snippet count, total
  bytes and the number of kept exchanges are within the limits, no frame exceeds the frame
  size, recorded sizes are true, and entries are in the order of time.\<close>

theorem live_buffer_bounded:
  assumes "live_run lim t0 b t"
  shows "buffer_ok lim t0 t b"
  using assms
proof induction
  case run_new
  show ?case by (simp add: buffer_ok_def new_buffer_def within_limits_def)
next
  case (run_frame b t now url)
  show ?case
  proof (cases "lim_max_frame_bytes (lb_limits b) < length url")
    case True
    then show ?thesis using later_ok run_frame by (simp add: add_frame_def)
  next
    case False
    then have "entry_ok lim now (Frame_entry now url (length url))"
      using run_frame.IH by (simp add: entry_ok_def buffer_ok_def)
    then show ?thesis using False push_ok [OF run_frame.IH run_frame.hyps(2)] by (simp add: add_frame_def)
  qed
next
  case (run_text b t now tx)
  have "js_trim tx \<noteq> [] \<Longrightarrow> entry_ok lim now (Text_entry now (js_trim tx) (length (js_trim tx)))"
    by (simp add: entry_ok_def)
  then show ?case
    using push_ok [OF run_text.IH run_text.hyps(2)] later_ok [OF run_text.IH run_text.hyps(2)]
    by (simp add: add_text_def Let_def)
next
  case (run_qa b t ex)
  then show ?case by (auto simp: buffer_ok_def add_qa_def Let_def length_slice_last)
next
  case (run_clear b t)
  then show ?case by (simp add: buffer_ok_def clear_def within_limits_def)
qed

theorem live_buffer_bounded_witness:
  "buffer_ok default_limits 0 5 (add_text ''hello'' 5 (add_frame ''data:image/png;base64,AA=='' 3 (new_buffer 0 default_limits)))"
  by (rule live_buffer_bounded, rule run_text, rule run_frame, rule run_new) simp_all

text \<open>A frame within the size limit is the newest frame right after it is added, whatever the
  buffer held: eviction under the session limits never drops it, and everything that is kept lies
  within the rolling window. A larger frame leaves the buffer as it is.\<close>

theorem newest_frame_kept:
  assumes "lb_limits b = default_limits"
  shows "if length url \<le> 400000
         then recent_frames 1 (add_frame url now b) = [url] \<and>
           list_all (\<lambda>e. now - 90000 \<le> e_at e) (lb_entries (add_frame url now b))
         else add_frame url now b = b"
proof (cases "length url \<le> 400000")
  case True
  let ?e = "Frame_entry now url (length url)"
  let ?b = "b\<lparr>lb_entries := lb_entries b @ [?e]\<rparr>"
  let ?k = "kept default_limits now (lb_entries b @ [?e])"
  have add: "add_frame url now b = evict now ?b"
    using True assms by (simp add: add_frame_def default_limits_def)
  have fs: "filter is_frame ?k \<noteq> [] \<and> last (filter is_frame ?k) = ?e"
    by (simp add: kept_frames Let_def default_limits_def)
  obtain ys where ys: "drop_oldest is_frame 12 (filter (\<lambda>e. now - 90000 \<le> e_at e) (lb_entries b) @ [?e]) = ys @ [?e]"
    using drop_oldest_snoc [of is_frame ?e 12] by fastforce
  obtain zs where zs: "drop_oldest is_snippet 12 (ys @ [?e]) = zs @ [?e]"
    using drop_oldest_snoc [of is_snippet ?e 12] by fastforce
  have last_in: "last ?k = ?e"
    using ys zs by (simp add: kept_def default_limits_def)
  then have "?k \<noteq> []" using fs by auto
  then have "fit_budget 6000000 ?k \<noteq> [] \<and> last (fit_budget 6000000 ?k) = ?e"
    using fit_budget_keeps_last [of ?k 6000000] last_in True by simp
  then obtain xs where xs: "lb_entries (evict now ?b) = xs @ [?e]"
    using assms by (simp add: evict_kept default_limits_def) (metis append_butlast_last_id)
  have "list_all (\<lambda>e. now - 90000 \<le> e_at e) (lb_entries (evict now ?b))"
    using evict_subseq [of now ?b] assms subseq_in by (fastforce simp: list_all_iff default_limits_def)
  then show ?thesis using True xs by (simp add: add recent_frames_def slice_last_def)
next
  case False
  then show ?thesis using assms by (simp add: add_frame_def default_limits_def)
qed

theorem newest_frame_kept_witness:
  "recent_frames 1 (add_frame ''data:x'' 7 (new_buffer 0 default_limits)) = [''data:x'']"
  using newest_frame_kept [of "new_buffer 0 default_limits" "''data:x''" 7] by (simp add: new_buffer_def)

text \<open>
  Only adding evicts: a snapshot taken long after the last sample still holds that sample, here a frame
  that is 200 seconds old, under a window of 90 seconds.
\<close>

lemma segment_can_hold_stale_frame:
  "seg_frame (save_segment 200000 (add_frame ''data:image/png;base64,AA=='' 0 (new_buffer 0 default_limits))) =
     Some ''data:image/png;base64,AA=='' \<and> lim_buffer_window_ms default_limits = 90000"
  by (simp add: save_segment_def recent_frames_def add_frame_def evict_def drop_oldest_id new_buffer_def
      default_limits_def slice_last_def Let_def)

end
