(* ===== verification/Object_Store.thy ===== *)
theory Object_Store
  imports Prelude
begin

text \<open>
  \<^verbatim>\<open>packages/context-engine/src/object-store.ts\<close>: the interface \<open>ObjectStore\<close>, its file-system
  implementation, the paging loop of the S3 implementation, and the canonical form of store
  identities.

  The interface is the record \<open>store_ops\<close>; the laws its clients rely on are the locale
  \<open>object_store\<close>, interpreted on \<open>fs_store\<close>. An exception is the left side of a sum. The file
  system is the list of its files with contents and modification times; every error of a system
  call other than a missing file comes from \<open>fs_io_error\<close>, which may be any function; a call that
  fails changes nothing. The S3 client and the URL parser are parameters.
\<close>

record stored_object =
  so_key :: string
  so_size :: nat
  so_last_modified :: "int option"

record 's store_ops =
  st_put :: "string \<Rightarrow> bytes \<Rightarrow> 's \<Rightarrow> string + 's"
  st_get :: "string \<Rightarrow> 's \<Rightarrow> string + bytes option"
  st_delete :: "string \<Rightarrow> 's \<Rightarrow> string + 's"
  st_list :: "string \<Rightarrow> 's \<Rightarrow> string + stored_object list"

subsection \<open>Paths\<close>

definition slash :: char where "slash = CHR ''/''"

fun norm_step :: "bool \<Rightarrow> string list \<Rightarrow> string \<Rightarrow> string list" where
  \<comment> \<open>one segment of \<open>path.posix.normalize\<close>; the accumulator is reversed\<close>
  "norm_step up acc seg =
     (if seg = [] \<or> seg = ''.'' then acc
      else if seg = ''..'' then
        (case acc of
           [] \<Rightarrow> if up then [seg] else []
         | a # as \<Rightarrow> if a = ''..'' then (if up then seg # acc else acc) else as)
      else seg # acc)"

declare norm_step.simps [simp del]

definition norm_segs :: "bool \<Rightarrow> string list \<Rightarrow> string list" where
  "norm_segs up segs = rev (foldl (norm_step up) [] segs)"

definition path_normalize :: "string \<Rightarrow> string" where
  "path_normalize p =
     (if p = [] then ''.''
      else let is_abs = starts_with p [slash];
               trailing = ends_with p [slash];
               body = join_with [slash] (norm_segs (\<not> is_abs) (split_on slash p));
               body1 = (if body = [] \<and> \<not> is_abs then ''.'' else body);
               body2 = (if trailing \<and> body1 \<noteq> [] then body1 @ [slash] else body1)
           in if is_abs then slash # body2 else body2)"

definition path_join :: "string \<Rightarrow> string \<Rightarrow> string" where
  "path_join a b =
     path_normalize (if a = [] then b else if b = [] then a else a @ slash # b)"

fun strip_up :: "string \<Rightarrow> string" where
  \<comment> \<open>\<open>s.replace(/^(\.\.(\/|\\|$))+/, "")\<close>\<close>
  "strip_up (a # b # c # cs) =
     (if a = CHR ''.'' \<and> b = CHR ''.'' \<and> (c = slash \<or> c = CHR 0x5C) then strip_up cs else a # b # c # cs)"
| "strip_up s = (if s = ''..'' then [] else s)"

definition path_for :: "string \<Rightarrow> string \<Rightarrow> string option" where
  \<comment> \<open>\<open>None\<close>: \<open>object key escapes the store root\<close>\<close>
  "path_for root key =
     (let safe = strip_up (path_normalize key);
          full = path_join root safe
      in if starts_with full (path_normalize root) then Some full else None)"

subsection \<open>The file-system store\<close>

datatype fs_op = Op_write | Op_read | Op_rm | Op_readdir

record fs =
  fs_files :: "(string \<times> bytes \<times> int) list"
  fs_io_error :: "fs_op \<Rightarrow> string \<Rightarrow> string option"
  fs_clock :: int

definition escapes :: string where
  "escapes = ''object key escapes the store root''"

definition fs_put :: "string \<Rightarrow> string \<Rightarrow> bytes \<Rightarrow> fs \<Rightarrow> string + fs" where
  "fs_put root key data s =
     (case path_for root key of
        None \<Rightarrow> Inl escapes
      | Some p \<Rightarrow>
          (case fs_io_error s Op_write p of
             Some e \<Rightarrow> Inl e
           | None \<Rightarrow> Inr (s\<lparr>fs_files := obj_set p (data, fs_clock s) (fs_files s)\<rparr>)))"

definition fs_get :: "string \<Rightarrow> string \<Rightarrow> fs \<Rightarrow> string + bytes option" where
  "fs_get root key s =
     (case path_for root key of
        None \<Rightarrow> Inl escapes
      | Some p \<Rightarrow>
          (case fs_io_error s Op_read p of
             Some e \<Rightarrow> Inl e
           | None \<Rightarrow> Inr (map_option fst (map_of (fs_files s) p))))"

definition fs_delete :: "string \<Rightarrow> string \<Rightarrow> fs \<Rightarrow> string + fs" where
  "fs_delete root key s =
     (case path_for root key of
        None \<Rightarrow> Inl escapes
      | Some p \<Rightarrow>
          (case fs_io_error s Op_rm p of
             Some e \<Rightarrow> Inl e
           | None \<Rightarrow> Inr (s\<lparr>fs_files := filter (\<lambda>f. fst f \<noteq> p) (fs_files s)\<rparr>)))"

definition root_dir :: "string \<Rightarrow> string" where
  "root_dir root = (let n = path_normalize root in if ends_with n [slash] then n else n @ [slash])"

definition fs_list :: "string \<Rightarrow> string \<Rightarrow> fs \<Rightarrow> string + stored_object list" where
  \<comment> \<open>the files below the root, with their paths relative to it; the order is that of the file list\<close>
  "fs_list root pre s =
     (case fs_io_error s Op_readdir root of
        Some e \<Rightarrow> Inl e
      | None \<Rightarrow>
          Inr (concat (map (\<lambda>(p, d, t).
                 if starts_with p (root_dir root) \<and> starts_with (drop (length (root_dir root)) p) pre
                 then [\<lparr>so_key = drop (length (root_dir root)) p, so_size = length d, so_last_modified = Some t\<rparr>]
                 else []) (fs_files s))))"

definition fs_store :: "string \<Rightarrow> fs store_ops" where
  "fs_store root =
     \<lparr>st_put = fs_put root, st_get = fs_get root, st_delete = fs_delete root, st_list = fs_list root\<rparr>"

subsection \<open>What the clients of a store rely on\<close>

text \<open>
  \<open>content\<close> is the abstract store, a map from locations to blobs; \<open>loc\<close> is where a key leads to. Keys
  with different locations do not interfere.
\<close>

locale object_store =
  fixes ops :: "'s store_ops"
    and loc :: "string \<Rightarrow> 'l"
    and content :: "'s \<Rightarrow> 'l \<Rightarrow> bytes option"
  assumes put_law: "st_put ops k d s = Inr s' \<Longrightarrow> content s' = (content s)(loc k := Some d)"
    and get_law: "st_get ops k s = Inr r \<Longrightarrow> r = content s (loc k)"
    and delete_law: "st_delete ops k s = Inr s' \<Longrightarrow> content s' = (content s)(loc k := None)"
begin

lemma put_then_get: "st_put ops k d s = Inr s' \<Longrightarrow> st_get ops k s' = Inr r \<Longrightarrow> r = Some d"
  using put_law get_law by fastforce

lemma put_other: "st_put ops k d s = Inr s' \<Longrightarrow> loc k' \<noteq> loc k \<Longrightarrow> content s' (loc k') = content s (loc k')"
  using put_law by simp

lemma delete_then_get: "st_delete ops k s = Inr s' \<Longrightarrow> st_get ops k s' = Inr r \<Longrightarrow> r = None"
  using delete_law get_law by fastforce

lemma delete_other: "st_delete ops k s = Inr s' \<Longrightarrow> l \<noteq> loc k \<Longrightarrow> content s' l = content s l"
  using delete_law by simp

lemma delete_shrinks: "st_delete ops k s = Inr s' \<Longrightarrow> content s' l = Some d \<Longrightarrow> content s l = Some d"
  using delete_law by (auto split: if_splits)

end

definition fs_content :: "fs \<Rightarrow> string option \<Rightarrow> bytes option" where
  "fs_content s l = (case l of None \<Rightarrow> None | Some p \<Rightarrow> map_option fst (map_of (fs_files s) p))"

lemma map_of_filter_ne: "map_of (filter (\<lambda>f. fst f \<noteq> p) fs) q = (if q = p then None else map_of fs q)"
  by (induction fs) auto

interpretation fs: object_store "fs_store root" "path_for root" fs_content for root
  by unfold_locales
    (auto simp: fs_store_def fs_put_def fs_get_def fs_delete_def fs_content_def fun_eq_iff map_of_obj_set
      map_of_filter_ne split: option.splits)


subsection \<open>Keys stay below the root\<close>

abbreviation up_seg :: "string \<Rightarrow> bool" where "up_seg p \<equiv> p = ''..''"

definition plain_seg :: "string \<Rightarrow> bool" where
  "plain_seg p \<longleftrightarrow> p \<noteq> [] \<and> p \<noteq> ''.'' \<and> p \<noteq> ''..''"

lemma norm_step_plain: "plain_seg p \<Longrightarrow> norm_step up acc p = p # acc"
  by (simp add: norm_step.simps plain_seg_def)

lemma norm_fold_no_up:
  "''..'' \<notin> set segs \<Longrightarrow> foldl (norm_step up) acc segs = rev (filter plain_seg segs) @ acc"
  by (induction segs arbitrary: acc) (auto simp: norm_step.simps plain_seg_def)

lemma norm_fold_abs:
  "list_all plain_seg acc \<Longrightarrow> list_all plain_seg (foldl (norm_step False) acc segs)"
proof (induction segs arbitrary: acc)
  case (Cons p segs)
  have "list_all plain_seg (norm_step False acc p)"
    using Cons.prems by (cases acc) (simp_all add: norm_step.simps plain_seg_def list_all_iff)
  then show ?case using Cons.IH by simp
qed simp

lemma norm_segs_abs: "list_all plain_seg (norm_segs False segs)"
  using norm_fold_abs [of "[]" segs] by (simp add: norm_segs_def list_all_iff)

definition ups_first :: "string list \<Rightarrow> bool" where
  "ups_first segs \<longleftrightarrow> (\<exists>n ps. segs = replicate n ''..'' @ ps \<and> list_all plain_seg ps)"

lemma ups_firstI: "list_all plain_seg ps \<Longrightarrow> ups_first (replicate n ''..'' @ ps)"
  by (auto simp: ups_first_def)

lemma norm_fold_ups: "ups_first (rev acc) \<Longrightarrow> ups_first (rev (foldl (norm_step up) acc segs))"
proof (induction segs arbitrary: acc)
  case (Cons p segs)
  from Cons.prems obtain n ps where a: "acc = rev ps @ replicate n ''..''" "list_all plain_seg ps"
    by (auto simp: ups_first_def rev_swap)
  have "ups_first (rev (norm_step up acc p))"
  proof (cases ps rule: rev_cases)
    case Nil
    have "ups_first (replicate n ''..'')" "ups_first (replicate n ''..'' @ [''..''])"
      "plain_seg p \<Longrightarrow> ups_first (replicate n ''..'' @ [p])"
      using ups_firstI [of "[]" n] ups_firstI [of "[]" "Suc n"] ups_firstI [of "[p]" n]
      by (simp_all add: replicate_append_same)
    then show ?thesis
      using Nil a by (cases n) (auto simp: norm_step.simps plain_seg_def replicate_append_same)
  next
    case (snoc qs q)
    have "ups_first (replicate n ''..'' @ qs)" "ups_first (replicate n ''..'' @ qs @ [q])"
      "plain_seg p \<Longrightarrow> ups_first (replicate n ''..'' @ qs @ [q, p])"
      using a(2) snoc ups_firstI [of qs n] ups_firstI [of "qs @ [q]" n] ups_firstI [of "qs @ [q, p]" n]
      by (simp_all add: list_all_iff)
    moreover have "q \<noteq> ''..''" using a(2) snoc by (simp add: plain_seg_def)
    ultimately show ?thesis using snoc a(1) by (auto simp: norm_step.simps plain_seg_def)
  qed
  then show ?case using Cons.IH by simp
qed simp

definition late_ups :: "string list \<Rightarrow> string list" where
  "late_ups segs = filter up_seg (tl (dropWhile up_seg segs))"

lemma late_ups_replicate: "''..'' \<notin> set ps \<Longrightarrow> late_ups (replicate n ''..'' @ ps) = []"
proof -
  assume p: "''..'' \<notin> set ps"
  then have "dropWhile up_seg (replicate n ''..'' @ ps) = ps"
    by (induction n) (cases ps, auto)
  with p show ?thesis by (cases ps) (auto simp: late_ups_def filter_empty_conv)
qed

lemma strip_up_segs:
  "late_ups (split_on slash s) = [] \<Longrightarrow> ''..'' \<notin> set (split_on slash (strip_up s))"
proof (induction s rule: strip_up.induct)
  case (1 a b c cs)
  obtain y ys where y: "split_on slash cs = y # ys" by (cases "split_on slash cs") auto
  have dot: "CHR ''.'' \<noteq> slash" by (simp add: slash_def)
  show ?case
  proof (cases "a = CHR ''.'' \<and> b = CHR ''.'' \<and> (c = slash \<or> c = CHR 0x5C)")
    case True
    have "late_ups (split_on slash cs) = []"
    proof (cases "c = slash")
      case True
      then show ?thesis using "1.prems" \<open>a = _ \<and> _\<close> dot by (simp add: late_ups_def)
    next
      case False
      then have "''..'' \<notin> set ys"
        using "1.prems" True dot y by (auto simp: late_ups_def filter_empty_conv)
      then show ?thesis using y by (cases ys) (auto simp: late_ups_def filter_empty_conv)
    qed
    then show ?thesis using "1.IH" True by simp
  next
    case False
    obtain z zs where z: "split_on slash (a # b # c # cs) = z # zs"
      using split_on_ne by (meson list.exhaust)
    have "z \<noteq> ''..''"
      using False z y dot by (auto split: if_splits)
    then show ?thesis using False z "1.prems" by (auto simp: late_ups_def filter_empty_conv)
  qed
qed (auto simp: slash_def late_ups_def)

lemma set_norm_step: "set (norm_step up acc p) \<subseteq> insert p (set acc)"
  by (cases acc) (auto simp: norm_step.simps)

lemma set_norm_segs: "set (norm_segs up segs) \<subseteq> set segs"
proof -
  have "set (foldl (norm_step up) acc segs) \<subseteq> set acc \<union> set segs" for acc
  proof (induction segs arbitrary: acc)
    case (Cons p segs)
    show ?case using Cons.IH [of "norm_step up acc p"] set_norm_step [of up acc p] by auto
  qed simp
  then show ?thesis by (fastforce simp: norm_segs_def)
qed

lemma norm_segs_no_slash: "p \<in> set (norm_segs up (split_on slash s)) \<Longrightarrow> slash \<notin> set p"
  using set_norm_segs split_on_parts by blast

definition dir_end :: "bool \<Rightarrow> string \<Rightarrow> string" where
  "dir_end trailing body = (if trailing \<and> body \<noteq> [] then body @ [slash] else body)"

lemma path_normalize_abs:
  "starts_with p [slash] \<Longrightarrow>
     path_normalize p = slash # dir_end (ends_with p [slash]) (join_with [slash] (norm_segs False (split_on slash p)))"
  by (cases p) (auto simp: path_normalize_def starts_with_def dir_end_def Let_def)

lemma split_dir_end:
  assumes "ps \<noteq> []" "\<forall>p\<in>set ps. slash \<notin> set p"
  shows "set (split_on slash (dir_end t (join_with [slash] ps))) \<subseteq> set ps \<union> {[]}"
    "split_on slash (dir_end t (join_with [slash] ps)) \<in> {ps, ps @ [[]]}"
  using split_on_join [OF assms] split_on_append2 [of slash "join_with [slash] ps" "[]"]
  by (auto simp: dir_end_def)

lemma split_normalize_late: "late_ups (split_on slash (path_normalize key)) = []"
proof (cases "key = []")
  case True
  then show ?thesis by (simp add: path_normalize_def slash_def late_ups_def)
next
  case ne: False
  let ?abs = "starts_with key [slash]"
  define segs where "segs = norm_segs (\<not> ?abs) (split_on slash key)"
  have nos: "\<forall>p\<in>set segs. slash \<notin> set p" using norm_segs_no_slash by (auto simp: segs_def)
  show ?thesis
  proof (cases ?abs)
    case True
    have plain: "list_all plain_seg segs" using norm_segs_abs True by (simp add: segs_def)
    have "''..'' \<notin> set (split_on slash (dir_end t (join_with [slash] segs)))" for t
    proof (cases "segs = []")
      case False
      then show ?thesis using split_dir_end(1) [OF False nos, of t] plain by (auto simp: list_all_iff plain_seg_def)
    qed (simp add: dir_end_def)
    then show ?thesis
      using path_normalize_abs [OF True] True late_ups_replicate [where n = 0]
      by (simp add: segs_def)
  next
    case False
    have "ups_first segs"
      using norm_fold_ups [of "[]" True "split_on slash key"] ups_firstI [of "[]" 0] False
      by (simp add: segs_def norm_segs_def)
    then obtain n ps where ps: "segs = replicate n ''..'' @ ps" "list_all plain_seg ps" by (auto simp: ups_first_def)
    then have u: "''..'' \<notin> set ps" by (auto simp: list_all_iff plain_seg_def)
    show ?thesis
    proof (cases "segs = []")
      case True
      then have "path_normalize key \<in> {''.'', ''.'' @ [slash]}"
        using False ne by (auto simp: path_normalize_def segs_def Let_def)
      moreover have "late_ups (split_on slash ''.'') = []" "late_ups (split_on slash (''.'' @ [slash])) = []"
        by (simp_all add: slash_def late_ups_def)
      ultimately show ?thesis by auto
    next
      case ne': False
      have "[] \<notin> set segs" using ps by (auto simp: list_all_iff plain_seg_def)
      then have "join_with [slash] segs \<noteq> []" using split_on_join [OF ne' nos] by force
      then have "path_normalize key = dir_end (ends_with key [slash]) (join_with [slash] segs)"
        using False ne by (simp add: path_normalize_def segs_def dir_end_def Let_def)
      then have "split_on slash (path_normalize key) \<in> {segs, segs @ [[]]}"
        using split_dir_end(2) [OF ne' nos] by simp
      then show ?thesis
        using late_ups_replicate [OF u, of n] late_ups_replicate [of "ps @ [[]]" n] u ps(1) by auto
    qed
  qed
qed

lemma join_plain_ends:
  assumes "list_all plain_seg ps" "\<forall>p\<in>set ps. slash \<notin> set p" "ps \<noteq> []"
  shows "join_with [slash] ps \<noteq> []" "\<not> ends_with (join_with [slash] ps) [slash]"
proof -
  have e: "split_on slash (join_with [slash] ps) = ps" using split_on_join assms by blast
  have ne: "[] \<notin> set ps" using assms(1) by (auto simp: list_all_iff plain_seg_def)
  with e show "join_with [slash] ps \<noteq> []" by force
  show "\<not> ends_with (join_with [slash] ps) [slash]"
  proof
    assume "ends_with (join_with [slash] ps) [slash]"
    then obtain t where "join_with [slash] ps = t @ [slash]" by (auto simp: ends_with_suffix suffix_def)
    then have "[] \<in> set ps" using e split_on_append2 [of slash t "[]"] by (metis in_set_conv_decomp split_on.simps(1))
    then show False using ne by blast
  qed
qed

lemma root_dir_abs:
  assumes "starts_with root [slash]"
  shows "root_dir root =
    (let segs = norm_segs False (split_on slash root)
     in slash # (if segs = [] then [] else join_with [slash] segs @ [slash]))"
proof -
  let ?segs = "norm_segs False (split_on slash root)"
  have e: "ends_with [slash] [slash]" "x \<noteq> [] \<Longrightarrow> ends_with (slash # x) [slash] = ends_with x [slash]"
    "ends_with (slash # x @ [slash]) [slash]" "ends_with (x @ [slash]) [slash]" for x
    by (auto simp: ends_with_suffix suffix_Cons)
  show ?thesis
  proof (cases "?segs = []")
    case True
    then show ?thesis by (simp add: root_dir_def path_normalize_abs [OF assms] dir_end_def e)
  next
    case False
    then show ?thesis
      using join_plain_ends [OF norm_segs_abs _ False] norm_segs_no_slash
      by (auto simp: root_dir_def path_normalize_abs [OF assms] dir_end_def e Let_def)
  qed
qed

lemma contained_string:
  assumes root: "starts_with root [slash]" and rs: "rs = norm_segs False (split_on slash root)"
    and p: "p = slash # dir_end t (join_with [slash] (rs @ bs))" and pre: "starts_with p (path_normalize root)"
  shows "p = path_normalize root \<or> starts_with p (root_dir root)"
proof (cases "rs = []")
  case True
  then show ?thesis using root_dir_abs [OF root] rs p by (simp add: starts_with_def)
next
  case rne: False
  have plain: "list_all plain_seg rs" "\<forall>p\<in>set rs. slash \<notin> set p"
    using norm_segs_abs norm_segs_no_slash rs by auto
  have rd: "root_dir root = slash # join_with [slash] rs @ [slash]"
    using root_dir_abs [OF root] rs rne by simp
  have j: "join_with [slash] rs \<noteq> []" using join_plain_ends(1) plain rne by blast
  show ?thesis
  proof (cases "bs = []")
    case True
    have pn: "path_normalize root = slash # dir_end (ends_with root [slash]) (join_with [slash] rs)"
      using path_normalize_abs [OF root] rs by simp
    show ?thesis
    proof (cases "t \<or> \<not> ends_with root [slash]")
      case True
      then show ?thesis using \<open>bs = []\<close> p pn rd j by (auto simp: dir_end_def starts_with_def)
    next
      case False
      then have False
        using pre \<open>bs = []\<close> p pn j by (auto simp: dir_end_def starts_with_prefix dest: prefix_length_le)
      then show ?thesis ..
    qed
  next
    case False
    then have "p = slash # dir_end t (join_with [slash] rs @ [slash] @ join_with [slash] bs)"
      using p rne by (simp add: join_with_append)
    then show ?thesis using rd by (auto simp: starts_with_prefix dir_end_def)
  qed
qed

text \<open>No object key leads out of the store: for a store with an absolute root every key that is
  accepted maps to the root itself or to a path below it, and the path has no parent segment,
  whatever separators and parent segments the key contains.\<close>

theorem path_for_contained:
  assumes "starts_with root [slash]" "path_for root key = Some p"
  shows "(p = path_normalize root \<or> starts_with p (root_dir root)) \<and> ''..'' \<notin> set (split_on slash p)"
proof -
  define safe where "safe = strip_up (path_normalize key)"
  define rs where "rs = norm_segs False (split_on slash root)"
  define bs where "bs = (if safe = [] then [] else filter plain_seg (split_on slash safe))"
  have pj: "p = path_join root safe" "starts_with p (path_normalize root)"
    using assms(2) by (auto simp: path_for_def safe_def Let_def split: if_splits)
  have nup: "''..'' \<notin> set (split_on slash safe)"
    unfolding safe_def by (rule strip_up_segs, rule split_normalize_late)
  have rne: "root \<noteq> []" using assms(1) by (auto simp: starts_with_def)
  obtain t where p: "p = slash # dir_end t (join_with [slash] (rs @ bs))" and t0: "safe = [] \<Longrightarrow> p = path_normalize root"
  proof (cases "safe = []")
    case True
    then show ?thesis using that pj(1) rne path_normalize_abs [OF assms(1)] by (simp add: path_join_def rs_def bs_def)
  next
    case False
    then have "p = path_normalize (root @ slash # safe)" using pj(1) rne by (simp add: path_join_def)
    moreover have "starts_with (root @ slash # safe) [slash]" using assms(1) rne by (cases root) (auto simp: starts_with_def)
    moreover have "norm_segs False (split_on slash (root @ slash # safe)) = rs @ bs"
      using nup False by (simp add: rs_def bs_def norm_segs_def split_on_append2 norm_fold_no_up)
    ultimately show ?thesis using that False path_normalize_abs by metis
  qed
  have plain: "list_all plain_seg (rs @ bs)"
    using norm_segs_abs [of "split_on slash root"] by (auto simp: rs_def bs_def list_all_iff)
  have nos: "\<forall>p\<in>set (rs @ bs). slash \<notin> set p"
    using norm_segs_no_slash split_on_parts by (auto simp: rs_def bs_def)
  have "''..'' \<notin> set (split_on slash p)"
  proof (cases "rs @ bs = []")
    case True
    then show ?thesis using p by (simp add: dir_end_def)
  next
    case False
    then show ?thesis
      using split_dir_end(1) [OF False nos, of t] plain p by (auto simp: list_all_iff plain_seg_def)
  qed
  moreover have "p = path_normalize root \<or> starts_with p (root_dir root)"
    using contained_string [OF assms(1) rs_def p pj(2)] by blast
  ultimately show ?thesis by blast
qed

definition clean_key :: "string \<Rightarrow> bool" where
  "clean_key k \<longleftrightarrow> list_all plain_seg (split_on slash k) \<and> CHR 0x5C \<notin> set k"

lemma strip_up_plain:
  "list_all plain_seg (split_on slash k) \<Longrightarrow> CHR 0x5C \<notin> set k \<Longrightarrow> strip_up k = k"
proof (induction k rule: strip_up.induct)
  case (1 a b c cs)
  obtain y ys where "split_on slash cs = y # ys" using split_on_ne by (meson list.exhaust)
  then show ?case using "1.prems" by (auto simp: slash_def plain_seg_def split: if_splits)
qed (auto simp: slash_def plain_seg_def)

lemma path_for_clean:
  assumes root: "starts_with root [slash]" and key: "clean_key key"
  shows "path_for root key = Some (root_dir root @ key)"
proof -
  define ss where "ss = split_on slash key"
  have ss: "list_all plain_seg ss" "ss \<noteq> []" "\<forall>p\<in>set ss. slash \<notin> set p" "join_with [slash] ss = key"
    using key split_on_parts by (auto simp: clean_key_def ss_def join_split_on)
  have kne: "key \<noteq> []" using ss(4) join_plain_ends(1) [OF ss(1,3,2)] by simp
  have nup: "''..'' \<notin> set ss" using ss(1) by (auto simp: list_all_iff plain_seg_def)
  have fe: "filter plain_seg ss = ss" using ss(1) by (simp add: list_all_iff)
  have nrel: "\<not> starts_with key [slash]"
    using ss(1) ss_def by (cases key) (auto simp: starts_with_def plain_seg_def)
  have nend: "\<not> ends_with key [slash]" using join_plain_ends(2) [OF ss(1,3,2)] ss(4) by simp
  have "norm_segs up ss = ss" for up
    using norm_fold_no_up [OF nup] fe by (simp add: norm_segs_def)
  then have "path_normalize key = key"
    using kne nrel nend ss(4) by (simp add: path_normalize_def ss_def [symmetric] Let_def)
  then have safe: "strip_up (path_normalize key) = key"
    using strip_up_plain key by (simp add: clean_key_def)
  have rne: "root \<noteq> []" using root by (auto simp: starts_with_def)
  have rk: "starts_with (root @ slash # key) [slash]" using root rne by (cases root) (auto simp: starts_with_def)
  define rs where "rs = norm_segs False (split_on slash root)"
  have nk: "norm_segs False (split_on slash (root @ slash # key)) = rs @ ss"
    using nup fe by (simp add: rs_def norm_segs_def split_on_append2 norm_fold_no_up ss_def)
  have "\<not> ends_with (root @ slash # key) [slash]"
    using nend kne by (auto simp: ends_with_suffix suffix_Cons suffix_append Cons_eq_append_conv)
  then have full: "path_join root key = slash # join_with [slash] (rs @ ss)"
    using path_normalize_abs [OF rk] nk rne kne by (simp add: path_join_def dir_end_def)
  have rd: "path_join root key = root_dir root @ key"
    using full ss(2,4) root_dir_abs [OF root] by (simp add: rs_def join_with_append Let_def)
  have "starts_with (root_dir root) (path_normalize root)"
    by (auto simp: root_dir_def Let_def starts_with_def)
  then have "starts_with (root_dir root @ key) (path_normalize root)"
    by (auto simp: starts_with_prefix prefix_def)
  then show ?thesis using rd safe by (simp add: path_for_def Let_def)
qed

lemma path_for_clean_inj:
  "starts_with root [slash] \<Longrightarrow> clean_key k \<Longrightarrow> clean_key k' \<Longrightarrow> path_for root k = path_for root k' \<Longrightarrow> k = k'"
  by (simp add: path_for_clean)

theorem path_for_contained_witness:
  "starts_with ''/data/media/x'' (root_dir ''/data/media'') \<or> ''/data/media/x'' = path_normalize ''/data/media''"
proof -
  have "path_for ''/data/media'' ''../../x'' = Some ''/data/media/x''" by code_simp
  moreover have "starts_with ''/data/media'' [slash]" by code_simp
  ultimately show ?thesis using path_for_contained by blast
qed

end
