(* ===== verification/Store_Identity.thy ===== *)
theory Store_Identity
  imports Object_Store
begin

text \<open>
  The second half of \<^verbatim>\<open>packages/context-engine/src/object-store.ts\<close>: the S3 implementation of the
  interface over the client of the AWS SDK (a parameter), and the canonical form of store
  identities, whose fingerprints the backup tools compare. \<open>new URL\<close> is the parameter \<open>url_parse\<close>.
\<close>

subsection \<open>The S3 store\<close>

record s3_error =
  se_no_such_key :: bool \<comment> \<open>\<open>err instanceof NoSuchKey\<close>\<close>
  se_name :: "string option"
  se_http_status :: "nat option"
  se_message :: string

record s3_page =
  pg_contents :: "(string option \<times> nat option \<times> int option) list"
  pg_truncated :: bool
  pg_next :: "string option"

record 's s3_client =
  s3_put_object :: "string \<Rightarrow> string \<Rightarrow> bytes \<Rightarrow> 's \<Rightarrow> s3_error + 's"
  s3_get_object :: "string \<Rightarrow> string \<Rightarrow> 's \<Rightarrow> s3_error + bytes option"
  s3_delete_object :: "string \<Rightarrow> string \<Rightarrow> 's \<Rightarrow> s3_error + 's"
  s3_list_objects :: "string \<Rightarrow> string option \<Rightarrow> string option \<Rightarrow> 's \<Rightarrow> s3_error + s3_page"

definition s3_put :: "'s s3_client \<Rightarrow> string \<Rightarrow> string \<Rightarrow> bytes \<Rightarrow> 's \<Rightarrow> s3_error + 's" where
  "s3_put client bucket key data s = s3_put_object client bucket key data s"

definition s3_missing :: "s3_error \<Rightarrow> bool" where
  "s3_missing e \<longleftrightarrow> se_no_such_key e \<or> se_name e = Some ''NoSuchKey'' \<or> se_http_status e = Some 404"

definition s3_get :: "'s s3_client \<Rightarrow> string \<Rightarrow> string \<Rightarrow> 's \<Rightarrow> s3_error + bytes option" where
  "s3_get client bucket key s =
     (case s3_get_object client bucket key s of
        Inr body \<Rightarrow> Inr body
      | Inl e \<Rightarrow> if s3_missing e then Inr None else Inl e)"

definition s3_delete :: "'s s3_client \<Rightarrow> string \<Rightarrow> string \<Rightarrow> 's \<Rightarrow> s3_error + 's" where
  "s3_delete client bucket key s = s3_delete_object client bucket key s"

definition page_objects :: "s3_page \<Rightarrow> stored_object list" where
  "page_objects page = concat (map (\<lambda>(k, sz, t).
     case k of
       None \<Rightarrow> []
     | Some key \<Rightarrow> if key = [] then []
         else [\<lparr>so_key = key, so_size = (case sz of None \<Rightarrow> 0 | Some n \<Rightarrow> n), so_last_modified = t\<rparr>])
     (pg_contents page))"

definition next_token :: "s3_page \<Rightarrow> string option" where
  \<comment> \<open>the value of \<open>continuationToken\<close> that ends the loop when it is falsy\<close>
  "next_token page =
     (if pg_truncated page then (case pg_next page of Some t \<Rightarrow> if t = [] then None else Some t | None \<Rightarrow> None)
      else None)"

partial_function (option) s3_list_loop ::
  "(string option \<Rightarrow> s3_error + s3_page) \<Rightarrow> string option \<Rightarrow> stored_object list \<Rightarrow> (s3_error + stored_object list) option" where
  "s3_list_loop fetch token out =
     (case fetch token of
        Inl e \<Rightarrow> Some (Inl e)
      | Inr page \<Rightarrow>
          (case next_token page of
             None \<Rightarrow> Some (Inr (out @ page_objects page))
           | Some t \<Rightarrow> s3_list_loop fetch (Some t) (out @ page_objects page)))"

definition s3_list :: "'s s3_client \<Rightarrow> string \<Rightarrow> string \<Rightarrow> 's \<Rightarrow> (s3_error + stored_object list) option" where
  "s3_list client bucket pre s =
     s3_list_loop (\<lambda>token. s3_list_objects client bucket (if pre = [] then None else Some pre) token s) None []"

text \<open>A listing in pages: each page but the last is truncated and names the token of the next.\<close>

fun page_chain :: "(string option \<Rightarrow> s3_error + s3_page) \<Rightarrow> string option \<Rightarrow> s3_page list \<Rightarrow> bool" where
  "page_chain fetch token [] = False"
| "page_chain fetch token [p] = (fetch token = Inr p \<and> next_token p = None)"
| "page_chain fetch token (p # q # ps) =
     (fetch token = Inr p \<and> next_token p \<noteq> None \<and> page_chain fetch (next_token p) (q # ps))"

lemma s3_list_loop_chain:
  "page_chain fetch token pages \<Longrightarrow>
     s3_list_loop fetch token out = Some (Inr (out @ concat (map page_objects pages)))"
proof (induction fetch token pages arbitrary: out rule: page_chain.induct)
  case (2 fetch token p)
  then show ?case by (simp add: s3_list_loop.simps [of fetch token])
next
  case (3 fetch token p q ps)
  then obtain t where t: "fetch token = Inr p" "next_token p = Some t" "page_chain fetch (Some t) (q # ps)" by auto
  then have "s3_list_loop fetch token out = s3_list_loop fetch (Some t) (out @ page_objects p)"
    by (subst s3_list_loop.simps) simp
  also have "\<dots> = Some (Inr ((out @ page_objects p) @ concat (map page_objects (q # ps))))"
    using "3.IH" t by simp
  finally show ?case by simp
qed simp

text \<open>Listing a bucket returns when the listing has finitely many pages, and then it returns the
  objects of all pages in order, not only those of the first.\<close>

theorem s3_list_all_pages:
  assumes "page_chain (\<lambda>token. s3_list_objects client bucket (if pre = [] then None else Some pre) token s) None pages"
  shows "s3_list client bucket pre s = Some (Inr (concat (map page_objects pages)))"
  using s3_list_loop_chain [OF assms, of "[]"] by (simp add: s3_list_def)

definition two_pages :: "nat s3_client" where
  "two_pages =
     \<lparr>s3_put_object = \<lambda>_ _ _ s. Inr s, s3_get_object = \<lambda>_ _ _. Inr None, s3_delete_object = \<lambda>_ _ s. Inr s,
      s3_list_objects = \<lambda>_ _ token _.
        (if token = None
         then Inr \<lparr>pg_contents = [(Some ''a'', Some 1, None)], pg_truncated = True, pg_next = Some ''t''\<rparr>
         else Inr \<lparr>pg_contents = [(Some ''b'', None, Some 7)], pg_truncated = False, pg_next = None\<rparr>)\<rparr>"

theorem s3_list_all_pages_witness:
  "s3_list two_pages ''bucket'' [] 0 = Some (Inr
     [\<lparr>so_key = ''a'', so_size = 1, so_last_modified = None\<rparr>, \<lparr>so_key = ''b'', so_size = 0, so_last_modified = Some 7\<rparr>])"
proof -
  let ?p = "\<lparr>pg_contents = [(Some ''a'', Some 1, None)], pg_truncated = True, pg_next = Some ''t''\<rparr>"
  let ?q = "\<lparr>pg_contents = [(Some ''b'', None, Some 7)], pg_truncated = False, pg_next = None\<rparr>"
  have "s3_list two_pages ''bucket'' [] 0 = Some (Inr (concat (map page_objects [?p, ?q])))"
    by (rule s3_list_all_pages) (simp add: two_pages_def next_token_def)
  then show ?thesis by (simp add: page_objects_def)
qed

subsection \<open>Identities\<close>

record url =
  url_hostname :: string
  url_protocol :: string
  url_port :: string
  url_pathname :: string

definition is_aws_s3_host :: "string \<Rightarrow> bool" where
  "is_aws_s3_host host =
     (let h = to_lower host
      in if \<not> (ends_with h ''.amazonaws.com'' \<or> ends_with h ''.amazonaws.com.cn'') then False
         else list_ex (\<lambda>label. label = ''s3'' \<or> starts_with label ''s3-'') (split_on CHR ''.'' h))"

definition strip_slashes :: "string \<Rightarrow> string" where
  \<comment> \<open>\<open>s.replace(/\/+$/, "")\<close>\<close>
  "strip_slashes s = rev (dropWhile (\<lambda>c. c = slash) (rev s))"

definition canonicalize_endpoint :: "(string \<Rightarrow> url option) \<Rightarrow> string option \<Rightarrow> string" where
  "canonicalize_endpoint url_parse endpoint =
     (let raw = js_trim (case endpoint of None \<Rightarrow> [] | Some e \<Rightarrow> e)
      in if raw = [] \<or> to_lower raw = ''aws'' then ''aws''
         else (case url_parse raw of
                 Some u \<Rightarrow>
                   (let host = to_lower (url_hostname u)
                    in if is_aws_s3_host host then ''aws''
                       else let scheme = to_lower (url_protocol u);
                                default_port =
                                  (scheme = ''https:'' \<and> (url_port u = ''443'' \<or> url_port u = [])) \<or>
                                  (scheme = ''http:'' \<and> (url_port u = ''80'' \<or> url_port u = []));
                                port_part = (if url_port u \<noteq> [] \<and> \<not> default_port then '':'' @ url_port u else [])
                            in scheme @ ''//'' @ host @ port_part @ strip_slashes (url_pathname u))
               | None \<Rightarrow>
                   (let bare = to_lower (strip_slashes raw);
                        host = hd (split_on CHR '':'' (hd (split_on slash bare)))
                    in if is_aws_s3_host host then ''aws'' else bare)))"

definition s3_identity :: "string option \<Rightarrow> string \<Rightarrow> string" where
  "s3_identity endpoint bucket = ''s3|'' @ (case endpoint of None \<Rightarrow> ''aws'' | Some e \<Rightarrow> e) @ ''|'' @ bucket"

definition fs_identity :: "string \<Rightarrow> string" where
  "fs_identity p = ''fs|'' @ p"

definition canonicalize_identity :: "(string \<Rightarrow> url option) \<Rightarrow> string \<Rightarrow> string" where
  "canonicalize_identity url_parse identity =
     (let parts = split_on CHR ''|'' identity
      in if hd parts = ''s3'' \<and> 3 \<le> length parts
         then ''s3|'' @ canonicalize_endpoint url_parse (Some (parts ! 1)) @ ''|'' @
              strip_slashes (js_trim (join_with ''|'' (drop 2 parts)))
         else if hd parts = ''fs'' \<and> 2 \<le> length parts
         then (let p = strip_slashes (join_with ''|'' (drop 1 parts)) in ''fs|'' @ (if p = [] then ''/'' else p))
         else identity)"

definition fingerprint_identity :: "(string \<Rightarrow> string) \<Rightarrow> (string \<Rightarrow> url option) \<Rightarrow> string \<Rightarrow> string" where
  "fingerprint_identity sha256_hex url_parse identity = sha256_hex (canonicalize_identity url_parse identity)"

lemma canonicalize_s3:
  assumes "CHR ''|'' \<notin> set e"
  shows "canonicalize_identity up (''s3|'' @ e @ ''|'' @ bucket) =
    ''s3|'' @ canonicalize_endpoint up (Some e) @ ''|'' @ strip_slashes (js_trim bucket)"
proof -
  have "split_on CHR ''|'' (''s3|'' @ e @ ''|'' @ bucket) = ''s3'' # e # split_on CHR ''|'' bucket"
    using split_on_append [of "CHR ''|''" "''s3''"] split_on_append [OF assms, of bucket] by simp
  moreover have "Suc (Suc (length (split_on CHR ''|'' bucket))) \<ge> 3"
    using split_on_ne [of "CHR ''|''" bucket] by (cases "split_on CHR ''|'' bucket") auto
  ultimately show ?thesis by (simp add: canonicalize_identity_def join_split_on)
qed

lemma strip_slashes_append: "strip_slashes (p @ replicate n slash) = strip_slashes p"
proof -
  have "dropWhile (\<lambda>c. c = slash) (replicate n slash @ xs) = dropWhile (\<lambda>c. c = slash) xs" for xs
    by (induction n) auto
  then show ?thesis by (simp add: strip_slashes_def)
qed

lemma canonicalize_fs:
  "canonicalize_identity up (''fs|'' @ p) = ''fs|'' @ (if strip_slashes p = [] then ''/'' else strip_slashes p)"
proof -
  have "split_on CHR ''|'' (''fs|'' @ p) = ''fs'' # split_on CHR ''|'' p"
    using split_on_append [of "CHR ''|''" "''fs''" p] by simp
  moreover have "Suc (length (split_on CHR ''|'' p)) \<ge> 2"
    using split_on_ne [of "CHR ''|''" p] by (cases "split_on CHR ''|'' p") auto
  ultimately show ?thesis by (simp add: canonicalize_identity_def join_split_on Let_def)
qed

text \<open>Respelling cannot split one store into two for the aliasing guard: an endpoint whose host
  the URL parser reads as an AWS S3 host, in any spelling, gives the fingerprint of the unset
  endpoint with the same bucket, and trailing slashes of a file-system root do not matter.\<close>

theorem aliasing_guard_spelling:
  assumes "CHR ''|'' \<notin> set e" "url_parse (js_trim e) = Some u" "is_aws_s3_host (to_lower (url_hostname u))"
  shows "fingerprint_identity sha url_parse (s3_identity (Some e) bucket) =
      fingerprint_identity sha url_parse (s3_identity None bucket) \<and>
    fingerprint_identity sha url_parse (fs_identity (p @ replicate n slash)) =
      fingerprint_identity sha url_parse (fs_identity p)"
proof -
  have "canonicalize_endpoint url_parse (Some e) = ''aws''"
    using assms(2,3) by (simp add: canonicalize_endpoint_def Let_def)
  moreover have "canonicalize_endpoint url_parse (Some ''aws'') = ''aws''" by code_simp
  moreover have "CHR ''|'' \<notin> set ''aws''" by simp
  ultimately show ?thesis
    using canonicalize_s3 [OF assms(1)] canonicalize_s3 [of "''aws''"]
    by (simp only: fingerprint_identity_def s3_identity_def fs_identity_def canonicalize_fs strip_slashes_append
        option.case simp_thms)
qed

definition demo_parse :: "string \<Rightarrow> url option" where
  "demo_parse s = (if s = ''https://s3.us-east-1.amazonaws.com''
     then Some \<lparr>url_hostname = ''s3.us-east-1.amazonaws.com'', url_protocol = ''https:'', url_port = [], url_pathname = ''/''\<rparr>
     else None)"

theorem aliasing_guard_spelling_witness:
  "fingerprint_identity (\<lambda>x. x) demo_parse (s3_identity (Some ''https://s3.us-east-1.amazonaws.com'') ''b'') =
     fingerprint_identity (\<lambda>x. x) demo_parse (s3_identity None ''b'')"
proof -
  have "demo_parse (js_trim ''https://s3.us-east-1.amazonaws.com'') =
      Some \<lparr>url_hostname = ''s3.us-east-1.amazonaws.com'', url_protocol = ''https:'', url_port = [], url_pathname = ''/''\<rparr>"
    by code_simp
  moreover have "is_aws_s3_host (to_lower (url_hostname
      \<lparr>url_hostname = ''s3.us-east-1.amazonaws.com'', url_protocol = ''https:'', url_port = [], url_pathname = ''/''\<rparr>))"
    by code_simp
  moreover have "CHR ''|'' \<notin> set ''https://s3.us-east-1.amazonaws.com''" by simp
  ultimately show ?thesis using aliasing_guard_spelling [where p = "[]" and n = 0] by blast
qed

end
