(* ===== verification/Regex.thy ===== *)
theory Regex
  imports Prelude
begin

text \<open>
  JavaScript regular expressions, as far as the program uses them. The matcher follows the
  continuation-passing semantics of the ECMAScript specification (Pattern, Disjunction, Term,
  RepeatMatcher): alternatives are tried left to right, a greedy quantifier tries one more
  iteration before it gives up, a lazy one the other way round, and an optional iteration that
  consumes nothing fails. The state of a match is the character before the current position,
  the rest of the input, and the captures so far (group number, rest at its start, rest at its
  end).
\<close>

type_synonym mstate = "char option \<times> string \<times> (nat \<times> nat \<times> nat) list"

type_synonym cont = "mstate \<Rightarrow> mstate option"

datatype re =
    Eps
  | CC "char \<Rightarrow> bool"
  | Cat re re
  | Alt re re
  | Rep bool nat "nat option" re
  | Grp nat re
  | WordB
  | Bol
  | Eol
  | NotAhead "char \<Rightarrow> bool"
  | NotBehind "char \<Rightarrow> bool"
  | Behind "char \<Rightarrow> bool"

abbreviation rest :: "mstate \<Rightarrow> string" where
  "rest st \<equiv> fst (snd st)"

definition or_else :: "'a option \<Rightarrow> 'a option \<Rightarrow> 'a option" where
  "or_else a b = (case a of None \<Rightarrow> b | Some x \<Rightarrow> Some x)"

lemma or_else_simps [simp]: "or_else None b = b" "or_else (Some x) b = Some x"
  by (simp_all add: or_else_def)

fun rep_exact :: "(cont \<Rightarrow> cont) \<Rightarrow> nat \<Rightarrow> cont \<Rightarrow> cont" where
  "rep_exact mr 0 k st = k st"
| "rep_exact mr (Suc n) k st = mr (rep_exact mr n k) st"

fun rep_opt :: "bool \<Rightarrow> (cont \<Rightarrow> cont) \<Rightarrow> nat \<Rightarrow> cont \<Rightarrow> cont" where
  \<comment> \<open>up to \<open>n\<close> further iterations, each of which has to consume something\<close>
  "rep_opt greedy mr 0 k st = k st"
| "rep_opt greedy mr (Suc n) k st =
     (if greedy
      then case mr (\<lambda>st'. if length (rest st') < length (rest st) then rep_opt greedy mr n k st' else None) st
           of None \<Rightarrow> k st | Some x \<Rightarrow> Some x
      else case k st of None \<Rightarrow>
             mr (\<lambda>st'. if length (rest st') < length (rest st) then rep_opt greedy mr n k st' else None) st
           | Some x \<Rightarrow> Some x)"

definition word_char :: "char \<Rightarrow> bool" where
  "word_char c \<longleftrightarrow>
     (CHR ''0'' \<le> c \<and> c \<le> CHR ''9'') \<or> (CHR ''A'' \<le> c \<and> c \<le> CHR ''Z'') \<or>
     c = CHR ''_'' \<or> (CHR ''a'' \<le> c \<and> c \<le> CHR ''z'')"

definition opt_char :: "(char \<Rightarrow> bool) \<Rightarrow> char option \<Rightarrow> bool" where
  "opt_char p o_c = (case o_c of None \<Rightarrow> False | Some c \<Rightarrow> p c)"

definition next_char :: "string \<Rightarrow> char option" where
  "next_char s = (case s of [] \<Rightarrow> None | c # _ \<Rightarrow> Some c)"

primrec run_re :: "re \<Rightarrow> cont \<Rightarrow> cont" where
  "run_re Eps = (\<lambda>k st. k st)"
| "run_re (CC p) = (\<lambda>k st. case st of (b, s, g) \<Rightarrow>
     (case s of [] \<Rightarrow> None | c # s' \<Rightarrow> if p c then k (Some c, s', g) else None))"
| "run_re (Cat r1 r2) = (\<lambda>k st. run_re r1 (run_re r2 k) st)"
| "run_re (Alt r1 r2) = (\<lambda>k st. case run_re r1 k st of None \<Rightarrow> run_re r2 k st | Some x \<Rightarrow> Some x)"
| "run_re (Rep greedy lo hi r) = (\<lambda>k st.
     rep_exact (run_re r) lo
       (\<lambda>st'. rep_opt greedy (run_re r)
          (case hi of None \<Rightarrow> length (rest st') | Some h \<Rightarrow> min (h - lo) (length (rest st'))) k st') st)"
| "run_re (Grp i r) = (\<lambda>k st.
     run_re r (\<lambda>(b, s, g). k (b, s, (i, length (rest st), length s) # g)) st)"
| "run_re WordB = (\<lambda>k st. case st of (b, s, g) \<Rightarrow>
     if opt_char word_char b \<noteq> opt_char word_char (next_char s) then k st else None)"
| "run_re Bol = (\<lambda>k st. case st of (b, s, g) \<Rightarrow> if b = None then k st else None)"
| "run_re Eol = (\<lambda>k st. case st of (b, s, g) \<Rightarrow> if s = [] then k st else None)"
| "run_re (NotAhead p) = (\<lambda>k st. case st of (b, s, g) \<Rightarrow> if opt_char p (next_char s) then None else k st)"
| "run_re (NotBehind p) = (\<lambda>k st. case st of (b, s, g) \<Rightarrow> if opt_char p b then None else k st)"
| "run_re (Behind p) = (\<lambda>k st. case st of (b, s, g) \<Rightarrow> if opt_char p b then k st else None)"

text \<open>
  A matcher succeeds only where its continuation does, at a state it reaches by consuming characters and
  recording groups: every preorder of states that contains these steps relates the two states. The search loops
  terminate by the first instance below, the replacements with groups are understood by the second.
\<close>

definition moves :: "(mstate \<Rightarrow> mstate \<Rightarrow> bool) \<Rightarrow> (cont \<Rightarrow> cont) \<Rightarrow> bool" where
  "moves R mr \<longleftrightarrow> (\<forall>k st x. mr k st = Some x \<longrightarrow> (\<exists>st'. k st' = Some x \<and> R st st'))"

primrec grp_free :: "re \<Rightarrow> bool" where
  "grp_free Eps = True"
| "grp_free (CC p) = True"
| "grp_free (Cat r1 r2) = (grp_free r1 \<and> grp_free r2)"
| "grp_free (Alt r1 r2) = (grp_free r1 \<and> grp_free r2)"
| "grp_free (Rep greedy lo hi r) = grp_free r"
| "grp_free (Grp i r) = False"
| "grp_free WordB = True"
| "grp_free Bol = True"
| "grp_free Eol = True"
| "grp_free (NotAhead p) = True"
| "grp_free (NotBehind p) = True"
| "grp_free (Behind p) = True"

lemma movesI: "(\<And>k st x. mr k st = Some x \<Longrightarrow> \<exists>st'. k st' = Some x \<and> R st st') \<Longrightarrow> moves R mr"
  unfolding moves_def by blast

lemma movesE:
  assumes "moves R mr" "mr k st = Some x"
  obtains st' where "k st' = Some x" "R st st'"
  using assms unfolding moves_def by blast

locale match_order =
  fixes R :: "mstate \<Rightarrow> mstate \<Rightarrow> bool"
  assumes refl: "R st st"
    and trans: "R st st1 \<Longrightarrow> R st1 st2 \<Longrightarrow> R st st2"
    and consume: "R (b, c # s, g) (Some c, s, g)"
begin

lemma here: "(\<And>k st x. mr k st = Some x \<Longrightarrow> k st = Some x) \<Longrightarrow> moves R mr"
  unfolding moves_def by (metis refl)

lemma seq:
  assumes "moves R f" "moves R h"
  shows "moves R (\<lambda>k st. f (h k) st)"
proof (rule movesI)
  fix k st x
  assume "f (h k) st = Some x"
  then obtain st1 where "h k st1 = Some x" "R st st1" using movesE [OF assms(1)] by blast
  then show "\<exists>st'. k st' = Some x \<and> R st st'" using movesE [OF assms(2)] trans by metis
qed

lemma rep_exact: "moves R mr \<Longrightarrow> moves R (rep_exact mr n)"
proof (induction n)
  case 0
  show ?case by (rule here) simp
next
  case (Suc n)
  have "rep_exact mr (Suc n) = (\<lambda>k st. mr (rep_exact mr n k) st)" by (intro ext) simp
  then show ?case using seq [OF Suc.prems Suc.IH [OF Suc.prems]] by simp
qed

lemma rep_opt: "moves R mr \<Longrightarrow> moves R (rep_opt greedy mr n)"
proof (induction n)
  case 0
  show ?case by (rule here) simp
next
  case (Suc n)
  show ?case
  proof (rule movesI)
    fix k st x
    let ?kk = "\<lambda>st'. if length (rest st') < length (rest st) then rep_opt greedy mr n k st' else None"
    assume "rep_opt greedy mr (Suc n) k st = Some x"
    then consider "k st = Some x" | "mr ?kk st = Some x"
      by (auto split: if_splits option.splits)
    then show "\<exists>st'. k st' = Some x \<and> R st st'"
    proof cases
      case 1
      then show ?thesis using refl by blast
    next
      case 2
      then obtain st1 where "?kk st1 = Some x" and s1: "R st st1"
        using movesE [OF Suc.prems] by blast
      then have "rep_opt greedy mr n k st1 = Some x" by (simp split: if_splits)
      then show ?thesis using movesE [OF Suc.IH [OF Suc.prems]] s1 trans by metis
    qed
  qed
qed

lemma atom:
  "moves R (run_re Eps)" "moves R (run_re WordB)" "moves R (run_re Bol)" "moves R (run_re Eol)"
  "moves R (run_re (NotAhead p))" "moves R (run_re (NotBehind p))" "moves R (run_re (Behind p))"
  by (rule here; simp split: prod.splits if_splits)+

lemma char_class: "moves R (run_re (CC p))"
proof (rule movesI)
  fix k st x
  assume a: "run_re (CC p) k st = Some x"
  obtain b s g where st: "st = (b, s, g)" by (cases st)
  from a st obtain c s' where "s = c # s'" "k (Some c, s', g) = Some x"
    by (auto split: list.splits if_splits)
  then show "\<exists>st'. k st' = Some x \<and> R st st'" using consume [of b c s' g] st by blast
qed

lemma cat: "moves R (run_re r1) \<Longrightarrow> moves R (run_re r2) \<Longrightarrow> moves R (run_re (Cat r1 r2))"
  using seq by simp

lemma alt: "moves R (run_re r1) \<Longrightarrow> moves R (run_re r2) \<Longrightarrow> moves R (run_re (Alt r1 r2))"
  unfolding moves_def by (auto split: option.splits)

lemma rep:
  assumes "moves R (run_re r)"
  shows "moves R (run_re (Rep greedy lo hi r))"
proof (rule movesI)
  fix k st x
  assume "run_re (Rep greedy lo hi r) k st = Some x"
  then obtain st1 n where "rep_opt greedy (run_re r) n k st1 = Some x" and s1: "R st st1"
    using movesE [OF rep_exact [OF assms]] unfolding run_re.simps by blast
  then show "\<exists>st'. k st' = Some x \<and> R st st'" using movesE [OF rep_opt [OF assms]] trans by metis
qed

lemma moves_re:
  assumes "grp_free r \<or> (\<forall>i r. moves R (run_re r) \<longrightarrow> moves R (run_re (Grp i r)))"
  shows "moves R (run_re r)"
  using assms
proof (induction r)
  case (Grp i r)
  then show ?case by (metis grp_free.simps(6))
qed (auto intro: atom char_class cat alt rep simp del: run_re.simps)

end

interpretation fwd: match_order "\<lambda>st st'. suffix (rest st') (rest st)"
  by unfold_locales (auto simp: suffix_ConsI intro: suffix_order.trans)

interpretation caps: match_order "\<lambda>st st'. suffix (rest st') (rest st) \<and> snd (snd st') = snd (snd st)"
  by unfold_locales (auto simp: suffix_ConsI intro: suffix_order.trans)

lemma forward_Grp:
  assumes "moves (\<lambda>st st'. suffix (rest st') (rest st)) (run_re r)"
  shows "moves (\<lambda>st st'. suffix (rest st') (rest st)) (run_re (Grp i r))"
proof (rule movesI)
  fix k :: cont and st x
  let ?k = "\<lambda>(b, s, g). k (b, s, (i, length (rest st), length s) # g)"
  assume "run_re (Grp i r) k st = Some x"
  then have "run_re r ?k st = Some x" by simp
  then obtain st' where st': "?k st' = Some x" "suffix (rest st') (rest st)" by (rule movesE [OF assms])
  obtain b s g where "st' = (b, s, g)" by (cases st')
  with st' show "\<exists>st'. k st' = Some x \<and> suffix (rest st') (rest st)"
    by (intro exI [of _ "(b, s, (i, length (rest st), length s) # g)"]) simp
qed

lemma forward_re: "moves (\<lambda>st st'. suffix (rest st') (rest st)) (run_re r)"
  by (rule fwd.moves_re) (simp add: forward_Grp del: run_re.simps)

lemma forwardD: "run_re r k st = Some x \<Longrightarrow> \<exists>st'. k st' = Some x \<and> suffix (rest st') (rest st)"
  using forward_re [of r] unfolding moves_def by blast

subsection \<open>Searching and replacing\<close>

definition match_here :: "re \<Rightarrow> char option \<Rightarrow> string \<Rightarrow> mstate option" where
  "match_here r b s = run_re r Some (b, s, [])"

fun search :: "re \<Rightarrow> char option \<Rightarrow> string \<Rightarrow> (string \<times> mstate) option" where
  \<comment> \<open>\<open>RegExp.exec\<close> from the current \<open>lastIndex\<close>: the rest of the input where the match starts, and
     the state where it ends\<close>
  "search r b s =
     (case match_here r b s of
        Some st \<Rightarrow> Some (s, st)
      | None \<Rightarrow> (case s of [] \<Rightarrow> None | c # s' \<Rightarrow> search r (Some c) s'))"

declare search.simps [simp del]

lemma match_here_suffix: "match_here r b s = Some st \<Longrightarrow> suffix (rest st) s"
  using forwardD [of r Some "(b, s, [])" st] by (simp add: match_here_def)

lemma search_suffix:
  "search r b s = Some (s0, st) \<Longrightarrow> suffix s0 s \<and> suffix (rest st) s0"
proof (induction r b s rule: search.induct)
  case (1 r b s)
  show ?case
  proof (cases "match_here r b s")
    case None
    with "1.prems" obtain c s' where s: "s = c # s'" and "search r (Some c) s' = Some (s0, st)"
      by (simp add: search.simps [of r b s] split: list.splits)
    then show ?thesis using "1.IH" [OF None s] by (simp add: suffix_ConsI)
  next
    case (Some st')
    with "1.prems" have "s0 = s" "st = st'" by (simp_all add: search.simps [of r b s])
    with Some show ?thesis using match_here_suffix by blast
  qed
qed

lemma search_length:
  "search r b s = Some (s0, b1, s1, g) \<Longrightarrow> length s0 \<le> length s \<and> length s1 \<le> length s0"
  using search_suffix [of r b s s0 "(b1, s1, g)"] by (simp add: suffix_length_le)

definition test_re :: "re \<Rightarrow> string \<Rightarrow> bool" where
  "test_re r s \<longleftrightarrow> search r None s \<noteq> None"

text \<open>
  The loop \<open>while ((match = pattern.exec(text)) !== null)\<close> of a global pattern: the matches in
  order, as (rest at the start, rest at the end, captures). An empty match advances
  \<open>lastIndex\<close> by one and is not reported.
\<close>

function match_all :: "re \<Rightarrow> char option \<Rightarrow> string \<Rightarrow> (string \<times> string \<times> (nat \<times> nat \<times> nat) list) list" where
  "match_all r b s =
     (case search r b s of
        None \<Rightarrow> []
      | Some (s0, b1, s1, g) \<Rightarrow>
          if length s1 < length s0 then (s0, s1, g) # match_all r b1 s1
          else (case s1 of [] \<Rightarrow> [] | c # s2 \<Rightarrow> match_all r (Some c) s2))"
  by pat_completeness auto
termination
proof (relation "measure (\<lambda>(r, b, s). length s)", goal_cases)
  case (2 r b s a s0 c b1 d s1 g)
  then show ?case using search_length [of r b s s0 b1 s1 g] by auto
next
  case (3 r b s a s0 c b1 d s1 g x xs)
  then show ?case using search_length [of r b s s0 b1 s1 g] by auto
qed simp

declare match_all.simps [simp del]

lemma match_all_cases:
  obtains (none) "search r b s = None" "match_all r b s = []"
  | (hit) s0 b1 s1 g where "search r b s = Some (s0, b1, s1, g)" "length s1 < length s0"
      "suffix s0 s" "suffix s1 s0" "match_all r b s = (s0, s1, g) # match_all r b1 s1"
  | (skip) s0 b1 c s2 g where "search r b s = Some (s0, b1, c # s2, g)"
      "\<not> length (c # s2) < length s0" "suffix s2 s" "match_all r b s = match_all r (Some c) s2"
  | (stop) s0 b1 g where "search r b s = Some (s0, b1, [], g)" "match_all r b s = []"
proof (cases "search r b s")
  case None
  then show thesis using none by (simp add: match_all.simps [of r b s])
next
  case (Some a)
  obtain s0 b1 s1 g where a: "search r b s = Some (s0, b1, s1, g)" using Some by (cases a) auto
  note sfx = search_suffix [OF a]
  show thesis
  proof (cases "length s1 < length s0")
    case True
    then show thesis using hit a sfx by (simp add: match_all.simps [of r b s])
  next
    case False
    show thesis
    proof (cases s1)
      case Nil
      then show thesis using stop a False by (simp add: match_all.simps [of r b s])
    next
      case (Cons c s2)
      moreover have "suffix s2 s"
        using sfx Cons suffix_ConsD [of c s2 s0] suffix_order.trans [of s2 s0 s] by simp
      ultimately show thesis using skip a False by (simp add: match_all.simps [of r b s])
    qed
  qed
qed

lemma match_all_bounds:
  "(s0, s1, g) \<in> set (match_all r b s) \<Longrightarrow>
     suffix s0 s \<and> suffix s1 s0 \<and> length s1 < length s0"
proof (induction r b s rule: match_all.induct)
  case (1 r b s)
  show ?case
  proof (cases r b s rule: match_all_cases)
    case (hit t0 b1 t1 g1)
    with "1.prems" consider "s0 = t0" "s1 = t1" | "(s0, s1, g) \<in> set (match_all r b1 t1)" by auto
    then show ?thesis
    proof cases
      case 2
      then have "suffix s0 t1" "suffix s1 s0" "length s1 < length s0"
        using "1.IH"(1) [OF hit(1) refl refl refl hit(2)] by auto
      then show ?thesis using hit(3,4) suffix_order.trans by blast
    qed (use hit in auto)
  next
    case (skip t0 b1 c s2 g1)
    then have "suffix s0 s2 \<and> suffix s1 s0 \<and> length s1 < length s0"
      using "1.IH"(2) [OF skip(1) refl refl refl skip(2) refl] "1.prems" by simp
    then show ?thesis using skip(3) suffix_order.trans by blast
  qed (use "1.prems" in auto)
qed

lemma match_all_ordered:
  "sorted_wrt (\<lambda>mt nt. suffix (fst nt) (fst (snd mt))) (match_all r b s)"
proof (induction r b s rule: match_all.induct)
  case (1 r b s)
  show ?case
  proof (cases r b s rule: match_all_cases)
    case (hit t0 b1 t1 g1)
    have "\<forall>nt\<in>set (match_all r b1 t1). suffix (fst nt) t1"
      using match_all_bounds by (metis prod.collapse)
    then show ?thesis using hit "1.IH"(1) [OF hit(1) refl refl refl hit(2)] by simp
  next
    case (skip t0 b1 c s2 g1)
    then show ?thesis using "1.IH"(2) [OF skip(1) refl refl refl skip(2) refl] by simp
  qed auto
qed

text \<open>
  \<open>text.replace(pattern, f)\<close> for a global pattern none of whose matches is empty: the text
  between the matches is copied, every match is replaced by \<open>f\<close> of the matched text.
\<close>

fun splice :: "string \<Rightarrow> (string \<times> string \<times> 'g) list \<Rightarrow> (string \<Rightarrow> string) \<Rightarrow> string" where
  "splice s [] f = s"
| "splice s ((s0, s1, g) # ms) f =
     take (length s - length s0) s @ f (take (length s0 - length s1) s0) @ splice s1 ms f"

definition matched :: "string \<times> string \<times> 'g \<Rightarrow> string" where
  "matched mt = (case mt of (s0, s1, g) \<Rightarrow> take (length s0 - length s1) s0)"

definition replace_all :: "re \<Rightarrow> (string \<Rightarrow> string) \<Rightarrow> string \<Rightarrow> string" where
  "replace_all r f s = splice s (match_all r None s) f"

lemma replace_all_no_match: "match_all r None s = [] \<Longrightarrow> replace_all r f s = s"
  by (simp add: replace_all_def)

lemma take_suffix: "suffix t s \<Longrightarrow> take (length s - length t) s @ t = s"
  by (auto simp: suffix_def)

lemma splice_id:
  assumes "\<forall>mt\<in>set ms. suffix (fst mt) s \<and> suffix (fst (snd mt)) (fst mt)"
    and "sorted_wrt (\<lambda>mt nt. suffix (fst nt) (fst (snd mt))) ms"
  shows "splice s ms (\<lambda>x. x) = s"
  using assms
proof (induction ms arbitrary: s)
  case (Cons mt ms)
  obtain s0 s1 g where mt: "mt = (s0, s1, g)" by (cases mt) auto
  have "splice s1 ms (\<lambda>x. x) = s1"
    using Cons.prems mt by (intro Cons.IH) auto
  moreover have "take (length s0 - length s1) s0 @ s1 = s0" "take (length s - length s0) s @ s0 = s"
    using Cons.prems mt by (auto intro: take_suffix)
  ultimately show ?case by (simp add: mt)
qed simp

lemma replace_all_id: "replace_all r (\<lambda>x. x) s = s"
  unfolding replace_all_def
proof (rule splice_id)
  show "\<forall>mt\<in>set (match_all r None s). suffix (fst mt) s \<and> suffix (fst (snd mt)) (fst mt)"
    using match_all_bounds by (metis prod.collapse)
qed (rule match_all_ordered)

subsection \<open>Building patterns\<close>

fun lit :: "string \<Rightarrow> re" where
  "lit [] = Eps"
| "lit [c] = CC (\<lambda>x. x = c)"
| "lit (c # d # cs) = Cat (CC (\<lambda>x. x = c)) (lit (d # cs))"

text \<open>
  A literal under the \<open>i\<close> flag: two characters agree when their canonical (upper-case) forms
  agree; the literals of the program are ASCII.
\<close>

fun lit_i :: "string \<Rightarrow> re" where
  "lit_i [] = Eps"
| "lit_i [c] = CC (\<lambda>x. upper_ascii x = upper_ascii c)"
| "lit_i (c # d # cs) = Cat (CC (\<lambda>x. upper_ascii x = upper_ascii c)) (lit_i (d # cs))"

fun cats :: "re list \<Rightarrow> re" where
  "cats [] = Eps"
| "cats [r] = r"
| "cats (r # s # rs) = Cat r (cats (s # rs))"

fun alts :: "re list \<Rightarrow> re" where
  "alts [] = NotAhead (\<lambda>_. True)"
| "alts [r] = r"
| "alts (r # s # rs) = Alt r (alts (s # rs))"

abbreviation star :: "re \<Rightarrow> re" where "star r \<equiv> Rep True 0 None r"

abbreviation plus_re :: "re \<Rightarrow> re" where "plus_re r \<equiv> Rep True 1 None r"

abbreviation opt_re :: "re \<Rightarrow> re" where "opt_re r \<equiv> Rep True 0 (Some 1) r"

definition digit :: "char \<Rightarrow> bool" where
  "digit c \<longleftrightarrow> CHR ''0'' \<le> c \<and> c \<le> CHR ''9''"

definition upper_az :: "char \<Rightarrow> bool" where
  "upper_az c \<longleftrightarrow> CHR ''A'' \<le> c \<and> c \<le> CHR ''Z''"

definition lower_az :: "char \<Rightarrow> bool" where
  "lower_az c \<longleftrightarrow> CHR ''a'' \<le> c \<and> c \<le> CHR ''z''"

definition alpha :: "char \<Rightarrow> bool" where
  "alpha c \<longleftrightarrow> upper_az c \<or> lower_az c"

definition alnum :: "char \<Rightarrow> bool" where
  "alnum c \<longleftrightarrow> alpha c \<or> digit c"

definition one_of :: "string \<Rightarrow> char \<Rightarrow> bool" where
  "one_of cs c \<longleftrightarrow> c \<in> set cs"

definition hex_digit :: "char \<Rightarrow> bool" where
  "hex_digit c \<longleftrightarrow> digit c \<or> (CHR ''a'' \<le> c \<and> c \<le> CHR ''f'') \<or> (CHR ''A'' \<le> c \<and> c \<le> CHR ''F'')"

definition lower_hex :: "char \<Rightarrow> bool" where
  "lower_hex c \<longleftrightarrow> digit c \<or> (CHR ''a'' \<le> c \<and> c \<le> CHR ''f'')"

subsection \<open>Anchored classes\<close>

text \<open>A pattern \<open>/^[...]{n}$/\<close> accepts the texts of \<open>n\<close> characters of the class.\<close>

lemma rep_exact_class:
  "rep_exact (run_re (CC p)) n (run_re Eol Some) (b, s, g) \<noteq> None \<longleftrightarrow> length s = n \<and> list_all p s"
proof (induction n arbitrary: b s)
  case (Suc n)
  then show ?case by (cases s) auto
qed auto

lemma search_anchored:
  assumes "\<And>c s. match_here r (Some c) s = None"
  shows "search r (Some c) s = None"
proof (induction s arbitrary: c)
  case Nil
  show ?case by (simp add: search.simps [of r "Some c" "[]"] assms)
next
  case (Cons d s)
  then show ?case by (simp add: search.simps [of r "Some c" "d # s"] assms)
qed

lemma search_at_start:
  assumes "\<And>c t. search r (Some c) t = None"
  shows "search r None s \<noteq> None \<longleftrightarrow> match_here r None s \<noteq> None"
  unfolding search.simps [of r None s] by (cases s) (auto simp: assms split: option.splits)

lemma test_anchored_class: "test_re (cats [Bol, Rep True n (Some n) (CC p), Eol]) s \<longleftrightarrow> length s = n \<and> list_all p s"
proof -
  let ?r = "cats [Bol, Rep True n (Some n) (CC p), Eol]"
  have "match_here ?r (Some c) t = None" for c t by (simp add: match_here_def)
  then have later: "search ?r (Some c) t = None" for c t by (rule search_anchored)
  have "match_here ?r None s = rep_exact (run_re (CC p)) n (run_re Eol Some) (None, s, [])"
    unfolding match_here_def cats.simps
    by (simp only: run_re.simps(3,5,8) prod.case option.case diff_self_eq_0 min_0L rep_opt.simps if_True refl)
  then have "match_here ?r None s \<noteq> None \<longleftrightarrow> length s = n \<and> list_all p s" using rep_exact_class by metis
  moreover have "search ?r None s \<noteq> None \<longleftrightarrow> match_here ?r None s \<noteq> None"
    by (rule search_at_start [OF later])
  ultimately show ?thesis unfolding test_re_def by blast
qed

end
