(* ===== verification/Redaction.thy ===== *)
theory Redaction
  imports Regex
begin

text \<open>
  \<^verbatim>\<open>packages/context-engine/src/data-url.ts\<close> and \<^verbatim>\<open>redaction.ts\<close>: the canonical detection of inline
  data URIs, the six text detectors with their patterns, \<open>findSensitiveRanges\<close>,
  \<open>redactText\<close> and \<open>redactDeep\<close>.
\<close>

subsection \<open>Data URIs\<close>

definition image_data_url_re :: re where
  \<comment> \<open>\<open>/^\s*data:image\//i\<close>\<close>
  "image_data_url_re = cats [Bol, star (CC js_space), lit_i ''data:image/'']"

definition any_data_url_re :: re where
  \<comment> \<open>\<open>/^\s*data:/i\<close>\<close>
  "any_data_url_re = cats [Bol, star (CC js_space), lit_i ''data:'']"

definition is_image_str :: "string \<Rightarrow> bool" where
  "is_image_str s \<longleftrightarrow> test_re image_data_url_re s"

definition is_image_data_url :: "json \<Rightarrow> bool" where
  "is_image_data_url v = (case v of JStr s \<Rightarrow> is_image_str s | _ \<Rightarrow> False)"

definition is_data_url :: "json \<Rightarrow> bool" where
  "is_data_url v = (case v of JStr s \<Rightarrow> test_re any_data_url_re s | _ \<Rightarrow> False)"

lemma is_image_data_url_simps [simp]:
  "is_image_data_url (JStr s) = is_image_str s" "\<not> is_image_data_url JNull"
  "\<not> is_image_data_url (JBool b)" "\<not> is_image_data_url (JNum n)"
  "\<not> is_image_data_url (JArr xs)" "\<not> is_image_data_url (JObj fs)"
  by (simp_all add: is_image_data_url_def)

text \<open>
  An anchored pattern matches only at the start, and a run of white space followed by a literal
  that starts with no white space is matched in one way.
\<close>

lemma search_Bol_Some: "search (Cat Bol r) (Some c) s = None"
proof (induction s arbitrary: c)
  case Nil
  show ?case by (simp add: search.simps match_here_def)
next
  case (Cons d s)
  then show ?case by (subst search.simps) (simp add: match_here_def)
qed

lemma search_Bol: "search (Cat Bol r) None s = map_option (\<lambda>st. (s, st)) (match_here r None s)"
  by (subst search.simps) (auto simp: match_here_def search_Bol_Some split: option.splits list.splits)

lemma rep_opt_spaces:
  assumes k: "\<And>b c s g. p c \<Longrightarrow> k (b, c # s, g) = None"
  shows "\<exists>b'. rep_opt True (run_re (CC p)) (length s) k (b, s, g) = k (b', dropWhile p s, g)"
proof (induction s arbitrary: b)
  case (Cons c s)
  show ?case
  proof (cases "p c")
    case True
    obtain b' where "rep_opt True (run_re (CC p)) (length s) k (Some c, s, g) = k (b', dropWhile p s, g)"
      using Cons.IH by blast
    then show ?thesis using True k [OF True]
      by (intro exI [of _ b']) (simp split: option.splits)
  next
    case False
    then show ?thesis by (intro exI [of _ b]) simp
  qed
next
  case Nil
  show ?case by (intro exI [of _ b]) simp
qed

lemma m_lit_i:
  "run_re (lit_i p) k (b, s, g) \<noteq> None \<longleftrightarrow>
     starts_with (map upper_ascii s) (map upper_ascii p) \<and>
     (\<exists>b'. k (b', drop (length p) s, g) \<noteq> None \<and> (p = [] \<longrightarrow> b' = b) \<and> (p \<noteq> [] \<longrightarrow> b' = Some (s ! (length p - 1))))"
proof (induction p arbitrary: b s rule: lit_i.induct)
  case 1
  show ?case by (simp add: starts_with_def)
next
  case (2 c)
  show ?case by (cases s) (auto simp: starts_with_def)
next
  case (3 c d cs)
  show ?case
  proof (cases s)
    case (Cons x s')
    then show ?thesis using "3" [of "Some x" s'] by (auto simp: starts_with_def)
  qed (simp add: starts_with_def)
qed

lemma anchored_spaces_lit:
  assumes "\<not> js_space c" "\<And>x. upper_ascii x = upper_ascii c \<Longrightarrow> \<not> js_space x"
  shows "test_re (cats [Bol, star (CC js_space), lit_i (c # cs)]) s \<longleftrightarrow>
     starts_with (map upper_ascii (dropWhile js_space s)) (map upper_ascii (c # cs))"
proof -
  have "run_re (lit_i (c # cs)) Some (b, x # s', g) = None" if "js_space x" for b x s' g
    using that assms(2) [of x] m_lit_i [of "c # cs" Some b "x # s'" g]
    by (auto simp: starts_with_def)
  then obtain b' where "rep_opt True (run_re (CC js_space)) (length s) (run_re (lit_i (c # cs)) Some) (None, s, []) =
      run_re (lit_i (c # cs)) Some (b', dropWhile js_space s, [])"
    using rep_opt_spaces [of js_space "run_re (lit_i (c # cs)) Some" s None "[]"] by blast
  then have "match_here (Cat (star (CC js_space)) (lit_i (c # cs))) None s =
      run_re (lit_i (c # cs)) Some (b', dropWhile js_space s, [])"
    by (simp add: match_here_def)
  then show ?thesis
    using m_lit_i [of "c # cs" Some b' "dropWhile js_space s" "[]"]
    by (simp add: test_re_def search_Bol del: run_re.simps lit_i.simps)
qed

lemma upper_ascii_cases: "upper_ascii c = c \<or> (97 \<le> (of_char c :: nat) \<and> (of_char c :: nat) \<le> 122 \<and> (of_char (upper_ascii c) :: nat) = of_char c - 32)"
  by (auto simp: upper_ascii_def Let_def)

lemma upper_ascii_d: "upper_ascii x = upper_ascii CHR ''d'' \<Longrightarrow> \<not> js_space x"
  using upper_ascii_cases [of x] by (auto simp: upper_ascii_def js_space_def)

lemma upper_data_image: "map upper_ascii ''data:image/'' = ''DATA:IMAGE/''"
  by code_simp

lemma upper_data: "map upper_ascii ''data:'' = ''DATA:''"
  by code_simp

lemma not_space_d: "\<not> js_space CHR ''d''"
  by (simp add: js_space_def)

lemma is_image_str_iff:
  "is_image_str s \<longleftrightarrow> starts_with (map upper_ascii (dropWhile js_space s)) ''DATA:IMAGE/''"
  unfolding is_image_str_def image_data_url_re_def
  using anchored_spaces_lit [OF not_space_d upper_ascii_d] by (simp only: upper_data_image)

lemma is_data_str_iff:
  "test_re any_data_url_re s \<longleftrightarrow> starts_with (map upper_ascii (dropWhile js_space s)) ''DATA:''"
  unfolding any_data_url_re_def
  using anchored_spaces_lit [OF not_space_d upper_ascii_d] by (simp only: upper_data)

text \<open>
  Detection depends neither on the case of the scheme and MIME type nor on leading white space:
  two spellings that agree after dropping white space and folding case are treated alike.
\<close>

lemma is_image_str_case_insensitive:
  "map upper_ascii (dropWhile js_space s) = map upper_ascii (dropWhile js_space t) \<Longrightarrow>
     is_image_str s = is_image_str t"
  by (simp add: is_image_str_iff)

lemma image_str_is_data_str: "is_image_str s \<Longrightarrow> test_re any_data_url_re s"
  by (auto simp: is_image_str_iff is_data_str_iff starts_with_prefix prefix_def)

subsection \<open>Detectors\<close>

datatype redaction_type = Email | Phone | Card | Api_key | Ssn | Iban

definition luhn_step :: "int \<Rightarrow> bool \<Rightarrow> int" where
  "luhn_step d alt = (if alt then (let e = d * 2 in if 9 < e then e - 9 else e) else d)"

fun luhn_sum :: "int list \<Rightarrow> bool \<Rightarrow> int" where
  \<comment> \<open>the loop from the last digit to the first; \<open>alt\<close> flips at every digit\<close>
  "luhn_sum [] alt = 0"
| "luhn_sum (d # ds) alt = luhn_step d alt + luhn_sum ds (\<not> alt)"

definition luhn_valid :: "string \<Rightarrow> bool" where
  "luhn_valid digits \<longleftrightarrow>
     luhn_sum (map (\<lambda>c. int (of_char c) - 48) (rev digits)) False mod 10 = 0"

record detector =
  det_type :: redaction_type
  det_pattern :: re
  det_validate :: "string \<Rightarrow> bool"

definition tok :: "char \<Rightarrow> bool" where
  \<comment> \<open>\<open>[A-Za-z0-9_-]\<close>\<close>
  "tok c \<longleftrightarrow> alnum c \<or> one_of ''_-'' c"

definition api_key_re :: re where
  "api_key_re = Cat WordB (alts
     [cats [lit_i ''sk-'', Rep True 16 None (CC tok)],
      cats [lit_i ''sk-ant-'', Rep True 16 None (CC tok)],
      cats [lit_i ''ghp_'', Rep True 20 None (CC alnum)],
      cats [lit_i ''gho_'', Rep True 20 None (CC alnum)],
      cats [lit_i ''github_pat_'', Rep True 20 None (CC (\<lambda>c. alnum c \<or> c = CHR ''_''))],
      cats [lit_i ''xox'', CC (one_of ''baprBAPR''), lit ''-'', Rep True 10 None (CC (\<lambda>c. alnum c \<or> c = CHR ''-''))],
      cats [lit_i ''AKIA'', Rep True 16 (Some 16) (CC alnum)],
      cats [lit_i ''AIza'', Rep True 30 None (CC tok)],
      cats [lit_i ''eyJ'', Rep True 20 None (CC tok), lit ''.'', Rep True 20 None (CC tok), lit ''.'',
            Rep True 10 None (CC tok)],
      cats [alts [cats [lit_i ''api'', opt_re (CC (one_of ''_-'')), lit_i ''key''], lit_i ''token'', lit_i ''secret'',
                  lit_i ''password'', lit_i ''passwd'', lit_i ''bearer''],
            Rep True 1 (Some 5) (CC (\<lambda>c. js_space c \<or> one_of [CHR 0x22, CHR 0x27, CHR '':'', CHR ''=''] c)),
            Rep True 16 None (CC (\<lambda>c. alnum c \<or> one_of ''_-./+'' c))]])"

definition email_re :: re where
  "email_re = cats
     [WordB, plus_re (CC (\<lambda>c. alnum c \<or> one_of ''._%+-'' c)), lit ''@'',
      plus_re (CC (\<lambda>c. alnum c \<or> one_of ''.-'' c)), lit ''.'', Rep True 2 None (CC alpha), WordB]"

definition ssn_re :: re where
  "ssn_re = cats
     [WordB, Rep True 3 (Some 3) (CC digit), lit ''-'', Rep True 2 (Some 2) (CC digit), lit ''-'',
      Rep True 4 (Some 4) (CC digit), WordB]"

definition iban_re :: re where
  "iban_re = cats
     [WordB, Rep True 2 (Some 2) (CC upper_az), Rep True 2 (Some 2) (CC digit),
      Rep True 3 (Some 7) (Cat (opt_re (CC js_space)) (Rep True 4 (Some 4) (CC (\<lambda>c. upper_az c \<or> digit c)))),
      WordB]"

definition card_re :: re where
  "card_re = cats [WordB, Rep True 13 (Some 19) (Cat (CC digit) (opt_re (CC (one_of '' -'')))), WordB]"

definition phone_re :: re where
  "phone_re = Alt
     (cats
       [opt_re (cats [lit ''+'', Rep True 1 (Some 3) (CC digit), opt_re (CC (one_of '' .-''))]),
        Alt (cats [lit ''('', Rep True 3 (Some 3) (CC digit), lit '')'', opt_re (CC (one_of '' .-''))])
            (cats [WordB, Rep True 3 (Some 3) (CC digit), CC (one_of ''.-'')]),
        Rep True 3 (Some 3) (CC digit), opt_re (CC (one_of '' .-'')), Rep True 4 (Some 4) (CC digit), WordB])
     (cats
       [lit ''+'', Rep True 1 (Some 3) (CC digit), opt_re (lit '' ''), Rep True 2 (Some 4) (CC digit),
        opt_re (lit '' ''), Rep True 3 (Some 4) (CC digit), opt_re (lit '' ''), Rep True 3 (Some 4) (CC digit),
        WordB])"

definition card_validate :: "string \<Rightarrow> bool" where
  "card_validate match =
     (let digits = filter digit match
      in 13 \<le> length digits \<and> length digits \<le> 19 \<and> luhn_valid digits)"

definition detectors :: "detector list" where
  \<comment> \<open>\<open>DETECTORS\<close>, in its order; a detector without \<open>validate\<close> accepts every match\<close>
  "detectors =
     [\<lparr>det_type = Api_key, det_pattern = api_key_re, det_validate = (\<lambda>_. True)\<rparr>,
      \<lparr>det_type = Email, det_pattern = email_re, det_validate = (\<lambda>_. True)\<rparr>,
      \<lparr>det_type = Ssn, det_pattern = ssn_re, det_validate = (\<lambda>_. True)\<rparr>,
      \<lparr>det_type = Iban, det_pattern = iban_re, det_validate = (\<lambda>_. True)\<rparr>,
      \<lparr>det_type = Card, det_pattern = card_re, det_validate = card_validate\<rparr>,
      \<lparr>det_type = Phone, det_pattern = phone_re, det_validate = (\<lambda>_. True)\<rparr>]"

subsection \<open>Ranges and replacement\<close>

type_synonym range = "nat \<times> nat \<times> redaction_type"

definition detector_matches :: "detector \<Rightarrow> string \<Rightarrow> (string \<times> string \<times> (nat \<times> nat \<times> nat) list) list" where
  "detector_matches d tx =
     filter (\<lambda>mt. det_validate d (matched mt)) (match_all (det_pattern d) None tx)"

definition find_sensitive_ranges :: "string \<Rightarrow> range list" where
  "find_sensitive_ranges tx =
     concat (map (\<lambda>d. map (\<lambda>(s0, s1, g). (length tx - length s0, length tx - length s1, det_type d))
                        (detector_matches d tx)) detectors)"

fun type_name :: "redaction_type \<Rightarrow> string" where
  "type_name Email = ''email''"
| "type_name Phone = ''phone''"
| "type_name Card = ''card''"
| "type_name Api_key = ''api_key''"
| "type_name Ssn = ''ssn''"
| "type_name Iban = ''iban''"

definition marker :: "redaction_type \<Rightarrow> string" where
  "marker t = ''[REDACTED:'' @ type_name t @ '']''"

record redaction_result =
  rr_text :: string
  rr_hits :: "(redaction_type \<times> nat) list"
  rr_total :: nat

definition redact_with :: "detector \<Rightarrow> string \<times> (redaction_type \<times> nat) list \<Rightarrow> string \<times> (redaction_type \<times> nat) list" where
  "redact_with d st =
     (case st of (tx, counts) \<Rightarrow>
        (replace_all (det_pattern d) (\<lambda>match. if det_validate d match then marker (det_type d) else match) tx,
         fold (\<lambda>mt t. tally_add (det_type d) 1 t) (detector_matches d tx) counts))"

definition redact_text :: "string \<Rightarrow> redaction_result" where
  "redact_text input =
     (case fold redact_with detectors (input, []) of (tx, counts) \<Rightarrow>
        \<lparr>rr_text = tx, rr_hits = counts, rr_total = tally_total counts\<rparr>)"

definition add_hits :: "(redaction_type \<times> nat) list \<Rightarrow> (redaction_type \<times> nat) list \<Rightarrow> (redaction_type \<times> nat) list" where
  "add_hits hits tally = fold (\<lambda>(t, n) acc. tally_add t n acc) hits tally"

fun redact_deep :: "json \<Rightarrow> (redaction_type \<times> nat) list \<Rightarrow> json \<times> (redaction_type \<times> nat) list"
and redact_deep_list :: "json list \<Rightarrow> (redaction_type \<times> nat) list \<Rightarrow> json list \<times> (redaction_type \<times> nat) list"
and redact_deep_fields :: "(string \<times> json) list \<Rightarrow> (redaction_type \<times> nat) list \<Rightarrow> (string \<times> json) list \<times> (redaction_type \<times> nat) list"
where
  "redact_deep (JStr s) tally =
     (let r = redact_text s in (JStr (rr_text r), add_hits (rr_hits r) tally))"
| "redact_deep (JArr xs) tally =
     (case redact_deep_list xs tally of (ys, t) \<Rightarrow> (JArr ys, t))"
| "redact_deep (JObj fs) tally =
     (case redact_deep_fields fs tally of (gs, t) \<Rightarrow> (JObj gs, t))"
| "redact_deep v tally = (v, tally)"
| "redact_deep_list [] tally = ([], tally)"
| "redact_deep_list (x # xs) tally =
     (case redact_deep x tally of (y, t) \<Rightarrow>
        case redact_deep_list xs t of (ys, t') \<Rightarrow> (y # ys, t'))"
| "redact_deep_fields [] tally = ([], tally)"
| "redact_deep_fields ((k, v) # fs) tally =
     (case (if is_data_url v then (v, tally) else redact_deep v tally) of (w, t) \<Rightarrow>
        case redact_deep_fields fs t of (gs, t') \<Rightarrow> ((k, w) # gs, t'))"

subsection \<open>Facts\<close>

lemma detector_matches_bounds:
  "(s0, s1, g) \<in> set (detector_matches d tx) \<Longrightarrow>
     suffix s0 tx \<and> suffix s1 s0 \<and> length s1 < length s0 \<and> det_validate d (take (length s0 - length s1) s0)"
  by (auto simp: detector_matches_def matched_def dest: match_all_bounds)

lemma slice_suffix:
  assumes "suffix s0 t" "suffix s1 s0"
  shows "take (length s0 - length s1) s0 =
    take ((length t - length s1) - (length t - length s0)) (drop (length t - length s0) t)"
  using assms by (auto simp: suffix_def)

lemma splice_cong_matched:
  "(\<And>mt. mt \<in> set ms \<Longrightarrow> f (matched mt) = f' (matched mt)) \<Longrightarrow> splice s ms f = splice s ms f'"
proof (induction ms arbitrary: s)
  case (Cons mt ms)
  obtain s0 s1 g where mt: "mt = (s0, s1, g)" by (cases mt) auto
  have "f (matched mt) = f' (matched mt)" using Cons.prems by simp
  then show ?case using Cons.IH [of s1] Cons.prems by (simp add: mt matched_def)
qed simp

lemma redact_with_no_match:
  "detector_matches d tx = [] \<Longrightarrow> redact_with d (tx, counts) = (tx, counts)"
proof -
  assume e: "detector_matches d tx = []"
  have "splice tx (match_all (det_pattern d) None tx)
          (\<lambda>match. if det_validate d match then marker (det_type d) else match) =
        splice tx (match_all (det_pattern d) None tx) (\<lambda>x. x)"
    using e by (intro splice_cong_matched) (auto simp: detector_matches_def filter_empty_conv)
  then show ?thesis
    using e replace_all_id [of "det_pattern d" tx] by (simp add: redact_with_def replace_all_def)
qed

lemma tally_total_fold_add:
  "tally_total (fold (\<lambda>mt. tally_add k (Suc 0)) ms t) = tally_total t + length ms"
  by (induction ms arbitrary: t) (simp_all add: tally_total_add)

lemma redact_with_total:
  "tally_total (snd (redact_with d (tx, counts))) = tally_total counts + length (detector_matches d tx)"
  by (simp add: redact_with_def tally_total_fold_add)

lemma fold_redact_total_mono:
  "tally_total (snd st) \<le> tally_total (snd (fold redact_with ds st))"
proof (induction ds arbitrary: st)
  case (Cons d ds)
  obtain tx counts where "st = (tx, counts)" by (cases st)
  then show ?case
    using Cons.IH [of "redact_with d st"] redact_with_total [of d tx counts] by simp
qed simp

lemma fold_redact_total_zero:
  "tally_total (snd (fold redact_with ds (tx, counts))) = tally_total counts \<longleftrightarrow>
     (\<forall>d\<in>set ds. detector_matches d tx = [])"
proof (induction ds)
  case (Cons d ds)
  show ?case
  proof (cases "detector_matches d tx = []")
    case True
    then show ?thesis using Cons.IH by (simp add: redact_with_no_match)
  next
    case False
    then have "tally_total counts < tally_total (snd (redact_with d (tx, counts)))"
      by (simp add: redact_with_total)
    then show ?thesis
      using False fold_redact_total_mono [of "redact_with d (tx, counts)" ds] by auto
  qed
qed simp

lemma fold_redact_no_match:
  "(\<forall>d\<in>set ds. detector_matches d tx = []) \<Longrightarrow> fold redact_with ds (tx, counts) = (tx, counts)"
  by (induction ds) (simp_all add: redact_with_no_match)

lemma find_sensitive_ranges_Nil:
  "find_sensitive_ranges tx = [] \<longleftrightarrow> (\<forall>d\<in>set detectors. detector_matches d tx = [])"
  by (auto simp: find_sensitive_ranges_def)

lemma redact_text_total_zero:
  "rr_total (redact_text tx) = 0 \<longleftrightarrow> (\<forall>d\<in>set detectors. detector_matches d tx = [])"
  using fold_redact_total_zero [of detectors tx "[]"]
  by (simp add: redact_text_def case_prod_unfold)

lemma redact_text_unchanged:
  "(\<forall>d\<in>set detectors. detector_matches d tx = []) \<Longrightarrow>
     redact_text tx = \<lparr>rr_text = tx, rr_hits = [], rr_total = 0\<rparr>"
  by (simp add: redact_text_def fold_redact_no_match)

text \<open>Every range that \<open>findSensitiveRanges\<close> reports is a non-empty interval inside the
  tx, and a range of type card covers 13 to 19 digits that pass the Luhn check.\<close>

theorem sensitive_ranges_sound:
  assumes "(a, b, t) \<in> set (find_sensitive_ranges tx)"
  shows "a < b \<and> b \<le> length tx \<and>
    (t = Card \<longrightarrow> card_validate (take (b - a) (drop a tx)))"
proof -
  from assms obtain d s0 s1 g where d: "d \<in> set detectors" "(s0, s1, g) \<in> set (detector_matches d tx)"
    and e: "a = length tx - length s0" "b = length tx - length s1" "t = det_type d"
    by (auto simp: find_sensitive_ranges_def)
  note bds = detector_matches_bounds [OF d(2)]
  then have "length s0 \<le> length tx" "length s1 < length s0" by (auto simp: suffix_length_le)
  moreover have "t = Card \<Longrightarrow> det_validate d = card_validate"
    using d(1) e(3) by (auto simp: detectors_def)
  ultimately show ?thesis using bds e slice_suffix [of s0 tx s1] by auto
qed

text \<open>C1. Text redaction and range detection agree on what is sensitive: \<open>redactText\<close> reports no
  hit exactly when \<open>findSensitiveRanges\<close> finds nothing, and then it returns its input unchanged.\<close>

theorem redact_text_agrees_with_ranges:
  "if find_sensitive_ranges tx = []
   then redact_text tx = \<lparr>rr_text = tx, rr_hits = [], rr_total = 0\<rparr>
   else 0 < rr_total (redact_text tx)"
  using redact_text_total_zero [of tx] find_sensitive_ranges_Nil [of tx] redact_text_unchanged [of tx] by auto

lemma ssn_match: "match_all ssn_re None ''123-45-6789'' = [(''123-45-6789'', [], [])]"
  by code_simp

lemma find_sensitive_rangesI:
  assumes "d \<in> set detectors" "(s0, s1, g) \<in> set (detector_matches d tx)"
  shows "(length tx - length s0, length tx - length s1, det_type d) \<in> set (find_sensitive_ranges tx)"
proof -
  let ?f = "\<lambda>d. map (\<lambda>(s0, s1, g). (length tx - length s0, length tx - length s1, det_type d)) (detector_matches d tx)"
  have "(length tx - length s0, length tx - length s1, det_type d) \<in> set (?f d)"
    using assms(2) by (auto intro: rev_image_eqI)
  then show ?thesis
    unfolding find_sensitive_ranges_def set_concat
    by (rule UN_I [where a = "?f d", rotated]) (simp add: assms(1))
qed

lemma ssn_sensitive: "(0, 11, Ssn) \<in> set (find_sensitive_ranges ''123-45-6789'')"
proof -
  let ?d = "\<lparr>det_type = Ssn, det_pattern = ssn_re, det_validate = (\<lambda>_. True)\<rparr>"
  have "(''123-45-6789'', [], []) \<in> set (detector_matches ?d ''123-45-6789'')"
    by (simp add: detector_matches_def ssn_match)
  then show ?thesis
    using find_sensitive_rangesI [of ?d "''123-45-6789''" "[]" "[]" "''123-45-6789''"]
    by (simp add: detectors_def eval_nat_numeral)
qed

theorem sensitive_ranges_sound_witness:
  "(0::nat) < 11 \<and> (11::nat) \<le> length ''123-45-6789'' \<and>
   (0, 11, Ssn) \<in> set (find_sensitive_ranges ''123-45-6789'')"
  using sensitive_ranges_sound [OF ssn_sensitive] ssn_sensitive by simp

subsection \<open>Deep redaction\<close>

fun same_shape :: "json \<Rightarrow> json \<Rightarrow> bool"
and same_shape_list :: "json list \<Rightarrow> json list \<Rightarrow> bool"
and same_shape_fields :: "(string \<times> json) list \<Rightarrow> (string \<times> json) list \<Rightarrow> bool"
where
  \<comment> \<open>equal but for the text of strings; a data URI held by an object field is equal, too\<close>
  "same_shape (JStr s) v = (case v of JStr _ \<Rightarrow> True | _ \<Rightarrow> False)"
| "same_shape (JArr xs) v = (case v of JArr ys \<Rightarrow> same_shape_list xs ys | _ \<Rightarrow> False)"
| "same_shape (JObj fs) v = (case v of JObj gs \<Rightarrow> same_shape_fields fs gs | _ \<Rightarrow> False)"
| "same_shape u v = (u = v)"
| "same_shape_list [] ys = (ys = [])"
| "same_shape_list (x # xs) ys = (case ys of [] \<Rightarrow> False | y # ys' \<Rightarrow> same_shape x y \<and> same_shape_list xs ys')"
| "same_shape_fields [] gs = (gs = [])"
| "same_shape_fields ((k, v) # fs) gs =
     (case gs of [] \<Rightarrow> False
      | (k', w) # gs' \<Rightarrow> k' = k \<and> (if is_data_url v then w = v else same_shape v w) \<and> same_shape_fields fs gs')"

lemma redact_deep_shapes:
  "same_shape v (fst (redact_deep v t1))"
  "same_shape_list xs (fst (redact_deep_list xs t2))"
  "same_shape_fields fs (fst (redact_deep_fields fs t3))"
  by (induction v t1 and xs t2 and fs t3 rule: redact_deep_redact_deep_list_redact_deep_fields.induct)
    (auto simp: Let_def split: prod.splits)

text \<open>Deep redaction rewrites string contents only: keys, order, numbers, flags and the
  nesting of the captured JSON stay, and a data URI stored under an object key is left alone.\<close>

theorem redact_deep_same_shape: "same_shape v (fst (redact_deep v tally))"
  by (rule redact_deep_shapes)

end
