(* ===== verification/Visual_Redaction.thy ===== *)
theory Visual_Redaction
  imports Redaction "HOL-Library.Product_Lexorder" "HOL-Library.Multiset" Complex_Main
begin

text \<open>
  \<^verbatim>\<open>packages/context-engine/src/visual-redaction.ts\<close>: OCR words are grouped into lines, the text
  detectors and two image detectors classify the lines, the words they touch are painted over.

  Jimp, the OCR engine and the base64 codec of Node are not part of the repository: they are the
  fields of \<open>imaging\<close>, the argument of the definitions that call them. An exception of
  theirs is \<^const>\<open>None\<close>. Coordinates are rational numbers; JavaScript computes the same
  expressions in double precision.
\<close>

record ocr_word =
  w_text :: string
  w_x0 :: rat
  w_y0 :: rat
  w_x1 :: rat
  w_y1 :: rat

datatype visual_type = Text_type redaction_type | Auth_code | Address

record sensitive_box =
  b_x0 :: rat
  b_y0 :: rat
  b_x1 :: rat
  b_y1 :: rat
  b_type :: visual_type

record ocr_line =
  ln_words :: "ocr_word list"
  ln_text :: string
  ln_starts :: "nat list"
  ln_ends :: "nat list"

subsection \<open>Lines\<close>

definition mid_y :: "ocr_word \<Rightarrow> rat" where
  "mid_y w = (w_y0 w + w_y1 w) / 2"

definition same_line :: "ocr_word \<Rightarrow> ocr_word \<Rightarrow> bool" where
  "same_line ref word \<longleftrightarrow>
     (let tolerance = max (w_y1 ref - w_y0 ref) (w_y1 word - w_y0 word) * (7 / 10)
      in \<bar>mid_y word - mid_y ref\<bar> \<le> tolerance)"

definition add_word :: "ocr_word list list \<Rightarrow> ocr_word \<Rightarrow> ocr_word list list" where
  "add_word groups word =
     (if groups \<noteq> [] \<and> same_line (hd (last groups)) word
      then butlast groups @ [last groups @ [word]]
      else groups @ [[word]])"

definition group_words :: "ocr_word list \<Rightarrow> ocr_word list list" where
  "group_words words =
     foldl add_word [] (sort_key (\<lambda>w. (mid_y w, w_x0 w)) (filter (\<lambda>w. js_trim (w_text w) \<noteq> []) words))"

fun layout :: "string \<Rightarrow> ocr_word list \<Rightarrow> string \<times> nat list \<times> nat list" where
  "layout tx [] = (tx, [], [])"
| "layout tx (w # ws) =
     (let t1 = (if tx \<noteq> [] then tx @ '' '' else tx);
          t2 = t1 @ w_text w
      in case layout t2 ws of (t, ss, es) \<Rightarrow> (t, length t1 # ss, length t2 # es))"

definition line_of :: "ocr_word list \<Rightarrow> ocr_line" where
  "line_of ws =
     (let in_order = sort_key w_x0 ws
      in case layout [] in_order of (tx, starts, ends) \<Rightarrow>
           \<lparr>ln_words = in_order, ln_text = tx, ln_starts = starts, ln_ends = ends\<rparr>)"

definition to_lines :: "ocr_word list \<Rightarrow> ocr_line list" where
  "to_lines words = map line_of (group_words words)"

subsection \<open>Classification\<close>

definition auth_code_re :: re where
  "auth_code_re = cats
     [WordB,
      alts [lit_i ''code'', lit_i ''otp'', lit_i ''2fa'', lit_i ''passcode'', lit_i ''pin'',
            cats [lit_i ''verification'', opt_re (cats [plus_re (CC js_space), lit_i ''code''])]],
      WordB, Rep True 0 (Some 12) (CC (\<lambda>c. \<not> digit c)),
      Grp 1 (Rep True 4 (Some 8) (CC digit)), WordB]"

definition name_re :: re where
  "name_re = cats [CC upper_az, plus_re (CC (\<lambda>c. alpha c \<or> c = CHR ''.''))]"

definition address_re :: re where
  "address_re = cats
     [WordB, Rep True 1 (Some 5) (CC digit), plus_re (CC js_space), name_re,
      Rep True 0 (Some 3) (cats [plus_re (CC js_space), name_re]), plus_re (CC js_space),
      alts [lit ''Street'', lit ''St'', lit ''Avenue'', lit ''Ave'', lit ''Road'', lit ''Rd'',
            lit ''Boulevard'', lit ''Blvd'', lit ''Lane'', lit ''Ln'', lit ''Drive'', lit ''Dr'',
            lit ''Court'', lit ''Ct'', lit ''Place'', lit ''Pl'', lit ''Terrace'', lit ''Ter'', lit ''Way''],
      WordB, opt_re (lit ''.'')]"

definition extra_detectors :: "(visual_type \<times> re \<times> nat option) list" where
  "extra_detectors = [(Auth_code, auth_code_re, Some 1), (Address, address_re, None)]"

fun index_of :: "string \<Rightarrow> string \<Rightarrow> nat option" where
  "index_of s p =
     (if starts_with s p then Some 0
      else case s of [] \<Rightarrow> None | c # s' \<Rightarrow> map_option Suc (index_of s' p))"

declare index_of.simps [simp del]

definition group_text :: "nat \<Rightarrow> string \<Rightarrow> (nat \<times> nat \<times> nat) list \<Rightarrow> string" where
  \<comment> \<open>\<open>match[i]\<close>, the empty string where the group took no part\<close>
  "group_text i tx g =
     (case map_of g i of None \<Rightarrow> []
      | Some (a, b) \<Rightarrow> take (a - b) (drop (length tx - a) tx))"

type_synonym vrange = "nat \<times> nat \<times> visual_type"

definition extra_ranges :: "string \<Rightarrow> vrange list" where
  "extra_ranges tx = concat (map (\<lambda>(ty, pat, grp).
     concat (map (\<lambda>(s0, s1, g).
       let whole = take (length s0 - length s1) s0;
           index = length tx - length s0;
           target = (case grp of None \<Rightarrow> whole | Some i \<Rightarrow> group_text i tx g)
       in if target = [] then []
          else let offset = (case grp of None \<Rightarrow> index
                             | Some _ \<Rightarrow> (case index_of whole target of Some i \<Rightarrow> i + index | None \<Rightarrow> index - 1))
               in [(offset, offset + length target, ty)])
       (match_all pat None tx))) extra_detectors)"

definition line_ranges :: "string \<Rightarrow> vrange list" where
  "line_ranges tx =
     map (\<lambda>(a, b, t). (a, b, Text_type t)) (find_sensitive_ranges tx) @ extra_ranges tx"

definition box_of :: "ocr_word \<Rightarrow> visual_type \<Rightarrow> sensitive_box" where
  "box_of w t = \<lparr>b_x0 = w_x0 w, b_y0 = w_y0 w, b_x1 = w_x1 w, b_y1 = w_y1 w, b_type = t\<rparr>"

definition line_entries :: "ocr_line \<Rightarrow> (ocr_word \<times> nat \<times> nat) list" where
  "line_entries line = zip (ln_words line) (zip (ln_starts line) (ln_ends line))"

definition range_boxes :: "ocr_line \<Rightarrow> vrange \<Rightarrow> sensitive_box list" where
  "range_boxes line r = (case r of (start, end_pos, ty) \<Rightarrow>
     map (\<lambda>(w, _). box_of w ty)
       (filter (\<lambda>(w, s, e). s < end_pos \<and> start < e) (line_entries line)))"

definition classify_sensitive_words :: "ocr_word list \<Rightarrow> sensitive_box list \<times> (visual_type \<times> nat) list" where
  "classify_sensitive_words words =
     (let rs = concat (map (\<lambda>line. map (Pair line) (line_ranges (ln_text line))) (to_lines words))
      in (concat (map (\<lambda>(line, r). range_boxes line r) rs),
          fold (\<lambda>(line, start, end_pos, ty) t. tally_add ty 1 t) rs []))"

subsection \<open>Masking\<close>

type_synonym pixel = "nat \<times> nat \<times> nat \<times> nat"

record bitmap =
  bm_w :: nat
  bm_h :: nat
  bm_px :: "nat \<Rightarrow> nat \<Rightarrow> pixel"

record imaging =
  base64_decode :: "string \<Rightarrow> bytes"
  base64_encode :: "bytes \<Rightarrow> string"
  decode_image :: "bytes \<Rightarrow> bitmap option"
  encode_image :: "string \<Rightarrow> bitmap \<Rightarrow> bytes option"
  recognize :: "bytes \<Rightarrow> ocr_word list option"

datatype image_error = Image_redaction_error string | Other_error

definition data_url_re :: re where
  \<comment> \<open>\<open>/^data:(image\/[a-z+.-]+);base64,([A-Za-z0-9+/=\s]+)$/i\<close>\<close>
  "data_url_re = cats
     [Bol, lit_i ''data:'', Grp 1 (cats [lit_i ''image/'', plus_re (CC (\<lambda>c. alpha c \<or> one_of ''+.-'' c))]),
      lit_i '';base64,'', Grp 2 (plus_re (CC (\<lambda>c. alnum c \<or> one_of ''+/='' c \<or> js_space c))), Eol]"

definition parse_data_url :: "imaging \<Rightarrow> string \<Rightarrow> image_error + (string \<times> bytes)" where
  "parse_data_url im url =
     (case search data_url_re None url of
        None \<Rightarrow> Inl (Image_redaction_error ''not an image data URL'')
      | Some (s0, b, s1, g) \<Rightarrow>
          Inr (to_lower (group_text 1 url g), base64_decode im (group_text 2 url g)))"

datatype coverage = Certified | Insufficient_resolution

record redact_image_result =
  ri_data_url :: string
  ri_masked :: nat
  ri_tally :: "(visual_type \<times> nat) list"
  ri_safe_text :: string
  ri_coverage :: coverage
  ri_width :: nat
  ri_height :: nat

definition box_padding :: int where "box_padding = 3"

definition min_analysis_width :: nat where "min_analysis_width = 1280"

definition min_analysis_height :: nat where "min_analysis_height = 600"

definition meets_analysis_floor :: "nat \<Rightarrow> nat \<Rightarrow> bool" where
  "meets_analysis_floor width height \<longleftrightarrow> min_analysis_width \<le> width \<and> min_analysis_height \<le> height"

definition black :: pixel where "black = (0, 0, 0, 255)"

definition box_left :: "sensitive_box \<Rightarrow> int" where
  "box_left box = max 0 (\<lfloor>b_x0 box\<rfloor> - box_padding)"

definition box_top :: "sensitive_box \<Rightarrow> int" where
  "box_top box = max 0 (\<lfloor>b_y0 box\<rfloor> - box_padding)"

definition box_right :: "nat \<Rightarrow> sensitive_box \<Rightarrow> int" where
  "box_right w box = min (int w) (\<lceil>b_x1 box\<rceil> + box_padding)"

definition box_bottom :: "nat \<Rightarrow> sensitive_box \<Rightarrow> int" where
  "box_bottom h box = min (int h) (\<lceil>b_y1 box\<rceil> + box_padding)"

definition paint_box :: "nat \<Rightarrow> nat \<Rightarrow> bitmap \<Rightarrow> sensitive_box \<Rightarrow> bitmap" where
  "paint_box w h bm box =
     (let x = box_left box; y = box_top box; x2 = box_right w box; y2 = box_bottom h box
      in if x2 \<le> x \<or> y2 \<le> y then bm
         else bm\<lparr>bm_px := (\<lambda>i j. if x \<le> int i \<and> int i < x2 \<and> y \<le> int j \<and> int j < y2
                                     then black else bm_px bm i j)\<rparr>)"

definition paint_boxes :: "bitmap \<Rightarrow> sensitive_box list \<Rightarrow> bitmap" where
  "paint_boxes bm boxes = foldl (paint_box (bm_w bm) (bm_h bm)) bm boxes"

definition word_key :: "ocr_word \<Rightarrow> rat \<times> rat \<times> rat \<times> rat" where
  "word_key w = (w_x0 w, w_y0 w, w_x1 w, w_y1 w)"

definition box_key :: "sensitive_box \<Rightarrow> rat \<times> rat \<times> rat \<times> rat" where
  "box_key b = (b_x0 b, b_y0 b, b_x1 b, b_y1 b)"

definition safe_line_words :: "sensitive_box list \<Rightarrow> ocr_line \<Rightarrow> ocr_word list" where
  "safe_line_words boxes line = filter (\<lambda>w. word_key w \<notin> set (map box_key boxes)) (ln_words line)"

definition safe_ocr_text :: "ocr_word list \<Rightarrow> sensitive_box list \<Rightarrow> string" where
  "safe_ocr_text words boxes =
     take 50000 (join_with [CHR 0x0A]
       (filter (\<lambda>s. s \<noteq> []) (map (\<lambda>line. join_with '' '' (map w_text (safe_line_words boxes line))) (to_lines words))))"

definition redact_image_data_url :: "imaging \<Rightarrow> string \<Rightarrow> image_error + redact_image_result" where
  "redact_image_data_url im url =
     (case parse_data_url im url of
        Inl e \<Rightarrow> Inl e
      | Inr (mime, buffer) \<Rightarrow>
          (case decode_image im buffer of
             None \<Rightarrow> Inl (Image_redaction_error ''image decode failed'')
           | Some bm \<Rightarrow>
               let w = bm_w bm; h = bm_h bm
               in if \<not> meets_analysis_floor w h
                  then Inr \<lparr>ri_data_url = url, ri_masked = 0, ri_tally = [], ri_safe_text = [],
                            ri_coverage = Insufficient_resolution, ri_width = w, ri_height = h\<rparr>
                  else (case recognize im buffer of
                          None \<Rightarrow> Inl (Image_redaction_error ''ocr failed'')
                        | Some words \<Rightarrow>
                            (case classify_sensitive_words words of (boxes, tally) \<Rightarrow>
                               let safe = safe_ocr_text words boxes
                               in if boxes = []
                                  then Inr \<lparr>ri_data_url = url, ri_masked = 0, ri_tally = [], ri_safe_text = safe,
                                            ri_coverage = Certified, ri_width = w, ri_height = h\<rparr>
                                  else let out_mime = (if mime = ''image/png'' then ''image/png'' else ''image/jpeg'')
                                       in (case encode_image im out_mime (paint_boxes bm boxes) of
                                             None \<Rightarrow> Inl Other_error
                                           | Some out \<Rightarrow>
                                               Inr \<lparr>ri_data_url = ''data:'' @ out_mime @ '';base64,'' @ base64_encode im out,
                                                    ri_masked = length boxes, ri_tally = tally, ri_safe_text = safe,
                                                    ri_coverage = Certified, ri_width = w, ri_height = h\<rparr>)))))"

subsection \<open>Facts about lines\<close>

lemma layout_entries:
  "layout t0 ws = (t, ss, es) \<Longrightarrow>
     length ss = length ws \<and> length es = length ws \<and> prefix t0 t \<and>
     (\<forall>x\<in>set (zip ws (zip ss es)). case x of (w, s, e) \<Rightarrow>
        s \<le> e \<and> e \<le> length t \<and> take (e - s) (drop s t) = w_text w)"
proof (induction t0 ws arbitrary: t ss es rule: layout.induct)
  case (2 t0 w ws)
  define t1 where "t1 = (if t0 \<noteq> [] then t0 @ '' '' else t0)"
  obtain tt s' e' where l: "layout (t1 @ w_text w) ws = (tt, s', e')" by (cases "layout (t1 @ w_text w) ws") auto
  from "2.prems" l have r: "t = tt" "ss = length t1 # s'" "es = length (t1 @ w_text w) # e'"
    by (auto simp: t1_def Let_def)
  have ih: "length s' = length ws \<and> length e' = length ws \<and> prefix (t1 @ w_text w) tt \<and>
     (\<forall>x\<in>set (zip ws (zip s' e')). case x of (w, s, e) \<Rightarrow>
        s \<le> e \<and> e \<le> length tt \<and> take (e - s) (drop s tt) = w_text w)"
    using "2.IH" [OF t1_def refl] l by blast
  then obtain u where u: "tt = t1 @ w_text w @ u" by (auto simp: prefix_def)
  then have "prefix t0 tt" by (simp add: t1_def prefix_def)
  with ih show ?case by (simp add: r u)
qed simp

lemma line_of_words [simp]: "ln_words (line_of ws) = sort_key w_x0 ws"
  by (simp add: line_of_def Let_def case_prod_unfold)

definition locates_words :: "ocr_line \<Rightarrow> bool" where
  "locates_words line \<longleftrightarrow>
     map fst (line_entries line) = ln_words line \<and>
     list_all (\<lambda>(w, s, e). s \<le> e \<and> e \<le> length (ln_text line) \<and> take (e - s) (drop s (ln_text line)) = w_text w)
       (line_entries line)"

lemma line_of_locates: "locates_words (line_of ws)"
proof -
  obtain t ss es where l: "layout [] (sort_key w_x0 ws) = (t, ss, es)"
    by (cases "layout [] (sort_key w_x0 ws)") auto
  show ?thesis using layout_entries [OF l]
    by (simp add: line_of_def l locates_words_def line_entries_def Let_def list_all_iff)
qed

lemma concat_add_words: "concat (foldl add_word gs ws) = concat gs @ ws"
proof (induction ws arbitrary: gs)
  case (Cons w ws)
  have "concat (add_word gs w) = concat gs @ [w]"
    by (cases gs rule: rev_cases) (simp_all add: add_word_def)
  then show ?case using Cons.IH [of "add_word gs w"] by simp
qed simp

lemma mset_line_words: "mset (concat (map ln_words (map line_of gs))) = mset (concat gs)"
  by (induction gs) simp_all

text \<open>Line reconstruction loses and invents no word: the words of all lines are, as a multiset,
  the non-blank OCR words, and in each line the recorded start and end of a word delimit exactly
  the word's text in the line's text.\<close>

theorem to_lines_partition:
  "mset (concat (map ln_words (to_lines words))) = mset (filter (\<lambda>w. js_trim (w_text w) \<noteq> []) words) \<and>
   list_all locates_words (to_lines words)"
proof
  show "mset (concat (map ln_words (to_lines words))) = mset (filter (\<lambda>w. js_trim (w_text w) \<noteq> []) words)"
    using mset_line_words [of "group_words words"]
    by (simp add: to_lines_def group_words_def concat_add_words)
  show "list_all locates_words (to_lines words)"
    by (simp add: to_lines_def list_all_iff line_of_locates)
qed

subsection \<open>Facts about masking\<close>

definition in_padded :: "nat \<Rightarrow> nat \<Rightarrow> nat \<Rightarrow> nat \<Rightarrow> sensitive_box \<Rightarrow> bool" where
  "in_padded w h i j box \<longleftrightarrow>
     box_left box \<le> int i \<and> int i < box_right w box \<and> box_top box \<le> int j \<and> int j < box_bottom h box"

lemma paint_box_px:
  "bm_px (paint_box w h bm box) i j = (if in_padded w h i j box then black else bm_px bm i j)"
  "bm_w (paint_box w h bm box) = bm_w bm" "bm_h (paint_box w h bm box) = bm_h bm"
  by (auto simp: paint_box_def in_padded_def Let_def)

lemma paint_fold_px:
  "bm_px (foldl (paint_box w h) bm boxes) i j = (if list_ex (in_padded w h i j) boxes then black else bm_px bm i j)"
  "bm_w (foldl (paint_box w h) bm boxes) = bm_w bm" "bm_h (foldl (paint_box w h) bm boxes) = bm_h bm"
  by (induction boxes arbitrary: bm) (auto simp: paint_box_px)

lemma paint_boxes_px:
  "bm_px (paint_boxes bm boxes) i j =
     (if list_ex (in_padded (bm_w bm) (bm_h bm) i j) boxes then black else bm_px bm i j)"
  by (simp add: paint_boxes_def paint_fold_px)

lemma concat_map_ranges:
  "concat (map (\<lambda>(l, r). f l r) (concat (map (\<lambda>l. map (Pair l) (g l)) ls))) =
     concat (map (\<lambda>l. concat (map (f l) (g l))) ls)"
  by (induction ls) (simp_all add: o_def)

lemma classify_boxes:
  "fst (classify_sensitive_words words) =
     concat (map (\<lambda>line. concat (map (range_boxes line) (line_ranges (ln_text line)))) (to_lines words))"
  by (simp add: classify_sensitive_words_def Let_def concat_map_ranges)

lemma sensitive_word_boxed:
  assumes "line \<in> set (to_lines words)" "(a, b, ty) \<in> set (line_ranges (ln_text line))"
    "(w, s, e) \<in> set (line_entries line)" "s < b" "a < e"
  shows "box_of w ty \<in> set (fst (classify_sensitive_words words))"
proof -
  have "box_of w ty \<in> set (range_boxes line (a, b, ty))"
    using assms(3-5) by (force simp: range_boxes_def)
  then show ?thesis using assms(1,2) by (auto simp: classify_boxes)
qed

text \<open>C2. A word of a line that overlaps a sensitive range of that line is painted over and left
  out of the searchable text: every pixel of its box that the bitmap has is opaque black after
  masking, and the word is not among the words the line contributes to the text.\<close>

theorem sensitive_word_masked:
  assumes "line \<in> set (to_lines words)" "(a, b, ty) \<in> set (line_ranges (ln_text line))"
    and "(w, s, e) \<in> set (line_entries line)" "s < b" "a < e"
    and "w_x0 w \<le> of_nat i" "of_nat i < w_x1 w" "w_y0 w \<le> of_nat j" "of_nat j < w_y1 w"
    and "i < bm_w bm" "j < bm_h bm"
  shows "bm_px (paint_boxes bm (fst (classify_sensitive_words words))) i j = black \<and>
    w \<notin> set (safe_line_words (fst (classify_sensitive_words words)) line)"
proof -
  let ?b = "box_of w ty"
  note box = sensitive_word_boxed [OF assms(1-5)]
  have "\<lfloor>w_x0 w\<rfloor> \<le> int i" "int i < \<lceil>w_x1 w\<rceil>" "\<lfloor>w_y0 w\<rfloor> \<le> int j" "int j < \<lceil>w_y1 w\<rceil>"
    using assms(6-9) by (auto simp: less_ceiling_iff floor_le_iff)
  then have "in_padded (bm_w bm) (bm_h bm) i j ?b"
    using assms(10,11)
    by (auto simp: in_padded_def box_of_def box_left_def box_top_def box_right_def box_bottom_def box_padding_def)
  then have "list_ex (in_padded (bm_w bm) (bm_h bm) i j) (fst (classify_sensitive_words words))"
    using box by (auto simp: list_ex_iff)
  moreover have "word_key w = box_key ?b" by (simp add: word_key_def box_key_def box_of_def)
  then have "word_key w \<in> box_key ` set (fst (classify_sensitive_words words))" using box by blast
  ultimately show ?thesis by (simp add: paint_boxes_px safe_line_words_def)
qed

definition ssn_word :: ocr_word where
  "ssn_word = \<lparr>w_text = ''123-45-6789'', w_x0 = 10, w_y0 = 10, w_x1 = 90, w_y1 = 20\<rparr>"

lemma ssn_word_lines: "to_lines [ssn_word] = [line_of [ssn_word]]"
proof -
  have "js_trim (w_text ssn_word) \<noteq> []" by code_simp
  then show ?thesis by (simp add: to_lines_def group_words_def add_word_def)
qed

lemma ssn_word_line:
  "ln_text (line_of [ssn_word]) = ''123-45-6789''" "line_entries (line_of [ssn_word]) = [(ssn_word, 0, 11)]"
  by (simp_all add: line_of_def line_entries_def Let_def ssn_word_def)

theorem sensitive_word_masked_witness:
  "bm_px (paint_boxes \<lparr>bm_w = 1280, bm_h = 720, bm_px = \<lambda>_ _. (255, 255, 255, 255)\<rparr>
      (fst (classify_sensitive_words [ssn_word]))) 50 15 = black \<and>
   ssn_word \<notin> set (safe_line_words (fst (classify_sensitive_words [ssn_word])) (line_of [ssn_word]))"
proof (rule sensitive_word_masked [where a = 0 and b = 11 and ty = "Text_type Ssn" and s = 0 and e = 11])
  show "line_of [ssn_word] \<in> set (to_lines [ssn_word])" by (simp add: ssn_word_lines)
  show "(0, 11, Text_type Ssn) \<in> set (line_ranges (ln_text (line_of [ssn_word])))"
    using ssn_sensitive by (force simp: ssn_word_line line_ranges_def)
qed (simp_all add: ssn_word_line, simp_all add: ssn_word_def)

text \<open>What the two coverages promise. Below the analysis floor the input comes back unchanged,
  nothing is counted as masked and the OCR engine is not consulted; a certified result comes from a
  decoded bitmap at or above the floor and a successful OCR run, and its image is the input when no
  word is sensitive, else the encoding of the bitmap with all sensitive boxes painted over.\<close>

definition certified_result :: "imaging \<Rightarrow> string \<Rightarrow> redact_image_result \<Rightarrow> bool" where
  "certified_result im url r \<longleftrightarrow> (\<exists>mime buffer bm words.
     parse_data_url im url = Inr (mime, buffer) \<and> decode_image im buffer = Some bm \<and>
     meets_analysis_floor (bm_w bm) (bm_h bm) \<and> ri_width r = bm_w bm \<and> ri_height r = bm_h bm \<and>
     recognize im buffer = Some words \<and>
     (let boxes = fst (classify_sensitive_words words);
          out_mime = (if mime = ''image/png'' then ''image/png'' else ''image/jpeg'')
      in ri_masked r = length boxes \<and> ri_safe_text r = safe_ocr_text words boxes \<and>
         (if boxes = [] then ri_data_url r = url
          else \<exists>out. encode_image im out_mime (paint_boxes bm boxes) = Some out \<and>
                 ri_data_url r = ''data:'' @ out_mime @ '';base64,'' @ base64_encode im out)))"

definition floor_result :: "imaging \<Rightarrow> string \<Rightarrow> redact_image_result \<Rightarrow> bool" where
  "floor_result im url r \<longleftrightarrow>
     ri_data_url r = url \<and> ri_masked r = 0 \<and> ri_safe_text r = [] \<and>
     \<not> meets_analysis_floor (ri_width r) (ri_height r) \<and>
     (\<forall>ocr. redact_image_data_url (im\<lparr>recognize := ocr\<rparr>) url = Inr r)"

lemma parse_data_url_recognize [simp]:
  "parse_data_url (im\<lparr>recognize := ocr\<rparr>) url = parse_data_url im url"
  by (simp add: parse_data_url_def split: option.splits)

theorem redact_image_coverage:
  assumes "redact_image_data_url im url = Inr r"
  shows "case ri_coverage r of Certified \<Rightarrow> certified_result im url r
     | Insufficient_resolution \<Rightarrow> floor_result im url r"
proof -
  from assms obtain mime buffer bm where p: "parse_data_url im url = Inr (mime, buffer)"
    and d: "decode_image im buffer = Some bm"
    by (auto simp: redact_image_data_url_def split: sum.splits prod.splits option.splits)
  show ?thesis
  proof (cases "meets_analysis_floor (bm_w bm) (bm_h bm)")
    case False
    with assms p d show ?thesis by (auto simp: redact_image_data_url_def floor_result_def)
  next
    case True
    obtain words where o: "recognize im buffer = Some words"
      using assms p d True by (auto simp: redact_image_data_url_def Let_def split: option.splits)
    obtain boxes tally where c: "classify_sensitive_words words = (boxes, tally)"
      by (cases "classify_sensitive_words words")
    have "ri_coverage r = Certified"
      using assms p d True o c
      by (auto simp: redact_image_data_url_def Let_def split: if_splits option.splits)
    moreover have "certified_result im url r"
      unfolding certified_result_def using p d True o c assms
      by (intro exI [of _ mime] exI [of _ buffer] exI [of _ bm] exI [of _ words])
        (auto simp: redact_image_data_url_def Let_def split: if_splits option.splits)
    ultimately show ?thesis by simp
  qed
qed

definition blank_imaging :: "nat \<Rightarrow> imaging" where
  \<comment> \<open>a codec that decodes every buffer to a blank screen of the given width, and an OCR engine that
     finds no word\<close>
  "blank_imaging w =
     \<lparr>base64_decode = \<lambda>s. map of_char s, base64_encode = map (\<lambda>b. char_of (unat b)),
      decode_image = \<lambda>_. Some \<lparr>bm_w = w, bm_h = 720, bm_px = \<lambda>_ _. black\<rparr>,
      encode_image = \<lambda>_ _. Some [], recognize = \<lambda>_. Some []\<rparr>"

lemma blank_parse:
  "search data_url_re None ''data:image/png;base64,AA=='' =
     Some (''data:image/png;base64,AA=='', Some CHR ''='', [], [(2, 4, 0), (1, 21, 12)])"
  by code_simp

lemma blank_redacted:
  "redact_image_data_url (blank_imaging 1920) ''data:image/png;base64,AA=='' =
     Inr \<lparr>ri_data_url = ''data:image/png;base64,AA=='', ri_masked = 0, ri_tally = [], ri_safe_text = [],
          ri_coverage = Certified, ri_width = 1920, ri_height = 720\<rparr>"
  by (simp add: redact_image_data_url_def parse_data_url_def blank_parse blank_imaging_def Let_def
      meets_analysis_floor_def min_analysis_width_def min_analysis_height_def classify_sensitive_words_def
      safe_ocr_text_def to_lines_def group_words_def)

theorem redact_image_coverage_witness:
  "certified_result (blank_imaging 1920) ''data:image/png;base64,AA==''
     \<lparr>ri_data_url = ''data:image/png;base64,AA=='', ri_masked = 0, ri_tally = [], ri_safe_text = [],
      ri_coverage = Certified, ri_width = 1920, ri_height = 720\<rparr>"
  using redact_image_coverage [OF blank_redacted] by simp

end
