(* ===== verification/Inline_Media.thy ===== *)
theory Inline_Media
  imports Visual_Redaction
begin

text \<open>
  Inline images inside JSON payloads: \<^verbatim>\<open>packages/context-engine/src/capture-mode.ts\<close>,
  \<^verbatim>\<open>services/api/src/legacy-media.ts\<close>, \<^verbatim>\<open>services/api/src/image-redaction.ts\<close> and the redaction states of
  \<^verbatim>\<open>packages/schema/src/context-moment.ts\<close>. Every walk is a definition of its own, as in the code; the
  lemmas relate them to \<open>images_of\<close>, the image strings of a value in document order.

  An object built by \<open>out[k] = v\<close> over \<open>Object.entries\<close> is the list of the entries in the same
  order (JSON objects have distinct keys; integer-like keys and \<^verbatim>\<open>__proto__\<close> are left aside).
\<close>

subsection \<open>Capture modes\<close>

datatype capture_mode = Full | Blurred | Text_only

definition screenshot_key :: string where
  "screenshot_key = ''screenshot_data_url''"

definition is_legacy_image_key :: "string \<Rightarrow> bool" where
  "is_legacy_image_key k \<longleftrightarrow> to_lower k = screenshot_key"

fun strip_text_only :: "json \<Rightarrow> json option"
and strip_text_only_list :: "json list \<Rightarrow> json list"
and strip_text_only_fields :: "(string \<times> json) list \<Rightarrow> (string \<times> json) list"
where
  "strip_text_only (JStr s) = (if is_image_str s then None else Some (JStr s))"
| "strip_text_only (JArr xs) = Some (JArr (strip_text_only_list xs))"
| "strip_text_only (JObj fs) = Some (JObj (strip_text_only_fields fs))"
| "strip_text_only v = Some v"
| "strip_text_only_list [] = []"
| "strip_text_only_list (x # xs) =
     (case strip_text_only x of None \<Rightarrow> [] | Some y \<Rightarrow> [y]) @ strip_text_only_list xs"
| "strip_text_only_fields [] = []"
| "strip_text_only_fields ((k, v) # fs) =
     (if to_lower k = screenshot_key then []
      else case strip_text_only v of None \<Rightarrow> [] | Some w \<Rightarrow> [(k, w)]) @ strip_text_only_fields fs"

definition apply_capture_mode :: "json \<Rightarrow> capture_mode \<Rightarrow> json option" where
  "apply_capture_mode payload mode = (if mode \<noteq> Text_only then Some payload else strip_text_only payload)"

definition frames_allowed :: "capture_mode \<Rightarrow> bool" where
  "frames_allowed mode \<longleftrightarrow> mode \<noteq> Text_only"

subsection \<open>Legacy payloads\<close>

fun legacy_walk :: "json \<Rightarrow> bool \<Rightarrow> json option \<times> bool"
and legacy_walk_list :: "json list \<Rightarrow> bool \<Rightarrow> json list \<times> bool"
and legacy_walk_fields :: "(string \<times> json) list \<Rightarrow> bool \<Rightarrow> (string \<times> json) list \<times> bool"
where
  \<comment> \<open>the second component is the variable \<open>found\<close>\<close>
  "legacy_walk (JStr s) found = (if is_image_str s then (None, True) else (Some (JStr s), found))"
| "legacy_walk (JArr xs) found = (case legacy_walk_list xs found of (ys, f) \<Rightarrow> (Some (JArr ys), f))"
| "legacy_walk (JObj fs) found = (case legacy_walk_fields fs found of (gs, f) \<Rightarrow> (Some (JObj gs), f))"
| "legacy_walk v found = (Some v, found)"
| "legacy_walk_list [] found = ([], found)"
| "legacy_walk_list (x # xs) found =
     (case legacy_walk x found of (y, f) \<Rightarrow>
        case legacy_walk_list xs f of (ys, f') \<Rightarrow> ((case y of None \<Rightarrow> ys | Some z \<Rightarrow> z # ys), f'))"
| "legacy_walk_fields [] found = ([], found)"
| "legacy_walk_fields ((k, v) # fs) found =
     (if is_legacy_image_key k
      then legacy_walk_fields fs (found \<or> v \<noteq> JNull)
      else case legacy_walk v found of (w, f) \<Rightarrow>
             case legacy_walk_fields fs f of (gs, f') \<Rightarrow> ((case w of None \<Rightarrow> gs | Some u \<Rightarrow> (k, u) # gs), f'))"

definition legacy_reason :: string where
  "legacy_reason = ''legacy_inline_media_not_verified''"

definition spread :: "json \<Rightarrow> (string \<times> json) list" where
  \<comment> \<open>\<open>{ ...v }\<close>: an array contributes its indices as keys\<close>
  "spread v = (case v of JObj fs \<Rightarrow> fs | JArr xs \<Rightarrow> map (\<lambda>(i, x). (nat_str i, x)) (enumerate 0 xs) | _ \<Rightarrow> [])"

definition legacy_note :: "json \<Rightarrow> json" where
  "legacy_note cleaned =
     JObj (obj_set ''excluded_reason'' (JStr legacy_reason)
       (obj_set ''legacy_media_excluded'' (JBool True)
         (obj_set ''legacy_media_detected'' (JBool True) (spread cleaned))))"

definition is_object :: "json \<Rightarrow> bool" where
  \<comment> \<open>\<open>v !== null && typeof v === "object"\<close>\<close>
  "is_object v \<longleftrightarrow> (case v of JArr _ \<Rightarrow> True | JObj _ \<Rightarrow> True | _ \<Rightarrow> False)"

definition sanitize_legacy_inline_media :: "json \<Rightarrow> json" where
  "sanitize_legacy_inline_media payload =
     (if \<not> is_object payload then payload
      else case legacy_walk payload False of
             (None, _) \<Rightarrow> JNull \<comment> \<open>not reached: an object or array is not dropped\<close>
           | (Some cleaned, found) \<Rightarrow> if found then legacy_note cleaned else cleaned)"

subsection \<open>Stripping, redacting and extracting images\<close>

fun strip_images :: "json \<Rightarrow> nat \<Rightarrow> json option \<times> nat"
and strip_images_list :: "json list \<Rightarrow> nat \<Rightarrow> json list \<times> nat"
and strip_images_fields :: "(string \<times> json) list \<Rightarrow> nat \<Rightarrow> (string \<times> json) list \<times> nat"
where
  "strip_images (JStr s) n = (if is_image_str s then (None, n + 1) else (Some (JStr s), n))"
| "strip_images (JArr xs) n = (case strip_images_list xs n of (ys, n') \<Rightarrow> (Some (JArr ys), n'))"
| "strip_images (JObj fs) n = (case strip_images_fields fs n of (gs, n') \<Rightarrow> (Some (JObj gs), n'))"
| "strip_images v n = (Some v, n)"
| "strip_images_list [] n = ([], n)"
| "strip_images_list (x # xs) n =
     (case strip_images x n of (y, n1) \<Rightarrow>
        case strip_images_list xs n1 of (ys, n2) \<Rightarrow> ((case y of None \<Rightarrow> ys | Some z \<Rightarrow> z # ys), n2))"
| "strip_images_fields [] n = ([], n)"
| "strip_images_fields ((k, v) # fs) n =
     (case strip_images v n of (w, n1) \<Rightarrow>
        case strip_images_fields fs n1 of (gs, n2) \<Rightarrow> ((case w of None \<Rightarrow> gs | Some u \<Rightarrow> (k, u) # gs), n2))"

datatype image_kind = Screenshot | Frame

definition hint_kind :: "string option \<Rightarrow> image_kind" where
  "hint_kind key_hint =
     (case key_hint of None \<Rightarrow> Frame | Some k \<Rightarrow> if to_lower k = screenshot_key then Screenshot else Frame)"

fun extract_walk :: "string option \<Rightarrow> json \<Rightarrow> (string \<times> image_kind) list \<Rightarrow> json option \<times> (string \<times> image_kind) list"
and extract_walk_list :: "json list \<Rightarrow> (string \<times> image_kind) list \<Rightarrow> json list \<times> (string \<times> image_kind) list"
and extract_walk_fields :: "(string \<times> json) list \<Rightarrow> (string \<times> image_kind) list \<Rightarrow> (string \<times> json) list \<times> (string \<times> image_kind) list"
where
  "extract_walk h (JStr s) imgs =
     (if is_image_str s then (None, imgs @ [(s, hint_kind h)]) else (Some (JStr s), imgs))"
| "extract_walk h (JArr xs) imgs = (case extract_walk_list xs imgs of (ys, i) \<Rightarrow> (Some (JArr ys), i))"
| "extract_walk h (JObj fs) imgs = (case extract_walk_fields fs imgs of (gs, i) \<Rightarrow> (Some (JObj gs), i))"
| "extract_walk h v imgs = (Some v, imgs)"
| "extract_walk_list [] imgs = ([], imgs)"
| "extract_walk_list (x # xs) imgs =
     (case extract_walk None x imgs of (y, i) \<Rightarrow>
        case extract_walk_list xs i of (ys, i') \<Rightarrow> ((case y of None \<Rightarrow> ys | Some z \<Rightarrow> z # ys), i'))"
| "extract_walk_fields [] imgs = ([], imgs)"
| "extract_walk_fields ((k, v) # fs) imgs =
     (case extract_walk (Some k) v imgs of (w, i) \<Rightarrow>
        case extract_walk_fields fs i of (gs, i') \<Rightarrow> ((case w of None \<Rightarrow> gs | Some u \<Rightarrow> (k, u) # gs), i'))"

definition extract_payload_images :: "json \<Rightarrow> json option \<times> (string \<times> image_kind) list" where
  "extract_payload_images payload = extract_walk None payload []"

definition max_images_per_payload :: nat where "max_images_per_payload = 6"

record payload_image_options =
  po_ocr :: "imaging option"
  po_strict :: bool
  po_storage_enabled :: bool

datatype image_state = State_none | State_applied | State_failed | State_skipped | State_blocked_strict
  | State_storage_disabled | State_coverage_insufficient

fun state_name :: "image_state \<Rightarrow> string" where
  "state_name State_none = ''none''"
| "state_name State_applied = ''applied''"
| "state_name State_failed = ''failed''"
| "state_name State_skipped = ''skipped''"
| "state_name State_blocked_strict = ''blocked_strict''"
| "state_name State_storage_disabled = ''storage_disabled''"
| "state_name State_coverage_insufficient = ''coverage_insufficient''"

definition is_safe_media_redaction_state :: "string option \<Rightarrow> bool" where
  "is_safe_media_redaction_state state \<longleftrightarrow> state = Some ''applied'' \<or> state = Some ''none''"

record image_report =
  ir_state :: image_state
  ir_masked :: nat
  ir_tally :: "(visual_type \<times> nat) list"

record image_outcome =
  io_payload :: "json option"
  io_report :: image_report
  io_ocr_text :: "string option"

record walk_state =
  ws_seen :: nat
  ws_failed :: bool
  ws_uncertified :: bool
  ws_masked :: nat
  ws_tally :: "(visual_type \<times> nat) list"
  ws_chunks :: "string list"

definition walk_init :: walk_state where
  "walk_init = \<lparr>ws_seen = 0, ws_failed = False, ws_uncertified = False, ws_masked = 0, ws_tally = [], ws_chunks = []\<rparr>"

definition merge_tally :: "('k \<times> nat) list \<Rightarrow> ('k \<times> nat) list \<Rightarrow> ('k \<times> nat) list" where
  "merge_tally ns tally = fold (\<lambda>(t, n) acc. tally_add t n acc) ns tally"

text \<open>
  The elements of an array are walked concurrently (\<open>Promise.all\<close>), so the number an image gets from
  \<open>seen += 1\<close> depends on the schedule. The argument \<open>number\<close> is that schedule: it maps the position of
  an image in document order, from 1, to the number the counter gave it. The walk below visits the
  images in document order, with the outcome each of them has.
\<close>

definition redact_one :: "imaging option \<Rightarrow> (nat \<Rightarrow> nat) \<Rightarrow> string \<Rightarrow> walk_state \<Rightarrow> image_error + (string \<times> walk_state)" where
  "redact_one ocr number v st =
     (let st1 = st\<lparr>ws_seen := ws_seen st + 1\<rparr>
      in if max_images_per_payload < number (ws_seen st1) then Inr (v, st1\<lparr>ws_failed := True\<rparr>)
         else (case ocr of
                 None \<Rightarrow> Inr (v, st1)
               | Some im \<Rightarrow>
                   (case redact_image_data_url im v of
                      Inr r \<Rightarrow>
                        if ri_coverage r \<noteq> Certified then Inr (v, st1\<lparr>ws_uncertified := True\<rparr>)
                        else Inr (ri_data_url r,
                               st1\<lparr>ws_masked := ws_masked st1 + ri_masked r,
                                   ws_tally := merge_tally (ri_tally r) (ws_tally st1),
                                   ws_chunks := ws_chunks st1 @ (if ri_safe_text r = [] then [] else [ri_safe_text r])\<rparr>)
                    | Inl (Image_redaction_error msg) \<Rightarrow> Inr (v, st1\<lparr>ws_failed := True\<rparr>)
                    | Inl Other_error \<Rightarrow> Inl Other_error)))"

fun redact_walk :: "imaging option \<Rightarrow> (nat \<Rightarrow> nat) \<Rightarrow> json \<Rightarrow> walk_state \<Rightarrow> image_error + (json \<times> walk_state)"
and redact_walk_list :: "imaging option \<Rightarrow> (nat \<Rightarrow> nat) \<Rightarrow> json list \<Rightarrow> walk_state \<Rightarrow> image_error + (json list \<times> walk_state)"
and redact_walk_fields :: "imaging option \<Rightarrow> (nat \<Rightarrow> nat) \<Rightarrow> (string \<times> json) list \<Rightarrow> walk_state \<Rightarrow> image_error + ((string \<times> json) list \<times> walk_state)"
where
  "redact_walk ocr number (JStr s) st =
     (if is_image_str s
      then (case redact_one ocr number s st of Inl e \<Rightarrow> Inl e | Inr (s', st') \<Rightarrow> Inr (JStr s', st'))
      else Inr (JStr s, st))"
| "redact_walk ocr number (JArr xs) st =
     (case redact_walk_list ocr number xs st of Inl e \<Rightarrow> Inl e | Inr (ys, st') \<Rightarrow> Inr (JArr ys, st'))"
| "redact_walk ocr number (JObj fs) st =
     (case redact_walk_fields ocr number fs st of Inl e \<Rightarrow> Inl e | Inr (gs, st') \<Rightarrow> Inr (JObj gs, st'))"
| "redact_walk ocr number v st = Inr (v, st)"
| "redact_walk_list ocr number [] st = Inr ([], st)"
| "redact_walk_list ocr number (x # xs) st =
     (case redact_walk ocr number x st of
        Inl e \<Rightarrow> Inl e
      | Inr (y, st1) \<Rightarrow>
          (case redact_walk_list ocr number xs st1 of Inl e \<Rightarrow> Inl e | Inr (ys, st2) \<Rightarrow> Inr (y # ys, st2)))"
| "redact_walk_fields ocr number [] st = Inr ([], st)"
| "redact_walk_fields ocr number ((k, v) # fs) st =
     (case redact_walk ocr number v st of
        Inl e \<Rightarrow> Inl e
      | Inr (w, st1) \<Rightarrow>
          (case redact_walk_fields ocr number fs st1 of Inl e \<Rightarrow> Inl e | Inr (gs, st2) \<Rightarrow> Inr ((k, w) # gs, st2)))"

definition joined_chunks :: "string list \<Rightarrow> string option" where
  "joined_chunks chunks = (if chunks = [] then None else Some (take 50000 (join_with [CHR 0x0A] chunks)))"

definition outcome :: "json option \<Rightarrow> image_state \<Rightarrow> walk_state \<Rightarrow> image_outcome" where
  "outcome payload state st =
     \<lparr>io_payload = payload,
      io_report = \<lparr>ir_state = state, ir_masked = ws_masked st, ir_tally = ws_tally st\<rparr>,
      io_ocr_text = joined_chunks (ws_chunks st)\<rparr>"

definition redact_payload_images :: "(nat \<Rightarrow> nat) \<Rightarrow> json \<Rightarrow> payload_image_options \<Rightarrow> image_error + image_outcome" where
  "redact_payload_images number payload opts =
     (if \<not> po_storage_enabled opts
      then (case strip_images payload 0 of (value, stripped) \<Rightarrow>
              Inr \<lparr>io_payload = value,
                   io_report = \<lparr>ir_state = (if 0 < stripped then State_storage_disabled else State_none),
                                ir_masked = 0, ir_tally = []\<rparr>,
                   io_ocr_text = None\<rparr>)
      else (case redact_walk (po_ocr opts) number payload walk_init of
              Inl e \<Rightarrow> Inl e
            | Inr (next, st) \<Rightarrow>
                if ws_seen st = 0 then Inr (outcome (Some next) State_none st)
                else if po_ocr opts = None then Inr (outcome (Some next) State_skipped st)
                else if ws_failed st \<or> ws_uncertified st
                then if po_strict opts then Inr (outcome (fst (strip_images next 0)) State_blocked_strict st)
                     else Inr (outcome (Some next) (if ws_failed st then State_failed else State_coverage_insufficient) st)
                else Inr (outcome (Some next) State_applied st)))"

record frames_outcome =
  fo_frames :: "string list"
  fo_masked :: nat
  fo_dropped :: nat
  fo_redacted :: bool

fun redact_frames_loop :: "imaging \<Rightarrow> string list \<Rightarrow> frames_outcome \<Rightarrow> image_error + frames_outcome" where
  "redact_frames_loop im [] acc = Inr acc"
| "redact_frames_loop im (frame # frames) acc =
     (case redact_image_data_url im frame of
        Inr r \<Rightarrow>
          if ri_coverage r \<noteq> Certified
          then redact_frames_loop im frames (acc\<lparr>fo_dropped := fo_dropped acc + 1\<rparr>)
          else redact_frames_loop im frames
                 (acc\<lparr>fo_masked := fo_masked acc + ri_masked r, fo_frames := fo_frames acc @ [ri_data_url r]\<rparr>)
      | Inl (Image_redaction_error msg) \<Rightarrow> redact_frames_loop im frames (acc\<lparr>fo_dropped := fo_dropped acc + 1\<rparr>)
      | Inl Other_error \<Rightarrow> Inl Other_error)"

definition redact_frames :: "string list \<Rightarrow> imaging option \<Rightarrow> image_error + frames_outcome" where
  "redact_frames frames ocr =
     (case ocr of
        None \<Rightarrow> Inr \<lparr>fo_frames = frames, fo_masked = 0, fo_dropped = 0, fo_redacted = False\<rparr>
      | Some im \<Rightarrow>
          redact_frames_loop im frames \<lparr>fo_frames = [], fo_masked = 0, fo_dropped = 0, fo_redacted = True\<rparr>)"

subsection \<open>Images of a value\<close>

fun images_of :: "json \<Rightarrow> string list"
and images_of_list :: "json list \<Rightarrow> string list"
and images_of_fields :: "(string \<times> json) list \<Rightarrow> string list"
where
  "images_of (JStr s) = (if is_image_str s then [s] else [])"
| "images_of (JArr xs) = images_of_list xs"
| "images_of (JObj fs) = images_of_fields fs"
| "images_of v = []"
| "images_of_list [] = []"
| "images_of_list (x # xs) = images_of x @ images_of_list xs"
| "images_of_fields [] = []"
| "images_of_fields ((k, v) # fs) = images_of v @ images_of_fields fs"

fun legacy_free :: "json \<Rightarrow> bool"
and legacy_free_list :: "json list \<Rightarrow> bool"
and legacy_free_fields :: "(string \<times> json) list \<Rightarrow> bool"
where
  \<comment> \<open>no object at any depth has the legacy key\<close>
  "legacy_free (JArr xs) = legacy_free_list xs"
| "legacy_free (JObj fs) = legacy_free_fields fs"
| "legacy_free v = True"
| "legacy_free_list [] = True"
| "legacy_free_list (x # xs) = (legacy_free x \<and> legacy_free_list xs)"
| "legacy_free_fields [] = True"
| "legacy_free_fields ((k, v) # fs) = (\<not> is_legacy_image_key k \<and> legacy_free v \<and> legacy_free_fields fs)"

abbreviation images_opt :: "json option \<Rightarrow> string list" where
  "images_opt v \<equiv> (case v of None \<Rightarrow> [] | Some w \<Rightarrow> images_of w)"

abbreviation legacy_free_opt :: "json option \<Rightarrow> bool" where
  "legacy_free_opt v \<equiv> (case v of None \<Rightarrow> True | Some w \<Rightarrow> legacy_free w)"

text \<open>The reference for the walks that drop images: one function without counters.\<close>

fun without_images :: "json \<Rightarrow> json option"
and without_images_list :: "json list \<Rightarrow> json list"
and without_images_fields :: "(string \<times> json) list \<Rightarrow> (string \<times> json) list"
where
  "without_images (JStr s) = (if is_image_str s then None else Some (JStr s))"
| "without_images (JArr xs) = Some (JArr (without_images_list xs))"
| "without_images (JObj fs) = Some (JObj (without_images_fields fs))"
| "without_images v = Some v"
| "without_images_list [] = []"
| "without_images_list (x # xs) =
     (case without_images x of None \<Rightarrow> without_images_list xs | Some y \<Rightarrow> y # without_images_list xs)"
| "without_images_fields [] = []"
| "without_images_fields ((k, v) # fs) =
     (case without_images v of None \<Rightarrow> without_images_fields fs | Some w \<Rightarrow> (k, w) # without_images_fields fs)"

lemma without_images_clean:
  "images_opt (without_images v) = []" "images_of_list (without_images_list xs) = []"
  "images_of_fields (without_images_fields fs) = []"
  by (induction v and xs and fs rule: without_images_without_images_list_without_images_fields.induct)
    (auto split: option.splits)

lemma without_images_id:
  "images_of v = [] \<Longrightarrow> without_images v = Some v"
  "images_of_list xs = [] \<Longrightarrow> without_images_list xs = xs"
  "images_of_fields fs = [] \<Longrightarrow> without_images_fields fs = fs"
  by (induction v and xs and fs rule: without_images_without_images_list_without_images_fields.induct)
    (auto split: option.splits if_splits)

lemma strip_images_eq:
  "strip_images v n1 = (without_images v, n1 + length (images_of v))"
  "strip_images_list xs n2 = (without_images_list xs, n2 + length (images_of_list xs))"
  "strip_images_fields fs n3 = (without_images_fields fs, n3 + length (images_of_fields fs))"
  by (induction v n1 and xs n2 and fs n3 rule: strip_images_strip_images_list_strip_images_fields.induct)
    (auto split: option.splits)

lemma extract_walk_eq:
  "fst (extract_walk h v i1) = without_images v \<and> map fst (snd (extract_walk h v i1)) = map fst i1 @ images_of v"
  "fst (extract_walk_list xs i2) = without_images_list xs \<and>
     map fst (snd (extract_walk_list xs i2)) = map fst i2 @ images_of_list xs"
  "fst (extract_walk_fields fs i3) = without_images_fields fs \<and>
     map fst (snd (extract_walk_fields fs i3)) = map fst i3 @ images_of_fields fs"
  by (induction h v i1 and xs i2 and fs i3 rule: extract_walk_extract_walk_list_extract_walk_fields.induct)
    (auto split: prod.splits option.splits)

lemma strip_text_only_clean:
  "images_opt (strip_text_only v) = [] \<and> legacy_free_opt (strip_text_only v)"
  "images_of_list (strip_text_only_list xs) = [] \<and> legacy_free_list (strip_text_only_list xs)"
  "images_of_fields (strip_text_only_fields fs) = [] \<and> legacy_free_fields (strip_text_only_fields fs)"
  by (induction v and xs and fs rule: strip_text_only_strip_text_only_list_strip_text_only_fields.induct)
    (auto simp: is_legacy_image_key_def split: option.splits)

lemma legacy_walk_value:
  "fst (legacy_walk v f1) = strip_text_only v"
  "fst (legacy_walk_list xs f2) = strip_text_only_list xs"
  "fst (legacy_walk_fields fs f3) = strip_text_only_fields fs"
  by (induction v f1 and xs f2 and fs f3 rule: legacy_walk_legacy_walk_list_legacy_walk_fields.induct)
    (auto simp: is_legacy_image_key_def split: prod.splits option.splits)

lemma legacy_walk_clean:
  "images_of v = [] \<Longrightarrow> legacy_free v \<Longrightarrow> legacy_walk v f1 = (Some v, f1)"
  "images_of_list xs = [] \<Longrightarrow> legacy_free_list xs \<Longrightarrow> legacy_walk_list xs f2 = (xs, f2)"
  "images_of_fields fs = [] \<Longrightarrow> legacy_free_fields fs \<Longrightarrow> legacy_walk_fields fs f3 = (fs, f3)"
  by (induction v f1 and xs f2 and fs f3 rule: legacy_walk_legacy_walk_list_legacy_walk_fields.induct)
    (auto split: if_splits)

text \<open>In text-only mode the payload that leaves the client carries neither an inline image nor a
  screenshot key at any depth, in objects and in arrays; in the other modes it is unchanged.\<close>

theorem text_only_has_no_image:
  "if mode = Text_only
   then images_opt (apply_capture_mode payload mode) = [] \<and> legacy_free_opt (apply_capture_mode payload mode)
   else apply_capture_mode payload mode = Some payload"
  using strip_text_only_clean(1) [of payload] by (simp add: apply_capture_mode_def)

text \<open>Extraction separates a payload from its images: the returned payload is the one the
  stripper returns and has no inline image, the images are all image strings of the payload in
  document order, and without images the payload is unchanged.\<close>

theorem extract_payload_images_spec:
  "map fst (snd (extract_payload_images payload)) = images_of payload \<and>
   fst (extract_payload_images payload) = fst (strip_images payload 0) \<and>
   images_opt (fst (extract_payload_images payload)) = [] \<and>
   (if images_of payload = [] then fst (extract_payload_images payload) = Some payload else True)"
  using extract_walk_eq(1) [of None payload "[]"] without_images_clean(1) [of payload] without_images_id(1) [of payload]
  by (simp add: extract_payload_images_def strip_images_eq)

subsection \<open>The legacy sanitizer\<close>

lemma images_obj_set:
  "images_of v = [] \<Longrightarrow> images_of_fields fs = [] \<Longrightarrow> images_of_fields (obj_set k v fs) = []"
  by (induction fs) auto

lemma legacy_free_obj_set:
  "\<not> is_legacy_image_key k \<Longrightarrow> legacy_free v \<Longrightarrow> legacy_free_fields fs \<Longrightarrow> legacy_free_fields (obj_set k v fs)"
  by (induction fs) auto

lemma digit_chars:
  assumes "m < 10"
  shows "char_of (48 + m :: nat) \<in> set ''0123456789''"
proof -
  have "m \<in> set [0, 1, 2, 3, 4, 5, 6, 7, 8, 9]" using assms by auto
  moreover have "\<forall>m\<in>set [0, 1, 2, 3, 4, 5, 6, 7, 8, 9]. char_of (48 + m :: nat) \<in> set ''0123456789''"
    by code_simp
  ultimately show ?thesis by blast
qed

lemma nat_str_digits: "set (nat_str n) \<subseteq> set ''0123456789''"
proof (induction n rule: nat_str.induct)
  case (1 n)
  show ?case
  proof (cases "n < 10")
    case True
    then show ?thesis using digit_chars [of n] by (simp only: nat_str.simps [of n] if_True list.set) blast
  next
    case False
    then have "set (nat_str n) = set (nat_str (n div 10)) \<union> {char_of (48 + n mod 10)}"
      by (simp add: nat_str.simps [of n])
    moreover have "n mod 10 < 10" by simp
    ultimately show ?thesis using 1 [OF False] digit_chars [of "n mod 10"] by blast
  qed
qed

lemma nat_str_not_legacy: "\<not> is_legacy_image_key (nat_str n)"
proof
  assume "is_legacy_image_key (nat_str n)"
  then have l: "map lower_char (nat_str n) = ''screenshot_data_url''"
    by (simp add: is_legacy_image_key_def to_lower_def screenshot_key_def)
  then obtain c where "c \<in> set (nat_str n)" "lower_char c = CHR ''s''"
    by (cases "nat_str n") auto
  moreover have "\<forall>c\<in>set ''0123456789''. lower_char c \<noteq> CHR ''s''" by code_simp
  ultimately show False using nat_str_digits by blast
qed

lemma spread_clean:
  assumes "is_object v" "images_of v = []" "legacy_free v"
  shows "images_of_fields (spread v) = [] \<and> legacy_free_fields (spread v)"
proof (cases v)
  case (JArr xs)
  have "images_of_fields (map (\<lambda>(i, x). (nat_str i, x)) (enumerate k xs)) = [] \<and>
        legacy_free_fields (map (\<lambda>(i, x). (nat_str i, x)) (enumerate k xs))"
    if "images_of_list xs = []" "legacy_free_list xs" for k
    using that by (induction xs arbitrary: k) (auto simp: nat_str_not_legacy)
  then show ?thesis using assms JArr by (simp add: spread_def)
qed (use assms in \<open>auto simp: spread_def is_object_def\<close>)

lemma note_strings:
  "\<not> is_image_str legacy_reason" "\<not> is_legacy_image_key ''excluded_reason''"
  "\<not> is_legacy_image_key ''legacy_media_excluded''" "\<not> is_legacy_image_key ''legacy_media_detected''"
  by code_simp+

lemma legacy_note_clean:
  assumes "is_object v" "images_of v = []" "legacy_free v"
  shows "images_of (legacy_note v) = [] \<and> legacy_free (legacy_note v)"
  using spread_clean [OF assms] note_strings
  by (auto simp: legacy_note_def intro!: images_obj_set legacy_free_obj_set)

lemma sanitize_clean_id:
  "images_of v = [] \<Longrightarrow> legacy_free v \<Longrightarrow> sanitize_legacy_inline_media v = v"
  by (simp add: sanitize_legacy_inline_media_def legacy_walk_clean)

lemma strip_object: "is_object v \<Longrightarrow> \<exists>w. strip_text_only v = Some w \<and> is_object w"
  by (cases v) (auto simp: is_object_def)

lemma sanitize_object_clean:
  assumes "is_object v"
  shows "images_of (sanitize_legacy_inline_media v) = [] \<and> legacy_free (sanitize_legacy_inline_media v)"
proof -
  obtain w f where w: "legacy_walk v False = (Some w, f)" "strip_text_only v = Some w" "is_object w"
    using strip_object [OF assms] legacy_walk_value(1) [of v False] by (metis prod.collapse)
  have "images_of w = [] \<and> legacy_free w" using strip_text_only_clean(1) [of v] w by simp
  then show ?thesis using w assms legacy_note_clean by (auto simp: sanitize_legacy_inline_media_def)
qed

text \<open>The sanitizer every outgoing payload passes through: the result for an object or array
  payload holds no inline image and no legacy screenshot key at any depth; a payload that has
  neither is returned unchanged; and sanitizing twice is sanitizing once.\<close>

theorem sanitize_legacy_spec:
  "(if is_object v then images_of (sanitize_legacy_inline_media v) = [] \<and> legacy_free (sanitize_legacy_inline_media v)
    else sanitize_legacy_inline_media v = v) \<and>
   (if images_of v = [] \<and> legacy_free v then sanitize_legacy_inline_media v = v else True) \<and>
   sanitize_legacy_inline_media (sanitize_legacy_inline_media v) = sanitize_legacy_inline_media v"
proof (cases "is_object v")
  case True
  then show ?thesis using sanitize_object_clean [OF True] sanitize_clean_id by simp
next
  case False
  then have "sanitize_legacy_inline_media v = v" by (simp add: sanitize_legacy_inline_media_def)
  then show ?thesis using False by simp
qed

subsection \<open>Redacting a payload\<close>

definition certified_image :: "imaging \<Rightarrow> string \<Rightarrow> string \<Rightarrow> bool" where
  "certified_image im u v \<longleftrightarrow>
     (\<exists>r. redact_image_data_url im u = Inr r \<and> ri_coverage r = Certified \<and> ri_data_url r = v)"

definition step_image :: "imaging option \<Rightarrow> bool \<Rightarrow> string \<Rightarrow> string \<Rightarrow> bool" where
  \<comment> \<open>an image of the output against the one of the input; \<open>bad\<close>: some image was not certified\<close>
  "step_image ocr bad u v \<longleftrightarrow>
     u = v \<and> (ocr = None \<or> bad) \<or> (case ocr of None \<Rightarrow> False | Some im \<Rightarrow> certified_image im u v)"

definition walk_bad :: "walk_state \<Rightarrow> bool" where
  "walk_bad st \<longleftrightarrow> ws_failed st \<or> ws_uncertified st"

lemma data_image_prefix: "is_image_str (''data:image/'' @ x)"
proof -
  have "dropWhile js_space (''data:image/'' @ x) = ''data:image/'' @ x"
    by (simp add: not_space_d)
  then show ?thesis
    by (simp only: is_image_str_iff map_append upper_data_image) (simp add: starts_with_def)
qed

lemma certified_is_image:
  assumes "redact_image_data_url im u = Inr r" "is_image_str u"
  shows "is_image_str (ri_data_url r)"
proof -
  have "is_image_str (''data:image/png;base64,'' @ x)" "is_image_str (''data:image/jpeg;base64,'' @ x)" for x
    using data_image_prefix [of "''png;base64,'' @ x"] data_image_prefix [of "''jpeg;base64,'' @ x"] by simp_all
  then show ?thesis
    using assms by (auto simp: redact_image_data_url_def Let_def split: sum.splits option.splits prod.splits if_splits)
qed

lemma redact_one_facts:
  assumes "redact_one ocr number u st = Inr (v, st')" "is_image_str u"
  shows "is_image_str v \<and> ws_seen st' = ws_seen st + 1 \<and> (walk_bad st \<longrightarrow> walk_bad st') \<and>
    step_image ocr (walk_bad st') u v"
  using assms certified_is_image
  by (auto simp: redact_one_def Let_def step_image_def walk_bad_def certified_image_def
      split: if_splits option.splits sum.splits image_error.splits)

lemma step_image_mono: "step_image ocr b u v \<Longrightarrow> (b \<longrightarrow> b') \<Longrightarrow> step_image ocr b' u v"
  by (auto simp: step_image_def)

lemma list_all2_step_mono:
  "list_all2 (step_image ocr b) us vs \<Longrightarrow> (b \<longrightarrow> b') \<Longrightarrow> list_all2 (step_image ocr b') us vs"
  using step_image_mono by (blast intro: list_all2_mono)

definition walk_ok :: "imaging option \<Rightarrow> string list \<Rightarrow> walk_state \<Rightarrow> string list \<Rightarrow> walk_state \<Rightarrow> bool" where
  "walk_ok ocr us st vs st' \<longleftrightarrow>
     ws_seen st' = ws_seen st + length us \<and> (walk_bad st \<longrightarrow> walk_bad st') \<and>
     list_all2 (step_image ocr (walk_bad st')) us vs"

lemma walk_ok_append:
  "walk_ok ocr us st vs st1 \<Longrightarrow> walk_ok ocr us' st1 vs' st2 \<Longrightarrow> walk_ok ocr (us @ us') st (vs @ vs') st2"
  using list_all2_step_mono [of ocr "walk_bad st1" us vs "walk_bad st2"]
  by (auto simp: walk_ok_def intro!: list_all2_appendI)

lemma walk_ok_Nil: "walk_ok ocr [] st [] st"
  by (simp add: walk_ok_def)

lemma redact_walk_ok:
  "redact_walk ocr number v st1 = Inr (w, t1) \<Longrightarrow> walk_ok ocr (images_of v) st1 (images_of w) t1"
  "redact_walk_list ocr number xs st2 = Inr (ys, t2) \<Longrightarrow> walk_ok ocr (images_of_list xs) st2 (images_of_list ys) t2"
  "redact_walk_fields ocr number fs st3 = Inr (gs, t3) \<Longrightarrow> walk_ok ocr (images_of_fields fs) st3 (images_of_fields gs) t3"
proof (induction ocr number v st1 and ocr number xs st2 and ocr number fs st3 arbitrary: w t1 and ys t2 and gs t3
    rule: redact_walk_redact_walk_list_redact_walk_fields.induct)
  case (1 ocr number s st)
  then show ?case
    using redact_one_facts
    by (fastforce simp: walk_ok_def split: if_splits sum.splits)
qed (auto split: sum.splits intro: walk_ok_Nil, (metis walk_ok_append)+)

lemma redact_walk_images:
  assumes "redact_walk ocr number v walk_init = Inr (w, st)"
  shows "ws_seen st = length (images_of v)" "list_all2 (step_image ocr (walk_bad st)) (images_of v) (images_of w)"
  using redact_walk_ok(1) [OF assms] by (simp_all add: walk_ok_def walk_init_def)

lemma redact_one_error: "redact_one ocr number u st = Inl e \<Longrightarrow> e = Other_error"
  by (auto simp: redact_one_def Let_def split: if_splits option.splits sum.splits image_error.splits)

lemma redact_walk_error:
  "redact_walk ocr number v st1 = Inl e1 \<Longrightarrow> e1 = Other_error"
  "redact_walk_list ocr number xs st2 = Inl e2 \<Longrightarrow> e2 = Other_error"
  "redact_walk_fields ocr number fs st3 = Inl e3 \<Longrightarrow> e3 = Other_error"
  by (induction ocr number v st1 and ocr number xs st2 and ocr number fs st3 arbitrary: e1 and e2 and e3
       rule: redact_walk_redact_walk_list_redact_walk_fields.induct)
    (auto split: sum.splits if_splits dest: redact_one_error)

definition report_promise :: "json \<Rightarrow> payload_image_options \<Rightarrow> image_outcome \<Rightarrow> bool" where
  "report_promise payload opts out \<longleftrightarrow>
     (case ir_state (io_report out) of
        State_applied \<Rightarrow>
          (case po_ocr opts of
             None \<Rightarrow> False
           | Some im \<Rightarrow> images_of payload \<noteq> [] \<and>
               list_all2 (certified_image im) (images_of payload) (images_opt (io_payload out)))
      | State_none \<Rightarrow> images_of payload = [] \<and> images_opt (io_payload out) = []
      | State_blocked_strict \<Rightarrow> po_strict opts \<and> images_opt (io_payload out) = []
      | State_storage_disabled \<Rightarrow> \<not> po_storage_enabled opts \<and> images_opt (io_payload out) = []
      | State_skipped \<Rightarrow> po_ocr opts = None
      | State_failed \<Rightarrow> \<not> po_strict opts
      | State_coverage_insufficient \<Rightarrow> \<not> po_strict opts)"

lemma redact_payload_images_report:
  assumes "redact_payload_images number payload opts = Inr out"
  shows "report_promise payload opts out"
proof (cases "po_storage_enabled opts")
  case False
  then show ?thesis
    using assms without_images_clean(1) [of payload] by (auto simp: redact_payload_images_def strip_images_eq report_promise_def)
next
  case True
  with assms obtain w st where p: "redact_walk (po_ocr opts) number payload walk_init = Inr (w, st)"
    by (auto simp: redact_payload_images_def split: sum.splits)
  note seen = redact_walk_images(1) [OF p] and imgs = redact_walk_images(2) [OF p]
  show ?thesis
    using assms True p seen imgs without_images_clean(1) [of w]
    by (auto simp: redact_payload_images_def report_promise_def outcome_def strip_images_eq walk_bad_def step_image_def [abs_def]
        split: option.splits if_splits)
qed

text \<open>C3. What the state of a redaction report promises, for every schedule of the concurrent walk.
  \<open>applied\<close>: redaction was on and every image of the payload was replaced by the result of a certified
  analysis of that image. \<open>none\<close>: there was no image. \<open>blocked_strict\<close> and \<open>storage_disabled\<close>: the
  returned payload holds no image. \<open>failed\<close>, \<open>coverage_insufficient\<close> (reported only without strict mode)
  and \<open>skipped\<close> promise nothing and are not safe states.\<close>

theorem redact_payload_images_promise:
  "case redact_payload_images number payload opts of
     Inl e \<Rightarrow> e = Other_error \<and> po_storage_enabled opts
   | Inr out \<Rightarrow> report_promise payload opts out"
proof (cases "redact_payload_images number payload opts")
  case (Inl e)
  then show ?thesis using redact_walk_error by (fastforce simp: redact_payload_images_def split: if_splits prod.splits sum.splits)
qed (simp add: redact_payload_images_report)

subsection \<open>Frames of a live question\<close>

lemma redact_frames_loop_ok:
  "redact_frames_loop im frames acc = Inr out \<Longrightarrow>
     \<exists>us vs. subseq us frames \<and> list_all2 (certified_image im) us vs \<and> fo_frames out = fo_frames acc @ vs \<and>
       fo_dropped out + length vs = fo_dropped acc + length frames \<and> fo_redacted out = fo_redacted acc"
proof (induction im frames acc rule: redact_frames_loop.induct)
  case (1 im acc)
  then show ?case by (intro exI [of _ "[]"]) simp
next
  case (2 im frame frames acc)
  show ?case
  proof (cases "\<exists>r. redact_image_data_url im frame = Inr r \<and> ri_coverage r = Certified")
    case True
    then obtain r where r: "redact_image_data_url im frame = Inr r" "ri_coverage r = Certified" by blast
    then obtain us vs where "subseq us frames" "list_all2 (certified_image im) us vs"
      "fo_frames out = fo_frames acc @ ri_data_url r # vs"
      "fo_dropped out + length vs = fo_dropped acc + length frames" "fo_redacted out = fo_redacted acc"
      using "2.IH"(3) [of r] "2.prems" by auto
    moreover have "certified_image im frame (ri_data_url r)" using r by (auto simp: certified_image_def)
    ultimately show ?thesis
      by (intro exI [of _ "frame # us"] exI [of _ "ri_data_url r # vs"]) simp
  next
    case False
    then have run: "redact_frames_loop im frames (acc\<lparr>fo_dropped := fo_dropped acc + 1\<rparr>) = Inr out"
      using "2.prems" by (auto split: sum.splits image_error.splits if_splits)
    from False consider r where "redact_image_data_url im frame = Inr r" "ri_coverage r \<noteq> Certified"
      | msg where "redact_image_data_url im frame = Inl (Image_redaction_error msg)"
      using "2.prems" by (cases "redact_image_data_url im frame") (auto split: image_error.splits)
    then have "\<exists>us vs. subseq us frames \<and> list_all2 (certified_image im) us vs \<and>
        fo_frames out = fo_frames (acc\<lparr>fo_dropped := fo_dropped acc + 1\<rparr>) @ vs \<and>
        fo_dropped out + length vs = fo_dropped (acc\<lparr>fo_dropped := fo_dropped acc + 1\<rparr>) + length frames \<and>
        fo_redacted out = fo_redacted (acc\<lparr>fo_dropped := fo_dropped acc + 1\<rparr>)"
    proof cases
      case (1 r)
      then show ?thesis using "2.IH"(2) run by blast
    next
      case (2 msg)
      then show ?thesis using "2.IH"(1) run by blast
    qed
    then obtain us vs where "subseq us frames" "list_all2 (certified_image im) us vs"
      "fo_frames out = fo_frames acc @ vs"
      "fo_dropped out + length vs = fo_dropped acc + 1 + length frames" "fo_redacted out = fo_redacted acc"
      by auto
    then show ?thesis by (intro exI [of _ us] exI [of _ vs]) auto
  qed
qed

text \<open>Frames sent to a model: with redaction on, every frame that is passed on is the result of a
  certified analysis of one of the given frames, in the same order, and every other frame is
  counted as dropped; without an engine the frames are returned as they are, marked unredacted.\<close>

theorem redact_frames_fail_closed:
  "case redact_frames frames ocr of
     Inl e \<Rightarrow> ocr \<noteq> None
   | Inr out \<Rightarrow>
       (case ocr of
          None \<Rightarrow> fo_frames out = frames \<and> \<not> fo_redacted out
        | Some im \<Rightarrow> fo_redacted out \<and> length (fo_frames out) + fo_dropped out = length frames \<and>
            (\<exists>us. subseq us frames \<and> list_all2 (certified_image im) us (fo_frames out)))"
proof (cases ocr)
  case (Some im)
  show ?thesis
  proof (cases "redact_frames frames ocr")
    case (Inr out)
    then show ?thesis using redact_frames_loop_ok Some by (fastforce simp: redact_frames_def)
  qed (simp add: Some)
qed (simp add: redact_frames_def)

end
