(* ===== verification/Secret_Box.thy ===== *)
theory Secret_Box
  imports Regex
begin

text \<open>
  \<^verbatim>\<open>packages/context-engine/src/secret-box.ts\<close>: the format of encrypted blobs, key parsing and the
  keyring. AES-256-GCM and Node's lenient base64 decoder are the fields of \<open>crypto\<close>; the random
  nonce is an argument. What is assumed of GCM where a theorem needs it is \<open>gcm_ok\<close>: opening what was
  sealed gives the plaintext, the tag has 16 bytes, and no other key opens it.

  The string variants of the code (\<open>encryptSecret\<close>, \<open>decryptSecret\<close>) are the same functions on the
  UTF-8 bytes of the string.
\<close>

record crypto =
  gcm_seal :: "bytes \<Rightarrow> bytes \<Rightarrow> bytes \<Rightarrow> bytes \<times> bytes" \<comment> \<open>key, nonce, plaintext; ciphertext and tag\<close>
  gcm_open :: "bytes \<Rightarrow> bytes \<Rightarrow> bytes \<Rightarrow> bytes \<Rightarrow> bytes option" \<comment> \<open>key, nonce, tag, ciphertext\<close>
  base64_bytes :: "string \<Rightarrow> bytes"

datatype box_error = Bad_key_text | Bad_key_length | Bad_format | Decryption_failed | No_key_opens

definition box_version :: "8 word" where "box_version = 1"

definition iv_len :: nat where "iv_len = 12"

definition tag_len :: nat where "tag_len = 16"

definition key_len :: nat where "key_len = 32"

definition hex_key_re :: re where
  \<comment> \<open>\<open>/^[0-9a-fA-F]{64}$/\<close>\<close>
  "hex_key_re = cats [Bol, Rep True 64 (Some 64) (CC hex_digit), Eol]"

definition hex_val :: "char \<Rightarrow> 8 word" where
  "hex_val c =
     (let n = (of_char c :: nat)
      in of_nat (if 48 \<le> n \<and> n \<le> 57 then n - 48 else if 97 \<le> n then n - 87 else n - 55))"

fun hex_bytes :: "string \<Rightarrow> bytes" where
  "hex_bytes (a # b # cs) = (16 * hex_val a + hex_val b) # hex_bytes cs"
| "hex_bytes _ = []"

definition parse_encryption_key :: "crypto \<Rightarrow> string \<Rightarrow> box_error + bytes" where
  "parse_encryption_key c value =
     (let trimmed = js_trim value
      in if test_re hex_key_re trimmed then Inr (hex_bytes trimmed)
         else let decoded = base64_bytes c trimmed
              in if length decoded = key_len then Inr decoded else Inl Bad_key_text)"

definition encrypt_bytes :: "crypto \<Rightarrow> bytes \<Rightarrow> bytes \<Rightarrow> bytes \<Rightarrow> box_error + bytes" where
  "encrypt_bytes c key iv plaintext =
     (if length key \<noteq> key_len then Inl Bad_key_length
      else case gcm_seal c key iv plaintext of (data, tag) \<Rightarrow> Inr ([box_version] @ iv @ tag @ data))"

definition decrypt_bytes :: "crypto \<Rightarrow> bytes \<Rightarrow> bytes \<Rightarrow> box_error + bytes" where
  "decrypt_bytes c key box =
     (if length key \<noteq> key_len then Inl Bad_key_length
      else if length box < 1 + iv_len + tag_len \<or> hd box \<noteq> box_version then Inl Bad_format
      else let iv = take iv_len (drop 1 box);
               tag = take tag_len (drop (1 + iv_len) box);
               data = drop (1 + iv_len + tag_len) box
           in (case gcm_open c key iv tag data of
                 Some plain \<Rightarrow> Inr plain
               | None \<Rightarrow> Inl Decryption_failed))"

fun parse_all_keys :: "crypto \<Rightarrow> string list \<Rightarrow> box_error + bytes list" where
  "parse_all_keys c [] = Inr []"
| "parse_all_keys c (k # ks) =
     (case parse_encryption_key c k of
        Inl e \<Rightarrow> Inl e
      | Inr key \<Rightarrow> (case parse_all_keys c ks of Inl e \<Rightarrow> Inl e | Inr keys \<Rightarrow> Inr (key # keys)))"

definition parse_key_list :: "crypto \<Rightarrow> string \<Rightarrow> box_error + bytes list" where
  "parse_key_list c value =
     parse_all_keys c (filter (\<lambda>k. k \<noteq> []) (map js_trim (split_on CHR '','' value)))"

fun decrypt_bytes_with_any :: "crypto \<Rightarrow> bytes list \<Rightarrow> bytes \<Rightarrow> box_error + bytes" where
  "decrypt_bytes_with_any c [] box = Inl No_key_opens"
| "decrypt_bytes_with_any c (key # keys) box =
     (case decrypt_bytes c key box of
        Inr plain \<Rightarrow> Inr plain
      | Inl e \<Rightarrow> decrypt_bytes_with_any c keys box)"

subsection \<open>Facts\<close>

definition gcm_ok :: "crypto \<Rightarrow> bool" where
  "gcm_ok c \<longleftrightarrow> (\<forall>key iv plain. length key = key_len \<longrightarrow>
     length (snd (gcm_seal c key iv plain)) = tag_len \<and>
     gcm_open c key iv (snd (gcm_seal c key iv plain)) (fst (gcm_seal c key iv plain)) = Some plain \<and>
     (\<forall>key'. length key' = key_len \<and> key' \<noteq> key \<longrightarrow>
        gcm_open c key' iv (snd (gcm_seal c key iv plain)) (fst (gcm_seal c key iv plain)) = None))"

lemma box_layout:
  assumes "encrypt_bytes c key iv plain = Inr box" "length iv = iv_len" "gcm_ok c"
  shows "length key = key_len" "\<not> length box < 1 + iv_len + tag_len" "hd box = box_version"
    "take iv_len (drop 1 box) = iv"
    "take tag_len (drop (1 + iv_len) box) = snd (gcm_seal c key iv plain)"
    "drop (1 + iv_len + tag_len) box = fst (gcm_seal c key iv plain)"
proof -
  show kl: "length key = key_len" using assms(1) by (simp add: encrypt_bytes_def split: if_splits)
  then have t: "length (snd (gcm_seal c key iv plain)) = tag_len" using assms(3) by (simp add: gcm_ok_def)
  have b: "box = [box_version] @ iv @ snd (gcm_seal c key iv plain) @ fst (gcm_seal c key iv plain)"
    using assms(1) by (simp add: encrypt_bytes_def case_prod_unfold split: if_splits)
  show "\<not> length box < 1 + iv_len + tag_len" "hd box = box_version" "take iv_len (drop 1 box) = iv"
    "take tag_len (drop (1 + iv_len) box) = snd (gcm_seal c key iv plain)"
    "drop (1 + iv_len + tag_len) box = fst (gcm_seal c key iv plain)"
    using b t assms(2) by simp_all
qed

lemma decrypt_encrypt:
  assumes "encrypt_bytes c key iv plain = Inr box" "length iv = iv_len" "gcm_ok c"
  shows "decrypt_bytes c key box = Inr plain"
    "key' \<noteq> key \<Longrightarrow> \<exists>e. decrypt_bytes c key' box = Inl e"
proof -
  note l = box_layout [OF assms]
  have g: "gcm_open c key iv (snd (gcm_seal c key iv plain)) (fst (gcm_seal c key iv plain)) = Some plain"
    "length key' = key_len \<Longrightarrow> key' \<noteq> key \<Longrightarrow> gcm_open c key' iv (snd (gcm_seal c key iv plain)) (fst (gcm_seal c key iv plain)) = None"
    using assms(3) l(1) by (simp_all add: gcm_ok_def)
  show "decrypt_bytes c key box = Inr plain"
    using g(1) l by (simp only: decrypt_bytes_def Let_def option.case if_False simp_thms)
  show "\<exists>e. decrypt_bytes c key' box = Inl e" if "key' \<noteq> key"
  proof (cases "length key' = key_len")
    case True
    then show ?thesis using g(2) [OF True that] l
      by (simp only: decrypt_bytes_def Let_def option.case if_False simp_thms) blast
  qed (simp add: decrypt_bytes_def)
qed

lemma decrypt_with_any_sealed:
  assumes "encrypt_bytes c key iv plain = Inr box" "length iv = iv_len" "gcm_ok c"
  shows "decrypt_bytes_with_any c keys box = (if key \<in> set keys then Inr plain else Inl No_key_opens)"
proof (induction keys)
  case (Cons k ks)
  show ?case
  proof (cases "k = key")
    case True
    then show ?thesis using decrypt_encrypt(1) [OF assms] by simp
  next
    case False
    then obtain e where "decrypt_bytes c k box = Inl e" using decrypt_encrypt(2) [OF assms] by blast
    then show ?thesis using Cons False by auto
  qed
qed simp

text \<open>The keyring: a box that was sealed under a key is opened, with its plaintext, by exactly the
  keyrings that contain the key, wherever it stands; and whatever is shorter than header, nonce and
  tag or has another version byte is refused before any decryption.\<close>

theorem keyring_opens_sealed:
  assumes "encrypt_bytes c key iv plain = Inr box" "length iv = iv_len" "gcm_ok c"
  shows "decrypt_bytes_with_any c keys box = (if key \<in> set keys then Inr plain else Inl No_key_opens) \<and>
    (if length junk < 29 \<or> hd junk \<noteq> box_version then decrypt_bytes c key junk = Inl Bad_format else True)"
proof -
  have "length key = key_len" using box_layout(1) [OF assms] .
  then show ?thesis
    using decrypt_with_any_sealed [OF assms] by (simp add: decrypt_bytes_def iv_len_def tag_len_def)
qed

definition toy_crypto :: crypto where
  \<comment> \<open>a cipher for the examples: the ciphertext is the key followed by the plaintext\<close>
  "toy_crypto =
     \<lparr>gcm_seal = \<lambda>key iv plain. (key @ plain, replicate 16 0),
      gcm_open = \<lambda>key iv tag data. (if take 32 data = key then Some (drop 32 data) else None),
      base64_bytes = map of_char\<rparr>"

lemma toy_crypto_ok: "gcm_ok toy_crypto"
  by (simp add: gcm_ok_def toy_crypto_def key_len_def tag_len_def)

theorem keyring_opens_sealed_witness:
  "decrypt_bytes_with_any toy_crypto [replicate 32 7, replicate 32 1]
     ([1] @ replicate 12 0 @ replicate 16 0 @ replicate 32 1 @ [42]) = Inr [42]"
proof -
  have "encrypt_bytes toy_crypto (replicate 32 1) (replicate 12 0) [42] =
      Inr ([1] @ replicate 12 0 @ replicate 16 0 @ replicate 32 1 @ [42])"
    by (simp add: encrypt_bytes_def toy_crypto_def key_len_def box_version_def)
  then show ?thesis
    using keyring_opens_sealed [of toy_crypto "replicate 32 1" "replicate 12 0" "[42]" _ "[replicate 32 7, replicate 32 1]"]
      toy_crypto_ok by (simp add: iv_len_def)
qed

end
