(* ===== verification/Media.thy ===== *)
theory Media
  imports Inline_Media Secret_Box Object_Store
begin

text \<open>
  The media pipeline: \<^verbatim>\<open>services/api/src/media/media-service.ts\<close>, the adapter gate
  \<^verbatim>\<open>packages/context-engine/src/media-gate.ts\<close> with the worker's reader
  \<^verbatim>\<open>services/worker/src/media-reader.ts\<close>, and the backfill of legacy rows
  \<^verbatim>\<open>services/api/src/db/backfill-media.ts\<close>.

  The state is the object store and the tables the code touches; a table is the list of its rows in
  the order of creation. An operation that can throw returns the exception or the result together
  with the state it leaves behind. Identifiers and nonces drawn at random are arguments. Queries do
  not fail.
\<close>

record media_row =
  mr_id :: string
  mr_moment :: string
  mr_user :: string
  mr_kind :: image_kind
  mr_storage_key :: string
  mr_thumb_key :: "string option"
  mr_content_type :: string
  mr_bytes :: "nat option"
  mr_thumb_bytes :: "nat option"
  mr_width :: "nat option"
  mr_height :: "nat option"
  mr_state :: string

record queue_row =
  q_user :: string
  q_key :: string
  q_attempts :: nat
  q_last_error :: string

record 's media =
  md_store :: 's
  md_rows :: "media_row list"
  md_queue :: "queue_row list"

record media_env =
  me_crypto :: crypto
  me_imaging :: imaging
  me_keys :: "bytes list"
  me_resize :: "nat \<Rightarrow> bitmap \<Rightarrow> bitmap option" \<comment> \<open>Jimp's resize to a width; \<open>None\<close> is an exception\<close>

datatype media_error = Image_error image_error | Box_error box_error | Store_error string

definition thumb_width :: nat where "thumb_width = 320"

record media_ref =
  ref_id :: string
  ref_kind :: image_kind
  ref_content_type :: string
  ref_bytes :: "nat option"
  ref_width :: "nat option"
  ref_height :: "nat option"
  ref_state :: string
  ref_url :: string
  ref_thumbnail_url :: "string option"

definition to_ref :: "media_row \<Rightarrow> media_ref" where
  "to_ref row =
     \<lparr>ref_id = mr_id row, ref_kind = mr_kind row, ref_content_type = mr_content_type row,
      ref_bytes = mr_bytes row, ref_width = mr_width row, ref_height = mr_height row,
      ref_state = mr_state row, ref_url = ''/v1/media/'' @ mr_id row,
      ref_thumbnail_url =
        (case mr_thumb_key row of None \<Rightarrow> None | Some _ \<Rightarrow> Some (''/v1/media/'' @ mr_id row @ ''?variant=thumb''))\<rparr>"

subsection \<open>Storing\<close>

record image_rnd =
  rnd_id :: string
  rnd_iv :: bytes
  rnd_thumb_iv :: bytes

definition thumbnail :: "media_env \<Rightarrow> bytes \<Rightarrow> nat option \<times> nat option \<times> bytes option" where
  \<comment> \<open>width, height and thumbnail; any exception leaves the image without a thumbnail\<close>
  "thumbnail env buffer =
     (case decode_image (me_imaging env) buffer of
        None \<Rightarrow> (None, None, None)
      | Some bm \<Rightarrow>
          (Some (bm_w bm), Some (bm_h bm),
           (case (if thumb_width < bm_w bm then me_resize env thumb_width bm else Some bm) of
              None \<Rightarrow> None
            | Some small \<Rightarrow> encode_image (me_imaging env) ''image/jpeg'' small)))"

definition media_key :: "string \<Rightarrow> string \<Rightarrow> string \<Rightarrow> string" where
  "media_key user_id moment_id media_id = user_id @ ''/'' @ moment_id @ ''/'' @ media_id"

definition put_sealed :: "media_env \<Rightarrow> 's store_ops \<Rightarrow> string \<Rightarrow> bytes \<Rightarrow> bytes \<Rightarrow> 's \<Rightarrow> media_error + 's" where
  "put_sealed env ops key iv data s =
     (case encrypt_bytes (me_crypto env) (hd (me_keys env)) iv data of
        Inl e \<Rightarrow> Inl (Box_error e)
      | Inr box \<Rightarrow> (case st_put ops key box s of Inl e \<Rightarrow> Inl (Store_error e) | Inr s' \<Rightarrow> Inr s'))"

definition store_image ::
  "media_env \<Rightarrow> 's store_ops \<Rightarrow> string \<Rightarrow> string \<Rightarrow> string \<Rightarrow> image_rnd \<Rightarrow> string \<times> image_kind \<Rightarrow> 's media \<Rightarrow>
     (media_error + media_ref) \<times> 's media" where
  "store_image env ops user_id moment_id state rnd img w =
     (case parse_data_url (me_imaging env) (fst img) of
        Inl e \<Rightarrow> (Inl (Image_error e), w)
      | Inr (mime, buffer) \<Rightarrow>
          let storage_key = media_key user_id moment_id (rnd_id rnd);
              thumb_key = storage_key @ ''-thumb''
          in (case thumbnail env buffer of (width, height, thumb) \<Rightarrow>
                (case put_sealed env ops storage_key (rnd_iv rnd) buffer (md_store w) of
                   Inl e \<Rightarrow> (Inl e, w)
                 | Inr s1 \<Rightarrow>
                     (case (case thumb of None \<Rightarrow> Inr s1 | Some th \<Rightarrow> put_sealed env ops thumb_key (rnd_thumb_iv rnd) th s1) of
                        Inl e \<Rightarrow> (Inl e, w\<lparr>md_store := s1\<rparr>)
                      | Inr s2 \<Rightarrow>
                          let row = \<lparr>mr_id = rnd_id rnd, mr_moment = moment_id, mr_user = user_id, mr_kind = snd img,
                                     mr_storage_key = storage_key,
                                     mr_thumb_key = (case thumb of None \<Rightarrow> None | Some _ \<Rightarrow> Some thumb_key),
                                     mr_content_type = mime, mr_bytes = Some (length buffer),
                                     mr_thumb_bytes = map_option length thumb,
                                     mr_width = width, mr_height = height, mr_state = state\<rparr>
                          in (Inr (to_ref row), w\<lparr>md_store := s2, md_rows := md_rows w @ [row]\<rparr>)))))"

fun store_images ::
  "media_env \<Rightarrow> 's store_ops \<Rightarrow> string \<Rightarrow> string \<Rightarrow> string \<Rightarrow> (image_rnd \<times> string \<times> image_kind) list \<Rightarrow> 's media \<Rightarrow>
     (media_error + media_ref list) \<times> 's media" where
  "store_images env ops user_id moment_id state [] w = (Inr [], w)"
| "store_images env ops user_id moment_id state ((rnd, img) # imgs) w =
     (case store_image env ops user_id moment_id state rnd img w of
        (Inl e, w1) \<Rightarrow> (Inl e, w1)
      | (Inr ref, w1) \<Rightarrow>
          (case store_images env ops user_id moment_id state imgs w1 of
             (Inl e, w2) \<Rightarrow> (Inl e, w2)
           | (Inr refs, w2) \<Rightarrow> (Inr (ref # refs), w2)))"

definition store_moment_images ::
  "media_env \<Rightarrow> 's store_ops \<Rightarrow> string \<Rightarrow> string \<Rightarrow> (image_rnd \<times> string \<times> image_kind) list \<Rightarrow> string \<Rightarrow> 's media \<Rightarrow>
     (media_error + media_ref list) \<times> 's media" where
  "store_moment_images env ops user_id moment_id images state w =
     (if \<not> is_safe_media_redaction_state (Some state) then (Inr [], w)
      else store_images env ops user_id moment_id state images w)"

subsection \<open>Reading\<close>

datatype variant = Variant_full | Variant_thumb

definition find_media :: "string \<Rightarrow> string \<Rightarrow> 's media \<Rightarrow> media_row option" where
  \<comment> \<open>\<open>WHERE id = $1 AND user_id = $2\<close>\<close>
  "find_media user_id media_id w = find (\<lambda>r. mr_id r = media_id \<and> mr_user r = user_id) (md_rows w)"

definition get_media ::
  "media_env \<Rightarrow> 's store_ops \<Rightarrow> string \<Rightarrow> string \<Rightarrow> variant \<Rightarrow> 's media \<Rightarrow> media_error + (string \<times> bytes) option" where
  "get_media env ops user_id media_id variant w =
     (case find_media user_id media_id w of
        None \<Rightarrow> Inr None
      | Some row \<Rightarrow>
          if \<not> is_safe_media_redaction_state (Some (mr_state row)) then Inr None
          else let thumb = (if variant = Variant_thumb then mr_thumb_key row else None)
               in (case st_get ops (case thumb of Some k \<Rightarrow> k | None \<Rightarrow> mr_storage_key row) (md_store w) of
                     Inl e \<Rightarrow> Inl (Store_error e)
                   | Inr None \<Rightarrow> Inr None
                   | Inr (Some blob) \<Rightarrow>
                       (case decrypt_bytes_with_any (me_crypto env) (me_keys env) blob of
                          Inl e \<Rightarrow> Inl (Box_error e)
                        | Inr data \<Rightarrow>
                            Inr (Some (if thumb \<noteq> None then ''image/jpeg'' else mr_content_type row, data)))))"

definition group_add :: "string \<Rightarrow> 'r \<Rightarrow> (string \<times> 'r list) list \<Rightarrow> (string \<times> 'r list) list" where
  "group_add k r out = obj_set k ((case map_of out k of None \<Rightarrow> [] | Some rs \<Rightarrow> rs) @ [r]) out"

definition list_for_moments :: "string list \<Rightarrow> 's media \<Rightarrow> (string \<times> media_ref list) list" where
  "list_for_moments moment_ids w =
     fold (\<lambda>row out. group_add (mr_moment row) (to_ref row) out)
       (filter (\<lambda>r. mr_moment r \<in> set moment_ids) (md_rows w)) []"

datatype adapter_failure = Not_found | Redaction_not_applied | Blob_missing | Undecryptable

record adapter_media =
  am_id :: string
  am_content_type :: string
  am_data :: bytes
  am_state :: string

definition read_media_for_adapter ::
  "crypto \<Rightarrow> 's store_ops \<Rightarrow> bytes list \<Rightarrow> string \<Rightarrow> string \<Rightarrow> bool \<Rightarrow> bool \<Rightarrow> 's media \<Rightarrow>
     string + (adapter_failure + adapter_media)" where
  \<comment> \<open>the outer left side is an exception of the store\<close>
  "read_media_for_adapter c ops keys user_id media_id allow_unredacted allow_none w =
     (case find_media user_id media_id w of
        None \<Rightarrow> Inr (Inl Not_found)
      | Some row \<Rightarrow>
          let safe = [''applied''] @ (if allow_none then [''none''] else [])
          in if mr_state row \<notin> set safe \<and> \<not> allow_unredacted then Inr (Inl Redaction_not_applied)
             else (case st_get ops (mr_storage_key row) (md_store w) of
                     Inl e \<Rightarrow> Inl e
                   | Inr None \<Rightarrow> Inr (Inl Blob_missing)
                   | Inr (Some blob) \<Rightarrow>
                       (case decrypt_bytes_with_any c keys blob of
                          Inl _ \<Rightarrow> Inr (Inl Undecryptable)
                        | Inr data \<Rightarrow>
                            Inr (Inr \<lparr>am_id = mr_id row, am_content_type = mr_content_type row, am_data = data,
                                      am_state = mr_state row\<rparr>))))"

definition read_approved_media ::
  "crypto \<Rightarrow> 's store_ops \<Rightarrow> bytes list \<Rightarrow> string \<Rightarrow> string \<Rightarrow> 's media \<Rightarrow> string + (adapter_failure + adapter_media)" where
  "read_approved_media c ops keys user_id media_id w =
     read_media_for_adapter c ops keys user_id media_id False False w"

definition get_for_adapter ::
  "media_env \<Rightarrow> 's store_ops \<Rightarrow> string \<Rightarrow> string \<Rightarrow> bool \<Rightarrow> 's media \<Rightarrow> string + (adapter_failure + adapter_media)" where
  "get_for_adapter env ops user_id media_id allow_unredacted w =
     (case read_media_for_adapter (me_crypto env) ops (me_keys env) user_id media_id allow_unredacted True w of
        Inl e \<Rightarrow> Inl e
      | Inr (Inl reason) \<Rightarrow>
          Inr (Inl (if reason = Redaction_not_applied then Redaction_not_applied else Not_found))
      | Inr (Inr media) \<Rightarrow> Inr (Inr media))"

subsection \<open>Export\<close>

record export_ref =
  ex_ref :: media_ref
  ex_data_url :: "string option"
  ex_excluded_reason :: "string option"

definition export_row :: "media_env \<Rightarrow> 's store_ops \<Rightarrow> 's \<Rightarrow> media_row \<Rightarrow> media_error + export_ref" where
  "export_row env ops s row =
     (if \<not> is_safe_media_redaction_state (Some (mr_state row))
      then Inr \<lparr>ex_ref = to_ref row, ex_data_url = None, ex_excluded_reason = Some ''redaction_not_applied''\<rparr>
      else (case st_get ops (mr_storage_key row) s of
              Inl e \<Rightarrow> Inl (Store_error e)
            | Inr None \<Rightarrow> Inr \<lparr>ex_ref = to_ref row, ex_data_url = None, ex_excluded_reason = None\<rparr>
            | Inr (Some blob) \<Rightarrow>
                (case decrypt_bytes_with_any (me_crypto env) (me_keys env) blob of
                   Inl e \<Rightarrow> Inl (Box_error e)
                 | Inr data \<Rightarrow>
                     Inr \<lparr>ex_ref = to_ref row,
                          ex_data_url = Some (''data:'' @ mr_content_type row @ '';base64,'' @ base64_encode (me_imaging env) data),
                          ex_excluded_reason = None\<rparr>)))"

fun export_rows ::
  "media_env \<Rightarrow> 's store_ops \<Rightarrow> 's \<Rightarrow> media_row list \<Rightarrow> (string \<times> export_ref list) list \<Rightarrow>
     media_error + (string \<times> export_ref list) list" where
  "export_rows env ops s [] out = Inr out"
| "export_rows env ops s (row # rows) out =
     (case export_row env ops s row of
        Inl e \<Rightarrow> Inl e
      | Inr x \<Rightarrow> export_rows env ops s rows (group_add (mr_moment row) x out))"

definition export_for_moments ::
  "media_env \<Rightarrow> 's store_ops \<Rightarrow> string \<Rightarrow> string list \<Rightarrow> 's media \<Rightarrow> media_error + (string \<times> export_ref list) list" where
  "export_for_moments env ops user_id moment_ids w =
     export_rows env ops (md_store w)
       (filter (\<lambda>r. mr_user r = user_id \<and> mr_moment r \<in> set moment_ids) (md_rows w)) []"

subsection \<open>Deleting\<close>

fun enqueue_blob_delete :: "string \<Rightarrow> string \<Rightarrow> string \<Rightarrow> queue_row list \<Rightarrow> queue_row list" where
  \<comment> \<open>\<open>INSERT ... ON CONFLICT (storage_key) DO UPDATE\<close>\<close>
  "enqueue_blob_delete user_id key err [] =
     [\<lparr>q_user = user_id, q_key = key, q_attempts = 1, q_last_error = take 500 err\<rparr>]"
| "enqueue_blob_delete user_id key err (q # qs) =
     (if q_key q = key then q\<lparr>q_attempts := q_attempts q + 1, q_last_error := take 500 err\<rparr> # qs
      else q # enqueue_blob_delete user_id key err qs)"

definition blob_keys :: "media_row \<Rightarrow> string list" where
  "blob_keys row = mr_storage_key row # (case mr_thumb_key row of None \<Rightarrow> [] | Some k \<Rightarrow> [k])"

fun delete_keys :: "'s store_ops \<Rightarrow> string \<Rightarrow> string list \<Rightarrow> 's media \<Rightarrow> nat \<times> 's media" where
  \<comment> \<open>the number of keys that went to the queue\<close>
  "delete_keys ops user_id [] w = (0, w)"
| "delete_keys ops user_id (k # ks) w =
     (case st_delete ops k (md_store w) of
        Inr s' \<Rightarrow> delete_keys ops user_id ks (w\<lparr>md_store := s'\<rparr>)
      | Inl err \<Rightarrow>
          (case delete_keys ops user_id ks (w\<lparr>md_queue := enqueue_blob_delete user_id k err (md_queue w)\<rparr>) of
             (n, w') \<Rightarrow> (n + 1, w')))"

fun delete_rows :: "'s store_ops \<Rightarrow> string \<Rightarrow> media_row list \<Rightarrow> 's media \<Rightarrow> nat \<times> nat \<times> 's media" where
  "delete_rows ops user_id [] w = (0, 0, w)"
| "delete_rows ops user_id (row # rows) w =
     (case delete_keys ops user_id (blob_keys row) w of (q, w1) \<Rightarrow>
        case delete_rows ops user_id rows w1 of (deleted, queued, w2) \<Rightarrow>
          ((if q = 0 then 1 else 0) + deleted, q + queued, w2))"

definition delete_for_moments :: "'s store_ops \<Rightarrow> string \<Rightarrow> string list \<Rightarrow> 's media \<Rightarrow> nat \<times> nat \<times> 's media" where
  "delete_for_moments ops user_id moment_ids w =
     delete_rows ops user_id (filter (\<lambda>r. mr_user r = user_id \<and> mr_moment r \<in> set moment_ids) (md_rows w)) w"

subsection \<open>Usage\<close>

record media_usage =
  us_objects :: nat
  us_total_bytes :: nat
  us_thumbnail_bytes :: nat
  us_by_kind :: "(image_kind \<times> nat) list"
  us_by_state :: "(string \<times> nat) list"
  us_pending :: nat

definition sum_opt :: "nat option list \<Rightarrow> nat" where
  "sum_opt xs = sum_list (map (\<lambda>x. case x of None \<Rightarrow> 0 | Some n \<Rightarrow> n) xs)"

definition usage_for_user :: "string \<Rightarrow> 's media \<Rightarrow> media_usage" where
  "usage_for_user user_id w =
     (let mine = filter (\<lambda>r. mr_user r = user_id) (md_rows w)
      in \<lparr>us_objects = length mine, us_total_bytes = sum_opt (map mr_bytes mine),
          us_thumbnail_bytes = sum_opt (map mr_thumb_bytes mine),
          us_by_kind = fold (\<lambda>r. tally_add (mr_kind r) 1) mine [],
          us_by_state = fold (\<lambda>r. tally_add (mr_state r) 1) mine [],
          us_pending = length (filter (\<lambda>q. q_user q = user_id) (md_queue w))\<rparr>)"

subsection \<open>Facts for every store that keeps the laws\<close>

abbreviation queue_keys :: "'s media \<Rightarrow> string list" where
  "queue_keys w \<equiv> map q_key (md_queue w)"

lemma enqueue_keys: "set (map q_key (enqueue_blob_delete u k e qs)) = insert k (set (map q_key qs))"
  by (induction qs) auto

lemma enqueue_distinct: "distinct (map q_key qs) \<Longrightarrow> distinct (map q_key (enqueue_blob_delete u k e qs))"
proof (induction qs)
  case (Cons q qs)
  then show ?case using enqueue_keys [of u k e qs] by auto
qed simp

context object_store
begin

definition settled :: "'s media \<Rightarrow> string \<Rightarrow> bool" where
  "settled w k \<longleftrightarrow> content (md_store w) (loc k) = None \<or> k \<in> set (queue_keys w)"

definition later :: "string list \<Rightarrow> 's media \<Rightarrow> 's media \<Rightarrow> bool" where
  "later ks w w' \<longleftrightarrow>
     md_rows w' = md_rows w \<and> set (queue_keys w) \<subseteq> set (queue_keys w') \<and>
     set (queue_keys w') \<subseteq> set (queue_keys w) \<union> set ks \<and>
     (distinct (queue_keys w) \<longrightarrow> distinct (queue_keys w')) \<and>
     (\<forall>l. content (md_store w') l = content (md_store w) l \<or> content (md_store w') l = None) \<and>
     (\<forall>l. l \<notin> loc ` set ks \<longrightarrow> content (md_store w') l = content (md_store w) l)"

lemma later_refl: "later [] w w"
  by (simp add: later_def)

lemma later_trans: "later ks w w1 \<Longrightarrow> later ks' w1 w2 \<Longrightarrow> later (ks @ ks') w w2"
  unfolding later_def
proof (elim conjE, intro conjI, goal_cases)
  case 1
  then show ?case by simp
next
  case 2
  then show ?case by (meson subset_trans)
next
  case 3
  have "A \<subseteq> Q \<union> K \<Longrightarrow> B \<subseteq> A \<union> K' \<Longrightarrow> B \<subseteq> Q \<union> (K \<union> K')" for A B Q K K' :: "string set" by blast
  note sub = this [where A = "set (queue_keys w1)"]
  show ?case unfolding set_append by (rule sub) (insert 3, assumption+)
next
  case 4
  then show ?case by blast
next
  case 5
  then show ?case by metis
next
  case 6
  then show ?case by (simp add: image_Un)
qed

lemma settled_later: "settled w k \<Longrightarrow> later ks w w' \<Longrightarrow> settled w' k"
  unfolding settled_def later_def by (metis subset_iff)

lemma delete_one:
  "st_delete ops k (md_store w) = Inr s' \<Longrightarrow> later [k] w (w\<lparr>md_store := s'\<rparr>) \<and> settled (w\<lparr>md_store := s'\<rparr>) k"
  using delete_law [of k "md_store w" s'] by (auto simp: later_def settled_def)

lemma enqueue_one:
  "later [k] w (w\<lparr>md_queue := enqueue_blob_delete u k e (md_queue w)\<rparr>) \<and>
   settled (w\<lparr>md_queue := enqueue_blob_delete u k e (md_queue w)\<rparr>) k"
  using enqueue_keys [of u k e "md_queue w"] enqueue_distinct [of "md_queue w" u k e]
  by (auto simp: later_def settled_def)

lemma delete_keys_settles:
  "delete_keys ops u ks w = (n, w') \<Longrightarrow> later ks w w' \<and> list_all (settled w') ks"
proof (induction ops\<equiv>ops u ks w arbitrary: n w' rule: delete_keys.induct)
  case (1 u w)
  then show ?case by (simp add: later_refl)
next
  case (2 u k ks w)
  obtain w1 m where w1: "later [k] w w1" "settled w1 k" "delete_keys ops u ks w1 = (m, w')"
    "later ks w1 w' \<and> list_all (settled w') ks"
  proof (cases "st_delete ops k (md_store w)")
    case (Inl e)
    let ?w = "w\<lparr>md_queue := enqueue_blob_delete u k e (md_queue w)\<rparr>"
    obtain m where m: "delete_keys ops u ks ?w = (m, w')"
      using Inl "2.prems" by (cases "delete_keys ops u ks ?w") auto
    then show ?thesis using that enqueue_one "2.hyps"(1) [OF Inl m] by blast
  next
    case (Inr s')
    then have m: "delete_keys ops u ks (w\<lparr>md_store := s'\<rparr>) = (n, w')" using "2.prems" by simp
    then show ?thesis using that delete_one [OF Inr] "2.hyps"(2) [OF Inr m] by blast
  qed
  then show ?case using later_trans [OF w1(1), of ks w'] settled_later by auto
qed

lemma delete_rows_settles:
  "delete_rows ops u rows w = (d, q, w') \<Longrightarrow>
     later (concat (map blob_keys rows)) w w' \<and> list_all (settled w') (concat (map blob_keys rows))"
proof (induction rows arbitrary: w d q)
  case Nil
  then show ?case by (simp add: later_refl)
next
  case (Cons row rows)
  obtain n w1 where 1: "delete_keys ops u (blob_keys row) w = (n, w1)" by (cases "delete_keys ops u (blob_keys row) w")
  obtain d2 q2 where 2: "delete_rows ops u rows w1 = (d2, q2, w')"
    using Cons.prems 1 by (cases "delete_rows ops u rows w1") auto
  show ?case
    using delete_keys_settles [OF 1] Cons.IH [OF 2] later_trans settled_later by (auto simp: list_all_iff)
qed

lemma put_sealed_get:
  assumes "put_sealed env ops k iv data s = Inr s'" "gcm_ok (me_crypto env)" "length iv = iv_len" "me_keys env \<noteq> []"
  shows "\<exists>box. content s' = (content s)(loc k := Some box) \<and>
    decrypt_bytes_with_any (me_crypto env) (me_keys env) box = Inr data"
proof -
  obtain box where b: "encrypt_bytes (me_crypto env) (hd (me_keys env)) iv data = Inr box" "st_put ops k box s = Inr s'"
    using assms(1) by (auto simp: put_sealed_def split: sum.splits)
  have "hd (me_keys env) \<in> set (me_keys env)" using assms(4) by simp
  then show ?thesis using decrypt_with_any_sealed [OF b(1) assms(3,2)] put_law [OF b(2)] by auto
qed

end

subsection \<open>Properties\<close>

text \<open>C5. Deleting the media of moments loses track of no blob: afterwards every blob of the user's
  rows for these moments is gone from the store or its key is in the delete queue; the queue gains
  only such keys and keeps one entry per key, and nothing stored under another path changes.\<close>

theorem delete_for_moments_no_leak:
  "case delete_for_moments (fs_store root_path) user_id moment_ids w of (deleted, queued, w') \<Rightarrow>
     let keys = concat (map blob_keys
           (filter (\<lambda>r. mr_user r = user_id \<and> mr_moment r \<in> set moment_ids) (md_rows w)))
     in list_all (\<lambda>k. fs_content (md_store w') (path_for root_path k) = None \<or> k \<in> set (queue_keys w')) keys \<and>
        set (queue_keys w') \<subseteq> set (queue_keys w) \<union> set keys \<and>
        (if distinct (queue_keys w) then distinct (queue_keys w') else True) \<and>
        (\<forall>l. if l \<in> path_for root_path ` set keys then True
             else fs_content (md_store w') l = fs_content (md_store w) l)"
proof -
  obtain d q w' where dr: "delete_for_moments (fs_store root_path) user_id moment_ids w = (d, q, w')"
    by (cases "delete_for_moments (fs_store root_path) user_id moment_ids w") auto
  show ?thesis
    using fs.delete_rows_settles [OF dr [unfolded delete_for_moments_def]]
    by (simp add: dr fs.later_def fs.settled_def Let_def list_all_iff)
qed

lemma find_media_Some:
  "find_media u i w = Some row \<Longrightarrow> row \<in> set (md_rows w) \<and> mr_id row = i \<and> mr_user row = u"
  by (auto simp: find_media_def find_Some_iff)

lemma get_media_data:
  assumes "get_media env ops u i v w = Inr (Some (ct, data))"
  shows "\<exists>row k blob. row \<in> set (md_rows w) \<and> mr_id row = i \<and> mr_user row = u \<and>
           mr_state row \<in> {''applied'', ''none''} \<and> k \<in> set (blob_keys row) \<and>
           st_get ops k (md_store w) = Inr (Some blob) \<and>
           decrypt_bytes_with_any (me_crypto env) (me_keys env) blob = Inr data"
proof -
  obtain row where row: "find_media u i w = Some row" "is_safe_media_redaction_state (Some (mr_state row))"
    using assms by (auto simp: get_media_def split: option.splits if_splits)
  let ?thumb = "if v = Variant_thumb then mr_thumb_key row else None"
  let ?k = "case ?thumb of Some k \<Rightarrow> k | None \<Rightarrow> mr_storage_key row"
  obtain blob where "st_get ops ?k (md_store w) = Inr (Some blob)"
    "decrypt_bytes_with_any (me_crypto env) (me_keys env) blob = Inr data"
    using assms row by (auto simp: get_media_def Let_def split: sum.splits option.splits)
  moreover have "?k \<in> set (blob_keys row)" by (auto simp: blob_keys_def split: option.splits)
  ultimately show ?thesis
    using find_media_Some [OF row(1)] row(2) by (auto simp: is_safe_media_redaction_state_def)
qed

lemma group_add_all:
  assumes "P k r" "list_all (\<lambda>(mo, xs). list_all (P mo) xs) out"
  shows "list_all (\<lambda>(mo, xs). list_all (P mo) xs) (group_add k r out)"
proof -
  have set: "list_all (\<lambda>(mo, xs). list_all (P mo) xs) (obj_set k v os)"
    if "list_all (P k) v" "list_all (\<lambda>(mo, xs). list_all (P mo) xs) os" for v os
    using that by (induction os) (auto split: prod.splits)
  have "list_all (P k) (case map_of out k of None \<Rightarrow> [] | Some rs \<Rightarrow> rs)"
  proof (cases "map_of out k")
    case (Some rs)
    then have "(k, rs) \<in> set out" by (rule map_of_SomeD)
    then show ?thesis using Some assms(2) by (auto simp: list_all_iff)
  qed simp
  then show ?thesis unfolding group_add_def using assms by (intro set) simp_all
qed

lemma export_rows_all:
  assumes "export_rows env ops s rows out = Inr res"
    and "\<And>row x. row \<in> set rows \<Longrightarrow> export_row env ops s row = Inr x \<Longrightarrow> P (mr_moment row) x"
    and "list_all (\<lambda>(mo, xs). list_all (P mo) xs) out"
  shows "list_all (\<lambda>(mo, xs). list_all (P mo) xs) res"
  using assms
proof (induction rows arbitrary: out)
  case (Cons row rows)
  from Cons.prems(1) obtain x where x: "export_row env ops s row = Inr x"
    and r: "export_rows env ops s rows (group_add (mr_moment row) x out) = Inr res" by (auto split: sum.splits)
  have "list_all (\<lambda>(mo, xs). list_all (P mo) xs) (group_add (mr_moment row) x out)"
    using group_add_all [of P, OF _ Cons.prems(3)] x Cons.prems(2) by simp
  then show ?case using Cons.IH [OF r] Cons.prems(2) by auto
qed simp

lemma list_for_moments_rows:
  "list_all (\<lambda>(mo, xs). list_all (\<lambda>x. \<exists>row. row \<in> set (md_rows w) \<and> mr_moment row = mo \<and> x = to_ref row) xs) (list_for_moments ids w)"
proof -
  let ?P = "\<lambda>mo x. \<exists>row. row \<in> set (md_rows w) \<and> mr_moment row = mo \<and> x = to_ref row"
  have "list_all (\<lambda>(mo, xs). list_all (?P mo) xs) (fold (\<lambda>row out. group_add (mr_moment row) (to_ref row) out) rows out)"
    if "set rows \<subseteq> set (md_rows w)" "list_all (\<lambda>(mo, xs). list_all (?P mo) xs) out" for rows out
    using that by (induction rows arbitrary: out) (auto intro!: group_add_all [of ?P])
  then show ?thesis by (simp add: list_for_moments_def)
qed

lemma export_row_data:
  "export_row env ops s row = Inr x \<Longrightarrow> ex_data_url x = Some u \<Longrightarrow>
     mr_state row \<in> {''applied'', ''none''} \<and>
     (\<exists>blob data. st_get ops (mr_storage_key row) s = Inr (Some blob) \<and>
        decrypt_bytes_with_any (me_crypto env) (me_keys env) blob = Inr data \<and>
        u = ''data:'' @ mr_content_type row @ '';base64,'' @ base64_encode (me_imaging env) data)"
  by (auto simp: export_row_def is_safe_media_redaction_state_def split: if_splits sum.splits option.splits)

lemma export_row_ref: "export_row env ops s row = Inr x \<Longrightarrow> ex_ref x = to_ref row"
  by (auto simp: export_row_def split: if_splits sum.splits option.splits)

lemma export_rows_safe:
  assumes "export_rows env ops s rows out = Inr res"
    and "list_all (\<lambda>(mo, xs). list_all (\<lambda>x. ex_data_url x = None \<or> is_safe_media_redaction_state (Some (ref_state (ex_ref x)))) xs) out"
  shows "list_all (\<lambda>(mo, xs). list_all (\<lambda>x. ex_data_url x = None \<or> is_safe_media_redaction_state (Some (ref_state (ex_ref x)))) xs) res"
proof (rule export_rows_all [OF assms(1) _ assms(2)])
  fix row x assume x: "export_row env ops s row = Inr x"
  then show "ex_data_url x = None \<or> is_safe_media_redaction_state (Some (ref_state (ex_ref x)))"
    using export_row_data [OF x] export_row_ref [OF x]
      by (cases "ex_data_url x") (auto simp: to_ref_def is_safe_media_redaction_state_def)
qed

lemma export_for_moments_own:
  assumes "export_for_moments env ops user_id moment_ids w = Inr out"
  shows "list_all (\<lambda>(mo, xs). list_all (\<lambda>x. \<exists>row. row \<in> set (md_rows w) \<and> mr_user row = user_id \<and>
    mr_moment row = mo \<and> mo \<in> set moment_ids \<and> ex_ref x = to_ref row \<and>
    (case ex_data_url x of None \<Rightarrow> True
     | Some u \<Rightarrow> mr_state row \<in> {''applied'', ''none''} \<and>
         (\<exists>blob data. st_get ops (mr_storage_key row) (md_store w) = Inr (Some blob) \<and>
            decrypt_bytes_with_any (me_crypto env) (me_keys env) blob = Inr data \<and>
            u = ''data:'' @ mr_content_type row @ '';base64,'' @ base64_encode (me_imaging env) data))) xs) out"
proof (rule export_rows_all [OF assms [unfolded export_for_moments_def]])
  fix row x
  assume r: "row \<in> set (filter (\<lambda>r. mr_user r = user_id \<and> mr_moment r \<in> set moment_ids) (md_rows w))"
    and x: "export_row env ops (md_store w) row = Inr x"
  show "\<exists>row'. row' \<in> set (md_rows w) \<and> mr_user row' = user_id \<and>
    mr_moment row' = mr_moment row \<and> mr_moment row \<in> set moment_ids \<and> ex_ref x = to_ref row' \<and>
    (case ex_data_url x of None \<Rightarrow> True
     | Some u \<Rightarrow> mr_state row' \<in> {''applied'', ''none''} \<and>
         (\<exists>blob data. st_get ops (mr_storage_key row') (md_store w) = Inr (Some blob) \<and>
            decrypt_bytes_with_any (me_crypto env) (me_keys env) blob = Inr data \<and>
            u = ''data:'' @ mr_content_type row' @ '';base64,'' @ base64_encode (me_imaging env) data))"
    using r export_row_ref [OF x] export_row_data [OF x]
    by (intro exI [of _ row]) (simp split: option.split)
qed simp

text \<open>C6. Pixels leave the pipeline only through its gates. A direct read returns data only for a row
  of the asking user in a safe redaction state; the worker's reader only for one in state
  \<open>applied\<close>; the data are the decryption of the stored blob. An export lists only media of the asking
  user, filed under the asked moment they belong to, and carries a data URL only for a row in a safe
  state, encoding the decryption of that row's stored blob.\<close>

theorem media_reads_are_gated:
  "(case get_media env ops user_id media_id v w of
      Inr (Some (ct, data)) \<Rightarrow>
        (\<exists>row k blob. row \<in> set (md_rows w) \<and> mr_id row = media_id \<and> mr_user row = user_id \<and>
           mr_state row \<in> {''applied'', ''none''} \<and> k \<in> set (blob_keys row) \<and>
           st_get ops k (md_store w) = Inr (Some blob) \<and>
           decrypt_bytes_with_any (me_crypto env) (me_keys env) blob = Inr data)
    | _ \<Rightarrow> True) \<and>
   (case read_approved_media c ops keys user_id media_id w of
      Inr (Inr media) \<Rightarrow>
        (\<exists>row blob. row \<in> set (md_rows w) \<and> mr_id row = media_id \<and> mr_user row = user_id \<and> mr_state row = ''applied'' \<and>
           st_get ops (mr_storage_key row) (md_store w) = Inr (Some blob) \<and>
           decrypt_bytes_with_any c keys blob = Inr (am_data media))
    | _ \<Rightarrow> True) \<and>
   (case export_for_moments env ops user_id moment_ids w of
      Inr out \<Rightarrow> list_all (\<lambda>(mo, xs). list_all (\<lambda>x.
        \<exists>row. row \<in> set (md_rows w) \<and> mr_user row = user_id \<and> mr_moment row = mo \<and> mo \<in> set moment_ids \<and>
          ex_ref x = to_ref row \<and>
          (case ex_data_url x of None \<Rightarrow> True
           | Some u \<Rightarrow> mr_state row \<in> {''applied'', ''none''} \<and>
               (\<exists>blob data. st_get ops (mr_storage_key row) (md_store w) = Inr (Some blob) \<and>
                  decrypt_bytes_with_any (me_crypto env) (me_keys env) blob = Inr data \<and>
                  u = ''data:'' @ mr_content_type row @ '';base64,'' @ base64_encode (me_imaging env) data))) xs) out
    | _ \<Rightarrow> True)"
  (is "?direct \<and> ?worker \<and> ?export")
proof (intro conjI)
  show ?direct
    using get_media_data [of env ops user_id media_id v w] by (simp split: sum.split option.split prod.split)
  show ?worker
    by (auto simp: read_approved_media_def read_media_for_adapter_def Let_def
        split: option.splits sum.splits if_splits dest!: find_media_Some)
  show ?export
  proof (cases "export_for_moments env ops user_id moment_ids w")
    case (Inr out)
    show ?thesis using export_for_moments_own [OF Inr] unfolding Inr sum.case .
  qed simp
qed

definition rows_safe :: "'s media \<Rightarrow> bool" where
  "rows_safe w \<longleftrightarrow> list_all (\<lambda>r. is_safe_media_redaction_state (Some (mr_state r))) (md_rows w)"

lemma store_image_rows:
  "store_image env ops u mo st rnd img w = (res, w') \<Longrightarrow>
     \<exists>new. md_rows w' = md_rows w @ new \<and> list_all (\<lambda>r. mr_state r = st \<and> mr_user r = u \<and> mr_moment r = mo) new \<and>
       md_queue w' = md_queue w \<and>
       (case res of Inl _ \<Rightarrow> new = [] | Inr ref \<Rightarrow> map to_ref new = [ref])"
  by (auto simp: store_image_def Let_def split: sum.splits prod.splits)

lemma store_images_rows:
  "store_images env ops u mo st imgs w = (res, w') \<Longrightarrow>
     \<exists>new. md_rows w' = md_rows w @ new \<and> list_all (\<lambda>r. mr_state r = st \<and> mr_user r = u \<and> mr_moment r = mo) new \<and>
       (case res of Inl _ \<Rightarrow> True | Inr refs \<Rightarrow> map to_ref new = refs \<and> length new = length imgs)"
proof (induction env ops u mo st imgs w arbitrary: res w' rule: store_images.induct)
  case (1 env ops u mo st w)
  then show ?case by (intro exI [of _ "[]"]) auto
next
  case (2 env ops u mo st rnd img imgs w)
  obtain r1 w1 where 1: "store_image env ops u mo st rnd img w = (r1, w1)" by (cases "store_image env ops u mo st rnd img w")
  note n1 = store_image_rows [OF 1]
  show ?case
  proof (cases r1)
    case (Inl e)
    then show ?thesis using "2.prems" 1 n1 by auto
  next
    case (Inr ref)
    obtain r2 w2 where 2: "store_images env ops u mo st imgs w1 = (r2, w2)" by (cases "store_images env ops u mo st imgs w1")
    from n1 Inr obtain a where a: "md_rows w1 = md_rows w @ [a]" "mr_state a = st" "mr_user a = u" "mr_moment a = mo" "to_ref a = ref"
      by (auto simp: map_eq_Cons_conv)
    from "2.IH" [OF 1 [symmetric] Inr 2] obtain bs where
      b: "md_rows w2 = md_rows w1 @ bs" "list_all (\<lambda>r. mr_state r = st \<and> mr_user r = u \<and> mr_moment r = mo) bs"
        "case r2 of Inl _ \<Rightarrow> True | Inr refs \<Rightarrow> map to_ref bs = refs \<and> length bs = length imgs" by blast
    show ?thesis
      using "2.prems" 1 2 Inr a b by (intro exI [of _ "a # bs"]) (auto split: sum.splits)
  qed
qed

text \<open>Readable pixels are never persisted in an unsafe redaction state. Under such a state the
  store call changes nothing and returns no reference; otherwise the rows it adds carry the given
  state, user and moment and, when it succeeds, are one per image, in order, behind the references
  it returns. So the table never comes to hold an unsafe row.\<close>

theorem store_moment_images_safe:
  "case store_moment_images env ops user_id moment_id images state w of (res, w') \<Rightarrow>
     (if is_safe_media_redaction_state (Some state) then
        \<exists>new. md_rows w' = md_rows w @ new \<and>
          list_all (\<lambda>r. mr_state r = state \<and> mr_user r = user_id \<and> mr_moment r = moment_id) new \<and>
          (case res of Inl _ \<Rightarrow> True | Inr refs \<Rightarrow> refs = map to_ref new \<and> length refs = length images)
      else res = Inr [] \<and> w' = w) \<and>
     (if rows_safe w then rows_safe w' else True)"
proof (cases "is_safe_media_redaction_state (Some state)")
  case True
  obtain res w' where s: "store_images env ops user_id moment_id state images w = (res, w')"
    by (cases "store_images env ops user_id moment_id state images w")
  from store_images_rows [OF s] obtain new where n: "md_rows w' = md_rows w @ new"
    "list_all (\<lambda>r. mr_state r = state \<and> mr_user r = user_id \<and> mr_moment r = moment_id) new"
    "case res of Inl _ \<Rightarrow> True | Inr refs \<Rightarrow> map to_ref new = refs \<and> length new = length images" by blast
  have "rows_safe w \<longrightarrow> rows_safe w'" using n True by (auto simp: rows_safe_def list_all_iff)
  moreover have "case res of Inl _ \<Rightarrow> True | Inr refs \<Rightarrow> refs = map to_ref new \<and> length refs = length images"
    using n(3) by (auto split: sum.splits)
  ultimately show ?thesis using n True s by (auto simp: store_moment_images_def)
next
  case False
  then show ?thesis by (simp add: store_moment_images_def)
qed

lemma find_append_new:
  "find p xs = None \<Longrightarrow> p x \<Longrightarrow> find p (xs @ [x]) = Some x"
  by (induction xs) (auto split: if_splits)

lemma store_image_steps:
  assumes "store_image env ops u mo st rnd img w = (Inr ref, w')" "parse_data_url (me_imaging env) (fst img) = Inr (mime, buffer)"
  shows "\<exists>thumb s1 s2 row. put_sealed env ops (media_key u mo (rnd_id rnd)) (rnd_iv rnd) buffer (md_store w) = Inr s1 \<and>
    (case thumb of None \<Rightarrow> Inr s1
     | Some t \<Rightarrow> put_sealed env ops (media_key u mo (rnd_id rnd) @ ''-thumb'') (rnd_thumb_iv rnd) t s1) = Inr s2 \<and>
    mr_id row = rnd_id rnd \<and> mr_user row = u \<and> mr_storage_key row = media_key u mo (rnd_id rnd) \<and>
    mr_content_type row = mime \<and> mr_state row = st \<and> w' = w\<lparr>md_store := s2, md_rows := md_rows w @ [row]\<rparr>"
proof -
  obtain width height thumb where th: "thumbnail env buffer = (width, height, thumb)" by (cases "thumbnail env buffer") auto
  let ?key = "media_key u mo (rnd_id rnd)"
  let ?row = "\<lparr>mr_id = rnd_id rnd, mr_moment = mo, mr_user = u, mr_kind = snd img, mr_storage_key = ?key,
     mr_thumb_key = (case thumb of None \<Rightarrow> None | Some _ \<Rightarrow> Some (?key @ ''-thumb'')), mr_content_type = mime,
     mr_bytes = Some (length buffer), mr_thumb_bytes = map_option length thumb, mr_width = width, mr_height = height,
     mr_state = st\<rparr>"
  obtain s1 where s1: "put_sealed env ops ?key (rnd_iv rnd) buffer (md_store w) = Inr s1"
    using assms th by (auto simp: store_image_def Let_def split: sum.splits)
  obtain s2 where s2: "(case thumb of None \<Rightarrow> Inr s1
     | Some t \<Rightarrow> put_sealed env ops (?key @ ''-thumb'') (rnd_thumb_iv rnd) t s1) = Inr s2"
    using assms th s1 by (auto simp: store_image_def Let_def split: sum.splits)
  have "w' = w\<lparr>md_store := s2, md_rows := md_rows w @ [?row]\<rparr>"
    using assms th s1 s2 by (simp add: store_image_def Let_def)
  then show ?thesis using s1 s2 by (intro exI [of _ thumb] exI [of _ s1] exI [of _ s2] exI [of _ ?row]) simp
qed

text \<open>What is stored can be read back: after an image was stored on the file-system store under a
  safe state and a fresh identifier, its owner's read of the full variant gives the image's type
  and exactly its bytes, also after the thumbnail was written, unless reading the file fails.\<close>

theorem stored_image_readable:
  assumes "gcm_ok (me_crypto env)" "me_keys env \<noteq> []" "starts_with root_path [slash]"
    and "length (rnd_iv rnd) = iv_len" "is_safe_media_redaction_state (Some state)"
    and "clean_key (media_key user_id moment_id (rnd_id rnd))"
    and "clean_key (media_key user_id moment_id (rnd_id rnd) @ ''-thumb'')"
    and "find_media user_id (rnd_id rnd) w = None"
    and "parse_data_url (me_imaging env) (fst img) = Inr (mime, buffer)"
    and "store_image env (fs_store root_path) user_id moment_id state rnd img w = (Inr ref, w')"
  shows "case get_media env (fs_store root_path) user_id (rnd_id rnd) Variant_full w' of
      Inl (Store_error e) \<Rightarrow> True
    | Inl _ \<Rightarrow> False
    | Inr r \<Rightarrow> r = Some (mime, buffer)"
proof -
  let ?key = "media_key user_id moment_id (rnd_id rnd)"
  let ?tkey = "?key @ ''-thumb''"
  obtain thumb s1 s2 row where s1: "put_sealed env (fs_store root_path) ?key (rnd_iv rnd) buffer (md_store w) = Inr s1"
    and s2: "(case thumb of None \<Rightarrow> Inr s1 | Some t \<Rightarrow> put_sealed env (fs_store root_path) ?tkey (rnd_thumb_iv rnd) t s1) = Inr s2"
    and row: "mr_id row = rnd_id rnd" "mr_user row = user_id" "mr_storage_key row = ?key" "mr_content_type row = mime"
      "mr_state row = state"
    and w': "w' = w\<lparr>md_store := s2, md_rows := md_rows w @ [row]\<rparr>"
    using store_image_steps [OF assms(10,9)] by blast
  obtain box where box: "fs_content s1 (path_for root_path ?key) = Some box"
    "decrypt_bytes_with_any (me_crypto env) (me_keys env) box = Inr buffer"
    using fs.put_sealed_get [OF s1 assms(1,4,2)] by auto
  have "path_for root_path ?tkey \<noteq> path_for root_path ?key"
    using path_for_clean_inj [OF assms(3), of ?tkey ?key] assms(6,7) by auto
  then have "fs_content s2 (path_for root_path ?key) = Some box"
    using s2 box(1) fs.put_other
    by (auto simp: put_sealed_def split: option.splits sum.splits)
  moreover have "find_media user_id (rnd_id rnd) w' = Some row"
    using assms(8) row(1,2) w' find_append_new [of "\<lambda>r. mr_id r = rnd_id rnd \<and> mr_user r = user_id" "md_rows w" row]
    by (simp add: find_media_def)
  moreover have "st_get (fs_store root_path) ?key s2 = Inr r \<Longrightarrow> r = fs_content s2 (path_for root_path ?key)" for r
    by (rule fs.get_law)
  ultimately show ?thesis
    using box(2) row w' assms(5)
    by (auto simp: get_media_def split: sum.splits option.splits)
qed

definition demo_env :: media_env where
  "demo_env = \<lparr>me_crypto = toy_crypto, me_imaging = blank_imaging 1280, me_keys = [replicate 32 1], me_resize = \<lambda>_ bm. Some bm\<rparr>"

definition demo_media :: "fs media" where
  "demo_media = \<lparr>md_store = \<lparr>fs_files = [], fs_io_error = \<lambda>_ _. None, fs_clock = 0\<rparr>, md_rows = [], md_queue = []\<rparr>"

definition demo_rnd :: image_rnd where
  "demo_rnd = \<lparr>rnd_id = ''c'', rnd_iv = replicate 12 0, rnd_thumb_iv = replicate 12 0\<rparr>"

definition demo_img :: "string \<times> image_kind" where
  "demo_img = (''data:image/png;base64,AA=='', Screenshot)"

lemma demo_paths: "path_for ''/m'' ''a/b/c'' = Some ''/m/a/b/c''" "path_for ''/m'' ''a/b/c-thumb'' = Some ''/m/a/b/c-thumb''"
  by code_simp+

lemma demo_parse_url: "parse_data_url (me_imaging demo_env) (fst demo_img) = Inr (''image/png'', [65, 65, 61, 61])"
proof -
  have "to_lower (group_text 1 (fst demo_img) [(2, 4, 0), (1, 21, 12)]) = ''image/png''"
    "map of_char (group_text 2 (fst demo_img) [(2, 4, 0), (1, 21, 12)]) = ([65, 65, 61, 61] :: bytes)"
    by code_simp+
  then show ?thesis
    using blank_parse by (simp add: parse_data_url_def demo_env_def demo_img_def blank_imaging_def)
qed

lemma demo_put:
  assumes "path_for ''/m'' k = Some p" "fs_io_error s = (\<lambda>_ _. None)"
  shows "\<exists>s'. put_sealed demo_env (fs_store ''/m'') k iv d s = Inr s' \<and> fs_io_error s' = (\<lambda>_ _. None)"
  using assms
  by (simp add: put_sealed_def encrypt_bytes_def demo_env_def toy_crypto_def fs_store_def fs_put_def key_len_def)

lemma demo_key: "media_key ''a'' ''b'' (rnd_id demo_rnd) = ''a/b/c''"
  by (simp add: media_key_def demo_rnd_def)

lemma demo_stored:
  "\<exists>ref w'. store_image demo_env (fs_store ''/m'') ''a'' ''b'' ''applied'' demo_rnd demo_img demo_media = (Inr ref, w')"
proof -
  have t: "thumbnail demo_env [65, 65, 61, 61] = (Some 1280, Some 720, Some [])"
    by (simp add: thumbnail_def demo_env_def blank_imaging_def)
  obtain s1 where s1: "put_sealed demo_env (fs_store ''/m'') ''a/b/c'' (rnd_iv demo_rnd) [65, 65, 61, 61] (md_store demo_media) = Inr s1"
      "fs_io_error s1 = (\<lambda>_ _. None)"
    using demo_put [OF demo_paths(1), of "md_store demo_media"] by (auto simp: demo_media_def)
  obtain s2 where "put_sealed demo_env (fs_store ''/m'') ''a/b/c-thumb'' (rnd_thumb_iv demo_rnd) [] s1 = Inr s2"
    using demo_put [OF demo_paths(2) s1(2)] by blast
  then show ?thesis
    using t s1(1) by (simp add: store_image_def demo_parse_url demo_key Let_def)
qed

theorem stored_image_readable_witness:
  "\<exists>ref w'. store_image demo_env (fs_store ''/m'') ''a'' ''b'' ''applied'' demo_rnd demo_img demo_media = (Inr ref, w') \<and>
     (case get_media demo_env (fs_store ''/m'') ''a'' ''c'' Variant_full w' of
        Inl (Store_error e) \<Rightarrow> True | Inl _ \<Rightarrow> False | Inr r \<Rightarrow> r = Some (''image/png'', [65, 65, 61, 61]))"
proof -
  obtain ref w' where s: "store_image demo_env (fs_store ''/m'') ''a'' ''b'' ''applied'' demo_rnd demo_img demo_media = (Inr ref, w')"
    using demo_stored by blast
  have "gcm_ok (me_crypto demo_env)" "me_keys demo_env \<noteq> []" "starts_with ''/m'' [slash]"
    "length (rnd_iv demo_rnd) = iv_len" "is_safe_media_redaction_state (Some ''applied'')"
    "find_media ''a'' (rnd_id demo_rnd) demo_media = None"
    using toy_crypto_ok by (simp_all add: demo_env_def demo_rnd_def starts_with_def slash_def iv_len_def
        is_safe_media_redaction_state_def find_media_def demo_media_def)
  moreover have "clean_key (media_key ''a'' ''b'' (rnd_id demo_rnd))"
    "clean_key (media_key ''a'' ''b'' (rnd_id demo_rnd) @ ''-thumb'')"
    by code_simp+
  ultimately show ?thesis
    using stored_image_readable [OF _ _ _ _ _ _ _ _ demo_parse_url s] s by (fastforce simp: demo_rnd_def)
qed

end
