(* ===== verification/Media_Ops.thy ===== *)
theory Media_Ops
  imports Media
begin

text \<open>
  Operator commands of the media pipeline: \<^verbatim>\<open>services/api/src/media/cleanup.ts\<close> (delete queue and
  orphans), \<^verbatim>\<open>services/api/src/db/rotate-media-key.ts\<close>, \<^verbatim>\<open>services/api/src/db/verify-media.ts\<close> and
  \<^verbatim>\<open>services/api/src/db/backfill-media.ts\<close>. An exception of the store that the command does not
  catch ends it; the state it leaves is returned with it.
\<close>

subsection \<open>Cleanup\<close>

definition queue_remove :: "string \<Rightarrow> queue_row list \<Rightarrow> queue_row list" where
  "queue_remove key qs = filter (\<lambda>q. q_key q \<noteq> key) qs"

definition queue_bump :: "string \<Rightarrow> string \<Rightarrow> queue_row list \<Rightarrow> queue_row list" where
  "queue_bump key err qs =
     map (\<lambda>q. if q_key q = key then q\<lparr>q_attempts := q_attempts q + 1, q_last_error := take 500 err\<rparr> else q) qs"

fun drain_loop :: "'s store_ops \<Rightarrow> string list \<Rightarrow> 's media \<Rightarrow> nat \<times> nat \<times> 's media" where
  "drain_loop ops [] w = (0, 0, w)"
| "drain_loop ops (k # ks) w =
     (case st_delete ops k (md_store w) of
        Inr s' \<Rightarrow>
          (case drain_loop ops ks (w\<lparr>md_store := s', md_queue := queue_remove k (md_queue w)\<rparr>) of
             (d, r, w') \<Rightarrow> (d + 1, r, w'))
      | Inl err \<Rightarrow>
          (case drain_loop ops ks (w\<lparr>md_queue := queue_bump k err (md_queue w)\<rparr>) of
             (d, r, w') \<Rightarrow> (d, r + 1, w')))"

definition drain_delete_queue :: "'s store_ops \<Rightarrow> bool \<Rightarrow> 's media \<Rightarrow> nat \<times> nat \<times> 's media" where
  "drain_delete_queue ops apply_it w =
     (if \<not> apply_it then (0, length (md_queue w), w) else drain_loop ops (queue_keys w) w)"

record cleanup_report =
  cr_stored :: nat
  cr_valid :: nat
  cr_queue_deleted :: nat
  cr_queue_remaining :: nat
  cr_orphans :: nat
  cr_skipped_recent :: nat
  cr_deleted :: nat
  cr_dry_run :: bool
  cr_audit :: "(string \<times> nat) list"

record cleanup_count =
  cc_orphans :: nat
  cc_skipped :: nat
  cc_deleted :: nat
  cc_per_user :: "(string \<times> nat) list"

definition key_owner :: "string \<Rightarrow> string" where
  "key_owner key = hd (split_on slash key)"

definition too_recent :: "int \<Rightarrow> int \<Rightarrow> stored_object \<Rightarrow> bool" where
  "too_recent now min_age_ms obj =
     (case so_last_modified obj of None \<Rightarrow> False | Some t \<Rightarrow> now - t < min_age_ms)"

fun sweep :: "'s store_ops \<Rightarrow> bool \<Rightarrow> int \<Rightarrow> int \<Rightarrow> string list \<Rightarrow> stored_object list \<Rightarrow> cleanup_count \<Rightarrow> 's \<Rightarrow>
    (string + cleanup_count) \<times> 's" where
  \<comment> \<open>the loop over the stored objects; \<open>keep\<close>: the referenced and the queued keys\<close>
  "sweep ops delete now min_age_ms keep [] c s = (Inr c, s)"
| "sweep ops delete now min_age_ms keep (obj # objs) c s =
     (if so_key obj \<in> set keep then sweep ops delete now min_age_ms keep objs c s
      else if too_recent now min_age_ms obj
      then sweep ops delete now min_age_ms keep objs (c\<lparr>cc_skipped := cc_skipped c + 1\<rparr>) s
      else if \<not> delete
      then sweep ops delete now min_age_ms keep objs (c\<lparr>cc_orphans := cc_orphans c + 1\<rparr>) s
      else (case st_delete ops (so_key obj) s of
              Inl e \<Rightarrow> (Inl e, s)
            | Inr s' \<Rightarrow> sweep ops delete now min_age_ms keep objs
                (c\<lparr>cc_orphans := cc_orphans c + 1, cc_deleted := cc_deleted c + 1,
                   cc_per_user := tally_add (key_owner (so_key obj)) 1 (cc_per_user c)\<rparr>) s'))"

definition no_counts :: cleanup_count where
  "no_counts = \<lparr>cc_orphans = 0, cc_skipped = 0, cc_deleted = 0, cc_per_user = []\<rparr>"

definition run_media_cleanup ::
  "'s store_ops \<Rightarrow> bool \<Rightarrow> int \<Rightarrow> int \<Rightarrow> string list \<Rightarrow> 's media \<Rightarrow> (string + cleanup_report) \<times> 's media" where
  \<comment> \<open>\<open>users\<close>: the ids of the users table\<close>
  "run_media_cleanup ops delete min_age_minutes now users w =
     (case drain_delete_queue ops delete w of (q_deleted, q_remaining, w1) \<Rightarrow>
        let valid = remdups (concat (map blob_keys (md_rows w1)));
            still_queued = queue_keys w1
        in (case st_list ops [] (md_store w1) of
              Inl e \<Rightarrow> (Inl e, w1)
            | Inr stored \<Rightarrow>
                (case sweep ops delete now (min_age_minutes * 60000) (valid @ still_queued) stored no_counts (md_store w1) of
                   (Inl e, s) \<Rightarrow> (Inl e, w1\<lparr>md_store := s\<rparr>)
                 | (Inr c, s) \<Rightarrow>
                     (Inr \<lparr>cr_stored = length stored, cr_valid = length valid, cr_queue_deleted = q_deleted,
                           cr_queue_remaining = q_remaining, cr_orphans = cc_orphans c, cr_skipped_recent = cc_skipped c,
                           cr_deleted = cc_deleted c, cr_dry_run = (\<not> delete),
                           cr_audit = filter (\<lambda>(owner, n). owner \<in> set users) (cc_per_user c)\<rparr>,
                      w1\<lparr>md_store := s\<rparr>))))"

subsection \<open>Key rotation\<close>

record rotate_count =
  rc_rotated :: nat
  rc_already :: nat
  rc_missing :: nat
  rc_undecryptable :: nat

definition opens :: "crypto \<Rightarrow> bytes \<Rightarrow> bytes \<Rightarrow> bytes option" where
  "opens c key box = (case decrypt_bytes c key box of Inl _ \<Rightarrow> None | Inr p \<Rightarrow> Some p)"

fun rotate_keys :: "crypto \<Rightarrow> 's store_ops \<Rightarrow> bool \<Rightarrow> bytes \<Rightarrow> bytes \<Rightarrow> (nat \<Rightarrow> bytes) \<Rightarrow> string list \<Rightarrow> rotate_count \<Rightarrow> 's \<Rightarrow>
    (media_error + rotate_count) \<times> 's" where
  \<comment> \<open>\<open>ivs n\<close>: the nonce drawn for the \<open>n\<close>-th re-encryption\<close>
  "rotate_keys c ops apply_it new_key old_key ivs [] n s = (Inr n, s)"
| "rotate_keys c ops apply_it new_key old_key ivs (k # ks) n s =
     (case st_get ops k s of
        Inl e \<Rightarrow> (Inl (Store_error e), s)
      | Inr None \<Rightarrow> rotate_keys c ops apply_it new_key old_key ivs ks (n\<lparr>rc_missing := rc_missing n + 1\<rparr>) s
      | Inr (Some blob) \<Rightarrow>
          (case opens c new_key blob of
             Some _ \<Rightarrow> rotate_keys c ops apply_it new_key old_key ivs ks (n\<lparr>rc_already := rc_already n + 1\<rparr>) s
           | None \<Rightarrow>
               (case opens c old_key blob of
                  None \<Rightarrow> rotate_keys c ops apply_it new_key old_key ivs ks (n\<lparr>rc_undecryptable := rc_undecryptable n + 1\<rparr>) s
                | Some plain \<Rightarrow>
                    if \<not> apply_it
                    then rotate_keys c ops apply_it new_key old_key ivs ks (n\<lparr>rc_rotated := rc_rotated n + 1\<rparr>) s
                    else (case encrypt_bytes c new_key (ivs (rc_rotated n)) plain of
                            Inl e \<Rightarrow> (Inl (Box_error e), s)
                          | Inr box \<Rightarrow>
                              (case st_put ops k box s of
                                 Inl e \<Rightarrow> (Inl (Store_error e), s)
                               | Inr s' \<Rightarrow> rotate_keys c ops apply_it new_key old_key ivs ks (n\<lparr>rc_rotated := rc_rotated n + 1\<rparr>) s')))))"

definition rotate_media :: "crypto \<Rightarrow> 's store_ops \<Rightarrow> bool \<Rightarrow> bytes \<Rightarrow> bytes \<Rightarrow> (nat \<Rightarrow> bytes) \<Rightarrow> 's media \<Rightarrow>
    (media_error + rotate_count) \<times> 's media" where
  "rotate_media c ops apply_it new_key old_key ivs w =
     (case rotate_keys c ops apply_it new_key old_key ivs (concat (map blob_keys (md_rows w)))
             \<lparr>rc_rotated = 0, rc_already = 0, rc_missing = 0, rc_undecryptable = 0\<rparr> (md_store w) of
        (res, s) \<Rightarrow> (res, w\<lparr>md_store := s\<rparr>))"

record token_count =
  tc_rotated :: nat
  tc_already :: nat
  tc_failed :: nat

fun rotate_tokens :: "crypto \<Rightarrow> bool \<Rightarrow> bytes \<Rightarrow> bytes \<Rightarrow> (nat \<Rightarrow> bytes) \<Rightarrow> (string \<times> bytes) list \<Rightarrow> token_count \<Rightarrow>
    box_error + ((string \<times> bytes) list \<times> token_count)" where
  \<comment> \<open>the active connections with a non-empty ciphertext\<close>
  "rotate_tokens c apply_it new_key old_key ivs [] n = Inr ([], n)"
| "rotate_tokens c apply_it new_key old_key ivs ((i, box) # conns) n =
     (case opens c new_key box of
        Some _ \<Rightarrow> map_sum id (\<lambda>(cs, n'). ((i, box) # cs, n')) (rotate_tokens c apply_it new_key old_key ivs conns (n\<lparr>tc_already := tc_already n + 1\<rparr>))
      | None \<Rightarrow>
          (case opens c old_key box of
             None \<Rightarrow> map_sum id (\<lambda>(cs, n'). ((i, box) # cs, n')) (rotate_tokens c apply_it new_key old_key ivs conns (n\<lparr>tc_failed := tc_failed n + 1\<rparr>))
           | Some token \<Rightarrow>
               (case (if apply_it then encrypt_bytes c new_key (ivs (tc_rotated n)) token else Inr box) of
                  Inl e \<Rightarrow> Inl e
                | Inr box' \<Rightarrow> map_sum id (\<lambda>(cs, n'). ((i, box') # cs, n')) (rotate_tokens c apply_it new_key old_key ivs conns (n\<lparr>tc_rotated := tc_rotated n + 1\<rparr>)))))"

subsection \<open>Verification\<close>

record verify_count =
  vc_ok :: nat
  vc_missing :: nat
  vc_undecryptable :: nat

fun verify_keys :: "crypto \<Rightarrow> 's store_ops \<Rightarrow> bytes list \<Rightarrow> string list \<Rightarrow> verify_count \<Rightarrow> 's \<Rightarrow> string + verify_count" where
  "verify_keys c ops keys [] n s = Inr n"
| "verify_keys c ops keys (k # ks) n s =
     (case st_get ops k s of
        Inl e \<Rightarrow> Inl e
      | Inr None \<Rightarrow> verify_keys c ops keys ks (n\<lparr>vc_missing := vc_missing n + 1\<rparr>) s
      | Inr (Some blob) \<Rightarrow>
          (case decrypt_bytes_with_any c keys blob of
             Inr _ \<Rightarrow> verify_keys c ops keys ks (n\<lparr>vc_ok := vc_ok n + 1\<rparr>) s
           | Inl _ \<Rightarrow> verify_keys c ops keys ks (n\<lparr>vc_undecryptable := vc_undecryptable n + 1\<rparr>) s))"

definition verify_media :: "crypto \<Rightarrow> 's store_ops \<Rightarrow> bytes list \<Rightarrow> 's media \<Rightarrow> string + (verify_count \<times> nat)" where
  \<comment> \<open>the counts and the exit code\<close>
  "verify_media c ops keys w =
     (case verify_keys c ops keys (concat (map blob_keys (md_rows w))) \<lparr>vc_ok = 0, vc_missing = 0, vc_undecryptable = 0\<rparr> (md_store w) of
        Inl e \<Rightarrow> Inl e
      | Inr n \<Rightarrow> Inr (n, if vc_missing n \<noteq> 0 \<or> vc_undecryptable n \<noteq> 0 then 2 else 0))"

subsection \<open>Backfill of legacy rows\<close>

fun backfill_walk :: "imaging \<Rightarrow> json \<Rightarrow> string list \<Rightarrow> image_error + (json \<times> string list)"
and backfill_walk_list :: "imaging \<Rightarrow> json list \<Rightarrow> string list \<Rightarrow> image_error + (json list \<times> string list)"
and backfill_walk_fields :: "imaging \<Rightarrow> (string \<times> json) list \<Rightarrow> string list \<Rightarrow> image_error + ((string \<times> json) list \<times> string list)"
where
  "backfill_walk im (JStr s) texts =
     (if is_image_str s
      then (case redact_image_data_url im s of
              Inl e \<Rightarrow> Inl e
            | Inr r \<Rightarrow> Inr (JStr (ri_data_url r), texts @ (if ri_safe_text r = [] then [] else [ri_safe_text r])))
      else Inr (JStr s, texts))"
| "backfill_walk im (JArr xs) texts =
     (case backfill_walk_list im xs texts of Inl e \<Rightarrow> Inl e | Inr (ys, t) \<Rightarrow> Inr (JArr ys, t))"
| "backfill_walk im (JObj fs) texts =
     (case backfill_walk_fields im fs texts of Inl e \<Rightarrow> Inl e | Inr (gs, t) \<Rightarrow> Inr (JObj gs, t))"
| "backfill_walk im v texts = Inr (v, texts)"
| "backfill_walk_list im [] texts = Inr ([], texts)"
| "backfill_walk_list im (x # xs) texts =
     (case backfill_walk im x texts of
        Inl e \<Rightarrow> Inl e
      | Inr (y, t) \<Rightarrow> (case backfill_walk_list im xs t of Inl e \<Rightarrow> Inl e | Inr (ys, t') \<Rightarrow> Inr (y # ys, t')))"
| "backfill_walk_fields im [] texts = Inr ([], texts)"
| "backfill_walk_fields im ((k, v) # fs) texts =
     (case backfill_walk im v texts of
        Inl e \<Rightarrow> Inl e
      | Inr (w, t) \<Rightarrow> (case backfill_walk_fields im fs t of Inl e \<Rightarrow> Inl e | Inr (gs, t') \<Rightarrow> Inr ((k, w) # gs, t')))"

datatype backfill_outcome =
    Quarantined json
  | Left_as_is
  | Migrated "json option" "(string \<times> image_kind) list" string "string option"

definition backfill_row :: "imaging option \<Rightarrow> json \<Rightarrow> string option \<Rightarrow> backfill_outcome" where
  \<comment> \<open>what becomes of a row with the given payload and \<open>image_redaction.state\<close>; a migrated row has its
     new payload, the images handed to \<open>storeMomentImages\<close>, the state they are stored under, and the text\<close>
  "backfill_row ocr payload state =
     (let finish = (\<lambda>p final_state ocr_text.
            (case extract_payload_images p of (rest_payload, images) \<Rightarrow>
               if images = [] then Left_as_is else Migrated rest_payload images final_state ocr_text))
      in if state = Some ''applied'' then finish payload ''applied'' None
         else (case ocr of
                 None \<Rightarrow> Quarantined (sanitize_legacy_inline_media payload)
               | Some im \<Rightarrow>
                   (case backfill_walk im payload [] of
                      Inl _ \<Rightarrow> Quarantined (sanitize_legacy_inline_media payload)
                    | Inr (p, texts) \<Rightarrow> finish p ''applied'' (joined_chunks texts))))"

subsection \<open>Facts for every store that keeps the laws\<close>

definition orphan :: "int \<Rightarrow> int \<Rightarrow> string list \<Rightarrow> stored_object \<Rightarrow> bool" where
  "orphan now min_age_ms keep obj \<longleftrightarrow> so_key obj \<notin> set keep \<and> \<not> too_recent now min_age_ms obj"

lemma queue_remove_keys: "set (map q_key (queue_remove k qs)) = set (map q_key qs) - {k}"
  by (auto simp: queue_remove_def)

lemma queue_bump_keys: "map q_key (queue_bump k e qs) = map q_key qs"
  by (induction qs) (auto simp: queue_bump_def)

lemma sweep_dry: "sweep ops False now age keep objs c s = (res, s') \<Longrightarrow> s' = s"
  by (induction objs arbitrary: c) (auto split: if_splits)

lemma sweep_counts:
  "sweep ops delete now age keep objs c s = (Inr c', s') \<Longrightarrow>
     cc_orphans c' = cc_orphans c + length (filter (orphan now age keep) objs) \<and>
     cc_deleted c' = cc_deleted c + (if delete then length (filter (orphan now age keep) objs) else 0)"
  by (induction objs arbitrary: c s) (auto simp: orphan_def split: if_splits sum.splits)

context object_store
begin

lemma drain_loop_effect:
  "drain_loop ops ks w = (d, r, w') \<Longrightarrow>
     md_rows w' = md_rows w \<and> set (queue_keys w') \<subseteq> set (queue_keys w) \<and> d + r = length ks \<and>
     (\<forall>l. content (md_store w') l = content (md_store w) l \<or>
          content (md_store w') l = None \<and> l \<in> loc ` set ks)"
proof (induction ks arbitrary: w d r w')
  case (Cons k ks)
  show ?case
  proof (cases "st_delete ops k (md_store w)")
    case (Inl e)
    let ?w = "w\<lparr>md_queue := queue_bump k e (md_queue w)\<rparr>"
    obtain d1 r1 where 1: "drain_loop ops ks ?w = (d1, r1, w')" "d = d1" "r = r1 + 1"
      using Inl Cons.prems by (cases "drain_loop ops ks ?w") auto
    show ?thesis using Cons.IH [OF 1(1)] 1(2,3) queue_bump_keys [of k e "md_queue w"]
      by (auto simp del: set_map)
  next
    case (Inr s')
    let ?w = "w\<lparr>md_store := s', md_queue := queue_remove k (md_queue w)\<rparr>"
    obtain d1 r1 where 1: "drain_loop ops ks ?w = (d1, r1, w')" "d = d1 + 1" "r = r1"
      using Inr Cons.prems by (cases "drain_loop ops ks ?w") auto
    note IH = Cons.IH [OF 1(1)]
    have "content (md_store w') l = content (md_store w) l \<or>
          content (md_store w') l = None \<and> l \<in> loc ` set (k # ks)" for l
    proof -
      have "content (md_store w') l = content s' l \<or> content (md_store w') l = None \<and> l \<in> loc ` set ks"
        using IH by simp
      then show ?thesis using delete_law [OF Inr] by (cases "l = loc k") auto
    qed
    then show ?thesis using IH 1(2,3) queue_remove_keys [of k "md_queue w"] by (auto simp del: set_map)
  qed
qed simp

lemma sweep_effect:
  "sweep ops True now age keep objs c s = (res, s') \<Longrightarrow>
     (\<forall>l. content s' l = content s l \<or>
        content s' l = None \<and> (\<exists>obj. obj \<in> set objs \<and> orphan now age keep obj \<and> l = loc (so_key obj))) \<and>
     (case res of Inl _ \<Rightarrow> True
      | Inr _ \<Rightarrow> \<forall>obj. obj \<in> set objs \<longrightarrow> orphan now age keep obj \<longrightarrow> content s' (loc (so_key obj)) = None)"
proof (induction objs arbitrary: c s)
  case (Cons obj objs)
  show ?case
  proof (cases "orphan now age keep obj")
    case False
    then obtain c' where c': "sweep ops True now age keep objs c' s = (res, s')"
      using Cons.prems by (auto simp: orphan_def split: if_splits)
    then show ?thesis using Cons.IH [OF c'] False by (auto split: sum.splits)
  next
    case True
    show ?thesis
    proof (cases "st_delete ops (so_key obj) s")
      case (Inl e)
      then show ?thesis using Cons.prems True by (auto simp: orphan_def)
    next
      case (Inr s1)
      then obtain c' where c': "sweep ops True now age keep objs c' s1 = (res, s')"
        using Cons.prems True by (auto simp: orphan_def)
      note IH = Cons.IH [OF c'] and del = delete_law [OF Inr]
      have 1: "content s' l = content s l \<or> content s' l = None \<and>
          (\<exists>o'. o' \<in> set (obj # objs) \<and> orphan now age keep o' \<and> l = loc (so_key o'))" for l
      proof (cases "l = loc (so_key obj)")
        case l: True
        have "content s1 l = None" using del l by simp
        then have "content s' l = None" using IH by metis
        then show ?thesis using l True by auto
      next
        case False
        then have e: "content s1 l = content s l" using del by simp
        have "content s' l = content s1 l \<or>
            content s' l = None \<and> (\<exists>o'. o' \<in> set objs \<and> orphan now age keep o' \<and> l = loc (so_key o'))"
          using IH by blast
        then show ?thesis unfolding e by auto
      qed
      have "content s' (loc (so_key obj)) = None"
        using IH del by (metis fun_upd_same)
      then show ?thesis using 1 IH by (auto split: sum.splits)
    qed
  qed
qed (auto split: sum.splits)

end

text \<open>C7. The cleanup command. A dry run changes nothing. A deleting run leaves the media table alone and
  removes only blobs whose key was in the delete queue or that it listed under a key that no media row
  of any user references, that is not queued and that is old enough; when it ends normally every such
  orphan is gone and the report counts them.\<close>

theorem cleanup_removes_only_orphans:
  "case drain_delete_queue (fs_store root_path) delete w of (qd, qr, w1) \<Rightarrow>
   case run_media_cleanup (fs_store root_path) delete min_age now users w of (res, w') \<Rightarrow>
     let keep = remdups (concat (map blob_keys (md_rows w))) @ queue_keys w1;
         listed = (case fs_list root_path [] (md_store w1) of Inl _ \<Rightarrow> [] | Inr objs \<Rightarrow> objs);
         orphans = filter (orphan now (min_age * 60000) keep) listed
     in (if delete then
           md_rows w' = md_rows w \<and>
           (\<forall>l. fs_content (md_store w') l = fs_content (md_store w) l \<or>
                fs_content (md_store w') l = None \<and>
                  l \<in> path_for root_path ` (set (queue_keys w) \<union> so_key ` set orphans))
         else w' = w) \<and>
        (case res of
           Inl _ \<Rightarrow> True
         | Inr rep \<Rightarrow> cr_orphans rep = length orphans \<and> cr_deleted rep = (if delete then length orphans else 0) \<and>
             (if delete then list_all (\<lambda>obj. fs_content (md_store w') (path_for root_path (so_key obj)) = None) orphans
              else True))"
proof -
  obtain qd qr w1 where dr: "drain_delete_queue (fs_store root_path) delete w = (qd, qr, w1)"
    by (cases "drain_delete_queue (fs_store root_path) delete w") auto
  have rows: "md_rows w1 = md_rows w"
    using dr fs.drain_loop_effect [of root_path "queue_keys w" w qd qr w1]
    by (auto simp: drain_delete_queue_def split: if_splits)
  have drained: "fs_content (md_store w1) l = fs_content (md_store w) l \<or>
      fs_content (md_store w1) l = None \<and> delete \<and> l \<in> path_for root_path ` set (queue_keys w)" for l
    using dr fs.drain_loop_effect [of root_path "queue_keys w" w qd qr w1]
    by (auto simp: drain_delete_queue_def split: if_splits)
  define keep where "keep = remdups (concat (map blob_keys (md_rows w))) @ queue_keys w1"
  obtain res w' where rc: "run_media_cleanup (fs_store root_path) delete min_age now users w = (res, w')"
    by (cases "run_media_cleanup (fs_store root_path) delete min_age now users w")
  show ?thesis
  proof (cases "st_list (fs_store root_path) [] (md_store w1)")
    case (Inl e)
    then have r: "w' = w1" "res = Inl e" using rc dr by (auto simp: run_media_cleanup_def Let_def)
    have "\<not> delete \<Longrightarrow> w1 = w" using dr by (simp add: drain_delete_queue_def)
    then show ?thesis using r dr rc rows drained by (auto simp: Let_def image_Un)
  next
    case (Inr objs)
    then have l: "fs_list root_path [] (md_store w1) = Inr objs" by (simp add: fs_store_def)
    obtain sres s where sw: "sweep (fs_store root_path) delete now (min_age * 60000) keep objs no_counts (md_store w1) = (sres, s)"
      by (cases "sweep (fs_store root_path) delete now (min_age * 60000) keep objs no_counts (md_store w1)")
    have w': "w' = w1\<lparr>md_store := s\<rparr>" and res: "case sres of Inl e \<Rightarrow> res = Inl e
        | Inr c \<Rightarrow> \<exists>rep. res = Inr rep \<and> cr_orphans rep = cc_orphans c \<and> cr_deleted rep = cc_deleted c"
      using rc dr Inr sw by (auto simp: run_media_cleanup_def Let_def keep_def rows split: sum.splits)
    have counts: "case sres of Inl _ \<Rightarrow> True
       | Inr c \<Rightarrow> cc_orphans c = length (filter (orphan now (min_age * 60000) keep) objs) \<and>
           cc_deleted c = (if delete then length (filter (orphan now (min_age * 60000) keep) objs) else 0)"
      using sweep_counts [of "fs_store root_path" delete now "min_age * 60000" keep objs no_counts "md_store w1" _ s] sw
      by (auto simp: no_counts_def split: sum.splits)
    show ?thesis
    proof (cases delete)
      case False
      then have "s = md_store w1" "w1 = w" using sweep_dry sw dr by (fastforce simp: drain_delete_queue_def)+
      then show ?thesis
        using False dr rc l w' res counts by (auto simp: Let_def keep_def split: sum.splits)
    next
      case True
      have "sweep (fs_store root_path) True now (min_age * 60000) keep objs no_counts (md_store w1) = (sres, s)"
        using sw True by simp
      note eff = fs.sweep_effect [OF this]
      have "fs_content s l = fs_content (md_store w) l \<or> fs_content s l = None \<and>
          l \<in> path_for root_path ` (set (queue_keys w) \<union> so_key ` set (filter (orphan now (min_age * 60000) keep) objs))" for l
      proof (cases "fs_content s l = fs_content (md_store w1) l")
        case True
        then show ?thesis using drained [of l] by (auto simp: image_Un)
      next
        case False
        then show ?thesis using eff by (auto simp: image_Un)
      qed
      then show ?thesis
        using True dr rc l w' res counts eff rows
        by (auto simp: Let_def keep_def list_all_iff split: sum.splits)
    qed
  qed
qed

subsection \<open>Rotation\<close>

definition plain_of :: "crypto \<Rightarrow> bytes \<Rightarrow> bytes \<Rightarrow> bytes option \<Rightarrow> bytes option" where
  \<comment> \<open>the plaintext a stored blob has under the new key, else under the old one\<close>
  "plain_of c new_key old_key b =
     (case b of
        None \<Rightarrow> None
      | Some box \<Rightarrow> (case opens c new_key box of Some p \<Rightarrow> Some p | None \<Rightarrow> opens c old_key box))"

lemma opens_encrypted:
  "encrypt_bytes c key iv plain = Inr box \<Longrightarrow> length iv = iv_len \<Longrightarrow> gcm_ok c \<Longrightarrow> opens c key box = Some plain"
  using decrypt_encrypt(1) by (simp add: opens_def)

context object_store
begin

lemma rotate_keys_effect:
  assumes "gcm_ok c" "\<And>n. length (ivs n) = iv_len"
  shows "rotate_keys c ops True new_key old_key ivs ks n s = (res, s') \<Longrightarrow>
     (\<forall>l. plain_of c new_key old_key (content s' l) = plain_of c new_key old_key (content s l)) \<and>
     (\<forall>l. content s' l = content s l \<or> l \<in> loc ` set ks) \<and>
     (\<forall>l p. (case content s l of None \<Rightarrow> None | Some b \<Rightarrow> opens c new_key b) = Some p \<longrightarrow>
            (case content s' l of None \<Rightarrow> None | Some b \<Rightarrow> opens c new_key b) = Some p) \<and>
     (case res of Inl _ \<Rightarrow> True
      | Inr _ \<Rightarrow> \<forall>k p. k \<in> set ks \<longrightarrow> plain_of c new_key old_key (content s (loc k)) = Some p \<longrightarrow>
           (case content s' (loc k) of None \<Rightarrow> None | Some b \<Rightarrow> opens c new_key b) = Some p)"
proof (induction ks arbitrary: n s)
  case Nil
  then show ?case by (auto split: sum.splits)
next
  case (Cons k ks)
  let ?pl = "plain_of c new_key old_key"
  let ?nw = "\<lambda>b. case b of None \<Rightarrow> None | Some b \<Rightarrow> opens c new_key b"
  show ?case
  proof (cases "st_get ops k s")
    case (Inl e)
    then show ?thesis using Cons.prems by auto
  next
    case (Inr r)
    have r: "r = content s (loc k)" using get_law [OF Inr] .
    show ?thesis
    proof (cases "?pl r = None \<or> ?nw r \<noteq> None")
      case True
      then obtain n' where "rotate_keys c ops True new_key old_key ivs ks n' s = (res, s')"
        using Cons.prems Inr by (auto simp: plain_of_def split: option.splits)
      note IH = Cons.IH [OF this]
      have "?pl (content s (loc k)) = Some p \<Longrightarrow> ?nw (content s (loc k)) = Some p" for p
        using True r by (auto simp: plain_of_def split: option.splits)
      then show ?thesis using IH by (auto split: sum.splits)
    next
      case False
      then obtain b p where b: "r = Some b" "opens c new_key b = None" "opens c old_key b = Some p"
        by (auto simp: plain_of_def split: option.splits)
      show ?thesis
      proof (cases "encrypt_bytes c new_key (ivs (rc_rotated n)) p")
        case (Inl e)
        then show ?thesis using Cons.prems Inr b by auto
      next
        case enc: (Inr box)
        show ?thesis
        proof (cases "st_put ops k box s")
          case (Inl e)
          then show ?thesis using Cons.prems Inr b enc by auto
        next
          case put: (Inr s1)
          have run: "rotate_keys c ops True new_key old_key ivs ks (n\<lparr>rc_rotated := rc_rotated n + 1\<rparr>) s1 = (res, s')"
            using Cons.prems Inr b enc put by simp
          note IH = Cons.IH [OF run]
          have c1: "content s1 = (content s)(loc k := Some box)" using put_law [OF put] .
          have ob: "opens c new_key box = Some p" using opens_encrypted [OF enc assms(2,1)] .
          have pl: "?pl (content s1 l) = ?pl (content s l)" for l
            using c1 ob b r by (auto simp: plain_of_def)
          have nw: "?nw (content s l) = Some q \<Longrightarrow> ?nw (content s1 l) = Some q" for l q
            using c1 b r by auto
          have nk: "?pl (content s (loc k)) = Some q \<Longrightarrow> ?nw (content s1 (loc k)) = Some q" for q
            using c1 ob b r by (auto simp: plain_of_def)
          have 1: "\<forall>l. ?pl (content s' l) = ?pl (content s l)" using IH pl by simp
          have 2: "\<forall>l. content s' l = content s l \<or> l \<in> loc ` set (k # ks)" using IH c1 by (auto split: if_splits)
          have 3: "\<forall>l q. ?nw (content s l) = Some q \<longrightarrow> ?nw (content s' l) = Some q" using IH nw by blast
          have 4: "case res of Inl _ \<Rightarrow> True
             | Inr _ \<Rightarrow> \<forall>k' q. k' \<in> set (k # ks) \<longrightarrow> ?pl (content s (loc k')) = Some q \<longrightarrow> ?nw (content s' (loc k')) = Some q"
          proof (cases res)
            case (Inr x)
            then have "\<forall>k' q. k' \<in> set ks \<longrightarrow> ?pl (content s (loc k')) = Some q \<longrightarrow> ?nw (content s' (loc k')) = Some q"
              using IH pl by simp
            moreover have "?pl (content s (loc k)) = Some q \<Longrightarrow> ?nw (content s' (loc k)) = Some q" for q
              using nk IH by blast
            ultimately show ?thesis using Inr by auto
          qed simp
          show ?thesis using 1 2 3 4 by blast
        qed
      qed
    qed
  qed
qed

end


definition demo_sealed :: "fs media" where
  \<comment> \<open>a row whose blob was sealed under the old key\<close>
  "demo_sealed =
     \<lparr>md_store = \<lparr>fs_files = [(''/m/a'', [1] @ replicate 28 0 @ replicate 32 1 @ [42], 0)], fs_io_error = \<lambda>_ _. None, fs_clock = 0\<rparr>,
      md_rows = [\<lparr>mr_id = ''i'', mr_moment = ''mo'', mr_user = ''u'', mr_kind = Frame, mr_storage_key = ''a'', mr_thumb_key = None,
        mr_content_type = ''image/png'', mr_bytes = Some 1, mr_thumb_bytes = None, mr_width = None, mr_height = None,
        mr_state = ''applied''\<rparr>], md_queue = []\<rparr>"


subsection \<open>A legacy image that no analysis certified\<close>

text \<open>
  The walk of the backfill takes \<open>result.dataUrl\<close> whatever the coverage says: an image below the
  analysis floor comes back as it is, and its row is migrated under the state \<open>applied\<close>.
\<close>

lemma backfill_stores_uncertified:
  "redact_image_data_url (blank_imaging 800) ''data:image/png;base64,AA=='' =
     Inr \<lparr>ri_data_url = ''data:image/png;base64,AA=='', ri_masked = 0, ri_tally = [], ri_safe_text = [],
          ri_coverage = Insufficient_resolution, ri_width = 800, ri_height = 720\<rparr> \<and>
   backfill_row (Some (blank_imaging 800)) (JObj [(''screenshot_data_url'', JStr ''data:image/png;base64,AA=='')]) (Some ''failed'') =
     Migrated (Some (JObj [])) [(''data:image/png;base64,AA=='', Screenshot)] ''applied'' None"
proof -
  have i: "is_image_str ''data:image/png;base64,AA==''" using data_image_prefix [of "''png;base64,AA==''"] by simp
  have r: "redact_image_data_url (blank_imaging 800) ''data:image/png;base64,AA=='' =
     Inr \<lparr>ri_data_url = ''data:image/png;base64,AA=='', ri_masked = 0, ri_tally = [], ri_safe_text = [],
          ri_coverage = Insufficient_resolution, ri_width = 800, ri_height = 720\<rparr>"
    by (simp add: redact_image_data_url_def parse_data_url_def blank_parse blank_imaging_def Let_def
        meets_analysis_floor_def min_analysis_width_def min_analysis_height_def)
  have "hint_kind (Some ''screenshot_data_url'') = Screenshot" by code_simp
  then show ?thesis
    using i r by (simp add: backfill_row_def extract_payload_images_def joined_chunks_def Let_def)
qed

end
