(* ===== verification/Rate_Limit.thy ===== *)
theory Rate_Limit
  imports Prelude
begin

text \<open>
  \<^verbatim>\<open>services/api/src/auth/rate-limit.ts\<close>: the fixed-window limiter in memory and the one on Redis with
  its local fallback. The Redis client is a parameter, the record \<open>redis_ops\<close>; a call that throws
  returns the left side. Times are milliseconds.
\<close>

record rate_options =
  ro_window_ms :: int
  ro_max :: nat
  ro_prefix :: "string option"

subsection \<open>In memory\<close>

type_synonym hits = "(string \<times> nat \<times> int) list"

definition allow_sync :: "rate_options \<Rightarrow> int \<Rightarrow> string \<Rightarrow> hits \<Rightarrow> bool \<times> hits" where
  "allow_sync opts now key hits =
     (case map_of hits key of
        None \<Rightarrow> (True, obj_set key (1, now + ro_window_ms opts) hits)
      | Some (count, reset_at) \<Rightarrow>
          if reset_at \<le> now then (True, obj_set key (1, now + ro_window_ms opts) hits)
          else (count + 1 \<le> ro_max opts, obj_set key (count + 1, reset_at) hits))"

subsection \<open>On Redis\<close>

record 'r redis_ops =
  rd_incr :: "string \<Rightarrow> 'r \<Rightarrow> (string + nat) \<times> 'r"
  rd_pexpire :: "string \<Rightarrow> int \<Rightarrow> 'r \<Rightarrow> (string + unit) \<times> 'r"

datatype warning = Redis_unavailable string | Redis_recovered

record 'r redis_limiter =
  rl_redis :: 'r
  rl_fallback :: hits
  rl_degraded :: bool
  rl_last_error_at :: "int option"
  rl_warnings :: "warning list"

definition redis_failed :: "rate_options \<Rightarrow> int \<Rightarrow> string \<Rightarrow> string \<Rightarrow> 'r redis_limiter \<Rightarrow> bool \<times> 'r redis_limiter" where
  \<comment> \<open>the \<open>catch\<close> block: count the attempt against the local window\<close>
  "redis_failed opts now key err l =
     (case allow_sync opts now key (rl_fallback l) of (ok, hits) \<Rightarrow>
        (ok, l\<lparr>rl_fallback := hits, rl_degraded := True, rl_last_error_at := Some now,
              rl_warnings := (if rl_degraded l then rl_warnings l else rl_warnings l @ [Redis_unavailable err])\<rparr>))"

definition redis_allow :: "'r redis_ops \<Rightarrow> rate_options \<Rightarrow> int \<Rightarrow> string \<Rightarrow> 'r redis_limiter \<Rightarrow> bool \<times> 'r redis_limiter" where
  "redis_allow ops opts now key l =
     (let redis_key = (case ro_prefix opts of None \<Rightarrow> ''nova:ratelimit'' | Some p \<Rightarrow> p) @ '':'' @ key
      in case rd_incr ops redis_key (rl_redis l) of
           (Inl e, r1) \<Rightarrow> redis_failed opts now key e (l\<lparr>rl_redis := r1\<rparr>)
         | (Inr count, r1) \<Rightarrow>
             (case (if count = 1 then rd_pexpire ops redis_key (ro_window_ms opts) r1 else (Inr (), r1)) of
                (Inl e, r2) \<Rightarrow> redis_failed opts now key e (l\<lparr>rl_redis := r2\<rparr>)
              | (Inr _, r2) \<Rightarrow>
                  (count \<le> ro_max opts,
                   l\<lparr>rl_redis := r2, rl_degraded := False,
                     rl_warnings := (if rl_degraded l then rl_warnings l @ [Redis_recovered] else rl_warnings l)\<rparr>)))"

datatype backend = Backend_redis | Backend_memory

record limiter_status =
  st_backend :: backend
  st_degraded :: bool
  st_last_error_at :: "int option"

definition redis_status :: "'r redis_limiter \<Rightarrow> limiter_status" where
  "redis_status l =
     \<lparr>st_backend = Backend_redis, st_degraded = rl_degraded l,
      st_last_error_at = (case rl_last_error_at l of None \<Rightarrow> None | Some t \<Rightarrow> if t = 0 then None else Some t)\<rparr>"

definition memory_status :: limiter_status where
  "memory_status = \<lparr>st_backend = Backend_memory, st_degraded = False, st_last_error_at = None\<rparr>"

subsection \<open>Runs\<close>

fun run_memory :: "rate_options \<Rightarrow> (string \<times> int) list \<Rightarrow> hits \<Rightarrow> bool list" where
  \<comment> \<open>the decisions on a sequence of calls (key, time)\<close>
  "run_memory opts [] hits = []"
| "run_memory opts ((key, now) # calls) hits =
     (case allow_sync opts now key hits of (ok, hits') \<Rightarrow> ok # run_memory opts calls hits')"

fun run_redis :: "'r redis_ops \<Rightarrow> rate_options \<Rightarrow> (string \<times> int) list \<Rightarrow> 'r redis_limiter \<Rightarrow> bool list" where
  "run_redis ops opts [] l = []"
| "run_redis ops opts ((key, now) # calls) l =
     (case redis_allow ops opts now key l of (ok, l') \<Rightarrow> ok # run_redis ops opts calls l')"

definition calls_of :: "string \<Rightarrow> (string \<times> int) list \<Rightarrow> nat" where
  "calls_of key calls = length (filter (\<lambda>c. fst c = key) calls)"

definition allowed_of :: "string \<Rightarrow> (string \<times> int) list \<Rightarrow> bool list \<Rightarrow> nat" where
  "allowed_of key calls oks = length (filter (\<lambda>(c, ok). fst c = key \<and> ok) (zip calls oks))"

lemma allow_sync_other: "key' \<noteq> key \<Longrightarrow> map_of (snd (allow_sync opts now key' hits)) key = map_of hits key"
  by (auto simp: allow_sync_def map_of_obj_set split: option.splits)

lemma run_memory_window:
  assumes "map_of hits key = Some (c, opened + ro_window_ms opts)"
    and "list_all (\<lambda>(k, t). k = key \<longrightarrow> t < opened + ro_window_ms opts) calls"
  shows "allowed_of key calls (run_memory opts calls hits) = min (calls_of key calls) (ro_max opts - c)"
  using assms
proof (induction calls arbitrary: hits c)
  case Nil
  then show ?case by (simp add: allowed_of_def calls_of_def)
next
  case (Cons call calls)
  obtain k t where call: "call = (k, t)" by (cases call)
  obtain ok hits' where step: "allow_sync opts t k hits = (ok, hits')" by (cases "allow_sync opts t k hits")
  show ?case
  proof (cases "k = key")
    case True
    then have ok: "ok = (c + 1 \<le> ro_max opts)" and m: "map_of hits' key = Some (c + 1, opened + ro_window_ms opts)"
      using step Cons.prems call by (auto simp: allow_sync_def map_of_obj_set)
    have "allowed_of key calls (run_memory opts calls hits') = min (calls_of key calls) (ro_max opts - (c + 1))"
      using Cons.IH [OF m] Cons.prems(2) by simp
    then show ?thesis using True step call ok by (auto simp: allowed_of_def calls_of_def)
  next
    case False
    then have m: "map_of hits' key = Some (c, opened + ro_window_ms opts)"
      using allow_sync_other [of k key opts t hits] step Cons.prems(1) by simp
    have "allowed_of key calls (run_memory opts calls hits') = min (calls_of key calls) (ro_max opts - c)"
      using Cons.IH [OF m] Cons.prems(2) by simp
    then show ?thesis using False step call by (simp add: allowed_of_def calls_of_def)
  qed
qed

text \<open>C9. The window is a hard bound: when a call for a key opens a window, then of this and all further
  calls for the key before the window ends exactly the first \<open>max\<close> are allowed (the opening one
  always), whatever calls for other keys come between.\<close>

theorem window_bounds_attempts:
  assumes "case map_of hits key of None \<Rightarrow> True | Some (c, reset_at) \<Rightarrow> reset_at \<le> opened"
    and "list_all (\<lambda>(k, t). k = key \<longrightarrow> t < opened + ro_window_ms opts) calls"
  shows "allowed_of key ((key, opened) # calls) (run_memory opts ((key, opened) # calls) hits) =
    min (calls_of key ((key, opened) # calls)) (max 1 (ro_max opts))"
proof -
  obtain hits' where step: "allow_sync opts opened key hits = (True, hits')"
    and m: "map_of hits' key = Some (1, opened + ro_window_ms opts)"
    using assms(1) by (auto simp: allow_sync_def map_of_obj_set split: option.splits)
  show ?thesis
    using run_memory_window [OF m assms(2)] step by (auto simp: allowed_of_def calls_of_def)
qed

theorem window_bounds_attempts_witness:
  "allowed_of ''login:a'' [(''login:a'', 0), (''login:b'', 1), (''login:a'', 2), (''login:a'', 3)]
     (run_memory \<lparr>ro_window_ms = 60000, ro_max = 2, ro_prefix = None\<rparr>
        [(''login:a'', 0), (''login:b'', 1), (''login:a'', 2), (''login:a'', 3)] []) = 2"
  using window_bounds_attempts [where hits = "[]" and key = "''login:a''" and opened = 0 and
      calls = "[(''login:b'', 1), (''login:a'', 2), (''login:a'', 3)]" and
      opts = "\<lparr>ro_window_ms = 60000, ro_max = 2, ro_prefix = None\<rparr>"]
  by (simp add: calls_of_def)

lemma run_redis_down:
  assumes "\<And>k r. \<exists>e r'. rd_incr ops k r = (Inl e, r')"
  shows "run_redis ops opts calls l = run_memory opts calls (rl_fallback l)"
proof (induction calls arbitrary: l)
  case (Cons call calls)
  obtain k t where call: "call = (k, t)" by (cases call)
  obtain e r' where r: "rd_incr ops ((case ro_prefix opts of None \<Rightarrow> ''nova:ratelimit'' | Some p \<Rightarrow> p) @ '':'' @ k) (rl_redis l) = (Inl e, r')"
    using assms by blast
  obtain ok hits where a: "allow_sync opts t k (rl_fallback l) = (ok, hits)" by (cases "allow_sync opts t k (rl_fallback l)")
  show ?case using Cons.IH r a by (simp add: call redis_allow_def redis_failed_def Let_def)
qed simp

text \<open>Redis being down never means unlimited attempts: while every \<open>INCR\<close> fails, the decisions are
  exactly those of the limiter in memory, from the fallback window that is kept over the outage, and
  every such call marks the limiter degraded.\<close>

theorem redis_outage_is_bounded:
  assumes "\<forall>k r. \<exists>e r'. rd_incr ops k r = (Inl e, r')"
  shows "run_redis ops opts calls l = run_memory opts calls (rl_fallback l) \<and>
    st_degraded (redis_status (snd (redis_allow ops opts now key l)))"
proof -
  obtain e r' where "rd_incr ops ((case ro_prefix opts of None \<Rightarrow> ''nova:ratelimit'' | Some p \<Rightarrow> p) @ '':'' @ key) (rl_redis l) = (Inl e, r')"
    using assms by blast
  then have "st_degraded (redis_status (snd (redis_allow ops opts now key l)))"
    by (simp add: redis_allow_def redis_failed_def redis_status_def Let_def case_prod_unfold)
  then show ?thesis using run_redis_down assms by blast
qed

theorem redis_outage_is_bounded_witness:
  "run_redis \<lparr>rd_incr = \<lambda>_ r. (Inl ''down'', r), rd_pexpire = \<lambda>_ _ r. (Inl ''down'', r)\<rparr>
     \<lparr>ro_window_ms = 60000, ro_max = 1, ro_prefix = None\<rparr> [(''k'', 5), (''k'', 6)]
     \<lparr>rl_redis = (), rl_fallback = [], rl_degraded = False, rl_last_error_at = None, rl_warnings = []\<rparr> = [True, False]"
proof -
  let ?ops = "\<lparr>rd_incr = \<lambda>_ r. (Inl ''down'', r), rd_pexpire = \<lambda>_ _ r. (Inl ''down'', r)\<rparr> :: unit redis_ops"
  have "\<forall>k r. \<exists>e r'. rd_incr ?ops k r = (Inl e, r')" by simp
  note redis_outage_is_bounded [OF this, of "\<lparr>ro_window_ms = 60000, ro_max = 1, ro_prefix = None\<rparr>" "[(''k'', 5), (''k'', 6)]"
      "\<lparr>rl_redis = (), rl_fallback = [], rl_degraded = False, rl_last_error_at = None, rl_warnings = []\<rparr>" 5 "''k''"]
  then show ?thesis by (simp add: allow_sync_def)
qed

end
