(* ===== verification/Auth.thy ===== *)
theory Auth
  imports Object_Store
begin

text \<open>
  Authentication of the API: \<^verbatim>\<open>services/api/src/auth/passwords.ts\<close>, \<^verbatim>\<open>sessions.ts\<close>, \<^verbatim>\<open>plugin.ts\<close> and the
  handlers of \<^verbatim>\<open>services/api/src/routes-auth.ts\<close>.

  The state is the tables the handlers touch, a table being the list of its rows in the order of
  creation, and the state of the rate limiter. A handler takes the request (its validated body, or
  \<open>None\<close> where the schema refuses it), the time and the random values it draws, and returns a
  response and the new state; an exception that leaves the handler is \<open>Raise\<close>. SHA-256, scrypt and
  base64url are parameters. Times are milliseconds.
\<close>

subsection \<open>Passwords\<close>

record pw_lib =
  scrypt :: "string \<Rightarrow> bytes \<Rightarrow> nat \<Rightarrow> int \<times> int \<times> int \<Rightarrow> bytes option"
  b64url_enc :: "bytes \<Rightarrow> string"
  b64url_dec :: "string \<Rightarrow> bytes"

definition digits_value :: "string \<Rightarrow> nat" where
  "digits_value s = foldl (\<lambda>n c. 10 * n + (of_char c - 48)) 0 s"

definition is_digit :: "char \<Rightarrow> bool" where
  "is_digit c \<longleftrightarrow> (48 :: nat) \<le> of_char c \<and> (of_char c :: nat) \<le> 57"

definition js_integer :: "string \<Rightarrow> int option" where
  \<comment> \<open>\<open>Number(s)\<close> where it is an integer, for decimal digits and the empty string; the other spellings
     of numbers that \<open>Number\<close> accepts are left aside\<close>
  "js_integer s = (let t = js_trim s in if list_all is_digit t then Some (int (digits_value t)) else None)"

definition scrypt_n :: nat where "scrypt_n = 131072"

definition scrypt_r :: nat where "scrypt_r = 8"

definition scrypt_p :: nat where "scrypt_p = 1"

definition pw_key_len :: nat where "pw_key_len = 32"

definition dollar :: char where "dollar = CHR ''$''"

definition hash_password :: "pw_lib \<Rightarrow> bytes \<Rightarrow> string \<Rightarrow> string option" where
  "hash_password lib salt password =
     (case scrypt lib password salt pw_key_len (int scrypt_n, int scrypt_r, int scrypt_p) of
        None \<Rightarrow> None
      | Some hash \<Rightarrow>
          Some (join_with [dollar]
            [''scrypt'', nat_str scrypt_n, nat_str scrypt_r, nat_str scrypt_p, b64url_enc lib salt, b64url_enc lib hash]))"

definition verify_password :: "pw_lib \<Rightarrow> string \<Rightarrow> string option \<Rightarrow> bool" where
  "verify_password lib password stored =
     (case stored of
        None \<Rightarrow> False
      | Some st \<Rightarrow>
          if st = [] then False
          else (case split_on dollar st of
                  [scheme, n_str, r_str, p_str, salt_b64, hash_b64] \<Rightarrow>
                    if scheme \<noteq> ''scrypt'' then False
                    else (case (js_integer n_str, js_integer r_str, js_integer p_str) of
                            (Some n, Some r, Some p) \<Rightarrow>
                              let expected = b64url_dec lib hash_b64
                              in (case scrypt lib password (b64url_dec lib salt_b64) (length expected) (n, r, p) of
                                    None \<Rightarrow> False
                                  | Some actual \<Rightarrow> length actual = length expected \<and> actual = expected)
                          | _ \<Rightarrow> False)
                | _ \<Rightarrow> False))"

subsection \<open>Tables\<close>

datatype session_kind = Web | Extension

record user_row =
  us_id :: string
  us_email :: string
  us_display_name :: "string option"
  us_password_hash :: "string option"
  us_deleted :: bool

record session_row =
  ss_id :: string
  ss_user :: string
  ss_token_hash :: string
  ss_kind :: session_kind
  ss_created :: int
  ss_expires :: int
  ss_last_used :: int
  ss_revoked :: "int option"
  ss_label :: "string option"

record pairing_row =
  pc_user :: string
  pc_code_hash :: string
  pc_expires :: int
  pc_claimed :: "int option"

record reset_row =
  pr_user :: string
  pr_token_hash :: string
  pr_expires :: int
  pr_used :: "int option"

record audit_row =
  ad_user :: string
  ad_event :: string
  ad_detail :: "(string \<times> json) list"

record 'rl auth_db =
  db_users :: "user_row list"
  db_sessions :: "session_row list"
  db_pairing :: "pairing_row list"
  db_resets :: "reset_row list"
  db_projects :: "(string \<times> string) list"
  db_audit :: "audit_row list"
  db_limiter :: 'rl

definition audit :: "string \<Rightarrow> string \<Rightarrow> (string \<times> json) list \<Rightarrow> 'rl auth_db \<Rightarrow> 'rl auth_db" where
  "audit user_id event detail db =
     db\<lparr>db_audit := db_audit db @ [\<lparr>ad_user = user_id, ad_event = event, ad_detail = detail\<rparr>]\<rparr>"

definition allow_attempt :: "(string \<Rightarrow> 'rl \<Rightarrow> bool \<times> 'rl) \<Rightarrow> string \<Rightarrow> 'rl auth_db \<Rightarrow> bool \<times> 'rl auth_db" where
  "allow_attempt allow key db = (case allow key (db_limiter db) of (ok, rl) \<Rightarrow> (ok, db\<lparr>db_limiter := rl\<rparr>))"

subsection \<open>Sessions and codes\<close>

record auth_context =
  ac_user :: string
  ac_session :: string
  ac_kind :: session_kind
  ac_email :: string

fun token_prefix :: "session_kind \<Rightarrow> string" where
  "token_prefix Web = ''nova_sess_''"
| "token_prefix Extension = ''nova_ext_''"

definition new_session_token :: "session_kind \<Rightarrow> string \<Rightarrow> string" where
  "new_session_token kind random = token_prefix kind @ random"

definition hour_ms :: int where "hour_ms = 3600000"

definition create_session ::
  "(string \<Rightarrow> string) \<Rightarrow> int \<Rightarrow> string \<times> string \<Rightarrow> string \<Rightarrow> session_kind \<Rightarrow> nat \<Rightarrow> string option \<Rightarrow> 'rl auth_db \<Rightarrow>
     (string + (string \<times> string \<times> int)) \<times> 'rl auth_db" where
  \<comment> \<open>\<open>(id, random)\<close> are drawn; the column \<open>token_hash\<close> is unique\<close>
  "create_session sha now rnd user_id kind ttl_hours label db =
     (let token = new_session_token kind (snd rnd);
          expires = now + int ttl_hours * hour_ms
      in if sha token \<in> set (map ss_token_hash (db_sessions db)) then (Inl ''23505'', db)
         else (Inr (token, fst rnd, expires),
               db\<lparr>db_sessions := db_sessions db @
                 [\<lparr>ss_id = fst rnd, ss_user = user_id, ss_token_hash = sha token, ss_kind = kind, ss_created = now,
                   ss_expires = expires, ss_last_used = now, ss_revoked = None, ss_label = label\<rparr>]\<rparr>))"

definition user_live :: "string \<Rightarrow> 'rl auth_db \<Rightarrow> user_row option" where
  \<comment> \<open>\<open>id = $1 AND deleted_at IS NULL\<close>\<close>
  "user_live user_id db = find (\<lambda>u. us_id u = user_id \<and> \<not> us_deleted u) (db_users db)"

definition session_live :: "(string \<Rightarrow> string) \<Rightarrow> int \<Rightarrow> string \<Rightarrow> 'rl auth_db \<Rightarrow> session_row \<Rightarrow> bool" where
  "session_live sha now token db s \<longleftrightarrow>
     ss_token_hash s = sha token \<and> ss_revoked s = None \<and> now < ss_expires s \<and> user_live (ss_user s) db \<noteq> None"

definition resolve_session :: "(string \<Rightarrow> string) \<Rightarrow> int \<Rightarrow> string \<Rightarrow> 'rl auth_db \<Rightarrow> auth_context option \<times> 'rl auth_db" where
  "resolve_session sha now token db =
     (let live = session_live sha now token db;
          db' = db\<lparr>db_sessions := map (\<lambda>s. if live s then s\<lparr>ss_last_used := now\<rparr> else s) (db_sessions db)\<rparr>
      in case find live (db_sessions db) of
           None \<Rightarrow> (None, db')
         | Some s \<Rightarrow>
             (case user_live (ss_user s) db of
                None \<Rightarrow> (None, db')
              | Some u \<Rightarrow>
                  (Some \<lparr>ac_user = ss_user s, ac_session = ss_id s, ac_kind = ss_kind s, ac_email = us_email u\<rparr>, db')))"

definition revoke_where :: "int \<Rightarrow> (session_row \<Rightarrow> bool) \<Rightarrow> 'rl auth_db \<Rightarrow> nat \<times> 'rl auth_db" where
  \<comment> \<open>\<open>UPDATE sessions SET revoked_at = now() WHERE p AND revoked_at IS NULL\<close> with its row count\<close>
  "revoke_where now p db =
     (length (filter (\<lambda>s. p s \<and> ss_revoked s = None) (db_sessions db)),
      db\<lparr>db_sessions := map (\<lambda>s. if p s \<and> ss_revoked s = None then s\<lparr>ss_revoked := Some now\<rparr> else s) (db_sessions db)\<rparr>)"

definition revoke_session :: "int \<Rightarrow> string \<Rightarrow> string \<Rightarrow> 'rl auth_db \<Rightarrow> bool \<times> 'rl auth_db" where
  "revoke_session now session_id user_id db =
     (case revoke_where now (\<lambda>s. ss_id s = session_id \<and> ss_user s = user_id) db of (n, db') \<Rightarrow> (0 < n, db'))"

definition pairing_ttl_minutes :: nat where "pairing_ttl_minutes = 10"

definition pad8 :: "string \<Rightarrow> string" where
  \<comment> \<open>\<open>padStart(8, "0")\<close>\<close>
  "pad8 s = replicate (8 - length s) CHR ''0'' @ s"

definition create_pairing_code :: "(string \<Rightarrow> string) \<Rightarrow> int \<Rightarrow> nat \<Rightarrow> string \<Rightarrow> 'rl auth_db \<Rightarrow>
    (string + (string \<times> int)) \<times> 'rl auth_db" where
  \<comment> \<open>\<open>n\<close>: the random integer below \<open>100000000\<close>; the column \<open>code_hash\<close> is unique\<close>
  "create_pairing_code sha now n user_id db =
     (let code = pad8 (nat_str n);
          expires = now + int pairing_ttl_minutes * 60000
      in if sha code \<in> set (map pc_code_hash (db_pairing db)) then (Inl ''23505'', db)
         else (Inr (code, expires),
               db\<lparr>db_pairing := db_pairing db @
                 [\<lparr>pc_user = user_id, pc_code_hash = sha code, pc_expires = expires, pc_claimed = None\<rparr>]\<rparr>))"

definition claim_pairing_code :: "(string \<Rightarrow> string) \<Rightarrow> int \<Rightarrow> string \<Rightarrow> 'rl auth_db \<Rightarrow> string option \<times> 'rl auth_db" where
  "claim_pairing_code sha now code db =
     (let open_row = (\<lambda>p. pc_code_hash p = sha code \<and> pc_claimed p = None \<and> now < pc_expires p)
      in (map_option pc_user (find open_row (db_pairing db)),
          db\<lparr>db_pairing := map (\<lambda>p. if open_row p then p\<lparr>pc_claimed := Some now\<rparr> else p) (db_pairing db)\<rparr>))"

definition claim_reset :: "(string \<Rightarrow> string) \<Rightarrow> int \<Rightarrow> string \<Rightarrow> 'rl auth_db \<Rightarrow> string option \<times> 'rl auth_db" where
  \<comment> \<open>the atomic claim of a reset token\<close>
  "claim_reset sha now token db =
     (let open_row = (\<lambda>p. pr_token_hash p = sha token \<and> pr_used p = None \<and> now < pr_expires p)
      in (map_option pr_user (find open_row (db_resets db)),
          db\<lparr>db_resets := map (\<lambda>p. if open_row p then p\<lparr>pr_used := Some now\<rparr> else p) (db_resets db)\<rparr>))"

subsection \<open>The hook\<close>

definition public_v1_routes :: "string list" where
  "public_v1_routes =
     [''POST /v1/auth/signup'', ''POST /v1/auth/login'', ''POST /v1/auth/pairing/claim'',
      ''POST /v1/auth/password-reset/request'', ''POST /v1/auth/password-reset/confirm'']"

datatype hook_result = Proceed "auth_context option" | Unauthorized "string option"

definition bearer :: string where "bearer = ''Bearer ''"

definition on_request :: "(string \<Rightarrow> string) \<Rightarrow> int \<Rightarrow> string \<Rightarrow> string \<Rightarrow> string option \<Rightarrow> 'rl auth_db \<Rightarrow> hook_result \<times> 'rl auth_db" where
  "on_request sha now method_name url header db =
     (let p = hd (split_on CHR ''?'' url)
      in if \<not> starts_with p ''/v1/'' then (Proceed None, db)
         else if method_name @ '' '' @ p \<in> set public_v1_routes then (Proceed None, db)
         else (case header of
                 None \<Rightarrow> (Unauthorized None, db)
               | Some h \<Rightarrow>
                   if \<not> starts_with h bearer then (Unauthorized None, db)
                   else (case resolve_session sha now (js_trim (drop (length bearer) h)) db of
                           (None, db') \<Rightarrow> (Unauthorized (Some ''session_invalid_or_expired''), db')
                         | (Some auth, db') \<Rightarrow> (Proceed (Some auth), db'))))"

subsection \<open>The handlers\<close>

datatype signup_mode = Signup_open | Signup_invite | Signup_closed

record auth_env =
  ae_signup_mode :: signup_mode
  ae_invite_code :: "string option"
  ae_session_ttl_hours :: nat
  ae_extension_ttl_hours :: nat

record 'rl auth_deps =
  dp_env :: auth_env
  dp_sha :: "string \<Rightarrow> string"
  dp_pw :: pw_lib
  dp_allow :: "string \<Rightarrow> 'rl \<Rightarrow> bool \<times> 'rl"

record auth_rnd =
  rn_user_id :: string
  rn_session :: "string \<times> string"
  rn_salt :: bytes
  rn_code :: nat
  rn_reset :: string

record request_info =
  rq_ip :: string
  rq_user_agent :: "string option"

definition session_label :: "request_info \<Rightarrow> string option" where
  "session_label req = map_option (take 120) (rq_user_agent req)"

record signup_body =
  sb_email :: string
  sb_password :: string
  sb_display_name :: "string option"
  sb_invite_code :: "string option"

record session_reply =
  sr_token :: string
  sr_expires :: int
  sr_user_id :: string
  sr_email :: string
  sr_display_name :: "string option"

fun mode_name :: "signup_mode \<Rightarrow> string" where
  "mode_name Signup_open = ''open''"
| "mode_name Signup_invite = ''invite''"
| "mode_name Signup_closed = ''closed''"

definition invite_ok :: "auth_env \<Rightarrow> signup_body \<Rightarrow> bool" where
  "invite_ok env body \<longleftrightarrow>
     ae_signup_mode env \<noteq> Signup_invite \<or>
     (case ae_invite_code env of None \<Rightarrow> False | Some c \<Rightarrow> c \<noteq> [] \<and> sb_invite_code body = Some c)"

definition signup :: "'rl auth_deps \<Rightarrow> int \<Rightarrow> auth_rnd \<Rightarrow> request_info \<Rightarrow> signup_body option \<Rightarrow> 'rl auth_db \<Rightarrow>
    session_reply response \<times> 'rl auth_db" where
  "signup d now rnd req parsed db =
     (if ae_signup_mode (dp_env d) = Signup_closed then (Refuse 403 ''signup_closed'', db)
      else (case parsed of
        None \<Rightarrow> (Refuse 400 ''invalid_request'', db)
      | Some body \<Rightarrow>
        (case allow_attempt (dp_allow d) (''signup:'' @ rq_ip req) db of (ok, db1) \<Rightarrow>
          if \<not> ok then (Refuse 429 ''rate_limited'', db1)
          else if \<not> invite_ok (dp_env d) body then (Refuse 403 ''invalid_invite_code'', db1)
          else (case hash_password (dp_pw d) (rn_salt rnd) (sb_password body) of
            None \<Rightarrow> (Raise ''scrypt'', db1)
          | Some hash \<Rightarrow>
            if sb_email body \<in> set (map us_email (db_users db1)) then (Refuse 409 ''email_taken'', db1)
            else
              let db2 = db1\<lparr>db_users := db_users db1 @
                     [\<lparr>us_id = rn_user_id rnd, us_email = sb_email body, us_display_name = sb_display_name body,
                       us_password_hash = Some hash, us_deleted = False\<rparr>],
                     db_projects := db_projects db1 @ [(rn_user_id rnd, ''Inbox'')]\<rparr>
              in (case create_session (dp_sha d) now (rn_session rnd) (rn_user_id rnd) Web
                         (ae_session_ttl_hours (dp_env d)) (session_label req) db2 of
                    (Inl e, db3) \<Rightarrow> (Raise e, db3)
                  | (Inr (token, sid, expires), db3) \<Rightarrow>
                      (Reply 201 \<lparr>sr_token = token, sr_expires = expires, sr_user_id = rn_user_id rnd,
                                  sr_email = sb_email body, sr_display_name = sb_display_name body\<rparr>,
                       audit (rn_user_id rnd) ''auth.signup''
                         [(''mode'', JStr (mode_name (ae_signup_mode (dp_env d))))] db3))))))"

definition dummy_hash :: string where
  "dummy_hash = ''scrypt$131072$8$1$AAAAAAAAAAAAAAAAAAAAAA$AAAAAAAAAAAAAAAAAAAAAAAAAAAAAAAAAAAAAAAAAAA''"

definition login :: "'rl auth_deps \<Rightarrow> int \<Rightarrow> auth_rnd \<Rightarrow> request_info \<Rightarrow> (string \<times> string) option \<Rightarrow> 'rl auth_db \<Rightarrow>
    session_reply response \<times> 'rl auth_db" where
  "login d now rnd req parsed db =
     (case parsed of
        None \<Rightarrow> (Refuse 400 ''invalid_request'', db)
      | Some (email, password) \<Rightarrow>
        (case allow_attempt (dp_allow d) (''login:'' @ rq_ip req) db of (allowed, db1) \<Rightarrow>
          if \<not> allowed then (Refuse 429 ''rate_limited'', db1)
          else
            let user = find (\<lambda>u. us_email u = email \<and> \<not> us_deleted u) (db_users db1);
                ok = (case user of
                        Some u \<Rightarrow> verify_password (dp_pw d) password (us_password_hash u)
                      | None \<Rightarrow> (let ran = verify_password (dp_pw d) password (Some dummy_hash) in False))
            in (case user of
                  None \<Rightarrow> (Refuse 401 ''invalid_credentials'', db1)
                | Some u \<Rightarrow>
                    if \<not> ok then (Refuse 401 ''invalid_credentials'', db1)
                    else (case create_session (dp_sha d) now (rn_session rnd) (us_id u) Web
                                 (ae_session_ttl_hours (dp_env d)) (session_label req) db1 of
                            (Inl e, db2) \<Rightarrow> (Raise e, db2)
                          | (Inr (token, sid, expires), db2) \<Rightarrow>
                              (Reply 200 \<lparr>sr_token = token, sr_expires = expires, sr_user_id = us_id u,
                                          sr_email = us_email u, sr_display_name = us_display_name u\<rparr>,
                               audit (us_id u) ''auth.login'' [(''kind'', JStr ''web'')] db2)))))"

definition logout :: "int \<Rightarrow> auth_context \<Rightarrow> 'rl auth_db \<Rightarrow> unit response \<times> 'rl auth_db" where
  "logout now auth db =
     (case revoke_session now (ac_session auth) (ac_user auth) db of (_, db1) \<Rightarrow>
        (Reply 200 (),
         audit (ac_user auth) ''auth.logout''
           [(''kind'', JStr (case ac_kind auth of Web \<Rightarrow> ''web'' | Extension \<Rightarrow> ''extension''))] db1))"

record me_reply =
  me_user :: string
  me_email :: string
  me_session :: string
  me_kind :: session_kind
  me_expires :: int

definition me :: "auth_context \<Rightarrow> 'rl auth_db \<Rightarrow> me_reply response" where
  "me auth db =
     (case (find (\<lambda>u. us_id u = ac_user auth) (db_users db),
            find (\<lambda>s. ss_id s = ac_session auth \<and> ss_user s = ac_user auth) (db_sessions db)) of
        (Some u, Some s) \<Rightarrow>
          Reply 200 \<lparr>me_user = ac_user auth, me_email = us_email u, me_session = ac_session auth,
                     me_kind = ac_kind auth, me_expires = ss_expires s\<rparr>
      | _ \<Rightarrow> Refuse 401 ''unauthorized'')"

definition mint_pairing_code :: "'rl auth_deps \<Rightarrow> int \<Rightarrow> auth_rnd \<Rightarrow> auth_context \<Rightarrow> 'rl auth_db \<Rightarrow>
    (string \<times> int) response \<times> 'rl auth_db" where
  "mint_pairing_code d now rnd auth db =
     (if ac_kind auth \<noteq> Web then (Refuse 403 ''web_session_required'', db)
      else (case create_pairing_code (dp_sha d) now (rn_code rnd) (ac_user auth) db of
              (Inl e, db1) \<Rightarrow> (Raise e, db1)
            | (Inr r, db1) \<Rightarrow> (Reply 201 r, db1)))"

definition pairing_claim :: "'rl auth_deps \<Rightarrow> int \<Rightarrow> auth_rnd \<Rightarrow> request_info \<Rightarrow> string option \<Rightarrow> 'rl auth_db \<Rightarrow>
    session_reply response \<times> 'rl auth_db" where
  "pairing_claim d now rnd req parsed db =
     (case parsed of
        None \<Rightarrow> (Refuse 400 ''invalid_request'', db)
      | Some code \<Rightarrow>
        (case allow_attempt (dp_allow d) (''pair:'' @ rq_ip req) db of (allowed, db1) \<Rightarrow>
          if \<not> allowed then (Refuse 429 ''rate_limited'', db1)
          else (case claim_pairing_code (dp_sha d) now code db1 of
            (None, db2) \<Rightarrow> (Refuse 401 ''invalid_or_expired_code'', db2)
          | (Some user_id, db2) \<Rightarrow>
            (case user_live user_id db2 of
              None \<Rightarrow> (Refuse 401 ''invalid_or_expired_code'', db2)
            | Some u \<Rightarrow>
              (case create_session (dp_sha d) now (rn_session rnd) user_id Extension
                      (ae_extension_ttl_hours (dp_env d)) (Some ''browser extension'') db2 of
                 (Inl e, db3) \<Rightarrow> (Raise e, db3)
               | (Inr (token, sid, expires), db3) \<Rightarrow>
                   (Reply 201 \<lparr>sr_token = token, sr_expires = expires, sr_user_id = user_id,
                               sr_email = us_email u, sr_display_name = us_display_name u\<rparr>,
                    audit user_id ''auth.extension.paired'' [] db3))))))"

definition set_password :: "string \<Rightarrow> string \<Rightarrow> 'rl auth_db \<Rightarrow> 'rl auth_db" where
  "set_password user_id hash db =
     db\<lparr>db_users := map (\<lambda>u. if us_id u = user_id then u\<lparr>us_password_hash := Some hash\<rparr> else u) (db_users db)\<rparr>"

definition change_password :: "'rl auth_deps \<Rightarrow> int \<Rightarrow> auth_rnd \<Rightarrow> request_info \<Rightarrow> auth_context \<Rightarrow> (string \<times> string) option \<Rightarrow>
    'rl auth_db \<Rightarrow> nat response \<times> 'rl auth_db" where
  "change_password d now rnd req auth parsed db =
     (if ac_kind auth \<noteq> Web then (Refuse 403 ''web_session_required'', db)
      else (case parsed of
        None \<Rightarrow> (Refuse 400 ''invalid_request'', db)
      | Some (current, new_password) \<Rightarrow>
        (case allow_attempt (dp_allow d) (''password:'' @ rq_ip req) db of (allowed, db1) \<Rightarrow>
          if \<not> allowed then (Refuse 429 ''rate_limited'', db1)
          else if \<not> (case user_live (ac_user auth) db1 of
                        None \<Rightarrow> False | Some u \<Rightarrow> verify_password (dp_pw d) current (us_password_hash u))
          then (Refuse 401 ''invalid_credentials'', db1)
          else (case hash_password (dp_pw d) (rn_salt rnd) new_password of
            None \<Rightarrow> (Raise ''scrypt'', db1)
          | Some hash \<Rightarrow>
            (case revoke_where now (\<lambda>s. ss_user s = ac_user auth \<and> ss_id s \<noteq> ac_session auth) (set_password (ac_user auth) hash db1) of
               (n, db2) \<Rightarrow>
                 (Reply 200 n, audit (ac_user auth) ''auth.password.change'' [(''revoked_sessions'', JNum (int n))] db2))))))"

definition reset_request :: "'rl auth_deps \<Rightarrow> int \<Rightarrow> auth_rnd \<Rightarrow> request_info \<Rightarrow> string option \<Rightarrow> 'rl auth_db \<Rightarrow> unit response \<times> 'rl auth_db" where
  "reset_request d now rnd req parsed db =
     (case parsed of
        None \<Rightarrow> (Refuse 400 ''invalid_request'', db)
      | Some email \<Rightarrow>
        (case allow_attempt (dp_allow d) (''pwreset-req:'' @ rq_ip req) db of (allowed, db1) \<Rightarrow>
          if \<not> allowed then (Refuse 429 ''rate_limited'', db1)
          else (case find (\<lambda>u. us_email u = to_lower email \<and> \<not> us_deleted u) (db_users db1) of
            None \<Rightarrow> (Reply 202 (), db1)
          | Some u \<Rightarrow>
              let hash = dp_sha d (''nova_reset_'' @ rn_reset rnd)
              in if hash \<in> set (map pr_token_hash (db_resets db1)) then (Raise ''23505'', db1)
                 else (Reply 202 (),
                   audit (us_id u) ''auth.password.reset_requested'' []
                     (db1\<lparr>db_resets := db_resets db1 @
                        [\<lparr>pr_user = us_id u, pr_token_hash = hash, pr_expires = now + 30 * 60000, pr_used = None\<rparr>]\<rparr>)))))"

definition reset_confirm :: "'rl auth_deps \<Rightarrow> int \<Rightarrow> auth_rnd \<Rightarrow> request_info \<Rightarrow> (string \<times> string) option \<Rightarrow> 'rl auth_db \<Rightarrow> unit response \<times> 'rl auth_db" where
  "reset_confirm d now rnd req parsed db =
     (case parsed of
        None \<Rightarrow> (Refuse 400 ''invalid_request'', db)
      | Some (token, new_password) \<Rightarrow>
        (case allow_attempt (dp_allow d) (''pwreset-confirm:'' @ rq_ip req) db of (allowed, db1) \<Rightarrow>
          if \<not> allowed then (Refuse 429 ''rate_limited'', db1)
          else (case claim_reset (dp_sha d) now token db1 of
            (None, db2) \<Rightarrow> (Refuse 400 ''invalid_or_expired_token'', db2)
          | (Some user_id, db2) \<Rightarrow>
            (case hash_password (dp_pw d) (rn_salt rnd) new_password of
              None \<Rightarrow> (Raise ''scrypt'', db2)
            | Some hash \<Rightarrow>
              (case revoke_where now (\<lambda>s. ss_user s = user_id) (set_password user_id hash db2) of
                 (n, db3) \<Rightarrow>
                   (Reply 200 (), audit user_id ''auth.password.reset_completed'' [(''revoked_sessions'', JNum (int n))] db3))))))"

definition revoke_all :: "int \<Rightarrow> auth_context \<Rightarrow> 'rl auth_db \<Rightarrow> nat response \<times> 'rl auth_db" where
  "revoke_all now auth db =
     (case revoke_where now (\<lambda>s. ss_user s = ac_user auth \<and> ss_id s \<noteq> ac_session auth) db of (n, db1) \<Rightarrow>
        (Reply 200 n, audit (ac_user auth) ''auth.sessions.revoke_all'' [(''revoked_sessions'', JNum (int n))] db1))"

definition list_sessions :: "int \<Rightarrow> auth_context \<Rightarrow> 'rl auth_db \<Rightarrow> (session_row \<times> bool) list response" where
  \<comment> \<open>newest first, with the flag \<open>current\<close>\<close>
  "list_sessions now auth db =
     Reply 200 (map (\<lambda>s. (s, ss_id s = ac_session auth))
       (rev (filter (\<lambda>s. ss_user s = ac_user auth \<and> ss_revoked s = None \<and> now < ss_expires s) (db_sessions db))))"

definition delete_session :: "int \<Rightarrow> auth_context \<Rightarrow> string option \<Rightarrow> 'rl auth_db \<Rightarrow> unit response \<times> 'rl auth_db" where
  "delete_session now auth param db =
     (case param of
        None \<Rightarrow> (Refuse 404 ''not_found'', db)
      | Some sid \<Rightarrow>
          (case revoke_session now sid (ac_user auth) db of
             (False, db1) \<Rightarrow> (Refuse 404 ''not_found'', db1)
           | (True, db1) \<Rightarrow>
               (Reply 200 (), audit (ac_user auth) ''auth.session.revoke'' [(''self'', JBool (sid = ac_session auth))] db1)))"

subsection \<open>Passwords: facts\<close>

definition pw_ok :: "pw_lib \<Rightarrow> bool" where
  \<comment> \<open>what is used of base64url and scrypt: decoding inverts encoding, the alphabet has no \<open>$\<close>, the derived key
     has the length asked for\<close>
  "pw_ok lib \<longleftrightarrow>
     (\<forall>b. b64url_dec lib (b64url_enc lib b) = b \<and> dollar \<notin> set (b64url_enc lib b)) \<and>
     (\<forall>pw salt n params h. scrypt lib pw salt n params = Some h \<longrightarrow> length h = n)"

lemma digit_chars_of:
  "char_of (48 :: nat) = CHR ''0''" "char_of (49 :: nat) = CHR ''1''" "char_of (50 :: nat) = CHR ''2''"
  "char_of (51 :: nat) = CHR ''3''" "char_of (55 :: nat) = CHR ''7''" "char_of (56 :: nat) = CHR ''8''"
  by code_simp+

lemma parameter_strings:
  "nat_str scrypt_n = ''131072''" "nat_str scrypt_r = ''8''" "nat_str scrypt_p = ''1''"
  "js_integer ''131072'' = Some 131072" "js_integer ''8'' = Some 8" "js_integer ''1'' = Some 1"
proof -
  show "nat_str scrypt_n = ''131072''"
    by (simp add: scrypt_n_def nat_str.simps [of 131072] nat_str.simps [of 13107] nat_str.simps [of 1310]
        nat_str.simps [of 131] nat_str.simps [of 13] nat_str.simps [of "Suc 0"] digit_chars_of)
  show "nat_str scrypt_r = ''8''" "nat_str scrypt_p = ''1''"
    by (simp_all add: scrypt_r_def scrypt_p_def nat_str.simps [of 8] nat_str.simps [of "Suc 0"] digit_chars_of)
  have "js_trim ''131072'' = ''131072''" "js_trim ''8'' = ''8''" "js_trim ''1'' = ''1''" by code_simp+
  then show "js_integer ''131072'' = Some 131072" "js_integer ''8'' = Some 8" "js_integer ''1'' = Some 1"
    by (simp_all add: js_integer_def is_digit_def digits_value_def)
qed

lemma verify_hashed:
  assumes "pw_ok lib" "hash_password lib salt password = Some st"
  shows "verify_password lib candidate (Some st) =
    (scrypt lib candidate salt pw_key_len (131072, 8, 1) = scrypt lib password salt pw_key_len (131072, 8, 1))"
proof -
  have n: "int scrypt_n = 131072" "int scrypt_r = 8" "int scrypt_p = 1"
    by (simp_all add: scrypt_n_def scrypt_r_def scrypt_p_def)
  obtain h where h: "scrypt lib password salt pw_key_len (131072, 8, 1) = Some h"
    and st: "st = join_with [dollar] [''scrypt'', ''131072'', ''8'', ''1'', b64url_enc lib salt, b64url_enc lib h]"
    using assms(2) unfolding hash_password_def n parameter_strings(1-3)
    by (cases "scrypt lib password salt pw_key_len (131072, 8, 1)") auto
  have "split_on dollar st = [''scrypt'', ''131072'', ''8'', ''1'', b64url_enc lib salt, b64url_enc lib h]"
    unfolding st using assms(1) by (intro split_on_join) (auto simp: pw_ok_def dollar_def)
  moreover have "st \<noteq> []" by (simp add: st)
  moreover have "length h = pw_key_len" using assms(1) h by (auto simp: pw_ok_def)
  moreover have "scrypt lib candidate salt pw_key_len (131072, 8, 1) = Some a \<Longrightarrow> length a = pw_key_len" for a
    using assms(1) by (auto simp: pw_ok_def)
  ultimately show ?thesis
    using assms(1) h by (auto simp: verify_password_def parameter_strings pw_ok_def Let_def split: option.splits)
qed

text \<open>A stored password hash accepts exactly the passwords with the same scrypt key under the stored
  salt: the password it was made from always, and another one only on a collision. A missing hash
  accepts nothing.\<close>

theorem password_roundtrip:
  assumes "pw_ok lib" "hash_password lib salt password = Some st"
  shows "verify_password lib password (Some st) \<and> \<not> verify_password lib candidate None \<and>
    verify_password lib candidate (Some st) =
      (scrypt lib candidate salt pw_key_len (131072, 8, 1) = scrypt lib password salt pw_key_len (131072, 8, 1))"
  using verify_hashed [OF assms] by (simp add: verify_password_def)

fun toy_dec :: "string \<Rightarrow> bytes" where
  "toy_dec (a # b # cs) = of_nat (16 * (of_char a - 97) + (of_char b - 97)) # toy_dec cs"
| "toy_dec _ = []"

definition toy_enc :: "bytes \<Rightarrow> string" where
  "toy_enc bs = concat (map (\<lambda>b. [char_of (97 + unat b div 16), char_of (97 + unat b mod 16)]) bs)"

definition toy_pw :: pw_lib where
  \<comment> \<open>a key derivation and a coding of bytes as letters, for the examples\<close>
  "toy_pw = \<lparr>scrypt = \<lambda>pw salt n params. Some (take n (map of_char pw @ replicate n 0)),
     b64url_enc = toy_enc, b64url_dec = toy_dec\<rparr>"

lemma toy_pw_ok: "pw_ok toy_pw"
proof -
  have n: "unat (b :: 8 word) div 16 < 16" "unat b mod 16 < 16" for b
  proof -
    have "unat b < 2 ^ LENGTH(8)" by (rule unsigned_less)
    then have "unat b < 256" by simp
    then show "unat b div 16 < 16" "unat b mod 16 < 16" by auto
  qed
  have "toy_dec (toy_enc bs) = bs \<and> dollar \<notin> set (toy_enc bs)" for bs
  proof (induction bs)
    case (Cons b bs)
    have e: "(of_char (char_of (97 + unat b div 16) :: char) :: nat) = 97 + unat b div 16"
      "(of_char (char_of (97 + unat b mod 16) :: char) :: nat) = 97 + unat b mod 16"
      using n [of b] by simp_all
    moreover have "(of_char dollar :: nat) = 36" by (simp add: dollar_def)
    ultimately have "dollar \<noteq> char_of (97 + unat b div 16)" "dollar \<noteq> char_of (97 + unat b mod 16)" by force+
    moreover have "of_nat (16 * (unat b div 16) + unat b mod 16) = b" by (simp add: mult_div_mod_eq)
    ultimately show ?case using Cons e by (simp add: toy_enc_def)
  qed (simp add: toy_enc_def)
  then show ?thesis by (auto simp: pw_ok_def toy_pw_def)
qed

theorem password_roundtrip_witness:
  "\<exists>st. hash_password toy_pw [1, 2] ''correct horse'' = Some st \<and> verify_password toy_pw ''correct horse'' (Some st) \<and>
     \<not> verify_password toy_pw ''wrong'' (Some st)"
proof -
  obtain st where h: "hash_password toy_pw [1, 2] ''correct horse'' = Some st" by (simp add: hash_password_def toy_pw_def)
  have "scrypt toy_pw ''wrong'' [1, 2] pw_key_len (131072, 8, 1) \<noteq> scrypt toy_pw ''correct horse'' [1, 2] pw_key_len (131072, 8, 1)"
    by (simp add: toy_pw_def pw_key_len_def numeral_eq_Suc)
  then show ?thesis using password_roundtrip [OF toy_pw_ok h] h by blast
qed

subsection \<open>Sessions: facts\<close>

lemma find_append: "find p (xs @ ys) = (case find p xs of None \<Rightarrow> find p ys | Some x \<Rightarrow> Some x)"
  by (induction xs) auto

lemma find_cong_map: "(\<And>x. p (f x) = p x) \<Longrightarrow> find p (map f xs) = map_option f (find p xs)"
  by (induction xs) auto

lemma user_live_Some: "user_live i db = Some u \<Longrightarrow> u \<in> set (db_users db) \<and> us_id u = i \<and> \<not> us_deleted u"
  by (auto simp: user_live_def find_Some_iff)

lemma resolve_session_cases:
  "case resolve_session sha now token db of
     (None, db') \<Rightarrow> list_all (\<lambda>s. \<not> session_live sha now token db s) (db_sessions db)
   | (Some ctx, db') \<Rightarrow>
       \<exists>s u. s \<in> set (db_sessions db) \<and> session_live sha now token db s \<and> u \<in> set (db_users db) \<and>
         us_id u = ss_user s \<and> \<not> us_deleted u \<and>
         ctx = \<lparr>ac_user = ss_user s, ac_session = ss_id s, ac_kind = ss_kind s, ac_email = us_email u\<rparr>"
proof (cases "find (session_live sha now token db) (db_sessions db)")
  case None
  then have "list_all (\<lambda>s. \<not> session_live sha now token db s) (db_sessions db)"
    by (simp add: find_None_iff list_all_iff)
  then show ?thesis using None by (simp add: resolve_session_def Let_def)
next
  case (Some s)
  then have s: "s \<in> set (db_sessions db)" "session_live sha now token db s" by (auto simp: find_Some_iff)
  then obtain u where u: "user_live (ss_user s) db = Some u" by (auto simp: session_live_def)
  show ?thesis using Some s u user_live_Some [OF u] by (auto simp: resolve_session_def Let_def)
qed

text \<open>C10. The hook is fail-closed. A request under \<open>/v1/\<close> outside the public list proceeds only with a
  bearer token that belongs to an unexpired, unrevoked session of an account that is not deleted, and
  with that session's user, kind and e-mail as its context; it is refused exactly when there is none.
  Only other requests proceed without a context, and they change nothing.\<close>

theorem hook_fails_closed:
  "let path = hd (split_on CHR ''?'' url);
       protected_path = (starts_with path ''/v1/'' \<and> method_name @ '' '' @ path \<notin> set public_v1_routes);
       token = (case header of None \<Rightarrow> None
                | Some h \<Rightarrow> if starts_with h bearer then Some (js_trim (drop (length bearer) h)) else None)
   in case on_request sha now method_name url header db of
        (Proceed None, db') \<Rightarrow> \<not> protected_path \<and> db' = db
      | (Proceed (Some ctx), db') \<Rightarrow>
          protected_path \<and>
          (\<exists>tok s u. token = Some tok \<and> s \<in> set (db_sessions db) \<and> session_live sha now tok db s \<and>
             u \<in> set (db_users db) \<and> us_id u = ss_user s \<and> \<not> us_deleted u \<and>
             ctx = \<lparr>ac_user = ss_user s, ac_session = ss_id s, ac_kind = ss_kind s, ac_email = us_email u\<rparr>)
      | (Unauthorized _, db') \<Rightarrow>
          protected_path \<and>
          (case token of None \<Rightarrow> True
           | Some tok \<Rightarrow> list_all (\<lambda>s. \<not> session_live sha now tok db s) (db_sessions db))"
proof (cases header)
  case None
  then show ?thesis by (simp add: on_request_def Let_def)
next
  case (Some h)
  obtain r db' where "resolve_session sha now (js_trim (drop (length bearer) h)) db = (r, db')"
    by (cases "resolve_session sha now (js_trim (drop (length bearer) h)) db")
  then show ?thesis
    using Some resolve_session_cases [of sha now "js_trim (drop (length bearer) h)" db]
    by (cases r) (auto simp: on_request_def Let_def)
qed

lemma allow_attempt_tables:
  "allow_attempt allow key db = (ok, db1) \<Longrightarrow>
     db_users db1 = db_users db \<and> db_sessions db1 = db_sessions db \<and> db_pairing db1 = db_pairing db \<and>
     db_resets db1 = db_resets db"
  by (auto simp: allow_attempt_def split: prod.splits)

lemma audit_tables [simp]:
  "db_users (audit u e dt db) = db_users db" "db_sessions (audit u e dt db) = db_sessions db"
  by (simp_all add: audit_def)

lemma create_session_resolves:
  assumes "create_session sha now rnd uid kind ttl label db = (Inr (token, sid, expires), db')"
    and "user_live uid db = Some u" "t < expires"
  shows "fst (resolve_session sha t token (audit a e dt db')) =
    Some \<lparr>ac_user = uid, ac_session = sid, ac_kind = kind, ac_email = us_email u\<rparr>"
proof -
  let ?new = "\<lparr>ss_id = fst rnd, ss_user = uid, ss_token_hash = sha token, ss_kind = kind, ss_created = now,
     ss_expires = expires, ss_last_used = now, ss_revoked = None, ss_label = label\<rparr>"
  from assms(1) have db': "db' = db\<lparr>db_sessions := db_sessions db @ [?new]\<rparr>" and sid: "sid = fst rnd"
    and fresh: "sha token \<notin> set (map ss_token_hash (db_sessions db))"
    by (auto simp: create_session_def Let_def split: if_splits)
  have ul: "user_live i (audit a e dt db') = user_live i db" for i by (simp add: user_live_def db')
  have "find (session_live sha t token (audit a e dt db')) (db_sessions db) = None"
    using fresh by (force simp: find_None_iff session_live_def)
  then have "find (session_live sha t token (audit a e dt db')) (db_sessions db @ [?new]) = Some ?new"
    using assms(2,3) ul by (simp add: find_append session_live_def)
  then show ?thesis using assms(2) ul sid by (simp add: resolve_session_def Let_def db')
qed

text \<open>A login that succeeds was made with the password of an account that is not deleted, and its
  token is a working credential until it expires: it resolves to a web session of that account.\<close>

theorem login_session_resolves:
  assumes "login d now rnd req (Some (email, password)) db = (Reply code r, db')"
    and "distinct (map us_id (db_users db))" "t < sr_expires r"
  shows "\<exists>u. u \<in> set (db_users db) \<and> us_email u = email \<and> \<not> us_deleted u \<and>
      verify_password (dp_pw d) password (us_password_hash u) \<and>
      fst (resolve_session (dp_sha d) t (sr_token r) db') =
        Some \<lparr>ac_user = us_id u, ac_session = fst (rn_session rnd), ac_kind = Web, ac_email = email\<rparr>"
proof -
  obtain db1 where a: "allow_attempt (dp_allow d) (''login:'' @ rq_ip req) db = (True, db1)"
    using assms(1) by (auto simp: login_def split: prod.splits if_splits)
  note tab = allow_attempt_tables [OF a]
  obtain u where u: "find (\<lambda>u. us_email u = email \<and> \<not> us_deleted u) (db_users db1) = Some u"
    "verify_password (dp_pw d) password (us_password_hash u)"
    using assms(1) a by (auto simp: login_def Let_def split: option.splits if_splits)
  then have uin: "u \<in> set (db_users db)" "us_email u = email" "\<not> us_deleted u"
    using tab by (auto simp: find_Some_iff)
  obtain token sid expires db2 where cs: "create_session (dp_sha d) now (rn_session rnd) (us_id u) Web
      (ae_session_ttl_hours (dp_env d)) (session_label req) db1 = (Inr (token, sid, expires), db2)"
    and r: "sr_token r = token" "sr_expires r = expires"
    and db': "db' = audit (us_id u) ''auth.login'' [(''kind'', JStr ''web'')] db2"
    using assms(1) a u by (auto simp: login_def Let_def split: sum.splits prod.splits)
  have sid: "sid = fst (rn_session rnd)" using cs by (auto simp: create_session_def Let_def split: if_splits)
  obtain v where v: "user_live (us_id u) db1 = Some v"
    using uin tab by (cases "user_live (us_id u) db1") (auto simp: user_live_def find_None_iff)
  have "v = u"
    using user_live_Some [OF v] uin(1) tab assms(2) by (auto simp: distinct_map inj_on_def)
  then show ?thesis
    using create_session_resolves [OF cs v] assms(3) r db' sid uin u(2) by (intro exI [of _ u]) simp
qed

definition login_user :: user_row where
  "login_user = \<lparr>us_id = ''u1'', us_email = ''a@b.c'', us_display_name = None,
     us_password_hash = hash_password toy_pw [1, 2] ''correct horse'', us_deleted = False\<rparr>"

definition login_db :: "unit auth_db" where
  "login_db = \<lparr>db_users = [login_user], db_sessions = [], db_pairing = [], db_resets = [], db_projects = [], db_audit = [],
     db_limiter = ()\<rparr>"

definition login_deps :: "unit auth_deps" where
  "login_deps = \<lparr>dp_env = \<lparr>ae_signup_mode = Signup_open, ae_invite_code = None, ae_session_ttl_hours = 1, ae_extension_ttl_hours = 1\<rparr>,
     dp_sha = \<lambda>s. s, dp_pw = toy_pw, dp_allow = \<lambda>k l. (True, l)\<rparr>"

definition login_rnd :: auth_rnd where
  "login_rnd = \<lparr>rn_user_id = ''u2'', rn_session = (''s1'', ''rnd''), rn_salt = [1], rn_code = 7, rn_reset = ''x''\<rparr>"

definition login_req :: request_info where
  "login_req = \<lparr>rq_ip = ''1.2.3.4'', rq_user_agent = None\<rparr>"

lemma login_verify: "verify_password toy_pw ''correct horse'' (us_password_hash login_user)"
proof -
  obtain st where h: "hash_password toy_pw [1, 2] ''correct horse'' = Some st" by (simp add: hash_password_def toy_pw_def)
  then show ?thesis using verify_hashed [OF toy_pw_ok h] by (simp add: login_user_def)
qed

lemma login_example:
  "\<exists>db'. login login_deps 0 login_rnd login_req (Some (''a@b.c'', ''correct horse'')) login_db =
     (Reply 200 \<lparr>sr_token = ''nova_sess_rnd'', sr_expires = 3600000, sr_user_id = ''u1'', sr_email = ''a@b.c'', sr_display_name = None\<rparr>, db')"
proof -
  have s: "us_id login_user = ''u1''" "us_email login_user = ''a@b.c''" "\<not> us_deleted login_user" "us_display_name login_user = None"
    by (simp_all add: login_user_def)
  show ?thesis
    using login_verify s
    by (simp add: login_def allow_attempt_def login_deps_def login_db_def create_session_def new_session_token_def login_rnd_def
        hour_ms_def Let_def)
qed

theorem login_session_resolves_witness:
  "\<exists>db' :: unit auth_db. fst (resolve_session (\<lambda>s. s) 3599999 ''nova_sess_rnd'' db') =
     Some \<lparr>ac_user = ''u1'', ac_session = ''s1'', ac_kind = Web, ac_email = ''a@b.c''\<rparr>"
proof -
  obtain db' where l: "login login_deps 0 login_rnd login_req (Some (''a@b.c'', ''correct horse'')) login_db =
     (Reply 200 \<lparr>sr_token = ''nova_sess_rnd'', sr_expires = 3600000, sr_user_id = ''u1'', sr_email = ''a@b.c'', sr_display_name = None\<rparr>, db')"
    using login_example by blast
  have d: "distinct (map us_id (db_users login_db))" by (simp add: login_db_def)
  from login_session_resolves [OF l d, of 3599999] show ?thesis
    by (auto simp: login_db_def login_user_def login_deps_def login_rnd_def)
qed

subsection \<open>Revocation and single use\<close>

definition unrevoked :: "string \<Rightarrow> 'rl auth_db \<Rightarrow> session_row list" where
  "unrevoked user_id db = filter (\<lambda>s. ss_user s = user_id \<and> ss_revoked s = None) (db_sessions db)"

lemma revoke_where_sessions:
  "revoke_where now p db = (n, db') \<Longrightarrow>
     db_sessions db' = map (\<lambda>s. if p s \<and> ss_revoked s = None then s\<lparr>ss_revoked := Some now\<rparr> else s) (db_sessions db) \<and>
     db_users db' = db_users db"
  by (auto simp: revoke_where_def)

lemma unrevoked_after:
  "filter (\<lambda>s. ss_user s = u \<and> ss_revoked s = None) (map (\<lambda>s. if p s \<and> ss_revoked s = None then s\<lparr>ss_revoked := Some now\<rparr> else s) ss) =
     filter (\<lambda>s. ss_user s = u \<and> ss_revoked s = None \<and> \<not> p s) ss"
  by (induction ss) auto

lemma unrevoked_revoke:
  "revoke_where now p db = (n, db') \<Longrightarrow>
     unrevoked u db' = filter (\<lambda>s. ss_user s = u \<and> ss_revoked s = None \<and> \<not> p s) (db_sessions db)"
  using revoke_where_sessions [of now p db n db'] unrevoked_after by (simp add: unrevoked_def)

definition sessions_of :: "string \<Rightarrow> 'rl auth_db \<Rightarrow> session_row list" where
  "sessions_of user_id db = filter (\<lambda>s. ss_user s = user_id) (db_sessions db)"

lemma sessions_of_revoke:
  assumes "revoke_where now p db = (n, db')" "\<And>s. ss_user s = other \<Longrightarrow> \<not> p s"
  shows "sessions_of other db' = sessions_of other db"
proof -
  have "filter (\<lambda>s. ss_user s = other) (map (\<lambda>s. if p s \<and> ss_revoked s = None then s\<lparr>ss_revoked := Some now\<rparr> else s) ss)
      = filter (\<lambda>s. ss_user s = other) ss" for ss
    using assms(2) by (induction ss) auto
  then show ?thesis using revoke_where_sessions [OF assms(1)] by (simp add: sessions_of_def)
qed

lemma unrevoked_audit [simp]: "unrevoked u (audit a e dt db) = unrevoked u db"
  by (simp add: unrevoked_def)

lemma sessions_of_audit [simp]: "sessions_of u (audit a e dt db) = sessions_of u db"
  by (simp add: sessions_of_def)

lemma set_password_sessions [simp]:
  "unrevoked u (set_password i h db) = unrevoked u db" "sessions_of u (set_password i h db) = sessions_of u db"
  "db_sessions (set_password i h db) = db_sessions db"
  by (simp_all add: set_password_def unrevoked_def sessions_of_def)

definition users_but :: "string \<Rightarrow> 'rl auth_db \<Rightarrow> user_row list" where
  "users_but user_id db = filter (\<lambda>u. us_id u \<noteq> user_id) (db_users db)"

lemma users_but_set_password [simp]: "users_but i (set_password i h db) = users_but i db"
proof -
  have "filter (\<lambda>u. us_id u \<noteq> i) (map (\<lambda>u. if us_id u = i then u\<lparr>us_password_hash := Some h\<rparr> else u) us)
      = filter (\<lambda>u. us_id u \<noteq> i) us" for us :: "user_row list"
    by (induction us) auto
  then show ?thesis by (simp add: users_but_def set_password_def)
qed

lemma users_but_same: "db_users db' = db_users db \<Longrightarrow> users_but i db' = users_but i db"
  by (simp add: users_but_def)

lemma claim_reset_tables:
  "claim_reset sha now token db = (u, db') \<Longrightarrow> db_sessions db' = db_sessions db \<and> db_users db' = db_users db"
  by (auto simp: claim_reset_def Let_def)

lemma reset_confirm_sessions:
  "case parsed of None \<Rightarrow> snd (reset_confirm d now rnd req parsed db) = db
   | Some (token, password) \<Rightarrow>
       (case reset_confirm d now rnd req parsed db of
          (Reply _ _, db') \<Rightarrow>
            (\<exists>uid. fst (claim_reset (dp_sha d) now token db) = Some uid \<and> unrevoked uid db' = [] \<and>
               users_but uid db' = users_but uid db \<and>
               (if other = uid then True else sessions_of other db' = sessions_of other db))
        | (_, db') \<Rightarrow> db_sessions db' = db_sessions db \<and> db_users db' = db_users db)"
proof (cases parsed)
  case (Some tp)
  obtain token password where tp: "tp = (token, password)" by (cases tp)
  obtain ok db1 where a: "allow_attempt (dp_allow d) (''pwreset-confirm:'' @ rq_ip req) db = (ok, db1)"
    by (cases "allow_attempt (dp_allow d) (''pwreset-confirm:'' @ rq_ip req) db")
  note tab = allow_attempt_tables [OF a]
  have cr: "fst (claim_reset sha now token db1) = fst (claim_reset sha now token db)" for sha
    using tab by (simp add: claim_reset_def Let_def)
  obtain u db2 where c: "claim_reset (dp_sha d) now token db1 = (u, db2)" by (cases "claim_reset (dp_sha d) now token db1")
  note ctab = claim_reset_tables [OF c]
  show ?thesis
  proof (cases "ok \<and> u \<noteq> None \<and> hash_password (dp_pw d) (rn_salt rnd) password \<noteq> None")
    case True
    then obtain uid hash where uid: "u = Some uid" and h: "hash_password (dp_pw d) (rn_salt rnd) password = Some hash" by auto
    obtain n db3 where r: "revoke_where now (\<lambda>s. ss_user s = uid) (set_password uid hash db2) = (n, db3)"
      by (cases "revoke_where now (\<lambda>s. ss_user s = uid) (set_password uid hash db2)")
    have "fst (claim_reset (dp_sha d) now token db) = Some uid" using c uid cr [of "dp_sha d"] by simp
    moreover have "unrevoked uid db3 = []" using unrevoked_revoke [OF r, of uid] by simp
    moreover have "users_but uid db3 = users_but uid db"
      using revoke_where_sessions [OF r] ctab tab users_but_same by (metis users_but_set_password)
    moreover have "sessions_of other db3 = sessions_of other db" if "other \<noteq> uid"
      using sessions_of_revoke [OF r, of other] that ctab tab by (auto simp: sessions_of_def set_password_def)
    ultimately show ?thesis
      using True a c uid h r Some tp by (auto simp: reset_confirm_def users_but_def)
  next
    case False
    then show ?thesis using a c Some tp tab ctab by (auto simp: reset_confirm_def split: option.splits)
  qed
qed (simp add: reset_confirm_def)

lemma change_password_sessions:
  "case change_password d now rnd req auth parsed db of
     (Reply _ _, db') \<Rightarrow> ac_kind auth = Web \<and>
       list_all (\<lambda>s. ss_id s = ac_session auth) (unrevoked (ac_user auth) db') \<and>
       users_but (ac_user auth) db' = users_but (ac_user auth) db \<and>
       (if other = ac_user auth then True else sessions_of other db' = sessions_of other db)
   | (_, db') \<Rightarrow> db_sessions db' = db_sessions db \<and> db_users db' = db_users db"
proof (cases "ac_kind auth = Web \<and> parsed \<noteq> None")
  case True
  then obtain cur new where p2: "parsed = Some (cur, new)" by auto
  obtain ok db1 where a: "allow_attempt (dp_allow d) (''password:'' @ rq_ip req) db = (ok, db1)"
    by (cases "allow_attempt (dp_allow d) (''password:'' @ rq_ip req) db")
  note tab = allow_attempt_tables [OF a]
  let ?p = "\<lambda>s. ss_user s = ac_user auth \<and> ss_id s \<noteq> ac_session auth"
  let ?ok = "case user_live (ac_user auth) db1 of None \<Rightarrow> False | Some u \<Rightarrow> verify_password (dp_pw d) cur (us_password_hash u)"
  show ?thesis
  proof (cases "ok \<and> ?ok \<and> hash_password (dp_pw d) (rn_salt rnd) new \<noteq> None")
    case t: True
    then obtain hash where h: "hash_password (dp_pw d) (rn_salt rnd) new = Some hash" by auto
    obtain n db2 where r: "revoke_where now ?p (set_password (ac_user auth) hash db1) = (n, db2)"
      by (cases "revoke_where now ?p (set_password (ac_user auth) hash db1)")
    have "users_but (ac_user auth) db2 = users_but (ac_user auth) db"
      using revoke_where_sessions [OF r] tab users_but_same by (metis users_but_set_password)
    moreover have "sessions_of other db2 = sessions_of other db" if "other \<noteq> ac_user auth"
      using sessions_of_revoke [OF r, of other] that tab by (auto simp: sessions_of_def set_password_def)
    ultimately show ?thesis
      using t True p2 a h r unrevoked_revoke [OF r, of "ac_user auth"]
      by (auto simp: change_password_def list_all_iff users_but_def)
  next
    case False
    then have "\<exists>res. change_password d now rnd req auth parsed db = (res, db1) \<and> (\<forall>c x. res \<noteq> Reply c x)"
      using True p2 a by (auto simp: change_password_def)
    then show ?thesis using tab by (auto split: response.split)
  qed
next
  case False
  then have "ac_kind auth \<noteq> Web \<or> parsed = None" by blast
  then show ?thesis by (elim disjE) (simp_all add: change_password_def)
qed

lemma delete_session_confined:
  "(case delete_session now auth (Some sid) db of
      (Reply _ _, db') \<Rightarrow> sid \<in> set (map ss_id (unrevoked (ac_user auth) db)) \<and> sid \<notin> set (map ss_id (unrevoked (ac_user auth) db'))
    | (_, db') \<Rightarrow> sid \<notin> set (map ss_id (unrevoked (ac_user auth) db)) \<and> unrevoked (ac_user auth) db' = unrevoked (ac_user auth) db)"
proof -
  let ?p = "\<lambda>s. ss_id s = sid \<and> ss_user s = ac_user auth"
  obtain k db3 where dl: "revoke_where now ?p db = (k, db3)" by (cases "revoke_where now ?p db")
  have k: "k = length (filter (\<lambda>s. ?p s \<and> ss_revoked s = None) (db_sessions db))"
    using dl by (simp add: revoke_where_def)
  have u3: "unrevoked (ac_user auth) db3 =
      filter (\<lambda>s. ss_user s = ac_user auth \<and> ss_revoked s = None \<and> \<not> ?p s) (db_sessions db)"
    by (rule unrevoked_revoke [OF dl])
  show ?thesis
  proof (cases "0 < k")
    case True
    then have "sid \<in> set (map ss_id (unrevoked (ac_user auth) db))" using k by (auto simp: unrevoked_def filter_empty_conv)
    moreover have "sid \<notin> set (map ss_id (unrevoked (ac_user auth) db3))" using u3 by auto
    ultimately show ?thesis using True dl by (simp add: delete_session_def revoke_session_def)
  next
    case False
    then have n: "\<forall>s\<in>set (db_sessions db). \<not> (?p s \<and> ss_revoked s = None)"
      using k by (auto simp: filter_empty_conv)
    then have "unrevoked (ac_user auth) db3 = unrevoked (ac_user auth) db"
      unfolding u3 by (auto simp: unrevoked_def intro!: filter_cong)
    moreover have "sid \<notin> set (map ss_id (unrevoked (ac_user auth) db))" using n by (auto simp: unrevoked_def)
    ultimately show ?thesis using False dl by (simp add: delete_session_def revoke_session_def)
  qed
qed

text \<open>C11. Revocation is complete and confined. A completed password reset leaves the account of the token
  no unrevoked session, a password change and \<open>revoke-all\<close> leave only the session that asked, a logout
  removes that one; none of the five operations changes a session row of another account, and the two that
  set a password change no other account's user row; a reset or change that is refused changes no session
  and no user; and deleting a session that is not one's own unrevoked session is a 404.\<close>

theorem revocation_is_complete:
  "(case parsed of None \<Rightarrow> snd (reset_confirm d now rnd req parsed db) = db
    | Some (token, password) \<Rightarrow>
        (case reset_confirm d now rnd req parsed db of
           (Reply _ _, db') \<Rightarrow>
             (\<exists>uid. fst (claim_reset (dp_sha d) now token db) = Some uid \<and> unrevoked uid db' = [] \<and>
                users_but uid db' = users_but uid db \<and>
                (if other = uid then True else sessions_of other db' = sessions_of other db))
         | (_, db') \<Rightarrow> db_sessions db' = db_sessions db \<and> db_users db' = db_users db)) \<and>
   (case change_password d now rnd req auth parsed2 db of
      (Reply _ _, db') \<Rightarrow> ac_kind auth = Web \<and>
        list_all (\<lambda>s. ss_id s = ac_session auth) (unrevoked (ac_user auth) db') \<and>
        users_but (ac_user auth) db' = users_but (ac_user auth) db \<and>
        (if other = ac_user auth then True else sessions_of other db' = sessions_of other db)
    | (_, db') \<Rightarrow> db_sessions db' = db_sessions db \<and> db_users db' = db_users db) \<and>
   list_all (\<lambda>s. ss_id s = ac_session auth) (unrevoked (ac_user auth) (snd (revoke_all now auth db))) \<and>
   list_all (\<lambda>s. ss_id s \<noteq> ac_session auth) (unrevoked (ac_user auth) (snd (logout now auth db))) \<and>
   (if other = ac_user auth then True
    else sessions_of other (snd (revoke_all now auth db)) = sessions_of other db \<and>
         sessions_of other (snd (logout now auth db)) = sessions_of other db \<and>
         sessions_of other (snd (delete_session now auth (Some sid) db)) = sessions_of other db) \<and>
   (case delete_session now auth (Some sid) db of
      (Reply _ _, db') \<Rightarrow> sid \<in> set (map ss_id (unrevoked (ac_user auth) db)) \<and> sid \<notin> set (map ss_id (unrevoked (ac_user auth) db'))
    | (_, db') \<Rightarrow> sid \<notin> set (map ss_id (unrevoked (ac_user auth) db)) \<and> unrevoked (ac_user auth) db' = unrevoked (ac_user auth) db)"
  (is "?reset \<and> ?change \<and> ?all \<and> ?logout \<and> ?other \<and> ?delete")
proof (intro conjI)
  show ?reset by (rule reset_confirm_sessions)
  show ?change by (rule change_password_sessions)
  show ?delete by (rule delete_session_confined)
  obtain n db1 where r: "revoke_where now (\<lambda>s. ss_user s = ac_user auth \<and> ss_id s \<noteq> ac_session auth) db = (n, db1)"
    by (cases "revoke_where now (\<lambda>s. ss_user s = ac_user auth \<and> ss_id s \<noteq> ac_session auth) db")
  show ?all using r unrevoked_revoke [OF r, of "ac_user auth"] by (simp add: revoke_all_def list_all_iff)
  obtain m db2 where l: "revoke_where now (\<lambda>s. ss_id s = ac_session auth \<and> ss_user s = ac_user auth) db = (m, db2)"
    by (cases "revoke_where now (\<lambda>s. ss_id s = ac_session auth \<and> ss_user s = ac_user auth) db")
  show ?logout using l unrevoked_revoke [OF l, of "ac_user auth"]
    by (auto simp: logout_def revoke_session_def list_all_iff)
  obtain k db3 where dl: "revoke_where now (\<lambda>s. ss_id s = sid \<and> ss_user s = ac_user auth) db = (k, db3)"
    by (cases "revoke_where now (\<lambda>s. ss_id s = sid \<and> ss_user s = ac_user auth) db")
  show ?other
    using sessions_of_revoke [OF r, of other] sessions_of_revoke [OF l, of other] sessions_of_revoke [OF dl, of other] r l dl
    by (cases "0 < k") (auto simp: revoke_all_def logout_def revoke_session_def delete_session_def)
qed

lemma claim_pairing_twice:
  "now \<le> t \<Longrightarrow> fst (claim_pairing_code sha t code (snd (claim_pairing_code sha now code db))) = None"
  by (auto simp: claim_pairing_code_def Let_def find_None_iff)

lemma claim_reset_twice:
  "now \<le> t \<Longrightarrow> fst (claim_reset sha t token (snd (claim_reset sha now token db))) = None"
  by (auto simp: claim_reset_def Let_def find_None_iff)

text \<open>C12. Pairing codes and reset tokens work at most once and not after they expire: a claim succeeds only
  for an unclaimed, unexpired row with the hash of the code, for the row's account, and after any claim
  of a code the same code is refused for ever. Extension sessions mint no codes and change no password.\<close>

theorem codes_are_single_use:
  "(case claim_pairing_code sha now code db of
      (Some uid, db') \<Rightarrow> \<exists>p. p \<in> set (db_pairing db) \<and> pc_user p = uid \<and> pc_code_hash p = sha code \<and>
          pc_claimed p = None \<and> now < pc_expires p
    | (None, db') \<Rightarrow> db_pairing db' = db_pairing db) \<and>
   (case claim_reset sha now token db of
      (Some uid, db') \<Rightarrow> \<exists>p. p \<in> set (db_resets db) \<and> pr_user p = uid \<and> pr_token_hash p = sha token \<and>
          pr_used p = None \<and> now < pr_expires p
    | (None, db') \<Rightarrow> db_resets db' = db_resets db) \<and>
   fst (claim_pairing_code sha (now + int dt) code (snd (claim_pairing_code sha now code db))) = None \<and>
   fst (claim_reset sha (now + int dt) token (snd (claim_reset sha now token db))) = None \<and>
   (if ac_kind auth = Extension
    then mint_pairing_code d now rnd auth db = (Refuse 403 ''web_session_required'', db) \<and>
         change_password d now rnd req auth body db = (Refuse 403 ''web_session_required'', db)
    else True)"
proof (intro conjI)
  show "case claim_pairing_code sha now code db of
      (Some uid, db') \<Rightarrow> \<exists>p. p \<in> set (db_pairing db) \<and> pc_user p = uid \<and> pc_code_hash p = sha code \<and>
          pc_claimed p = None \<and> now < pc_expires p
    | (None, db') \<Rightarrow> db_pairing db' = db_pairing db"
    by (auto simp: claim_pairing_code_def Let_def find_Some_iff find_None_iff intro!: map_idI split: option.split) (metis nth_mem)
  show "case claim_reset sha now token db of
      (Some uid, db') \<Rightarrow> \<exists>p. p \<in> set (db_resets db) \<and> pr_user p = uid \<and> pr_token_hash p = sha token \<and>
          pr_used p = None \<and> now < pr_expires p
    | (None, db') \<Rightarrow> db_resets db' = db_resets db"
    by (auto simp: claim_reset_def Let_def find_Some_iff find_None_iff intro!: map_idI split: option.split) (metis nth_mem)
qed (simp_all add: claim_pairing_twice claim_reset_twice mint_pairing_code_def change_password_def)

end
