(* ===== verification/Notion.thy ===== *)
theory Notion
  imports Prelude
begin

text \<open>
  The Notion integration without the database: the page builder of \<open>notion-page.ts\<close>, the property mapping of
  \<open>notion-mapping.ts\<close> with its compatibility table from \<open>packages/schema\<close>, and the HTTP client of
  \<open>services/worker/src/notion-client.ts\<close> over an abstract \<open>fetch\<close>. Texts are lists of code units; the two
  literals outside Latin-1, the em dash and the ellipsis, are the single units 151 and 133.
\<close>

subsection \<open>Page content\<close>

record notion_source =
  ns_moment_id :: "string option"
  ns_moment_title :: "string option"
  ns_moment_summary :: "string option"
  ns_source_url :: "string option"
  ns_captured_at :: "string option"
  ns_extracted_text :: "string option"
  ns_instruction :: "string option"
  ns_tags :: "string list"
  ns_action_id :: "string option"
  ns_text_redaction :: "string option"
  ns_image_redaction :: "string option"
  ns_masked_regions :: nat

type_synonym page_section = "string option \<times> string"

record page_content =
  pc_title :: string
  pc_sections :: "page_section list"

definition excerpt_max :: nat where "excerpt_max = 600"

definition em_dash :: char where "em_dash = char_of (151 :: nat)"

definition dash_sep :: string where "dash_sep = '' '' @ [em_dash] @ '' ''"

definition when_text :: "string option \<Rightarrow> (string \<Rightarrow> 'a list) \<Rightarrow> 'a list" where
  \<comment> \<open>\<open>if (s) out.push(f(s))\<close>\<close>
  "when_text s f = (if truthy s then f (the s) else [])"

definition source_parts :: "notion_source \<Rightarrow> string list" where
  "source_parts src =
     when_text (ns_moment_title src) (\<lambda>t. [t]) @ when_text (ns_source_url src) (\<lambda>u. [u]) @
     when_text (ns_captured_at src) (\<lambda>c. [''captured '' @ c])"

definition excerpt_section :: "string option \<Rightarrow> page_section list" where
  "excerpt_section extracted =
     when_text (map_option js_trim extracted) (\<lambda>t.
       [(Some ''Captured text (excerpt)'', take excerpt_max t @ (if length t > excerpt_max then [ellipsis] else []))])"

definition privacy_text :: "notion_source \<Rightarrow> string" where
  "privacy_text src =
     join_with '' ''
       [''Text redaction: '' @ (case ns_text_redaction src of None \<Rightarrow> ''unknown'' | Some r \<Rightarrow> r) @ ''.'',
        ''Image redaction: '' @ (case ns_image_redaction src of None \<Rightarrow> ''none'' | Some r \<Rightarrow> r) @
          (if ns_masked_regions src = 0 then [] else '' ('' @ nat_str (ns_masked_regions src) @ '' region(s) masked)'') @ ''.'',
        ''Screenshots are not uploaded to Notion.'']"

definition page_refs :: "notion_source \<Rightarrow> string list" where
  "page_refs src =
     when_text (ns_moment_id src) (\<lambda>m. [''Nova Context moment '' @ m]) @
     when_text (ns_action_id src) (\<lambda>a. [''action '' @ a @ '' (see your Nova audit log)''])"

definition build_notion_page_content :: "string \<Rightarrow> string option \<Rightarrow> notion_source \<Rightarrow> page_content" where
  "build_notion_page_content title detail src =
     \<lparr>pc_title = title,
      pc_sections =
        when_text (coalesce (ns_moment_summary src) detail) (\<lambda>s. [(Some ''Summary'', s)]) @
        when_text (ns_instruction src) (\<lambda>i. [(Some ''Your instruction'', i)]) @
        (if source_parts src = [] then [] else [(Some ''Source'', join_with dash_sep (source_parts src))]) @
        excerpt_section (ns_extracted_text src) @
        (if ns_tags src = [] then [] else [(Some ''Tags'', join_with '', '' (ns_tags src))]) @
        [(Some ''Privacy'', privacy_text src),
         (None, ''Created by Nova Context'' @
            (if page_refs src = [] then [] else dash_sep @ join_with '', '' (page_refs src)) @ ''.'')]\<rparr>"

subsection \<open>Property mapping\<close>

datatype notion_field = F_title | F_summary | F_source_url | F_tags | F_priority | F_created | F_moment_ref

type_synonym notion_mapping = "(notion_field \<times> string option) list"

type_synonym db_properties = "(string \<times> string) list"

fun compatible_types :: "notion_field \<Rightarrow> string list" where
  "compatible_types F_title = [''title'']"
| "compatible_types F_summary = [''rich_text'']"
| "compatible_types F_source_url = [''url'', ''rich_text'']"
| "compatible_types F_tags = [''multi_select'']"
| "compatible_types F_priority = [''select'', ''rich_text'']"
| "compatible_types F_created = [''date'']"
| "compatible_types F_moment_ref = [''rich_text'', ''url'']"

datatype mapping_problem = Missing_property | Incompatible_type string

record mapping_issue =
  mi_field :: notion_field
  mi_property :: string
  mi_problem :: mapping_problem

definition new_map :: "('k \<times> 'v) list \<Rightarrow> ('k \<times> 'v) list" where
  \<comment> \<open>\<open>new Map(entries)\<close>\<close>
  "new_map xs = foldl (\<lambda>acc (k, v). obj_set k v acc) [] xs"

definition field_issues :: "db_properties \<Rightarrow> notion_field \<times> string option \<Rightarrow> mapping_issue list" where
  "field_issues by_name entry =
     (case entry of
        (field, None) \<Rightarrow> []
      | (field, Some name) \<Rightarrow>
          (case map_of by_name name of
             None \<Rightarrow> [\<lparr>mi_field = field, mi_property = name, mi_problem = Missing_property\<rparr>]
           | Some ty \<Rightarrow>
               if ty \<in> set (compatible_types field) then []
               else [\<lparr>mi_field = field, mi_property = name, mi_problem = Incompatible_type ty\<rparr>]))"

definition validate_notion_mapping :: "notion_mapping \<Rightarrow> db_properties \<Rightarrow> mapping_issue list" where
  "validate_notion_mapping mapping properties = concat (map (field_issues (new_map properties)) mapping)"

record mapping_values =
  mv_title :: string
  mv_summary :: "string option"
  mv_source_url :: "string option"
  mv_tags :: "string list"
  mv_priority :: "string option"
  mv_captured_at :: "string option"
  mv_moment_id :: "string option"

datatype property_value =
    PV_title string
  | PV_rich_text string
  | PV_url string
  | PV_multi_select "string list"
  | PV_select string
  | PV_date string

definition mapped :: "notion_mapping \<Rightarrow> notion_field \<Rightarrow> string option" where
  "mapped mapping f = (case map_of mapping f of Some (Some name) \<Rightarrow> Some name | _ \<Rightarrow> None)"

definition title_property :: "notion_mapping \<Rightarrow> string" where
  \<comment> \<open>the computed key \<open>[mapping.title]\<close>\<close>
  "title_property mapping =
     (case map_of mapping F_title of None \<Rightarrow> ''undefined'' | Some None \<Rightarrow> ''null'' | Some (Some name) \<Rightarrow> name)"

definition rich_text :: "string \<Rightarrow> property_value" where
  "rich_text content = PV_rich_text (take 2000 content)"

definition put_property :: "string option \<Rightarrow> bool \<Rightarrow> property_value \<Rightarrow> (string \<times> property_value) list \<Rightarrow> (string \<times> property_value) list" where
  \<comment> \<open>\<open>if (mapping.f && values.v) put(mapping.f, value)\<close>\<close>
  "put_property name present val props = (if truthy name \<and> present then obj_set (the name) val props else props)"

definition build_notion_database_properties ::
  "notion_mapping \<Rightarrow> mapping_values \<Rightarrow> db_properties \<Rightarrow> (string \<times> property_value) list" where
  "build_notion_database_properties mapping values types =
     (let type_is = (\<lambda>f ty. map_option (\<lambda>name. map_of types name = Some ty) (mapped mapping f) = Some True);
          text = (\<lambda>s. case s of None \<Rightarrow> [] | Some t \<Rightarrow> t);
          p0 = [(title_property mapping, PV_title (take 200 (mv_title values)))];
          p1 = put_property (mapped mapping F_summary) (truthy (mv_summary values)) (rich_text (text (mv_summary values))) p0;
          p2 = put_property (mapped mapping F_source_url) (truthy (mv_source_url values))
                 (if type_is F_source_url ''url'' then PV_url (text (mv_source_url values)) else rich_text (text (mv_source_url values))) p1;
          p3 = put_property (mapped mapping F_tags) (mv_tags values \<noteq> [])
                 (PV_multi_select (map (take 100) (take 20 (mv_tags values)))) p2;
          p4 = put_property (mapped mapping F_priority) (truthy (mv_priority values))
                 (if type_is F_priority ''select'' then PV_select (take 100 (text (mv_priority values))) else rich_text (text (mv_priority values))) p3;
          p5 = put_property (mapped mapping F_created) (truthy (mv_captured_at values)) (PV_date (text (mv_captured_at values))) p4
      in put_property (mapped mapping F_moment_ref) (truthy (mv_moment_id values))
           (if type_is F_moment_ref ''url'' then PV_url (''nova://moments/'' @ text (mv_moment_id values))
            else rich_text (''Nova moment '' @ text (mv_moment_id values))) p5)"

definition effective_mapping :: "notion_mapping \<Rightarrow> notion_field list \<Rightarrow> notion_mapping" where
  \<comment> \<open>the worker drops every field with an issue\<close>
  "effective_mapping mapping bad = map (\<lambda>(f, p). (f, if f \<in> set bad then None else p)) mapping"

definition mapped_properties :: "notion_mapping \<Rightarrow> mapping_values \<Rightarrow> db_properties \<Rightarrow> (string \<times> property_value) list option" where
  "mapped_properties saved values live =
     (let bad = map mi_field (validate_notion_mapping saved live)
      in if F_title \<in> set bad then None
         else Some (build_notion_database_properties (effective_mapping saved bad) values live))"

subsection \<open>The HTTP client\<close>

datatype parent_kind = Page_parent | Database_parent

record notion_parent =
  np_type :: parent_kind
  np_id :: string
  np_title :: "string option"

record created_page =
  cp_id :: string
  cp_url :: "string option"

datatype page_block = B_heading string | B_paragraph string | B_image string

record page_body =
  pb_parent :: "parent_kind \<times> string"
  pb_properties :: "(string \<times> property_value) list"
  pb_children :: "page_block list"

datatype http_body =
    No_body
  | Search_body
  | Upload_body string string
  | Page_body page_body
  | Form_body string string bytes

record http_request =
  hq_token :: string
  hq_path :: string
  hq_body :: http_body

datatype http_result = Unreachable string | Response nat "string + json"
  \<comment> \<open>a status with the parsed body, or with the error of parsing it\<close>

type_synonym 'h http = "http_request \<Rightarrow> 'h \<Rightarrow> http_result \<times> 'h"

datatype 'a notion_reply = N_ok 'a | N_transient string | N_error string

fun classify :: "string \<Rightarrow> string \<Rightarrow> http_result \<Rightarrow> (string + json) notion_reply" where
  "classify unreachable responded (Unreachable e) = N_transient (unreachable @ e)"
| "classify unreachable responded (Response status body) =
     (if status = 429 \<or> 500 \<le> status then N_transient (responded @ nat_str status)
      else if \<not> (200 \<le> status \<and> status \<le> 299) then N_error (''notion rejected the request ('' @ nat_str status @ '')'')
      else N_ok body)"

definition notion_call :: "'h http \<Rightarrow> string \<Rightarrow> string \<Rightarrow> http_body \<Rightarrow> 'h \<Rightarrow> json notion_reply \<times> 'h" where
  "notion_call fetch token path body h =
     (case fetch \<lparr>hq_token = token, hq_path = path, hq_body = body\<rparr> h of (res, h1) \<Rightarrow>
        (case classify ''notion unreachable: '' ''notion responded '' res of
           N_transient e \<Rightarrow> N_transient e
         | N_error e \<Rightarrow> N_error e
         | N_ok (Inl e) \<Rightarrow> N_error e
         | N_ok (Inr v) \<Rightarrow> N_ok v, h1))"

fun map_reply :: "('a \<Rightarrow> 'b) \<Rightarrow> 'a notion_reply \<Rightarrow> 'b notion_reply" where
  "map_reply f (N_ok x) = N_ok (f x)"
| "map_reply f (N_transient e) = N_transient e"
| "map_reply f (N_error e) = N_error e"

definition str_at :: "string \<Rightarrow> json \<Rightarrow> string option" where
  "str_at k v = (case jget k v of Some (JStr s) \<Rightarrow> Some s | _ \<Rightarrow> None)"

definition id_of :: "json \<Rightarrow> string" where
  \<comment> \<open>\<open>body.id as string\<close>; a reply without an id counts as the empty text, falsy like \<open>undefined\<close>\<close>
  "id_of v = (case str_at ''id'' v of None \<Rightarrow> [] | Some s \<Rightarrow> s)"

fun obj_entries :: "json option \<Rightarrow> (string \<times> json) list" where
  "obj_entries (Some (JObj fs)) = fs"
| "obj_entries _ = []"

fun arr_items :: "json option \<Rightarrow> json list" where
  "arr_items (Some (JArr xs)) = xs"
| "arr_items _ = []"

definition get_database_properties :: "'h http \<Rightarrow> string \<Rightarrow> string \<Rightarrow> 'h \<Rightarrow> db_properties notion_reply \<times> 'h" where
  "get_database_properties fetch token database_id h =
     (case notion_call fetch token (''/databases/'' @ database_id) No_body h of (r, h1) \<Rightarrow>
        (map_reply (\<lambda>body. new_map (map (\<lambda>(name, p). (name, case str_at ''type'' p of None \<Rightarrow> ''unknown'' | Some t \<Rightarrow> t))
             (obj_entries (jget ''properties'' body)))) r, h1))"

definition title_text :: "json \<Rightarrow> string" where
  "title_text prop =
     concat (map (\<lambda>t. case str_at ''plain_text'' t of None \<Rightarrow> [] | Some s \<Rightarrow> s) (arr_items (jget ''title'' prop)))"

definition extract_title :: "json \<Rightarrow> string option" where
  "extract_title page =
     (case find (\<lambda>(name, p). str_at ''type'' p = Some ''title'' \<and> arr_items (jget ''title'' p) \<noteq> [])
             (obj_entries (jget ''properties'' page)) of
        None \<Rightarrow> None
      | Some (name, p) \<Rightarrow> if title_text p = [] then None else Some (title_text p))"

definition find_parent :: "'h http \<Rightarrow> string \<Rightarrow> 'h \<Rightarrow> notion_parent option notion_reply \<times> 'h" where
  "find_parent fetch token h =
     (case notion_call fetch token ''/search'' Search_body h of (r, h1) \<Rightarrow>
        (map_reply (\<lambda>body. case arr_items (jget ''results'' body) of
             [] \<Rightarrow> None
           | JNull # _ \<Rightarrow> None
           | first # _ \<Rightarrow> Some \<lparr>np_type = Page_parent, np_id = id_of first, np_title = extract_title first\<rparr>) r, h1))"

definition upload_media :: "'h http \<Rightarrow> string \<Rightarrow> string \<Rightarrow> string \<Rightarrow> bytes \<Rightarrow> 'h \<Rightarrow> string notion_reply \<times> 'h" where
  "upload_media fetch token filename content_type data h =
     (case notion_call fetch token ''/file_uploads'' (Upload_body filename content_type) h of
        (N_transient e, h1) \<Rightarrow> (N_transient e, h1)
      | (N_error e, h1) \<Rightarrow> (N_error e, h1)
      | (N_ok created, h1) \<Rightarrow>
          (case fetch \<lparr>hq_token = token, hq_path = ''/file_uploads/'' @ id_of created @ ''/send'',
                        hq_body = Form_body filename content_type data\<rparr> h1 of
             (Unreachable e, h2) \<Rightarrow> (N_transient (''notion upload unreachable: '' @ e), h2)
           | (Response status body, h2) \<Rightarrow>
               (if status = 429 \<or> 500 \<le> status then N_transient (''notion upload responded '' @ nat_str status)
                else if \<not> (200 \<le> status \<and> status \<le> 299)
                then N_error (''notion rejected the media upload ('' @ nat_str status @ '')'')
                else N_ok (id_of created), h2)))"

definition section_blocks :: "page_section \<Rightarrow> page_block list" where
  "section_blocks s =
     (if truthy (fst s) then [B_heading (the (fst s))] else []) @ [B_paragraph (take 2000 (snd s))]"

definition page_body_of ::
  "notion_parent \<Rightarrow> page_content \<Rightarrow> (string \<times> property_value) list option \<Rightarrow> string list \<Rightarrow> page_body" where
  "page_body_of parent content properties uploads =
     \<lparr>pb_parent = (np_type parent, np_id parent),
      pb_properties = (case properties of None \<Rightarrow> [(''title'', PV_title (take 200 (pc_title content)))] | Some ps \<Rightarrow> ps),
      pb_children = concat (map section_blocks (pc_sections content)) @ map B_image uploads\<rparr>"

definition create_page ::
  "'h http \<Rightarrow> string \<Rightarrow> notion_parent \<Rightarrow> page_content \<Rightarrow> (string \<times> property_value) list option \<Rightarrow> string list \<Rightarrow> 'h \<Rightarrow>
     created_page notion_reply \<times> 'h" where
  "create_page fetch token parent content properties uploads h =
     (case notion_call fetch token ''/pages'' (Page_body (page_body_of parent content properties uploads)) h of (r, h1) \<Rightarrow>
        (map_reply (\<lambda>body. \<lparr>cp_id = id_of body, cp_url = str_at ''url'' body\<rparr>) r, h1))"

subsection \<open>The client as an interface\<close>

record 'h notion_client =
  nc_find_parent :: "string \<Rightarrow> 'h \<Rightarrow> notion_parent option notion_reply \<times> 'h"
  nc_database_properties :: "string \<Rightarrow> string \<Rightarrow> 'h \<Rightarrow> db_properties notion_reply \<times> 'h"
  nc_upload_media :: "string \<Rightarrow> string \<Rightarrow> string \<Rightarrow> bytes \<Rightarrow> 'h \<Rightarrow> string notion_reply \<times> 'h"
  nc_create_page :: "string \<Rightarrow> notion_parent \<Rightarrow> page_content \<Rightarrow> (string \<times> property_value) list option \<Rightarrow> string list \<Rightarrow> 'h \<Rightarrow>
     created_page notion_reply \<times> 'h"

definition http_notion_client :: "'h http \<Rightarrow> 'h notion_client" where
  "http_notion_client fetch =
     \<lparr>nc_find_parent = find_parent fetch, nc_database_properties = get_database_properties fetch,
      nc_upload_media = upload_media fetch, nc_create_page = create_page fetch\<rparr>"

subsection \<open>Facts about the property mapping\<close>

fun value_type :: "property_value \<Rightarrow> string" where
  "value_type (PV_title t) = ''title''"
| "value_type (PV_rich_text t) = ''rich_text''"
| "value_type (PV_url u) = ''url''"
| "value_type (PV_multi_select ts) = ''multi_select''"
| "value_type (PV_select o') = ''select''"
| "value_type (PV_date d) = ''date''"

definition well_typed :: "db_properties \<Rightarrow> (string \<times> property_value) list \<Rightarrow> bool" where
  "well_typed types props \<longleftrightarrow> distinct (map fst props) \<and> list_all (\<lambda>(name, v). map_of types name = Some (value_type v)) props"

lemma new_map_acc:
  "map_of (foldl (\<lambda>acc (k, v). obj_set k v acc) acc xs) = map_of (rev xs @ acc)"
proof (induction xs arbitrary: acc)
  case (Cons x xs)
  then show ?case by (cases x) (simp add: map_of_obj_set map_add_def fun_eq_iff split: option.split)
qed simp

lemma map_of_new_map: "map_of (new_map xs) = map_of (rev xs)"
  by (simp add: new_map_def new_map_acc del: map_of_append)

lemma distinct_new_map_acc:
  "distinct (map fst acc) \<Longrightarrow> distinct (map fst (foldl (\<lambda>acc (k, v). obj_set k v acc) acc xs))"
  by (induction xs arbitrary: acc) (auto simp: distinct_obj_set split: prod.split)

lemma distinct_new_map: "distinct (map fst (new_map xs))"
  by (simp add: new_map_def distinct_new_map_acc)

lemma new_map_idem: "map_of (new_map (new_map xs)) = map_of (new_map xs)"
  unfolding map_of_new_map [of "new_map xs"] by (rule map_of_inject_set [THEN iffD2]) (simp_all add: distinct_new_map rev_map [symmetric])

lemma well_typed_put:
  assumes "well_typed types props" "map_of types name = Some (value_type v)"
  shows "well_typed types (obj_set name v props)"
proof -
  have "map_of (obj_set name v props) n = Some w \<Longrightarrow> map_of types n = Some (value_type w)" for n w
    using assms by (auto simp: map_of_obj_set well_typed_def list_all_iff split: if_splits dest!: map_of_SomeD)
  moreover have d: "distinct (map fst (obj_set name v props))" using assms(1) by (simp add: well_typed_def distinct_obj_set)
  ultimately show ?thesis by (auto simp: well_typed_def list_all_iff)
qed

lemma well_typed_put_property:
  assumes "well_typed types props" "\<And>n. name = Some n \<Longrightarrow> map_of types n = Some (value_type v)"
  shows "well_typed types (put_property name present v props)"
  using assms by (auto simp: put_property_def truthy_def intro!: well_typed_put)

lemma put_property_keeps:
  assumes "map_of props t = Some v0" "\<And>n. name = Some n \<Longrightarrow> n \<noteq> t"
  shows "map_of (put_property name present v props) t = Some v0"
  using assms by (auto simp: put_property_def truthy_def map_of_obj_set)

lemma effective_mapping_get:
  "map_of (effective_mapping m bad) f = map_option (\<lambda>p. if f \<in> set bad then None else p) (map_of m f)"
  by (induction m) (auto simp: effective_mapping_def)

lemma effective_compatible:
  assumes "mapped (effective_mapping m (map mi_field (validate_notion_mapping m live))) f = Some p"
  shows "mapped m f = Some p \<and> (\<exists>ty. map_of (new_map live) p = Some ty \<and> ty \<in> set (compatible_types f))"
proof -
  let ?bad = "map mi_field (validate_notion_mapping m live)"
  have m: "map_of m f = Some (Some p)" and good: "f \<notin> set ?bad"
    using assms by (auto simp: mapped_def effective_mapping_get split: option.splits if_splits)
  have "mi_field ` set (field_issues (new_map live) (f, Some p)) \<subseteq> set ?bad"
    using map_of_SomeD [OF m] by (fastforce simp: validate_notion_mapping_def)
  then show ?thesis using good m by (auto simp: field_issues_def mapped_def split: option.splits if_splits)
qed

lemma build_well_typed:
  assumes comp: "\<And>f p. mapped m f = Some p \<Longrightarrow> \<exists>ty. map_of types p = Some ty \<and> ty \<in> set (compatible_types f)"
    and t: "mapped m F_title = Some t"
  shows "well_typed types (build_notion_database_properties m vs types) \<and>
    map_of (build_notion_database_properties m vs types) t = Some (PV_title (take 200 (mv_title vs)))"
proof -
  have tp: "title_property m = t" using t by (auto simp: title_property_def mapped_def split: option.splits)
  have tt: "map_of types t = Some ''title''" using comp [OF t] by auto
  have other: "n \<noteq> t" if "mapped m f = Some n" "f \<noteq> F_title" for f n
    using comp [OF that(1)] that(2) tt by (cases f) auto
  have ty: "map_of types n = Some (value_type v)"
    if "mapped m f = Some n" "\<And>ty. ty \<in> set (compatible_types f) \<Longrightarrow> map_of types n = Some ty \<Longrightarrow> value_type v = ty" for f n v
    using comp [OF that(1)] that(2) by auto
  have base: "well_typed types [(t, PV_title (take 200 (mv_title vs)))]" using tt by (simp add: well_typed_def)
  show ?thesis
    unfolding build_notion_database_properties_def Let_def tp rich_text_def
    by (intro conjI well_typed_put_property put_property_keeps base)
      (auto dest: comp other)
qed

text \<open>Schema drift cannot break an approved write: whatever the live database looks like at execution time,
  the properties the worker sends all exist in it with the type of the value sent, no property is sent twice
  and the title is among them; only when the mapped title property itself is gone or no longer a title
  does the worker fall back to no mapping.\<close>

theorem mapping_survives_schema_drift:
  "(case mapped saved F_title of
      None \<Rightarrow> True
    | Some t \<Rightarrow>
        (case mapped_properties saved vs (new_map raw) of
           Some props \<Rightarrow> well_typed (new_map raw) props \<and> map_of props t = Some (PV_title (take 200 (mv_title vs)))
         | None \<Rightarrow> (if distinct (map fst saved) then map_of (new_map raw) t \<noteq> Some ''title'' else True)))"
proof (cases "mapped saved F_title")
  case (Some t)
  let ?bad = "map mi_field (validate_notion_mapping saved (new_map raw))"
  show ?thesis
  proof (cases "F_title \<in> set ?bad")
    case True
    then obtain entry where e: "entry \<in> set saved" "F_title \<in> mi_field ` set (field_issues (new_map (new_map raw)) entry)"
      by (auto simp: validate_notion_mapping_def)
    then obtain p where p: "entry = (F_title, Some p)" by (cases entry) (auto simp: field_issues_def split: option.splits if_splits)
    have "distinct (map fst saved) \<Longrightarrow> p = t"
      using e(1) p Some by (auto simp: mapped_def split: option.splits)
    then have "distinct (map fst saved) \<Longrightarrow> map_of (new_map raw) t \<noteq> Some ''title''"
      using e(2) p by (auto simp: field_issues_def new_map_idem split: option.splits if_splits)
    then show ?thesis using Some True by (simp add: mapped_properties_def)
  next
    case False
    have "mapped (effective_mapping saved ?bad) F_title = Some t"
      using Some False by (auto simp: mapped_def effective_mapping_get split: option.splits)
    moreover have "\<exists>ty. map_of (new_map raw) p = Some ty \<and> ty \<in> set (compatible_types f)"
      if "mapped (effective_mapping saved ?bad) f = Some p" for f p
      using effective_compatible [OF that] by (simp add: new_map_idem)
    ultimately show ?thesis using Some False build_well_typed by (simp add: mapped_properties_def)
  qed
qed simp

end
