(* ===== verification/Actions.thy ===== *)
theory Actions
  imports Media Notion
begin

text \<open>
  The approval side of actions: the tables, the adapters of \<open>services/api/src/adapters\<close> and the handlers for
  approving and rejecting in \<open>routes-m2.ts\<close>. A handler takes the ids of the request, the parsed body and the
  database state and returns its reply with the new state. The job queue is a parameter of type
  \<open>job \<Rightarrow> 'q \<Rightarrow> bool \<times> 'q\<close>, whose \<open>False\<close> is an exception of \<open>queue.add\<close>. Analytics rows, which no handler
  reads, are left out.
\<close>

subsection \<open>Tables\<close>

datatype action_status = Proposed | Awaiting_approval | Approved | Queued | Executing | Done | Failed | Rejected

record destination =
  ds_id :: string
  ds_kind :: parent_kind
  ds_title :: string

record action_payload =
  py_title :: "string option"
  py_detail :: "string option"
  py_priority :: "string option"
  py_destination :: "destination option"
  py_media_ids :: "string list option"

record action_result =
  rs_error :: "string option"
  rs_message :: "string option"
  rs_task_id :: "string option"
  rs_page_id :: "string option"
  rs_page_url :: "string option"
  rs_parent :: "(string \<times> string option) option"
  rs_uploads :: "(string \<times> string) list option"

definition no_result :: action_result where
  "no_result = \<lparr>rs_error = None, rs_message = None, rs_task_id = None, rs_page_id = None, rs_page_url = None, rs_parent = None, rs_uploads = None\<rparr>"

definition json_field :: "string \<Rightarrow> ('a \<Rightarrow> json) \<Rightarrow> 'a option \<Rightarrow> (string \<times> json) list" where
  "json_field k f v = (case v of None \<Rightarrow> [] | Some x \<Rightarrow> [(k, f x)])"

definition result_json :: "action_result \<Rightarrow> json" where
  \<comment> \<open>\<open>JSON.stringify(result)\<close>, with the fields present\<close>
  "result_json r =
     JObj (json_field ''error'' JStr (rs_error r) @ json_field ''message'' JStr (rs_message r) @
       json_field ''task_id'' JStr (rs_task_id r) @ json_field ''page_id'' JStr (rs_page_id r) @
       json_field ''page_url'' JStr (rs_page_url r) @ json_field ''parent_id'' JStr (map_option fst (rs_parent r)) @
       json_field ''media_uploads'' (\<lambda>us. JObj (map (\<lambda>(k, u). (k, JStr u)) us)) (rs_uploads r))"

record action_row =
  an_id :: string
  an_user :: string
  an_type :: string
  an_risk :: nat
  an_status :: action_status
  an_moment :: "string option"
  an_project :: "string option"
  an_payload :: action_payload
  an_result :: "action_result option"
  an_approved_by :: "string option"

record moment_row =
  mo_id :: string
  mo_user :: string
  mo_title :: "string option"
  mo_url :: "string option"
  mo_summary :: "string option"
  mo_text :: "string option"
  mo_intent :: "string option"
  mo_captured :: string
  mo_tags :: "string list"
  mo_redaction :: "string option"
  mo_image_state :: "string option"
  mo_image_masked :: nat

record task_row =
  tk_id :: string
  tk_user :: string
  tk_project :: "string option"
  tk_moment :: "string option"
  tk_action :: string
  tk_title :: string
  tk_notes :: "string option"
  tk_priority :: string

record connection_row =
  cn_user :: string
  cn_provider :: string
  cn_active :: bool
  cn_token :: bytes
  cn_account :: "string option"
  cn_default :: "destination option"
  cn_mapping :: "notion_mapping option"

record act_audit =
  aa_user :: string
  aa_event :: string
  aa_subject :: string
  aa_detail :: "(string \<times> json) list"

record job =
  jb_action :: string
  jb_user :: string

record ('q, 's, 'p) act_db =
  ax_actions :: "action_row list"
  ax_moments :: "moment_row list"
  ax_tasks :: "task_row list"
  ax_connections :: "connection_row list"
  ax_audit :: "act_audit list"
  ax_media :: "'s media"
  ax_queue :: 'q
  ax_provider :: 'p

definition find_action :: "string \<Rightarrow> string \<Rightarrow> ('q, 's, 'p) act_db \<Rightarrow> action_row option" where
  \<comment> \<open>\<open>WHERE id = $1 AND user_id = $2\<close>\<close>
  "find_action aid user db = find (\<lambda>a. an_id a = aid \<and> an_user a = user) (ax_actions db)"

definition update_actions :: "(action_row \<Rightarrow> bool) \<Rightarrow> (action_row \<Rightarrow> action_row) \<Rightarrow> ('q, 's, 'p) act_db \<Rightarrow> ('q, 's, 'p) act_db" where
  \<comment> \<open>\<open>UPDATE actions SET f WHERE p\<close>\<close>
  "update_actions p f db = db\<lparr>ax_actions := map (\<lambda>a. if p a then f a else a) (ax_actions db)\<rparr>"

definition claim_action :: "(action_row \<Rightarrow> bool) \<Rightarrow> (action_row \<Rightarrow> action_row) \<Rightarrow> ('q, 's, 'p) act_db \<Rightarrow>
    action_row option \<times> ('q, 's, 'p) act_db" where
  \<comment> \<open>\<open>UPDATE actions SET f WHERE p RETURNING ...\<close>, its first row\<close>
  "claim_action p f db = (map_option f (find p (ax_actions db)), update_actions p f db)"

definition act_audit_add :: "string \<Rightarrow> string \<Rightarrow> string \<Rightarrow> (string \<times> json) list \<Rightarrow> ('q, 's, 'p) act_db \<Rightarrow> ('q, 's, 'p) act_db" where
  "act_audit_add user event subject detail db =
     db\<lparr>ax_audit := ax_audit db @ [\<lparr>aa_user = user, aa_event = event, aa_subject = subject, aa_detail = detail\<rparr>]\<rparr>"

subsection \<open>Adapters\<close>

datatype adapter = Nova_task_adapter | Notion_adapter

fun adapter_type :: "adapter \<Rightarrow> string" where
  "adapter_type Nova_task_adapter = ''nova_task''"
| "adapter_type Notion_adapter = ''notion_page''"

fun adapter_external :: "adapter \<Rightarrow> bool" where
  "adapter_external Nova_task_adapter = False"
| "adapter_external Notion_adapter = True"

fun adapter_provider :: "adapter \<Rightarrow> string option" where
  "adapter_provider Nova_task_adapter = None"
| "adapter_provider Notion_adapter = Some ''notion''"

definition adapter_registry :: "(string \<times> adapter) list" where
  \<comment> \<open>the two calls of \<open>register\<close>\<close>
  "adapter_registry =
     foldl (\<lambda>acc ad. obj_set (adapter_type ad) ad acc) [] [Nova_task_adapter, Notion_adapter]"

definition registry_get :: "string \<Rightarrow> adapter option" where
  "registry_get action_type = map_of adapter_registry action_type"

definition task_payload :: "action_payload \<Rightarrow> (string \<times> string option \<times> string) option" where
  \<comment> \<open>the zod schema of \<open>nova-task.ts\<close>: title, detail and priority with its default; \<open>None\<close> is a schema error\<close>
  "task_payload p =
     (case py_title p of
        None \<Rightarrow> None
      | Some title \<Rightarrow>
          let priority = (case py_priority p of None \<Rightarrow> ''normal'' | Some q \<Rightarrow> q)
          in if title = [] \<or> 512 < length title \<or>
                (case py_detail p of None \<Rightarrow> False | Some dt \<Rightarrow> 2000 < length dt) \<or>
                priority \<notin> {''low'', ''normal'', ''high''}
             then None else Some (title, py_detail p, priority))"

definition nova_task_execute :: "string \<Rightarrow> string \<Rightarrow> action_row \<Rightarrow> ('q, 's, 'p) act_db \<Rightarrow>
    (string + bool \<times> action_result) \<times> ('q, 's, 'p) act_db" where
  \<comment> \<open>the id of the new task is the first argument\<close>
  "nova_task_execute task_id user a db =
     (case task_payload (an_payload a) of
        None \<Rightarrow> (Inl ''invalid_payload'', db)
      | Some (title, notes, priority) \<Rightarrow>
          (Inr (True, no_result\<lparr>rs_task_id := Some task_id\<rparr>),
           db\<lparr>ax_tasks := ax_tasks db @
                [\<lparr>tk_id = task_id, tk_user = user, tk_project = an_project a, tk_moment = an_moment a, tk_action = an_id a,
                  tk_title = title, tk_notes = notes, tk_priority = priority\<rparr>]\<rparr>))"

definition adapter_execute :: "adapter \<Rightarrow> string \<Rightarrow> string \<Rightarrow> action_row \<Rightarrow> ('q, 's, 'p) act_db \<Rightarrow>
    (string + bool \<times> action_result) \<times> ('q, 's, 'p) act_db" where
  "adapter_execute ad task_id user a db =
     (case ad of
        Nova_task_adapter \<Rightarrow> nova_task_execute task_id user a db
      | Notion_adapter \<Rightarrow> (Inr (False, no_result\<lparr>rs_error := Some ''external_adapter_executes_in_worker''\<rparr>), db))"

subsection \<open>Approve\<close>

record approve_body =
  ab_destination :: "destination option"
  ab_media_ids :: "string list option"

datatype approve_reply = Approved_queued | Approved_finished action_status action_result

definition connected :: "string \<Rightarrow> string \<Rightarrow> ('q, 's, 'p) act_db \<Rightarrow> connection_row option" where
  "connected user provider db =
     find (\<lambda>c. cn_user c = user \<and> cn_provider c = provider \<and> cn_active c) (ax_connections db)"

definition eligible_ids :: "string \<Rightarrow> string \<Rightarrow> string list \<Rightarrow> ('q, 's, 'p) act_db \<Rightarrow> string list" where
  \<comment> \<open>the join of \<open>moment_media\<close> with the action's moment\<close>
  "eligible_ids aid user media_ids db =
     map mr_id (filter (\<lambda>r. mr_user r = user \<and> mr_id r \<in> set media_ids \<and> mr_state r = ''applied'' \<and>
        list_ex (\<lambda>a. an_id a = aid \<and> an_user a = user \<and> an_moment a = Some (mr_moment r)) (ax_actions db))
       (md_rows (ax_media db)))"

definition set_queued :: "string \<Rightarrow> destination option \<Rightarrow> string list \<Rightarrow> action_row \<Rightarrow> action_row" where
  "set_queued user dest media_ids a =
     a\<lparr>an_status := Queued, an_approved_by := Some user,
       an_payload := (case dest of None \<Rightarrow> an_payload a | Some d \<Rightarrow> (an_payload a)\<lparr>py_destination := Some d\<rparr>)
                       \<lparr>py_media_ids := Some media_ids\<rparr>\<rparr>"

definition pending :: "string \<Rightarrow> string \<Rightarrow> action_row \<Rightarrow> bool" where
  "pending aid user a \<longleftrightarrow> an_id a = aid \<and> an_user a = user \<and> an_status a = Proposed"

definition revert_approval :: "string \<Rightarrow> ('q, 's, 'p) act_db \<Rightarrow> ('q, 's, 'p) act_db" where
  "revert_approval aid = update_actions (\<lambda>a. an_id a = aid) (\<lambda>a. a\<lparr>an_status := Proposed, an_approved_by := None\<rparr>)"

definition approve_external ::
  "(job \<Rightarrow> 'q \<Rightarrow> bool \<times> 'q) option \<Rightarrow> string option \<Rightarrow> string \<Rightarrow> string \<Rightarrow> approve_body option \<Rightarrow> ('q, 's, 'p) act_db \<Rightarrow>
     approve_reply response \<times> ('q, 's, 'p) act_db" where
  "approve_external queue provider aid user body db =
     (case body of
        None \<Rightarrow> (Refuse 400 ''invalid_request'', db)
      | Some b \<Rightarrow>
        if (case provider of None \<Rightarrow> False | Some p \<Rightarrow> connected user p db = None)
        then (Refuse 409 (the provider @ ''_not_connected''), db)
        else (case queue of
          None \<Rightarrow> (Refuse 503 ''action_queue_unavailable'', db)
        | Some add_job \<Rightarrow>
            let media_ids = (case ab_media_ids b of None \<Rightarrow> [] | Some ids \<Rightarrow> ids)
            in if \<not> set media_ids \<subseteq> set (eligible_ids aid user media_ids db)
               then (Refuse 400 ''invalid_media'', db)
               else (case claim_action (pending aid user) (set_queued user (ab_destination b) media_ids) db of
                 (None, db1) \<Rightarrow> (Refuse 409 ''invalid_state'', db1)
               | (Some a, db1) \<Rightarrow>
                   let detail = [(''action_type'', JStr (an_type a)),
                                 (''destination_override'', case ab_destination b of None \<Rightarrow> JNull | Some d \<Rightarrow> JStr (ds_title d)),
                                 (''media_approved'', JNum (int (length media_ids)))];
                       db2 = act_audit_add user ''action.queued'' aid detail (act_audit_add user ''action.approve'' aid detail db1)
                   in (case add_job \<lparr>jb_action = aid, jb_user = user\<rparr> (ax_queue db2) of
                         (False, q) \<Rightarrow> (Refuse 503 ''action_queue_unavailable'', revert_approval aid (db2\<lparr>ax_queue := q\<rparr>))
                       | (True, q) \<Rightarrow> (Reply 200 Approved_queued, db2\<lparr>ax_queue := q\<rparr>)))))"

definition finish_inline :: "string \<Rightarrow> action_status \<Rightarrow> action_result \<Rightarrow> ('q, 's, 'p) act_db \<Rightarrow> ('q, 's, 'p) act_db" where
  "finish_inline aid st res = update_actions (\<lambda>a. an_id a = aid) (\<lambda>a. a\<lparr>an_status := st, an_result := Some res\<rparr>)"

definition run_adapter :: "string \<Rightarrow> string \<Rightarrow> action_row \<Rightarrow> ('q, 's, 'p) act_db \<Rightarrow> (bool \<times> action_result) \<times> ('q, 's, 'p) act_db" where
  "run_adapter task_id user a db =
     (case registry_get (an_type a) of
        None \<Rightarrow> ((False, no_result\<lparr>rs_error := Some ''unknown_action_type''\<rparr>), db)
      | Some ad \<Rightarrow>
          (case adapter_execute ad task_id user a db of
             (Inl e, db1) \<Rightarrow> ((False, no_result\<lparr>rs_error := Some ''execution_error'', rs_message := Some e\<rparr>), db1)
           | (Inr r, db1) \<Rightarrow> (r, db1)))"

definition approve_internal :: "string \<Rightarrow> string \<Rightarrow> string \<Rightarrow> ('q, 's, 'p) act_db \<Rightarrow> approve_reply response \<times> ('q, 's, 'p) act_db" where
  "approve_internal task_id aid user db =
     (case claim_action (pending aid user) (\<lambda>a. a\<lparr>an_status := Executing, an_approved_by := Some user\<rparr>) db of
        (None, db1) \<Rightarrow>
          (if find_action aid user db1 = None then (Refuse 404 ''not_found'', db1) else (Refuse 409 ''invalid_state'', db1))
      | (Some a, db1) \<Rightarrow>
          (case run_adapter task_id user a (act_audit_add user ''action.approve'' aid [(''action_type'', JStr (an_type a))] db1) of
             ((ok, res), db2) \<Rightarrow>
               let st = (if ok then Done else Failed)
               in (Reply 200 (Approved_finished st res),
                   act_audit_add user (if ok then ''action.execute'' else ''action.execute.failed'') aid
                     ((''action_type'', JStr (an_type a)) # (if ok then [] else [(''result'', result_json res)])) (finish_inline aid st res db2))))"

definition approve ::
  "(job \<Rightarrow> 'q \<Rightarrow> bool \<times> 'q) option \<Rightarrow> string \<Rightarrow> string option \<Rightarrow> string \<Rightarrow> approve_body option \<Rightarrow> ('q, 's, 'p) act_db \<Rightarrow>
     approve_reply response \<times> ('q, 's, 'p) act_db" where
  \<comment> \<open>the id of the path is \<open>None\<close> when it is no UUID\<close>
  "approve queue task_id param user body db =
     (case param of
        None \<Rightarrow> (Refuse 404 ''not_found'', db)
      | Some aid \<Rightarrow>
          (case find_action aid user db of
             None \<Rightarrow> (Refuse 404 ''not_found'', db)
           | Some a \<Rightarrow>
               (case registry_get (an_type a) of
                  None \<Rightarrow> approve_internal task_id aid user db
                | Some ad \<Rightarrow>
                    if adapter_external ad then approve_external queue (adapter_provider ad) aid user body db
                    else approve_internal task_id aid user db)))"

definition reject :: "string option \<Rightarrow> string \<Rightarrow> ('q, 's, 'p) act_db \<Rightarrow> unit response \<times> ('q, 's, 'p) act_db" where
  "reject param user db =
     (case param of
        None \<Rightarrow> (Refuse 404 ''not_found'', db)
      | Some aid \<Rightarrow>
          (case claim_action (pending aid user) (\<lambda>a. a\<lparr>an_status := Rejected\<rparr>) db of
             (None, db1) \<Rightarrow>
               (if find_action aid user db1 = None then (Refuse 404 ''not_found'', db1) else (Refuse 409 ''invalid_state'', db1))
           | (Some a, db1) \<Rightarrow>
               (Reply 200 (), act_audit_add user ''action.reject'' aid [(''action_type'', JStr (an_type a))] db1)))"

subsection \<open>Facts\<close>

lemma claim_action_eq:
  "claim_action p f db = (r, db') \<longleftrightarrow> r = map_option f (find p (ax_actions db)) \<and> db' = update_actions p f db"
  by (auto simp: claim_action_def)

lemma update_actions_fields [simp]:
  "ax_actions (update_actions p f db) = map (\<lambda>a. if p a then f a else a) (ax_actions db)"
  "ax_moments (update_actions p f db) = ax_moments db" "ax_tasks (update_actions p f db) = ax_tasks db"
  "ax_connections (update_actions p f db) = ax_connections db" "ax_audit (update_actions p f db) = ax_audit db"
  "ax_media (update_actions p f db) = ax_media db" "ax_queue (update_actions p f db) = ax_queue db"
  "ax_provider (update_actions p f db) = ax_provider db"
  by (simp_all add: update_actions_def)

lemma act_audit_add_fields [simp]:
  "ax_actions (act_audit_add u e b d db) = ax_actions db" "ax_moments (act_audit_add u e b d db) = ax_moments db"
  "ax_tasks (act_audit_add u e b d db) = ax_tasks db" "ax_connections (act_audit_add u e b d db) = ax_connections db"
  "ax_media (act_audit_add u e b d db) = ax_media db" "ax_queue (act_audit_add u e b d db) = ax_queue db"
  "ax_provider (act_audit_add u e b d db) = ax_provider db"
  by (simp_all add: act_audit_add_def)

lemma update_actions_none: "find p (ax_actions db) = None \<Longrightarrow> update_actions p f db = db"
  by (simp add: update_actions_def find_None_iff map_idI)

lemma registry_get_eq:
  "registry_get t = (if t = ''nova_task'' then Some Nova_task_adapter else if t = ''notion_page'' then Some Notion_adapter else None)"
  by (simp add: registry_get_def adapter_registry_def)

lemma run_adapter_actions:
  "run_adapter task_id user a db = (r, db') \<Longrightarrow> ax_actions db' = ax_actions db \<and> ax_queue db' = ax_queue db \<and> ax_media db' = ax_media db"
  by (auto simp: run_adapter_def adapter_execute_def nova_task_execute_def split: option.splits adapter.splits)

lemma settled_no_pending:
  "(\<And>a. an_id (f a) = an_id a \<and> an_user (f a) = an_user a \<and> an_status (f a) \<noteq> Proposed) \<Longrightarrow>
     find (pending aid user) (map (\<lambda>a. if pending aid user a then f a else a) rows) = None"
  by (auto simp: find_None_iff pending_def)

lemma settled_by_id:
  "(\<And>a. an_status (f a) \<noteq> Proposed) \<Longrightarrow>
     find (pending aid user) (map ((\<lambda>a. if an_id a = aid then f a else a) \<circ> g) rows) = None"
  by (auto simp: find_None_iff pending_def split: if_splits)

definition media_of_body :: "approve_body \<Rightarrow> string list" where
  "media_of_body b = (case ab_media_ids b of None \<Rightarrow> [] | Some ids \<Rightarrow> ids)"

lemma approve_external_queued:
  assumes "approve_external queue provider aid user body db = (Reply c r, db')"
  obtains b add_job a where "body = Some b" "queue = Some add_job" "r = Approved_queued" "c = 200"
    "\<And>p. provider = Some p \<Longrightarrow> connected user p db \<noteq> None"
    "set (media_of_body b) \<subseteq> set (eligible_ids aid user (media_of_body b) db)"
    "find (pending aid user) (ax_actions db) = Some a"
    "ax_actions db' = map (\<lambda>a. if pending aid user a then set_queued user (ab_destination b) (media_of_body b) a else a) (ax_actions db)"
    "add_job \<lparr>jb_action = aid, jb_user = user\<rparr> (ax_queue db) = (True, ax_queue db')"
  using assms
  by (auto simp: approve_external_def Let_def media_of_body_def claim_action_def split: option.splits if_splits prod.splits bool.splits)

lemma approve_internal_finished:
  assumes "approve_internal task_id aid user db = (Reply c r, db')"
  obtains a ok res where "find (pending aid user) (ax_actions db) = Some a" "c = 200"
    "r = Approved_finished (if ok then Done else Failed) res"
    "ax_actions db' = map (\<lambda>a. if an_id a = aid then a\<lparr>an_status := if ok then Done else Failed, an_result := Some res\<rparr> else a)
       (map (\<lambda>a. if pending aid user a then a\<lparr>an_status := Executing, an_approved_by := Some user\<rparr> else a) (ax_actions db))"
    "ax_queue db' = ax_queue db"
proof -
  obtain a db1 where cl: "claim_action (pending aid user) (\<lambda>a. a\<lparr>an_status := Executing, an_approved_by := Some user\<rparr>) db = (Some a, db1)"
    using assms by (auto simp: approve_internal_def split: prod.splits option.splits if_splits)
  obtain ok res db2 where run: "run_adapter task_id user a
      (act_audit_add user ''action.approve'' aid [(''action_type'', JStr (an_type a))] db1) = ((ok, res), db2)"
    by (metis prod.exhaust)
  obtain a0 where a0: "find (pending aid user) (ax_actions db) = Some a0" using cl by (cases "find (pending aid user) (ax_actions db)") (auto simp: claim_action_eq)
  show ?thesis
    by (rule that [OF a0, of ok res]) (use assms cl run run_adapter_actions [OF run] in
      \<open>auto simp: approve_internal_def claim_action_eq finish_inline_def Let_def\<close>)
qed

lemma approve_reply_cases:
  assumes "approve queue task_id (Some aid) user body db = (Reply c r, db')"
  obtains (queued) a ad where "find_action aid user db = Some a" "registry_get (an_type a) = Some ad" "adapter_external ad"
    "approve_external queue (adapter_provider ad) aid user body db = (Reply c r, db')"
  | (inline) a where "find_action aid user db = Some a" "approve_internal task_id aid user db = (Reply c r, db')"
  using assms by (auto simp: approve_def split: option.splits if_splits)

lemma not_pending_no_reply:
  assumes n: "find (pending aid user) (ax_actions db) = None"
  shows "approve queue task_id (Some aid) user body db \<noteq> (Reply c r, db') \<and> reject (Some aid) user db \<noteq> (Reply c' (), db'')"
proof
  show "approve queue task_id (Some aid) user body db \<noteq> (Reply c r, db')"
    by (rule notI, erule approve_reply_cases) (auto elim!: approve_external_queued approve_internal_finished simp: n)
  show "reject (Some aid) user db \<noteq> (Reply c' (), db'')"
    using n by (simp add: reject_def claim_action_def split: if_split)
qed

lemma approve_reply_settles:
  assumes "approve queue task_id (Some aid) user body db = (Reply c r, db')"
  shows "find (pending aid user) (ax_actions db') = None"
  using assms
proof (cases rule: approve_reply_cases)
  case queued
  then show ?thesis
    by (elim approve_external_queued) (simp, rule settled_no_pending, simp add: set_queued_def split: option.split)
next
  case inline
  then show ?thesis
    by (elim approve_internal_finished) (simp only: map_map, rule settled_by_id, simp)
qed

lemma reject_reply_settles:
  assumes "reject (Some aid) user db = (Reply c (), db')"
  shows "find (pending aid user) (ax_actions db') = None"
proof (cases "find (pending aid user) (ax_actions db)")
  case None
  then show ?thesis using assms by (simp add: reject_def claim_action_def split: if_splits)
next
  case (Some a)
  then have "ax_actions db' = map (\<lambda>a. if pending aid user a then a\<lparr>an_status := Rejected\<rparr> else a) (ax_actions db)"
    using assms by (auto simp: reject_def claim_action_def)
  then show ?thesis by simp (rule settled_no_pending, simp)
qed

lemma eligible_idsD:
  "i \<in> set (eligible_ids aid user ids db) \<Longrightarrow>
     list_ex (\<lambda>r. mr_id r = i \<and> mr_user r = user \<and> mr_state r = ''applied'' \<and>
        list_ex (\<lambda>x. an_id x = aid \<and> an_user x = user \<and> an_moment x = Some (mr_moment r)) (ax_actions db))
       (md_rows (ax_media db))"
  by (auto simp: eligible_ids_def list_ex_iff)

text \<open>C13. An external action leaves the approval handler queued only with the user's consent to exactly what is
  sent: the action was the user's and proposed, Notion is connected, one job for it was added to the queue,
  and every media id written into its payload is the user's own media, attached to the action's moment and
  visually redacted. The row is marked as approved by this user and no other row of the table changes.\<close>

theorem approval_queues_with_consent:
  "(case approve queue task_id (Some aid) user body db of
      (Reply c Approved_queued, db') \<Rightarrow>
        (\<exists>a b add_job. find (pending aid user) (ax_actions db) = Some a \<and> body = Some b \<and> queue = Some add_job \<and>
          connected user ''notion'' db \<noteq> None \<and>
          add_job \<lparr>jb_action = aid, jb_user = user\<rparr> (ax_queue db) = (True, ax_queue db') \<and>
          list_all (\<lambda>i. list_ex (\<lambda>r. mr_id r = i \<and> mr_user r = user \<and> mr_state r = ''applied'' \<and>
              list_ex (\<lambda>x. an_id x = aid \<and> an_user x = user \<and> an_moment x = Some (mr_moment r)) (ax_actions db))
            (md_rows (ax_media db))) (media_of_body b) \<and>
          ax_actions db' = map (\<lambda>x. if pending aid user x then set_queued user (ab_destination b) (media_of_body b) x else x)
            (ax_actions db))
    | _ \<Rightarrow> True)"
proof (cases "\<exists>c db'. approve queue task_id (Some aid) user body db = (Reply c Approved_queued, db')")
  case True
  then obtain c db' where ok: "approve queue task_id (Some aid) user body db = (Reply c Approved_queued, db')" by blast
  then show ?thesis
  proof (cases rule: approve_reply_cases)
    case (queued a ad)
    have ad: "adapter_provider ad = Some ''notion''" using queued(3) by (cases ad) auto
    show ?thesis
      using queued(4) ok ad
      by (elim approve_external_queued) (auto simp: list_all_iff subset_iff dest: eligible_idsD)
  next
    case inline
    then show ?thesis by (elim approve_internal_finished) simp
  qed
next
  case False
  then show ?thesis by (auto split: prod.split response.split approve_reply.split)
qed

text \<open>An action is approved or rejected at most once: after a positive reply to either request no later
  approval or rejection of the same action by the user succeeds.\<close>

theorem decisions_are_final:
  "(case approve queue task_id (Some aid) user body db of
      (Reply _ _, db') \<Rightarrow>
        (case approve queue2 task_id2 (Some aid) user body2 db' of (Reply _ _, _) \<Rightarrow> False | _ \<Rightarrow> True) \<and>
        (case reject (Some aid) user db' of (Reply _ _, _) \<Rightarrow> False | _ \<Rightarrow> True)
    | _ \<Rightarrow> True) \<and>
   (case reject (Some aid) user db of
      (Reply _ _, db') \<Rightarrow>
        (case approve queue2 task_id2 (Some aid) user body2 db' of (Reply _ _, _) \<Rightarrow> False | _ \<Rightarrow> True) \<and>
        (case reject (Some aid) user db' of (Reply _ _, _) \<Rightarrow> False | _ \<Rightarrow> True)
    | _ \<Rightarrow> True)"
proof -
  have n: "(case approve queue2 task_id2 (Some aid) user body2 d of (Reply _ _, _) \<Rightarrow> False | _ \<Rightarrow> True) \<and>
      (case reject (Some aid) user d of (Reply _ _, _) \<Rightarrow> False | _ \<Rightarrow> True)"
    if "find (pending aid user) (ax_actions d) = None" for d
    using not_pending_no_reply [OF that] by (auto split: prod.split response.split)
  show ?thesis
    by (intro conjI) (auto split: prod.split response.split dest: approve_reply_settles reject_reply_settles dest!: n)
qed

definition decided :: "('q, 's, 'p) act_db \<Rightarrow> (string \<times> string \<times> action_status \<times> action_result option) list" where
  "decided db = map (\<lambda>a. (an_id a, an_user a, an_status a, an_result a)) (ax_actions db)"

lemma revert_undoes_claim:
  assumes "distinct (map an_id (ax_actions db))" "find (pending aid user) (ax_actions db) = Some a0"
  shows "decided (revert_approval aid (act_audit_add u e b dt (act_audit_add u' e' b' dt'
    (update_actions (pending aid user) (set_queued user dest ids) db))\<lparr>ax_queue := q\<rparr>)) = decided db"
proof -
  have a0: "a0 \<in> set (ax_actions db)" "pending aid user a0" using assms(2) by (auto simp: find_Some_iff)
  have "an_id a = aid \<Longrightarrow> a = a0" if "a \<in> set (ax_actions db)" for a
    using assms(1) a0 that by (auto simp: distinct_map inj_on_def pending_def)
  then have "an_id a = aid \<Longrightarrow> an_status a = Proposed" if "a \<in> set (ax_actions db)" for a
    using a0(2) that by (auto simp: pending_def)
  then show ?thesis
    by (auto simp: decided_def revert_approval_def pending_def set_queued_def)
qed

lemma revert_fields:
  "ax_tasks (revert_approval aid d) = ax_tasks d" "ax_media (revert_approval aid d) = ax_media d"
  "ax_connections (revert_approval aid d) = ax_connections d"
  by (simp_all add: revert_approval_def)

text \<open>A refused approval decides nothing: whatever the reason, no action changes its status or result, no task
  is created and no media or connection changes; except when the queue itself fails, after the row had
  been claimed and reverted, the state is left exactly as it was.\<close>

theorem refused_approval_is_inert:
  "(if distinct (map an_id (ax_actions db)) then
     (case approve queue task_id param user body db of
        (Refuse c e, db') \<Rightarrow>
          decided db' = decided db \<and> ax_tasks db' = ax_tasks db \<and> ax_media db' = ax_media db \<and>
          ax_connections db' = ax_connections db \<and>
          (if c = 503 \<and> queue \<noteq> None then True else db' = db)
      | (Raise _, _) \<Rightarrow> False
      | (Reply _ _, _) \<Rightarrow> True)
    else True)"
proof (cases "distinct (map an_id (ax_actions db))")
  case d: True
  let ?P = "\<lambda>res. case res of
        (Refuse c e, db') \<Rightarrow> decided db' = decided db \<and> ax_tasks db' = ax_tasks db \<and> ax_media db' = ax_media db \<and>
          ax_connections db' = ax_connections db \<and> (if c = 503 \<and> queue \<noteq> None then True else db' = db)
      | (Raise _, _) \<Rightarrow> False | (Reply _ _, _) \<Rightarrow> True"
  have ext: "?P (approve_external queue provider aid user body db)" for provider aid
  proof (cases "find (pending aid user) (ax_actions db)")
    case None
    then show ?thesis
      by (simp add: approve_external_def claim_action_def Let_def update_actions_none split: option.split)
  next
    case (Some a0)
    show ?thesis
      by (auto simp: approve_external_def claim_action_def Let_def Some revert_fields split: option.split prod.split bool.split
          intro!: revert_undoes_claim [OF d Some])
  qed
  have int: "?P (approve_internal task_id aid user db)" for aid
    by (auto simp: approve_internal_def claim_action_def update_actions_none Let_def split: option.split prod.split)
  show ?thesis using d ext int by (simp add: approve_def split: option.split)
qed simp

end
