(* ===== verification/Action_Worker.thy ===== *)
theory Action_Worker
  imports Actions
begin

text \<open>
  The execution side of actions: \<open>executeAction\<close> and \<open>markActionFailed\<close> of \<open>services/worker/src/actions.ts\<close>, and
  the attempts of one queue job. The Notion client is the record \<open>notion_client\<close> of the theory \<open>Notion\<close>, the object
  store the operations of \<open>Object_Store\<close>. A run is a chain of steps joined by \<open>and_then\<close>; its left results are the
  ways \<open>executeAction\<close> ends early. Failures of the database itself are left out.
\<close>

subsection \<open>executeAction\<close>

datatype run_outcome = Run_done | Run_skipped | Run_unrecoverable string | Run_transient string

record ('s, 'p) worker_deps =
  wd_notion :: "'p notion_client"
  wd_keys :: "bytes list"
  wd_store :: "'s store_ops option"
  wd_crypto :: crypto

type_synonym ('q, 's, 'p, 'a) run = "('q, 's, 'p) act_db \<Rightarrow> (run_outcome + 'a) \<times> ('q, 's, 'p) act_db"

definition running :: "action_status \<Rightarrow> bool" where
  \<comment> \<open>\<open>status IN ('queued','executing')\<close>\<close>
  "running st \<longleftrightarrow> st = Queued \<or> st = Executing"

definition mark_action_failed :: "job \<Rightarrow> string \<Rightarrow> ('q, 's, 'p) act_db \<Rightarrow> ('q, 's, 'p) act_db" where
  "mark_action_failed j reason db =
     (case claim_action (\<lambda>a. an_id a = jb_action j \<and> an_user a = jb_user j \<and> running (an_status a))
             (\<lambda>a. a\<lparr>an_status := Failed, an_result := Some (no_result\<lparr>rs_error := Some reason\<rparr>)\<rparr>) db of
        (None, db1) \<Rightarrow> db1
      | (Some _, db1) \<Rightarrow> act_audit_add (jb_user j) ''action.execute.failed'' (jb_action j) [(''reason'', JStr reason)] db1)"

definition terminal :: "job \<Rightarrow> string \<Rightarrow> ('q, 's, 'p, 'a) run" where
  "terminal j reason db = (Inl (Run_unrecoverable reason), mark_action_failed j reason db)"

definition notion_step :: "job \<Rightarrow> ('p \<Rightarrow> 'a notion_reply \<times> 'p) \<Rightarrow> ('q, 's, 'p, 'a) run" where
  \<comment> \<open>a call of the client inside the \<open>try\<close> block: a transient error leaves for a retry, any other one is terminal\<close>
  "notion_step j call db =
     (case call (ax_provider db) of (r, p) \<Rightarrow>
        let db1 = db\<lparr>ax_provider := p\<rparr>
        in case r of
             N_ok x \<Rightarrow> (Inr x, db1)
           | N_transient e \<Rightarrow> (Inl (Run_transient e), db1)
           | N_error e \<Rightarrow> terminal j (''notion_error: '' @ take 200 e) db1)"

definition token_text :: "bytes \<Rightarrow> string" where
  \<comment> \<open>\<open>toString("utf8")\<close> of a token, which is ASCII\<close>
  "token_text bs = map (\<lambda>b. char_of (unat b)) bs"

definition open_token :: "job \<Rightarrow> ('s, 'p) worker_deps \<Rightarrow> ('q, 's, 'p, connection_row \<times> string) run" where
  "open_token j deps db =
     (case connected (jb_user j) ''notion'' db of
        None \<Rightarrow> terminal j ''notion_not_connected'' db
      | Some conn \<Rightarrow>
          if wd_keys deps = [] then terminal j ''encryption_key_missing'' db
          else (case decrypt_bytes_with_any (wd_crypto deps) (wd_keys deps) (cn_token conn) of
            Inl _ \<Rightarrow> terminal j ''token_decrypt_failed'' db
          | Inr token \<Rightarrow> (Inr (conn, token_text token), db)))"

definition moment_of :: "action_row \<Rightarrow> ('q, 's, 'p) act_db \<Rightarrow> moment_row option" where
  \<comment> \<open>\<open>LEFT JOIN context_moments m ON m.id = a.moment_id\<close>\<close>
  "moment_of a db = (case an_moment a of None \<Rightarrow> None | Some i \<Rightarrow> find (\<lambda>m. mo_id m = i) (ax_moments db))"

definition page_source :: "action_row \<Rightarrow> moment_row option \<Rightarrow> notion_source" where
  "page_source a mom =
     \<lparr>ns_moment_id = an_moment a,
      ns_moment_title = Option.bind mom mo_title, ns_moment_summary = Option.bind mom mo_summary,
      ns_source_url = Option.bind mom mo_url, ns_captured_at = map_option mo_captured mom,
      ns_extracted_text = Option.bind mom mo_text, ns_instruction = Option.bind mom mo_intent,
      ns_tags = (case mom of None \<Rightarrow> [] | Some mo \<Rightarrow> mo_tags mo), ns_action_id = Some (an_id a),
      ns_text_redaction = Option.bind mom mo_redaction,
      ns_image_redaction = Some (case Option.bind mom mo_image_state of None \<Rightarrow> ''none'' | Some st \<Rightarrow> st),
      ns_masked_regions = (case mom of None \<Rightarrow> 0 | Some mo \<Rightarrow> mo_image_masked mo)\<rparr>"

definition page_content_of :: "action_row \<Rightarrow> moment_row option \<Rightarrow> page_content" where
  "page_content_of a mom =
     build_notion_page_content (case py_title (an_payload a) of None \<Rightarrow> ''Nova Context page'' | Some t \<Rightarrow> t)
       (py_detail (an_payload a)) (page_source a mom)"

definition values_of :: "action_row \<Rightarrow> moment_row option \<Rightarrow> mapping_values" where
  "values_of a mom =
     \<lparr>mv_title = pc_title (page_content_of a mom),
      mv_summary = coalesce (Option.bind mom mo_summary) (py_detail (an_payload a)),
      mv_source_url = Option.bind mom mo_url, mv_tags = (case mom of None \<Rightarrow> [] | Some mo \<Rightarrow> mo_tags mo),
      mv_priority = py_priority (an_payload a), mv_captured_at = map_option mo_captured mom,
      mv_moment_id = an_moment a\<rparr>"

definition parent_of :: "destination \<Rightarrow> notion_parent" where
  "parent_of d = \<lparr>np_type = ds_kind d, np_id = ds_id d, np_title = Some (ds_title d)\<rparr>"

definition resolve_parent :: "job \<Rightarrow> ('s, 'p) worker_deps \<Rightarrow> action_row \<Rightarrow> connection_row \<Rightarrow> string \<Rightarrow> ('q, 's, 'p, notion_parent) run" where
  "resolve_parent j deps a conn token =
     (case coalesce (py_destination (an_payload a)) (cn_default conn) of
        Some d \<Rightarrow> (\<lambda>db. (Inr (parent_of d), db))
      | None \<Rightarrow>
          and_then (notion_step j (nc_find_parent (wd_notion deps) token))
            (\<lambda>p. case p of None \<Rightarrow> terminal j ''no_accessible_notion_page'' | Some parent \<Rightarrow> (\<lambda>db. (Inr parent, db))))"

definition resolve_properties ::
  "('s, 'p) worker_deps \<Rightarrow> action_row \<Rightarrow> moment_row option \<Rightarrow> connection_row \<Rightarrow> string \<Rightarrow> notion_parent \<Rightarrow>
     ('q, 's, 'p, (string \<times> property_value) list option) run" where
  \<comment> \<open>a rejected schema fetch is swallowed, a transient one is not\<close>
  "resolve_properties deps a mom conn token parent db =
     (case (np_type parent, cn_mapping conn) of
        (Database_parent, Some saved) \<Rightarrow>
          (case nc_database_properties (wd_notion deps) token (np_id parent) (ax_provider db) of (r, p) \<Rightarrow>
             let db1 = db\<lparr>ax_provider := p\<rparr>
             in case r of
                  N_ok live \<Rightarrow> (Inr (mapped_properties saved (values_of a mom) live), db1)
                | N_transient e \<Rightarrow> (Inl (Run_transient e), db1)
                | N_error e \<Rightarrow> (Inr None, db1))
      | _ \<Rightarrow> (Inr None, db))"

definition media_ext :: "string \<Rightarrow> string" where
  \<comment> \<open>\<open>contentType.split("/")[1]?.split("+")[0] ?? "png"\<close>\<close>
  "media_ext content_type =
     (case split_on CHR ''/'' content_type of _ # sub # _ \<Rightarrow> hd (split_on CHR ''+'' sub) | _ \<Rightarrow> ''png'')"

definition upload_name :: "string \<Rightarrow> string \<Rightarrow> string" where
  "upload_name media_id content_type = ''nova-'' @ media_id @ ''.'' @ media_ext content_type"

fun failure_name :: "adapter_failure \<Rightarrow> string" where
  "failure_name Not_found = ''not_found''"
| "failure_name Redaction_not_applied = ''redaction_not_applied''"
| "failure_name Blob_missing = ''blob_missing''"
| "failure_name Undecryptable = ''undecryptable''"

definition save_uploads :: "string \<Rightarrow> (string \<times> string) list \<Rightarrow> ('q, 's, 'p) act_db \<Rightarrow> ('q, 's, 'p) act_db" where
  \<comment> \<open>\<open>jsonb_set(coalesce(result, '{}'), '{media_uploads}', $1)\<close>\<close>
  "save_uploads aid uploads =
     update_actions (\<lambda>a. an_id a = aid)
       (\<lambda>a. a\<lparr>an_result := Some ((case an_result a of None \<Rightarrow> no_result | Some r \<Rightarrow> r)\<lparr>rs_uploads := Some uploads\<rparr>)\<rparr>)"

definition upload_one :: "job \<Rightarrow> ('s, 'p) worker_deps \<Rightarrow> 's store_ops \<Rightarrow> string \<Rightarrow> string \<Rightarrow> string \<Rightarrow> (string \<times> string) list \<Rightarrow>
    ('q, 's, 'p, (string \<times> string) list) run" where
  "upload_one j deps ops token aid media_id uploads db =
     (case read_approved_media (wd_crypto deps) ops (wd_keys deps) (jb_user j) media_id (ax_media db) of
        Inl e \<Rightarrow> terminal j (''notion_error: '' @ take 200 e) db
      | Inr (Inl failure) \<Rightarrow> terminal j (''approved_media_'' @ failure_name failure) db
      | Inr (Inr media) \<Rightarrow>
          and_then
            (notion_step j (nc_upload_media (wd_notion deps) token (upload_name media_id (am_content_type media))
               (am_content_type media) (am_data media)))
            (\<lambda>upload_id db1. let uploads' = obj_set media_id upload_id uploads in (Inr uploads', save_uploads aid uploads' db1))
            (act_audit_add (jb_user j) ''media.adapter_access'' media_id
               [(''provider'', JStr ''notion''), (''action_id'', JStr aid)] db))"

definition uploaded :: "(string \<times> string) list \<Rightarrow> string \<Rightarrow> bool" where
  \<comment> \<open>\<open>if (uploadsById[mediaId])\<close>\<close>
  "uploaded uploads media_id \<longleftrightarrow> truthy (map_of uploads media_id)"

fun upload_media_list :: "job \<Rightarrow> ('s, 'p) worker_deps \<Rightarrow> 's store_ops \<Rightarrow> string \<Rightarrow> string \<Rightarrow> string list \<Rightarrow> (string \<times> string) list \<Rightarrow>
    ('q, 's, 'p, (string \<times> string) list) run" where
  "upload_media_list j deps ops token aid [] uploads = (\<lambda>db. (Inr uploads, db))"
| "upload_media_list j deps ops token aid (m # ms) uploads =
     (if uploaded uploads m then upload_media_list j deps ops token aid ms uploads
      else and_then (upload_one j deps ops token aid m uploads) (upload_media_list j deps ops token aid ms))"

definition prior_uploads :: "action_row \<Rightarrow> (string \<times> string) list" where
  "prior_uploads a =
     (case an_result a of None \<Rightarrow> [] | Some r \<Rightarrow> (case rs_uploads r of None \<Rightarrow> [] | Some us \<Rightarrow> us))"

definition approved_media :: "action_row \<Rightarrow> string list" where
  "approved_media a = (case py_media_ids (an_payload a) of None \<Rightarrow> [] | Some ids \<Rightarrow> ids)"

definition attach_uploads :: "job \<Rightarrow> ('s, 'p) worker_deps \<Rightarrow> action_row \<Rightarrow> string \<Rightarrow> ('q, 's, 'p, string list) run" where
  "attach_uploads j deps a token db =
     (if approved_media a = [] then (Inr [], db)
      else (case wd_store deps of
        None \<Rightarrow> terminal j ''media_store_unavailable'' db
      | Some ops \<Rightarrow>
          and_then (upload_media_list j deps ops token (an_id a) (approved_media a) (prior_uploads a))
            (\<lambda>uploads db1. (Inr (map (\<lambda>i. case map_of uploads i of None \<Rightarrow> [] | Some u \<Rightarrow> u) (approved_media a)), db1)) db))"

definition finish_run :: "job \<Rightarrow> action_row \<Rightarrow> connection_row \<Rightarrow> notion_parent \<Rightarrow> nat \<Rightarrow> created_page \<Rightarrow> ('q, 's, 'p, run_outcome) run" where
  "finish_run j a conn parent n_media page db =
     (Inr Run_done,
      act_audit_add (jb_user j) ''action.execute'' (an_id a)
        [(''action_type'', JStr (an_type a)), (''provider'', JStr ''notion''), (''external_id'', JStr (cp_id page)),
         (''workspace'', case cn_account conn of None \<Rightarrow> JNull | Some w \<Rightarrow> JStr w),
         (''destination_title'', case np_title parent of None \<Rightarrow> JNull | Some t \<Rightarrow> JStr t),
         (''media_included'', JNum (int n_media))]
        (update_actions (\<lambda>x. an_id x = an_id a)
           (\<lambda>x. x\<lparr>an_status := Done,
                  an_result := Some (no_result\<lparr>rs_page_id := Some (cp_id page), rs_page_url := cp_url page,
                                               rs_parent := Some (np_id parent, np_title parent)\<rparr>)\<rparr>) db))"

definition publish :: "job \<Rightarrow> ('s, 'p) worker_deps \<Rightarrow> action_row \<Rightarrow> moment_row option \<Rightarrow> connection_row \<Rightarrow> string \<Rightarrow> ('q, 's, 'p, run_outcome) run" where
  \<comment> \<open>the \<open>try\<close> block\<close>
  "publish j deps a mom conn token =
     and_then (resolve_parent j deps a conn token) (\<lambda>parent.
     and_then (resolve_properties deps a mom conn token parent) (\<lambda>properties.
     and_then (attach_uploads j deps a token) (\<lambda>uploads.
     and_then (notion_step j (nc_create_page (wd_notion deps) token parent (page_content_of a mom) properties uploads))
       (finish_run j a conn parent (length uploads)))))"

definition claim_run :: "job \<Rightarrow> action_row \<Rightarrow> nat \<Rightarrow> ('q, 's, 'p, unit) run" where
  "claim_run j a attempt db =
     (case claim_action (\<lambda>x. an_id x = an_id a \<and> running (an_status x)) (\<lambda>x. x\<lparr>an_status := Executing\<rparr>) db of
        (None, db1) \<Rightarrow> (Inl Run_skipped, db1)
      | (Some _, db1) \<Rightarrow>
          (Inr (), act_audit_add (jb_user j) ''action.executing'' (an_id a)
             [(''action_type'', JStr (an_type a)), (''attempt'', JNum (int attempt))] db1))"

definition prior_page :: "action_row \<Rightarrow> string option" where
  "prior_page a = Option.bind (an_result a) rs_page_id"

definition recover_run :: "job \<Rightarrow> action_row \<Rightarrow> string \<Rightarrow> ('q, 's, 'p, run_outcome) run" where
  "recover_run j a page_id db =
     (Inr Run_done,
      act_audit_add (jb_user j) ''action.execute'' (an_id a)
        [(''action_type'', JStr (an_type a)), (''provider'', JStr ''notion''), (''external_id'', JStr page_id), (''recovered'', JBool True)]
        (update_actions (\<lambda>x. an_id x = an_id a) (\<lambda>x. x\<lparr>an_status := Done\<rparr>) db))"

definition run_action :: "job \<Rightarrow> ('s, 'p) worker_deps \<Rightarrow> nat \<Rightarrow> ('q, 's, 'p, run_outcome) run" where
  "run_action j deps attempt db =
     (case find_action (jb_action j) (jb_user j) db of
        None \<Rightarrow> (Inl Run_skipped, db)
      | Some a \<Rightarrow>
          if an_status a = Done then (Inr Run_done, db)
          else if \<not> running (an_status a) then (Inl Run_skipped, db)
          else if an_type a \<noteq> ''notion_page'' then terminal j (''no_worker_adapter_for_'' @ an_type a) db
          else if truthy (prior_page a) then recover_run j a (the (prior_page a)) db
          else and_then (claim_run j a attempt) (\<lambda>_.
               and_then (open_token j deps) (\<lambda>(conn, token). publish j deps a (moment_of a db) conn token)) db)"

definition execute_action :: "job \<Rightarrow> ('s, 'p) worker_deps \<Rightarrow> nat \<Rightarrow> ('q, 's, 'p) act_db \<Rightarrow> run_outcome \<times> ('q, 's, 'p) act_db" where
  "execute_action j deps attempt db =
     (case run_action j deps attempt db of (Inl out, db1) \<Rightarrow> (out, db1) | (Inr out, db1) \<Rightarrow> (out, db1))"

subsection \<open>The attempts of a job\<close>

definition job_attempts :: nat where "job_attempts = 3"

fun run_job :: "job \<Rightarrow> ('s, 'p) worker_deps \<Rightarrow> nat \<Rightarrow> nat \<Rightarrow> ('q, 's, 'p) act_db \<Rightarrow> ('q, 's, 'p) act_db" where
  \<comment> \<open>attempt number and attempts left; after the last transient failure the handler of \<open>failed\<close> marks the action\<close>
  "run_job j deps made 0 db = db"
| "run_job j deps made (Suc left) db =
     (case execute_action j deps (made + 1) db of
        (Run_transient e, db1) \<Rightarrow>
          (if left = 0 then mark_action_failed j (take 200 e) db1 else run_job j deps (made + 1) left db1)
      | (_, db1) \<Rightarrow> db1)"

subsection \<open>The calls of a run\<close>

datatype reply_kind = R_ok | R_transient | R_error

datatype provider_call =
    Call_find string
  | Call_properties string string
  | Call_upload string string bytes "string option"
  | Call_create string notion_parent page_content "(string \<times> property_value) list option" "string list" reply_kind

fun reply_value :: "'a notion_reply \<Rightarrow> 'a option" where
  "reply_value (N_ok x) = Some x"
| "reply_value _ = None"

fun reply_kind_of :: "'a notion_reply \<Rightarrow> reply_kind" where
  "reply_kind_of (N_ok x) = R_ok"
| "reply_kind_of (N_transient e) = R_transient"
| "reply_kind_of (N_error e) = R_error"

definition logged :: "('p \<Rightarrow> 'a notion_reply \<times> 'p) \<Rightarrow> ('a notion_reply \<Rightarrow> provider_call) \<Rightarrow> 'p \<times> provider_call list \<Rightarrow>
    'a notion_reply \<times> 'p \<times> provider_call list" where
  "logged f call = (\<lambda>(p, cs). case f p of (r, p1) \<Rightarrow> (r, p1, cs @ [call r]))"

definition traced :: "'p notion_client \<Rightarrow> ('p \<times> provider_call list) notion_client" where
  \<comment> \<open>a client that also keeps the list of its calls\<close>
  "traced c =
     \<lparr>nc_find_parent = (\<lambda>token. logged (nc_find_parent c token) (\<lambda>_. Call_find token)),
      nc_database_properties = (\<lambda>token i. logged (nc_database_properties c token i) (\<lambda>_. Call_properties token i)),
      nc_upload_media = (\<lambda>token name ty data. logged (nc_upload_media c token name ty data) (\<lambda>r. Call_upload token name data (reply_value r))),
      nc_create_page = (\<lambda>token parent content props uploads.
        logged (nc_create_page c token parent content props uploads)
          (\<lambda>r. Call_create token parent content props uploads (reply_kind_of r)))\<rparr>"

fun call_token :: "provider_call \<Rightarrow> string" where
  "call_token (Call_find t) = t"
| "call_token (Call_properties t i) = t"
| "call_token (Call_upload t name data v) = t"
| "call_token (Call_create t parent content props uploads k) = t"

fun upload_succeeded :: "string \<Rightarrow> provider_call \<Rightarrow> bool" where
  \<comment> \<open>an upload of the media that was acknowledged with an id\<close>
  "upload_succeeded m (Call_upload t name data v) \<longleftrightarrow> truthy v \<and> starts_with name (''nova-'' @ m @ ''.'')"
| "upload_succeeded m _ \<longleftrightarrow> False"

fun is_create :: "provider_call \<Rightarrow> bool" where
  \<comment> \<open>a request to create a page, whatever became of it: it may have been carried out although no reply or an error came back\<close>
  "is_create (Call_create t parent content props uploads k) \<longleftrightarrow> True"
| "is_create _ \<longleftrightarrow> False"

fun retried :: "provider_call \<Rightarrow> bool" where
  \<comment> \<open>no creation, or one that was answered with a transient error\<close>
  "retried (Call_create t parent content props uploads k) \<longleftrightarrow> k = R_transient"
| "retried _ \<longleftrightarrow> True"

definition uploads_of :: "string \<Rightarrow> provider_call list \<Rightarrow> nat" where
  "uploads_of m cs = length (filter (upload_succeeded m) cs)"

definition creates_of :: "provider_call list \<Rightarrow> nat" where
  "creates_of cs = length (filter is_create cs)"

lemma count_simps [simp]:
  "uploads_of m [] = 0" "uploads_of m (cs @ ds) = uploads_of m cs + uploads_of m ds"
  "creates_of [] = 0" "creates_of (cs @ ds) = creates_of cs + creates_of ds"
  by (simp_all add: uploads_of_def creates_of_def)

lemma no_create_retried: "creates_of cs = 0 \<Longrightarrow> list_all retried cs"
proof -
  have "\<not> is_create c \<Longrightarrow> retried c" for c by (cases c) auto
  then show "creates_of cs = 0 \<Longrightarrow> list_all retried cs" by (auto simp: creates_of_def filter_empty_conv list_all_iff)
qed

definition sent :: "action_row \<Rightarrow> string \<Rightarrow> nat" where
  "sent a m = of_bool (uploaded (prior_uploads a) m)"

locale provider_log =
  fixes client :: "'p notion_client" and calls :: "'p \<Rightarrow> provider_call list"
  assumes find_log: "nc_find_parent client token p = (r1, p') \<Longrightarrow> calls p' = calls p @ [Call_find token]"
    and properties_log: "nc_database_properties client token i p = (r2, p') \<Longrightarrow> calls p' = calls p @ [Call_properties token i]"
    and upload_log: "nc_upload_media client token name ty data p = (r3, p') \<Longrightarrow>
      calls p' = calls p @ [Call_upload token name data (reply_value r3)]"
    and create_log: "nc_create_page client token parent content props uploads p = (r4, p') \<Longrightarrow>
      calls p' = calls p @ [Call_create token parent content props uploads (reply_kind_of r4)]"

interpretation tl: provider_log "traced c" snd
  by unfold_locales (auto simp: traced_def logged_def split: prod.splits)

subsection \<open>Stages of a run\<close>

definition row_after :: "job \<Rightarrow> ('q, 's, 'p) act_db \<Rightarrow> action_row \<Rightarrow> bool" where
  "row_after j db a \<longleftrightarrow> find_action (jb_action j) (jb_user j) db = Some a"

definition sent_within :: "action_row \<Rightarrow> provider_call list \<Rightarrow> (string \<Rightarrow> nat) \<Rightarrow> bool" where
  "sent_within a cs bound \<longleftrightarrow> (\<forall>m. CHR ''.'' \<notin> set m \<longrightarrow> uploads_of m cs + sent a m \<le> bound m)"

text \<open>
  A stage started on a running action in state \<open>P\<close> makes only calls allowed by \<open>C\<close>, asks for no page, never
  uploads a media item already sent, and either goes on with the action still running in state \<open>Q\<close>, or
  stops for a retry with the action running, or stops for good with the action failed. A final stage ends
  with the action done and after one request for a page, or stops in the same two ways.
\<close>

definition stopped :: "action_row \<Rightarrow> provider_call list \<Rightarrow> action_row \<Rightarrow> run_outcome \<Rightarrow> bool" where
  "stopped a cs a' out \<longleftrightarrow> creates_of cs \<le> 1 \<and>
     (case out of
        Run_transient _ \<Rightarrow> list_all retried cs \<and> running (an_status a') \<and> sent_within a cs (sent a')
      | Run_unrecoverable _ \<Rightarrow> an_status a' = Failed \<and> sent_within a cs (\<lambda>_. 1)
      | _ \<Rightarrow> False)"

definition moved ::
  "('p \<Rightarrow> provider_call list) \<Rightarrow> job \<Rightarrow> (provider_call \<Rightarrow> bool) \<Rightarrow> ('q, 's, 'p) act_db \<Rightarrow> ('q, 's, 'p) act_db \<Rightarrow>
     (provider_call list \<Rightarrow> action_row \<Rightarrow> bool) \<Rightarrow> bool" where
  "moved calls j C db db' R \<longleftrightarrow>
     (\<exists>cs a'. calls (ax_provider db') = calls (ax_provider db) @ cs \<and> list_all C cs \<and> ax_media db' = ax_media db \<and>
        row_after j db' a' \<and> R cs a')"

definition stage_post :: "('a \<Rightarrow> action_row \<Rightarrow> bool) \<Rightarrow> action_row \<Rightarrow> run_outcome + 'a \<Rightarrow> provider_call list \<Rightarrow> action_row \<Rightarrow> bool" where
  "stage_post Q a r cs a' \<longleftrightarrow>
     (case r of
        Inr x \<Rightarrow> running (an_status a') \<and> Q x a' \<and> creates_of cs = 0 \<and> sent_within a cs (sent a')
      | Inl out \<Rightarrow> stopped a cs a' out)"

definition final_post :: "action_row \<Rightarrow> run_outcome + run_outcome \<Rightarrow> provider_call list \<Rightarrow> action_row \<Rightarrow> bool" where
  "final_post a r cs a' \<longleftrightarrow>
     (case r of
        Inr out \<Rightarrow> out = Run_done \<and> an_status a' = Done \<and> creates_of cs \<le> 1 \<and> sent_within a cs (\<lambda>_. 1)
      | Inl out \<Rightarrow> stopped a cs a' out)"

definition stage ::
  "('p \<Rightarrow> provider_call list) \<Rightarrow> job \<Rightarrow> (provider_call \<Rightarrow> bool) \<Rightarrow> 's media \<Rightarrow> (action_row \<Rightarrow> bool) \<Rightarrow> ('q, 's, 'p, 'a) run \<Rightarrow>
     (action_row \<Rightarrow> run_outcome + 'a \<Rightarrow> provider_call list \<Rightarrow> action_row \<Rightarrow> bool) \<Rightarrow> bool" where
  "stage calls j C w P step post \<longleftrightarrow>
     (\<forall>db r db' a. step db = (r, db') \<longrightarrow> row_after j db a \<longrightarrow> running (an_status a) \<longrightarrow> P a \<longrightarrow> ax_media db = w \<longrightarrow>
       moved calls j C db db' (post a r))"

lemma sent_le: "sent a m \<le> 1"
  by (simp add: sent_def)

lemma sent_within_append:
  assumes "sent_within a cs (sent b)" "sent_within b ds bound"
  shows "sent_within a (cs @ ds) bound"
  unfolding sent_within_def
proof (intro allI impI)
  fix m :: string
  assume m: "CHR ''.'' \<notin> set m"
  have "uploads_of m cs + sent a m \<le> sent b m" "uploads_of m ds + sent b m \<le> bound m"
    using assms m by (auto simp: sent_within_def)
  then show "uploads_of m (cs @ ds) + sent a m \<le> bound m" by simp
qed

lemma sent_within_Nil: "sent_within a [] (sent a)" "sent_within a [] (\<lambda>_. Suc 0)"
  by (auto simp: sent_within_def sent_def)

lemma stopped_append: "sent_within a cs (sent b) \<Longrightarrow> creates_of cs = 0 \<Longrightarrow> stopped b ds a' out \<Longrightarrow> stopped a (cs @ ds) a' out"
  by (auto simp: stopped_def intro: sent_within_append no_create_retried split: run_outcome.splits)

lemma stageI:
  assumes "\<And>db r db' a. step db = (r, db') \<Longrightarrow> row_after j db a \<Longrightarrow> running (an_status a) \<Longrightarrow> P a \<Longrightarrow> ax_media db = w \<Longrightarrow>
    moved calls j C db db' (post a r)"
  shows "stage calls j C w P step post"
  using assms unfolding stage_def by blast

lemma moved_mono: "moved calls j C db db' R \<Longrightarrow> (\<And>cs a'. R cs a' \<Longrightarrow> R' cs a') \<Longrightarrow> moved calls j C db db' R'"
  unfolding moved_def by blast

lemma moved_trans:
  assumes "moved calls j C db dm R" "\<And>cs am. R cs am \<Longrightarrow> row_after j dm am \<Longrightarrow> moved calls j C dm db' (\<lambda>ds. R' (cs @ ds))"
  shows "moved calls j C db db' R'"
proof -
  from assms(1) obtain cs am where 1: "calls (ax_provider dm) = calls (ax_provider db) @ cs" "list_all C cs"
    "ax_media dm = ax_media db" "row_after j dm am" "R cs am" unfolding moved_def by blast
  from assms(2) [OF 1(5,4)] obtain ds a' where 2: "calls (ax_provider db') = calls (ax_provider dm) @ ds" "list_all C ds"
    "ax_media db' = ax_media dm" "row_after j db' a'" "R' (cs @ ds) a'" unfolding moved_def by blast
  show ?thesis
    unfolding moved_def by (rule exI [of _ "cs @ ds"], rule exI [of _ a']) (use 1 2 in simp)
qed

lemma moved_media: "moved calls j C db db' R \<Longrightarrow> ax_media db' = ax_media db"
  by (auto simp: moved_def)

definition composes :: "(action_row \<Rightarrow> run_outcome + 'a \<Rightarrow> provider_call list \<Rightarrow> action_row \<Rightarrow> bool) \<Rightarrow> bool" where
  \<comment> \<open>a postcondition that quiet calls before it do not disturb and that every early stop meets\<close>
  "composes post \<longleftrightarrow>
     (\<forall>a b r cs ds a'. creates_of cs = 0 \<longrightarrow> sent_within a cs (sent b) \<longrightarrow> post b r ds a' \<longrightarrow> post a r (cs @ ds) a') \<and>
     (\<forall>a out cs a'. stopped a cs a' out \<longrightarrow> post a (Inl out) cs a')"

lemma composes_stage: "composes (stage_post R)"
  by (auto simp: composes_def stage_post_def split: sum.splits intro: sent_within_append stopped_append)

lemma composes_final: "composes final_post"
  by (auto simp: composes_def final_post_def split: sum.splits intro: sent_within_append stopped_append)

lemma stage_then:
  assumes f: "stage calls j C w P f (stage_post Q)" and g: "\<And>x. stage calls j C w (Q x) (g x) post"
    and post: "composes post"
  shows "stage calls j C w P (and_then f g) post"
proof (rule stageI)
  fix db r db' a
  assume run: "and_then f g db = (r, db')" and pre: "row_after j db a" "running (an_status a)" "P a" "ax_media db = w"
  from run show "moved calls j C db db' (post a r)"
  proof (cases rule: and_then_cases)
    case (stop e)
    have "moved calls j C db db' (stage_post Q a (Inl e))" using f stop(1) pre unfolding stage_def by blast
    then show ?thesis
      by (rule moved_mono) (use post stop(2) in \<open>auto simp: stage_post_def composes_def\<close>)
  next
    case (go x dm)
    have m: "moved calls j C db dm (stage_post Q a (Inr x))" using f go(1) pre unfolding stage_def by blast
    then show ?thesis
    proof (rule moved_trans)
      fix cs am
      assume p: "stage_post Q a (Inr x) cs am" and am: "row_after j dm am"
      have "moved calls j C dm db' (post am r)"
        using g [of x] go(2) am p pre moved_media [OF m] unfolding stage_def stage_post_def by (metis old.sum.simps(6))
      then show "moved calls j C dm db' (\<lambda>ds. post a r (cs @ ds))"
        by (rule moved_mono) (use post p in \<open>auto simp: stage_post_def composes_def\<close>)
    qed
  qed
qed

lemmas stage_seq = stage_then [OF _ _ composes_stage]
lemmas stage_end = stage_then [OF _ _ composes_final]

lemma find_map: "find Q (map g xs) = map_option g (find (Q \<circ> g) xs)"
  by (induction xs) auto

lemma find_action_update:
  assumes "row_after j db a" "\<And>x. an_id (f x) = an_id x" "\<And>x. an_user (f x) = an_user x"
  shows "row_after j (update_actions p f db) (if p a then f a else a)"
proof -
  have "(\<lambda>x. an_id x = i \<and> an_user x = u) \<circ> (\<lambda>x. if p x then f x else x) = (\<lambda>x. an_id x = i \<and> an_user x = u)" for i u
    using assms(2,3) by (auto simp: fun_eq_iff)
  then show ?thesis using assms(1) by (simp add: row_after_def find_action_def find_map)
qed

lemma row_after_cong [simp]:
  "row_after j (act_audit_add u e b d db) = row_after j db" "row_after j (db\<lparr>ax_provider := p\<rparr>) = row_after j db"
  by (simp_all add: row_after_def find_action_def fun_eq_iff)

lemma row_after_ids: "row_after j db a \<Longrightarrow> an_id a = jb_action j \<and> an_user a = jb_user j"
  by (auto simp: row_after_def find_action_def find_Some_iff)

lemma mark_failed_row:
  assumes "row_after j db a" "running (an_status a)"
  shows "\<exists>a'. row_after j (mark_action_failed j reason db) a' \<and> an_status a' = Failed"
    "ax_media (mark_action_failed j reason db) = ax_media db" "ax_provider (mark_action_failed j reason db) = ax_provider db"
proof -
  show "ax_media (mark_action_failed j reason db) = ax_media db" "ax_provider (mark_action_failed j reason db) = ax_provider db"
    by (auto simp: mark_action_failed_def claim_action_def split: option.split)
  let ?p = "\<lambda>x. an_id x = jb_action j \<and> an_user x = jb_user j \<and> running (an_status x)"
  let ?f = "\<lambda>x. x\<lparr>an_status := Failed, an_result := Some (no_result\<lparr>rs_error := Some reason\<rparr>)\<rparr>"
  have "find ?p (ax_actions db) \<noteq> None"
    using assms by (auto simp: row_after_def find_action_def find_None_iff find_Some_iff)
  then have "row_after j (mark_action_failed j reason db) = row_after j (update_actions ?p ?f db)"
    by (auto simp: mark_action_failed_def claim_action_def)
  moreover have "?p a" using assms row_after_ids by blast
  ultimately show "\<exists>a'. row_after j (mark_action_failed j reason db) a' \<and> an_status a' = Failed"
    using find_action_update [OF assms(1), of ?f ?p] by auto
qed

lemma moved_failed:
  assumes "row_after j db a" "running (an_status a)"
  shows "moved calls j C db (mark_action_failed j reason db) (\<lambda>cs a'. cs = [] \<and> an_status a' = Failed)"
  using mark_failed_row [OF assms, of reason] by (auto simp: moved_def)

lemma stage_terminal:
  fixes calls :: "'p \<Rightarrow> provider_call list" and w :: "'s media"
    and post :: "action_row \<Rightarrow> run_outcome + 'a \<Rightarrow> provider_call list \<Rightarrow> action_row \<Rightarrow> bool"
  assumes post: "composes post"
  shows "stage calls j C w P (terminal j reason :: ('q, 's, 'p, 'a) run) post"
proof (rule stageI)
  fix db db' :: "('q, 's, 'p) act_db" and r :: "run_outcome + 'a" and a
  assume run: "terminal j reason db = (r, db')" and pre: "row_after j db a" "running (an_status a)"
  have "moved calls j C db db' (\<lambda>cs a'. cs = [] \<and> an_status a' = Failed)"
    using moved_failed [OF pre] run by (auto simp: terminal_def)
  then show "moved calls j C db db' (post a r)"
    by (rule moved_mono)
      (use run post in \<open>auto simp: terminal_def composes_def stopped_def sent_within_Nil\<close>)
qed

lemmas stage_fail = stage_terminal [OF composes_stage] stage_terminal [OF composes_final]

lemma stage_return: "(\<And>a. P a \<Longrightarrow> Q x a) \<Longrightarrow> stage calls j C w P (\<lambda>db. (Inr x, db)) (stage_post Q)"
  by (rule stageI) (auto simp: moved_def stage_post_def sent_within_Nil)

lemma stage_call:
  assumes log: "\<And>p r p'. call p = (r, p') \<Longrightarrow> calls p' = calls p @ [c r]"
    and C: "\<And>v. C (c v)" and quiet: "\<And>v. \<not> is_create (c v)" "\<And>v m. \<not> upload_succeeded m (c v)"
  shows "stage calls j C w P (notion_step j call) (stage_post (\<lambda>_. P))"
proof (rule stageI)
  fix db r db' a
  assume run: "notion_step j call db = (r, db')" and pre: "row_after j db a" "running (an_status a)" "P a"
  obtain v p where v: "call (ax_provider db) = (v, p)" by (cases "call (ax_provider db)")
  let ?db = "db\<lparr>ax_provider := p\<rparr>" and ?cs = "[c v]"
  have q: "creates_of ?cs = 0" "list_all retried ?cs" "sent_within a ?cs (sent a)" "sent_within a ?cs (\<lambda>_. Suc 0)"
    using no_create_retried [of ?cs] by (auto simp: creates_of_def quiet sent_within_def uploads_of_def sent_def)
  have m: "moved calls j C db ?db (\<lambda>cs a'. cs = ?cs \<and> a' = a)" using log [OF v] C pre by (auto simp: moved_def)
  show "moved calls j C db db' (stage_post (\<lambda>_. P) a r)"
  proof (cases v)
    case (N_error e)
    have f: "moved calls j C ?db (mark_action_failed j (''notion_error: '' @ take 200 e) ?db) (\<lambda>cs a'. cs = [] \<and> an_status a' = Failed)"
      by (rule moved_failed) (use pre in auto)
    have "moved calls j C db (mark_action_failed j (''notion_error: '' @ take 200 e) ?db) (\<lambda>cs a'. cs = ?cs \<and> an_status a' = Failed)"
      by (rule moved_trans [OF m]) (rule moved_mono [OF f], simp)
    then show ?thesis
      using run N_error v q by (auto simp: notion_step_def terminal_def stage_post_def stopped_def elim: moved_mono)
  qed (use run v m pre q in \<open>auto simp: notion_step_def stage_post_def stopped_def elim: moved_mono\<close>)
qed

lemma stage_audit:
  assumes "stage calls j C w P f post"
  shows "stage calls j C w P (\<lambda>db. f (act_audit_add u e b d db)) post"
proof (rule stageI)
  fix db r db' a
  assume "f (act_audit_add u e b d db) = (r, db')" "row_after j db a" "running (an_status a)" "P a" "ax_media db = w"
  then have "moved calls j C (act_audit_add u e b d db) db' (post a r)" using assms by (simp add: stage_def)
  then show "moved calls j C db db' (post a r)" by (simp add: moved_def)
qed

definition call_allowed ::
  "job \<Rightarrow> ('s, 'p) worker_deps \<Rightarrow> action_row \<Rightarrow> moment_row option \<Rightarrow> string \<Rightarrow> 's media \<Rightarrow> provider_call \<Rightarrow> bool" where
  "call_allowed j deps a mom token w c \<longleftrightarrow> call_token c = token \<and>
     (case c of
        Call_upload t name data v \<Rightarrow>
          (\<exists>m ops media. m \<in> set (approved_media a) \<and> wd_store deps = Some ops \<and>
             read_approved_media (wd_crypto deps) ops (wd_keys deps) (jb_user j) m w = Inr (Inr media) \<and>
             name = upload_name m (am_content_type media) \<and> data = am_data media)
      | Call_create t parent content props uploads k \<Rightarrow>
          content = page_content_of a mom \<and> length uploads = length (approved_media a)
      | _ \<Rightarrow> True)"

definition no_dot :: "string \<Rightarrow> bool" where
  "no_dot m \<longleftrightarrow> CHR ''.'' \<notin> set m"

lemma upload_name_prefix:
  assumes "no_dot m" "no_dot m'"
  shows "starts_with (upload_name m ty) (''nova-'' @ m' @ ''.'') \<longleftrightarrow> m' = m"
proof -
  have "take (length (m' @ ''.'')) (m @ CHR ''.'' # xs) = m' @ ''.'' \<longleftrightarrow> m' = m" for xs
    using assms
  proof (induction m arbitrary: m')
    case Nil
    then show ?case by (cases m') (auto simp: no_dot_def)
  next
    case (Cons c m)
    then show ?case by (cases m') (auto simp: no_dot_def)
  qed
  then show ?thesis by (simp add: starts_with_def upload_name_def)
qed

lemma sent_upload: "prior_uploads a' = obj_set m u (prior_uploads a) \<Longrightarrow>
    sent a' m' = (if m' = m then of_bool (u \<noteq> []) else sent a m')"
  by (simp add: sent_def uploaded_def map_of_obj_set truthy_def)

lemma save_uploads_row:
  assumes "row_after j db a"
  shows "\<exists>a'. row_after j (save_uploads (jb_action j) us db) a' \<and> an_status a' = an_status a \<and> prior_uploads a' = us"
  using find_action_update [OF assms, of "\<lambda>a. a\<lparr>an_result := Some ((case an_result a of None \<Rightarrow> no_result | Some r \<Rightarrow> r)\<lparr>rs_uploads := Some us\<rparr>)\<rparr>" "\<lambda>a. an_id a = jb_action j"]
    row_after_ids [OF assms]
  by (auto simp: save_uploads_def prior_uploads_def)

context provider_log
begin

lemma parent_stage:
  assumes "wd_notion deps = client"
  shows "stage calls j (call_allowed j deps a mom token w) w P (resolve_parent j deps a conn token) (stage_post (\<lambda>_. P))"
proof (cases "coalesce (py_destination (an_payload a)) (cn_default conn)")
  case None
  have "stage calls j (call_allowed j deps a mom token w) w P (notion_step j (nc_find_parent (wd_notion deps) token)) (stage_post (\<lambda>_. P))"
    by (rule stage_call [where c = "\<lambda>_. Call_find token"]) (auto simp: assms find_log call_allowed_def)
  then show ?thesis
    unfolding resolve_parent_def None option.case
    by (rule stage_seq) (auto split: option.split intro: stage_fail stage_return)
qed (auto simp: resolve_parent_def intro: stage_return)

lemma properties_stage:
  assumes "wd_notion deps = client"
  shows "stage calls j (call_allowed j deps a mom token w) w P (resolve_properties deps a mom conn token parent) (stage_post (\<lambda>_. P))"
proof (rule stageI)
  fix db r db' x
  assume run: "resolve_properties deps a mom conn token parent db = (r, db')"
    and pre: "row_after j db x" "running (an_status x)" "P x"
  have q: "creates_of [Call_properties token i] = 0" "sent_within x [Call_properties token i] (sent x)" for i
    by (auto simp: creates_of_def sent_within_def uploads_of_def sent_def)
  obtain v p where v: "nc_database_properties client token (np_id parent) (ax_provider db) = (v, p)"
    by (cases "nc_database_properties client token (np_id parent) (ax_provider db)")
  have m: "moved calls j (call_allowed j deps a mom token w) db (db\<lparr>ax_provider := p\<rparr>)
      (\<lambda>cs x'. cs = [Call_properties token (np_id parent)] \<and> x' = x)"
    using properties_log [OF v] pre by (auto simp: moved_def call_allowed_def)
  have n: "moved calls j (call_allowed j deps a mom token w) db db (\<lambda>cs x'. cs = [] \<and> x' = x)"
    using pre by (auto simp: moved_def)
  show "moved calls j (call_allowed j deps a mom token w) db db' (stage_post (\<lambda>_. P) x r)"
  proof (cases "np_type parent = Database_parent \<and> cn_mapping conn \<noteq> None")
    case True
    then have "db' = db\<lparr>ax_provider := p\<rparr>" "stage_post (\<lambda>_. P) x r [Call_properties token (np_id parent)] x"
      using run pre q v assms
      by (auto simp: resolve_properties_def stage_post_def stopped_def Let_def split: notion_reply.splits)
    then show ?thesis using m by (auto elim: moved_mono)
  next
    case False
    then have "(r, db') = (Inr None, db)"
      using run by (auto simp: resolve_properties_def split: parent_kind.splits option.splits)
    then show ?thesis
      using n pre by (auto simp: stage_post_def sent_within_Nil elim: moved_mono)
  qed
qed

lemma upload_stage:
  assumes "wd_notion deps = client" "wd_store deps = Some ops" "m \<in> set (approved_media a)" "list_all no_dot (approved_media a)"
    and new: "\<not> uploaded us m"
  shows "stage calls j (call_allowed j deps a mom token w) w (\<lambda>x. prior_uploads x = us)
    (upload_one j deps ops token (jb_action j) m us) (stage_post (\<lambda>us' x. prior_uploads x = us'))"
proof (rule stageI)
  fix db r db' x
  let ?C = "call_allowed j deps a mom token w"
  assume run: "upload_one j deps ops token (jb_action j) m us db = (r, db')"
    and pre: "row_after j db x" "running (an_status x)" "prior_uploads x = us" "ax_media db = w"
  show "moved calls j ?C db db' (stage_post (\<lambda>us' x. prior_uploads x = us') x r)"
  proof (cases "\<exists>media. read_approved_media (wd_crypto deps) ops (wd_keys deps) (jb_user j) m (ax_media db) = Inr (Inr media)")
    case False
    then obtain reason where "terminal j reason db = (r, db')"
      using run by (auto simp: upload_one_def split: sum.splits)
    then show ?thesis using stage_terminal [OF composes_stage] pre unfolding stage_def by blast
  next
    case True
    then obtain media where media: "read_approved_media (wd_crypto deps) ops (wd_keys deps) (jb_user j) m (ax_media db) = Inr (Inr media)" by blast
    let ?name = "upload_name m (am_content_type media)"
    let ?db0 = "act_audit_add (jb_user j) ''media.adapter_access'' m [(''provider'', JStr ''notion''), (''action_id'', JStr (jb_action j))] db"
    obtain v p where v: "nc_upload_media client token ?name (am_content_type media) (am_data media) (ax_provider db) = (v, p)"
      by (cases "nc_upload_media client token ?name (am_content_type media) (am_data media) (ax_provider db)")
    let ?db1 = "?db0\<lparr>ax_provider := p\<rparr>" and ?cs = "[Call_upload token ?name (am_data media) (reply_value v)]"
    have mv: "moved calls j ?C db ?db1 (\<lambda>cs x'. cs = ?cs \<and> x' = x)"
      using upload_log [OF v] pre media assms(2,3) by (auto simp: moved_def call_allowed_def)
    have dots: "no_dot m" using assms(3,4) by (simp add: list_all_iff)
    have cnt: "uploads_of m' ?cs = of_bool (truthy (reply_value v) \<and> m' = m)" if "no_dot m'" for m'
      using upload_name_prefix [OF dots that] by (auto simp: uploads_of_def)
    have pg: "creates_of ?cs = 0" by (simp add: creates_of_def)
    have s0: "sent x m = 0" using new pre by (simp add: sent_def)
    show ?thesis
    proof (cases v)
      case (N_ok u)
      let ?us = "obj_set m u us"
      have eq: "r = Inr ?us" "db' = save_uploads (jb_action j) ?us ?db1"
        using run media v N_ok assms(1) by (auto simp: upload_one_def and_then_def notion_step_def Let_def)
      obtain x' where x': "row_after j db' x'" "an_status x' = an_status x" "prior_uploads x' = ?us"
        using save_uploads_row [of j ?db1 x ?us] pre(1) eq by auto
      have "sent_within x ?cs (sent x')"
        using cnt sent_upload [of x' m u x] x'(3) pre(3) s0 N_ok
        by (auto simp: sent_within_def no_dot_def truthy_def)
      then show ?thesis
        using mv x' pre(2) pg eq(1)
        by (elim moved_trans) (auto simp: moved_def stage_post_def save_uploads_def eq(2))
    next
      case (N_transient e)
      have "sent_within x ?cs (sent x)" using cnt N_transient by (auto simp: sent_within_def no_dot_def truthy_def)
      then show ?thesis
        using run media v N_transient assms(1) mv pre pg
        by (auto simp: upload_one_def and_then_def notion_step_def Let_def stage_post_def stopped_def elim: moved_mono)
    next
      case (N_error e)
      let ?reason = "''notion_error: '' @ take 200 e"
      have f: "moved calls j ?C ?db1 (mark_action_failed j ?reason ?db1) (\<lambda>cs a'. cs = [] \<and> an_status a' = Failed)"
        by (rule moved_failed) (use pre in auto)
      have "moved calls j ?C db (mark_action_failed j ?reason ?db1) (\<lambda>cs a'. cs = ?cs \<and> an_status a' = Failed)"
        by (rule moved_trans [OF mv]) (rule moved_mono [OF f], simp)
      moreover have "sent_within x ?cs (\<lambda>_. Suc 0)" using cnt N_error by (auto simp: sent_within_def no_dot_def truthy_def sent_def)
      ultimately show ?thesis
        using run media v N_error assms(1) pg
        by (auto simp: upload_one_def and_then_def notion_step_def Let_def terminal_def stage_post_def stopped_def elim: moved_mono)
    qed
  qed
qed

lemma upload_list_stage:
  assumes "wd_notion deps = client" "wd_store deps = Some ops" "set ms \<subseteq> set (approved_media a)" "list_all no_dot (approved_media a)"
  shows "stage calls j (call_allowed j deps a mom token w) w (\<lambda>x. prior_uploads x = us)
    (upload_media_list j deps ops token (jb_action j) ms us) (stage_post (\<lambda>us' x. True))"
  using assms(3)
proof (induction ms arbitrary: us)
  case Nil
  show ?case unfolding upload_media_list.simps by (rule stage_return) simp
next
  case (Cons m ms)
  show ?case
  proof (cases "uploaded us m")
    case True
    then show ?thesis using Cons by simp
  next
    case False
    show ?thesis
      unfolding upload_media_list.simps if_not_P [OF False]
    proof (rule stage_seq)
      show "stage calls j (call_allowed j deps a mom token w) w (\<lambda>x. prior_uploads x = us)
        (upload_one j deps ops token (jb_action j) m us) (stage_post (\<lambda>us' x. prior_uploads x = us'))"
        by (rule upload_stage) (use assms Cons.prems False in auto)
    qed (use Cons in auto)
  qed
qed

lemma attach_stage:
  assumes "wd_notion deps = client" "list_all no_dot (approved_media a)" "an_id a = jb_action j"
  shows "stage calls j (call_allowed j deps a mom token w) w (\<lambda>x. prior_uploads x = prior_uploads a)
    (attach_uploads j deps a token) (stage_post (\<lambda>ups x. length ups = length (approved_media a)))"
proof (rule stageI)
  fix db r db' x
  assume run: "attach_uploads j deps a token db = (r, db')"
    and pre: "row_after j db x" "running (an_status x)" "prior_uploads x = prior_uploads a" "ax_media db = w"
  let ?Q = "stage_post (\<lambda>ups x. length ups = length (approved_media a))"
  let ?P = "\<lambda>x. prior_uploads x = prior_uploads a"
  have ret: "stage calls j (call_allowed j deps a mom token w) w ?P (\<lambda>db. (Inr [], db)) ?Q" if "approved_media a = []"
    by (rule stage_return) (simp add: that)
  have bad: "stage calls j (call_allowed j deps a mom token w) w ?P (terminal j ''media_store_unavailable'') ?Q"
    by (rule stage_fail)
  have go: "stage calls j (call_allowed j deps a mom token w) w ?P
      (and_then (upload_media_list j deps ops token (an_id a) (approved_media a) (prior_uploads a))
        (\<lambda>uploads db1. (Inr (map (\<lambda>i. case map_of uploads i of None \<Rightarrow> [] | Some u \<Rightarrow> u) (approved_media a)), db1))) ?Q"
    if "wd_store deps = Some ops" for ops
    unfolding assms(3)
    by (rule stage_seq [OF upload_list_stage [OF assms(1) that _ assms(2)]]) (auto intro: stage_return)
  show "moved calls j (call_allowed j deps a mom token w) db db' (?Q x r)"
    using run pre ret bad go unfolding stage_def attach_uploads_def by (auto split: if_splits option.splits)
qed

lemma create_stage:
  assumes "wd_notion deps = client" "an_id a = jb_action j" "length ups = length (approved_media a)"
  shows "stage calls j (call_allowed j deps a mom token w) w P
    (and_then (notion_step j (nc_create_page (wd_notion deps) token parent (page_content_of a mom) props ups))
      (finish_run j a conn parent n)) final_post"
proof (rule stageI)
  fix db r db' x
  let ?C = "call_allowed j deps a mom token w"
  assume run: "and_then (notion_step j (nc_create_page (wd_notion deps) token parent (page_content_of a mom) props ups))
      (finish_run j a conn parent n) db = (r, db')"
    and pre: "row_after j db x" "running (an_status x)"
  obtain v p where v: "nc_create_page client token parent (page_content_of a mom) props ups (ax_provider db) = (v, p)"
    by (cases "nc_create_page client token parent (page_content_of a mom) props ups (ax_provider db)")
  let ?db1 = "db\<lparr>ax_provider := p\<rparr>" and ?cs = "[Call_create token parent (page_content_of a mom) props ups (reply_kind_of v)]"
  have mv: "moved calls j ?C db ?db1 (\<lambda>cs x'. cs = ?cs \<and> x' = x)"
    using create_log [OF v] pre assms(3) by (auto simp: moved_def call_allowed_def)
  have q: "sent_within x ?cs (sent x)" "sent_within x ?cs (\<lambda>_. Suc 0)" "creates_of ?cs = 1"
    by (auto simp: creates_of_def sent_within_def uploads_of_def sent_def)
  show "moved calls j ?C db db' (final_post x r)"
  proof (cases v)
    case (N_ok page)
    have run': "finish_run j a conn parent n page ?db1 = (r, db')"
      using run v N_ok assms(1) by (simp add: and_then_def notion_step_def Let_def)
    have "\<exists>x'. row_after j db' x' \<and> an_status x' = Done"
      using find_action_update [of j ?db1 x "\<lambda>x. x\<lparr>an_status := Done,
          an_result := Some (no_result\<lparr>rs_page_id := Some (cp_id page), rs_page_url := cp_url page, rs_parent := Some (np_id parent, np_title parent)\<rparr>)\<rparr>"
          "\<lambda>x. an_id x = an_id a"] run' pre row_after_ids [OF pre(1)] assms(2)
      by (auto simp: finish_run_def)
    then show ?thesis
      using mv run' q N_ok by (elim moved_trans) (auto simp: moved_def final_post_def finish_run_def)
  next
    case (N_transient e)
    then show ?thesis
      using run v assms(1) mv pre q
      by (auto simp: and_then_def notion_step_def Let_def final_post_def stopped_def elim: moved_mono)
  next
    case (N_error e)
    let ?reason = "''notion_error: '' @ take 200 e"
    have f: "moved calls j ?C ?db1 (mark_action_failed j ?reason ?db1) (\<lambda>cs a'. cs = [] \<and> an_status a' = Failed)"
      by (rule moved_failed) (use pre in auto)
    have "moved calls j ?C db (mark_action_failed j ?reason ?db1) (\<lambda>cs a'. cs = ?cs \<and> an_status a' = Failed)"
      by (rule moved_trans [OF mv]) (rule moved_mono [OF f], simp)
    then show ?thesis
      using run v N_error assms(1) q
      by (auto simp: and_then_def notion_step_def Let_def terminal_def final_post_def stopped_def elim: moved_mono)
  qed
qed

lemma publish_stage:
  assumes "wd_notion deps = client" "list_all no_dot (approved_media a)" "an_id a = jb_action j"
  shows "stage calls j (call_allowed j deps a mom token w) w (\<lambda>x. prior_uploads x = prior_uploads a)
    (publish j deps a mom conn token) final_post"
  unfolding publish_def
proof (rule stage_end [OF parent_stage [OF assms(1)]], rule stage_end [OF properties_stage [OF assms(1)]],
    rule stage_end [OF attach_stage [OF assms]])
  fix parent props ups
  show "stage calls j (call_allowed j deps a mom token w) w (\<lambda>x. length ups = length (approved_media a))
    (and_then (notion_step j (nc_create_page (wd_notion deps) token parent (page_content_of a mom) props ups))
      (finish_run j a conn parent (length ups))) final_post"
  proof (rule stageI)
    fix db r db' x
    assume "and_then (notion_step j (nc_create_page (wd_notion deps) token parent (page_content_of a mom) props ups))
      (finish_run j a conn parent (length ups)) db = (r, db')" "row_after j db x" "running (an_status x)"
      "length ups = length (approved_media a)" "ax_media db = w"
    then show "moved calls j (call_allowed j deps a mom token w) db db' (final_post x r)"
      using create_stage [OF assms(1,3)] unfolding stage_def by blast
  qed
qed

end

subsection \<open>What a run leaves alone\<close>

definition action_key :: "action_row \<Rightarrow> string \<times> string \<times> string \<times> string option \<times> action_payload" where
  "action_key a = (an_id a, an_user a, an_type a, an_approved_by a, an_payload a)"

definition action_keys :: "('q, 's, 'p) act_db \<Rightarrow> (string \<times> string \<times> string \<times> string option \<times> action_payload) list" where
  "action_keys db = map action_key (ax_actions db)"

definition keeps_keys :: "('q, 's, 'p, 'a) run \<Rightarrow> bool" where
  "keeps_keys f \<longleftrightarrow> (\<forall>db. action_keys (snd (f db)) = action_keys db)"

lemma keys_update: "(\<And>x. action_key (f x) = action_key x) \<Longrightarrow> action_keys (update_actions p f db) = action_keys db"
  by (simp add: action_keys_def)

lemma keys_cong [simp]:
  "action_keys (act_audit_add u e b d db) = action_keys db" "action_keys (db\<lparr>ax_provider := p\<rparr>) = action_keys db"
  by (simp_all add: action_keys_def)

lemma keeps_then: "keeps_keys f \<Longrightarrow> (\<And>x. keeps_keys (g x)) \<Longrightarrow> keeps_keys (and_then f g)"
  by (simp add: keeps_keys_def and_then_def split: prod.split sum.split) (metis snd_conv)

lemma keys_failed: "action_keys (mark_action_failed j reason db) = action_keys db"
  by (auto simp: mark_action_failed_def claim_action_def keys_update action_key_def split: option.split)

lemma keeps_basic:
  "keeps_keys (terminal j reason)" "keeps_keys (\<lambda>db. (Inr x, db))" "keeps_keys (notion_step j call)"
  "keeps_keys (claim_run j a attempt)" "keeps_keys (open_token j deps)" "keeps_keys (finish_run j a conn parent n page)"
  "keeps_keys (recover_run j a page_id)" "keeps_keys (resolve_properties deps a mom conn token parent)"
  by (auto simp: keeps_keys_def terminal_def keys_failed notion_step_def claim_run_def claim_action_def open_token_def finish_run_def
      recover_run_def resolve_properties_def keys_update action_key_def Let_def
      split: prod.split notion_reply.split option.split sum.split parent_kind.split)

lemma keeps_keysD: "keeps_keys f \<Longrightarrow> action_keys (snd (f db)) = action_keys db"
  by (simp add: keeps_keys_def)

lemmas keys_basic [simp] = keeps_basic [THEN keeps_keysD]

lemma keeps_upload: "keeps_keys (upload_one j deps ops token aid m us)"
proof -
  have "keeps_keys (and_then (notion_step j call) (\<lambda>u db1. let us' = obj_set m u us in (Inr us', save_uploads aid us' db1)))" for call
    by (rule keeps_then [OF keeps_basic(3)]) (simp add: keeps_keys_def Let_def save_uploads_def keys_update action_key_def)
  note this [THEN keeps_keysD, simp]
  show ?thesis by (auto simp: keeps_keys_def upload_one_def split: sum.split)
qed

lemma keeps_upload_list: "keeps_keys (upload_media_list j deps ops token aid ms us)"
  by (induction ms arbitrary: us) (auto intro: keeps_then keeps_upload keeps_basic)

lemma keeps_attach: "keeps_keys (attach_uploads j deps a token)"
proof -
  have "keeps_keys (and_then (upload_media_list j deps ops token (an_id a) (approved_media a) (prior_uploads a))
      (\<lambda>uploads db1. (Inr (map (\<lambda>i. case map_of uploads i of None \<Rightarrow> [] | Some u \<Rightarrow> u) (approved_media a)), db1)))" for ops
    by (rule keeps_then [OF keeps_upload_list keeps_basic(2)])
  note this [THEN keeps_keysD, simp]
  show ?thesis by (auto simp: keeps_keys_def attach_uploads_def split: option.split)
qed

lemma keeps_publish: "keeps_keys (publish j deps a mom conn token)"
proof -
  have "keeps_keys (resolve_parent j deps a conn token)"
    unfolding resolve_parent_def by (auto intro!: keeps_then keeps_basic split: option.split)
  then show ?thesis unfolding publish_def by (intro keeps_then keeps_basic keeps_attach)
qed

lemma execute_keeps_keys: "execute_action j deps attempt db = (out, db') \<Longrightarrow> action_keys db' = action_keys db"
proof -
  have "keeps_keys (and_then (claim_run j a attempt) (\<lambda>_. and_then (open_token j deps) (\<lambda>(conn, token). publish j deps a mom conn token)))" for a mom
    by (auto intro!: keeps_then keeps_basic keeps_publish split: prod.split)
  note this [THEN keeps_keysD, simp]
  have "action_keys (snd (run_action j deps attempt db)) = action_keys db"
    by (auto simp: run_action_def split: option.split)
  then show "execute_action j deps attempt db = (out, db') \<Longrightarrow> action_keys db' = action_keys db"
    by (auto simp: execute_action_def split: prod.splits sum.splits)
qed

lemma find_key: "map_option action_key (find_action i u db) = find (\<lambda>k. fst k = i \<and> fst (snd k) = u) (action_keys db)"
  unfolding find_action_def action_keys_def find_map by (simp add: comp_def action_key_def)

lemma row_after_key:
  assumes "action_keys db' = action_keys db" "row_after j db a" "row_after j db' a'"
  shows "action_key a' = action_key a"
proof -
  have "Some (action_key a') = Some (action_key a)"
    using find_key [of "jb_action j" "jb_user j" db] find_key [of "jb_action j" "jb_user j" db'] assms
    unfolding row_after_def by (metis option.map(2))
  then show ?thesis by simp
qed

subsection \<open>Properties of one run and of a job\<close>

definition outcome_post :: "action_row \<Rightarrow> run_outcome \<Rightarrow> provider_call list \<Rightarrow> action_row \<Rightarrow> bool" where
  "outcome_post a out cs a' \<longleftrightarrow>
     (if out = Run_done then an_status a' = Done \<and> creates_of cs \<le> 1 \<and> sent_within a cs (\<lambda>_. 1) else stopped a cs a' out)"

definition last_create :: "nat \<Rightarrow> provider_call list \<Rightarrow> bool" where
  \<comment> \<open>at most \<open>n\<close> creations, each but the last one answered with a transient error\<close>
  "last_create n cs \<longleftrightarrow> creates_of cs \<le> n \<and> (\<exists>before after. cs = before @ after \<and> list_all retried before \<and> creates_of after \<le> 1)"

lemma last_create_Nil: "last_create n []"
  by (simp add: last_create_def)

lemma last_create_one: "creates_of cs \<le> Suc 0 \<Longrightarrow> last_create (Suc n) cs"
  unfolding last_create_def by (intro conjI exI [of _ "[]"] exI [of _ cs]) simp_all

lemma last_create_append:
  assumes "creates_of cs \<le> Suc 0" "list_all retried cs" "last_create n ds"
  shows "last_create (Suc n) (cs @ ds)"
proof -
  obtain before after where d: "creates_of ds \<le> n" "ds = before @ after" "list_all retried before" "creates_of after \<le> 1"
    using assms(3) unfolding last_create_def by blast
  show ?thesis
    unfolding last_create_def
    by (intro conjI exI [of _ "cs @ before"] exI [of _ after]) (use assms(1,2) d in auto)
qed

definition run_call_allowed :: "job \<Rightarrow> ('s, 'p) worker_deps \<Rightarrow> action_row \<Rightarrow> ('q, 's, 'p) act_db \<Rightarrow> provider_call \<Rightarrow> bool" where
  "run_call_allowed j deps a db c \<longleftrightarrow>
     (\<exists>conn bs. connected (jb_user j) ''notion'' db = Some conn \<and>
        decrypt_bytes_with_any (wd_crypto deps) (wd_keys deps) (cn_token conn) = Inr bs \<and>
        call_allowed j deps a (moment_of a db) (token_text bs) (ax_media db) c)"

lemma claim_runs:
  assumes "row_after j db a" "running (an_status a)"
  obtains db1 x where "claim_run j a attempt db = (Inr (), db1)" "row_after j db1 x" "running (an_status x)"
    "prior_uploads x = prior_uploads a" "ax_media db1 = ax_media db" "ax_provider db1 = ax_provider db"
    "ax_connections db1 = ax_connections db"
proof -
  let ?p = "\<lambda>x. an_id x = an_id a \<and> running (an_status x)"
  let ?f = "\<lambda>x. x\<lparr>an_status := Executing\<rparr>"
  have "a \<in> set (ax_actions db)" using assms(1) by (auto simp: row_after_def find_action_def find_Some_iff)
  then obtain y where "find ?p (ax_actions db) = Some y"
    using assms(2) by (cases "find ?p (ax_actions db)") (auto simp: find_None_iff)
  then have eq: "claim_run j a attempt db = (Inr (), act_audit_add (jb_user j) ''action.executing'' (an_id a)
      [(''action_type'', JStr (an_type a)), (''attempt'', JNum (int attempt))] (update_actions ?p ?f db))"
    by (simp add: claim_run_def claim_action_def)
  have row: "row_after j (update_actions ?p ?f db) (?f a)"
    using find_action_update [OF assms(1), of ?f ?p] assms(2) by simp
  show ?thesis
    by (rule that [OF eq, of "?f a"]) (use row in \<open>simp_all add: prior_uploads_def running_def\<close>)
qed

context provider_log
begin

lemma execute_running:
  assumes "wd_notion deps = client" "row_after j db a" "running (an_status a)" "list_all no_dot (approved_media a)"
    and ex: "execute_action j deps attempt db = (out, db')"
  shows "moved calls j (run_call_allowed j deps a db) db db' (outcome_post a out)"
proof -
  have fa: "find_action (jb_action j) (jb_user j) db = Some a" using assms(2) by (simp add: row_after_def)
  have nd: "an_status a \<noteq> Done" using assms(3) by (auto simp: running_def)
  have ids: "an_id a = jb_action j" using row_after_ids [OF assms(2)] by simp
  have fail: "moved calls j C db (mark_action_failed j reason db) (outcome_post a (Run_unrecoverable reason))" for reason C
    by (rule moved_mono [OF moved_failed [OF assms(2,3)]]) (auto simp: outcome_post_def stopped_def sent_within_Nil)
  consider (type) "an_type a \<noteq> ''notion_page''"
    | (prior) "an_type a = ''notion_page''" "truthy (prior_page a)"
    | (run) "an_type a = ''notion_page''" "\<not> truthy (prior_page a)" by blast
  then show ?thesis
  proof cases
    case type
    then show ?thesis using ex fa nd assms(3) fail by (auto simp: execute_action_def run_action_def terminal_def)
  next
    case prior
    then have "out = Run_done \<and> (\<exists>u e b d. db' = act_audit_add u e b d (update_actions (\<lambda>x. an_id x = an_id a) (\<lambda>x. x\<lparr>an_status := Done\<rparr>) db))"
      using ex fa nd assms(3) by (auto simp: execute_action_def run_action_def recover_run_def)
    moreover have "row_after j (update_actions (\<lambda>x. an_id x = an_id a) (\<lambda>x. x\<lparr>an_status := Done\<rparr>) db) (a\<lparr>an_status := Done\<rparr>)"
      using find_action_update [OF assms(2), of "\<lambda>x. x\<lparr>an_status := Done\<rparr>" "\<lambda>x. an_id x = an_id a"] by simp
    ultimately show ?thesis
      unfolding moved_def
      by (intro exI [of _ "[]"] exI [of _ "a\<lparr>an_status := Done\<rparr>"]) (auto simp: outcome_post_def sent_within_Nil)
  next
    case run
    obtain db1 x where c: "claim_run j a attempt db = (Inr (), db1)" "row_after j db1 x" "running (an_status x)"
      "prior_uploads x = prior_uploads a" "ax_media db1 = ax_media db" "ax_provider db1 = ax_provider db"
      "ax_connections db1 = ax_connections db"
      by (rule claim_runs [OF assms(2,3)])
    have conn1: "connected u p db1 = connected u p db" for u p by (simp add: connected_def c(7))
    have sx: "sent x = sent a" by (simp add: sent_def c(4) fun_eq_iff)
    have onward: "moved calls j C db db' R" if "moved calls j C db1 db' R" for C R
      using that c(5,6) by (simp add: moved_def)
    have post_x: "outcome_post a out cs a' = outcome_post x out cs a'" for cs a'
      by (auto simp: outcome_post_def stopped_def sent_within_def sx split: run_outcome.split)
    have fail1: "moved calls j C db1 (mark_action_failed j reason db1) (outcome_post x (Run_unrecoverable reason))" for reason C
      by (rule moved_mono [OF moved_failed [OF c(2,3)]]) (auto simp: outcome_post_def stopped_def sent_within_Nil)
    show ?thesis
    proof (cases "\<exists>conn bs. connected (jb_user j) ''notion'' db = Some conn \<and> wd_keys deps \<noteq> [] \<and>
        decrypt_bytes_with_any (wd_crypto deps) (wd_keys deps) (cn_token conn) = Inr bs")
      case True
      then obtain conn bs where t: "connected (jb_user j) ''notion'' db = Some conn" "wd_keys deps \<noteq> []"
        "decrypt_bytes_with_any (wd_crypto deps) (wd_keys deps) (cn_token conn) = Inr bs" by blast
      obtain r where pub: "publish j deps a (moment_of a db) conn (token_text bs) db1 = (r, db')"
        and out: "out = (case r of Inl o1 \<Rightarrow> o1 | Inr o2 \<Rightarrow> o2)"
        using ex fa nd assms(3) run c(1) t
        by (auto simp: execute_action_def run_action_def and_then_def open_token_def conn1 split: prod.splits sum.splits)
      have "moved calls j (call_allowed j deps a (moment_of a db) (token_text bs) (ax_media db1)) db1 db' (final_post x r)"
        using publish_stage [OF assms(1,4) ids] pub c(2,3,4) unfolding stage_def by blast
      then have "moved calls j (run_call_allowed j deps a db) db1 db' (outcome_post x out)"
        using t c(5) out
        by (auto simp: moved_def run_call_allowed_def list_all_iff final_post_def outcome_post_def stopped_def split: sum.splits run_outcome.splits)
      then show ?thesis using onward post_x by (simp add: moved_def)
    next
      case False
      then obtain reason where "terminal j reason db1 = (Inl out, db')"
        using ex fa nd assms(3) run c(1)
        by (auto simp: execute_action_def run_action_def and_then_def open_token_def conn1 terminal_def split: option.splits if_splits sum.splits)
      then show ?thesis using fail1 onward post_x by (auto simp: terminal_def moved_def)
    qed
  qed
qed

lemma run_job_running:
  assumes "wd_notion deps = client" "left \<noteq> 0" "row_after j db a" "running (an_status a)" "list_all no_dot (approved_media a)"
  shows "moved calls j (\<lambda>_. True) db (run_job j deps made left db)
    (\<lambda>cs a'. (an_status a' = Done \<or> an_status a' = Failed) \<and> last_create left cs \<and> sent_within a cs (\<lambda>_. 1))"
  using assms(2-)
proof (induction left arbitrary: made db a)
  case (Suc left)
  obtain out db1 where ex: "execute_action j deps (made + 1) db = (out, db1)" by (cases "execute_action j deps (made + 1) db")
  have m: "moved calls j (\<lambda>_. True) db db1 (outcome_post a out)"
    using execute_running [OF assms(1) Suc.prems(2-4) ex] by (auto simp: moved_def list_all_iff)
  show ?case
  proof (cases "\<exists>e. out = Run_transient e")
    case False
    then have "run_job j deps made (Suc left) db = db1" using ex by (auto split: run_outcome.split)
    then show ?thesis
      using m False by (auto elim!: moved_mono simp: outcome_post_def stopped_def intro!: last_create_one split: run_outcome.splits if_splits)
  next
    case True
    then obtain e where e: "out = Run_transient e" by blast
    show ?thesis
    proof (rule moved_trans [OF m])
      fix cs a1
      assume p: "outcome_post a out cs a1" and a1: "row_after j db1 a1"
      then have r1: "running (an_status a1)" "creates_of cs \<le> 1" "list_all retried cs" "sent_within a cs (sent a1)"
        by (auto simp: outcome_post_def stopped_def e)
      have "approved_media a1 = approved_media a"
        using row_after_key [OF execute_keeps_keys [OF ex] Suc.prems(2) a1] by (simp add: action_key_def approved_media_def)
      then have nd: "list_all no_dot (approved_media a1)" using Suc.prems(4) by simp
      have "moved calls j (\<lambda>_. True) db1 (run_job j deps made (Suc left) db)
        (\<lambda>ds a'. (an_status a' = Done \<or> an_status a' = Failed) \<and> last_create left ds \<and> sent_within a1 ds (\<lambda>_. 1))"
      proof (cases "left = 0")
        case True
        then have "run_job j deps made (Suc left) db = mark_action_failed j (take 200 e) db1" using ex e by simp
        then show ?thesis by (simp only:) (rule moved_mono [OF moved_failed [OF a1 r1(1)]], simp add: sent_within_Nil last_create_Nil)
      next
        case False
        then have "run_job j deps made (Suc left) db = run_job j deps (made + 1) left db1" using ex e by simp
        then show ?thesis using Suc.IH [OF False a1 r1(1) nd] by simp
      qed
      then show "moved calls j (\<lambda>_. True) db1 (run_job j deps made (Suc left) db)
        (\<lambda>ds a'. (an_status a' = Done \<or> an_status a' = Failed) \<and> last_create (Suc left) (cs @ ds) \<and> sent_within a (cs @ ds) (\<lambda>_. 1))"
        by (rule moved_mono) (use r1 sent_within_append last_create_append in auto)
    qed
  qed
qed simp

end

definition traced_deps :: "'p notion_client \<Rightarrow> bytes list \<Rightarrow> 's store_ops option \<Rightarrow> crypto \<Rightarrow> ('s, 'p \<times> provider_call list) worker_deps" where
  "traced_deps client keys store cr = \<lparr>wd_notion = traced client, wd_keys = keys, wd_store = store, wd_crypto = cr\<rparr>"

lemma execute_not_running:
  "find_action (jb_action j) (jb_user j) db = None \<Longrightarrow> execute_action j deps attempt db = (Run_skipped, db)"
  "find_action (jb_action j) (jb_user j) db = Some a \<Longrightarrow> \<not> running (an_status a) \<Longrightarrow>
     execute_action j deps attempt db = (if an_status a = Done then Run_done else Run_skipped, db)"
  by (auto simp: execute_action_def run_action_def)

text \<open>C14. Nothing leaves for Notion but what was approved, whatever the provider answers. A run that calls the
  provider at all found the action queued or executing; every call carries the token decrypted from the
  active connection of the action's own user, every uploaded file is one of the media ids written at
  approval, read through the gate for that user in the state \<open>applied\<close>, the page content is the one the
  preview is built from, and creating a page is asked for at most once.\<close>

theorem worker_sends_only_approved:
  "(case execute_action j (traced_deps client keys store cr) attempt db of (out, db') \<Rightarrow>
     (case find_action (jb_action j) (jb_user j) db of
        None \<Rightarrow> db' = db
      | Some a \<Rightarrow>
          if \<not> running (an_status a) then db' = db
          else if list_all no_dot (approved_media a)
          then (\<exists>cs. snd (ax_provider db') = snd (ax_provider db) @ cs \<and> creates_of cs \<le> 1 \<and>
                  list_all (run_call_allowed j (traced_deps client keys store cr) a db) cs)
          else True))"
proof -
  let ?deps = "traced_deps client keys store cr"
  obtain out db' where ex: "execute_action j ?deps attempt db = (out, db')" by (cases "execute_action j ?deps attempt db")
  have w: "wd_notion ?deps = traced client" by (simp add: traced_deps_def)
  show ?thesis
  proof (cases "find_action (jb_action j) (jb_user j) db")
    case None
    then show ?thesis using execute_not_running(1) [OF None] by simp
  next
    case (Some a)
    show ?thesis
    proof (cases "running (an_status a) \<and> list_all no_dot (approved_media a)")
      case True
      have "moved snd j (run_call_allowed j ?deps a db) db db' (outcome_post a out)"
        using tl.execute_running [OF w _ _ _ ex] Some True by (simp add: row_after_def)
      then have "\<exists>cs. snd (ax_provider db') = snd (ax_provider db) @ cs \<and> creates_of cs \<le> 1 \<and> list_all (run_call_allowed j ?deps a db) cs"
        by (auto simp: moved_def outcome_post_def stopped_def split: if_splits)
      then show ?thesis using ex Some True by simp
    next
      case False
      then show ?thesis using execute_not_running(2) [OF Some] Some by (auto split: prod.split)
    qed
  qed
qed

text \<open>C15. What one job can send, over all its attempts and whatever the provider answers. It asks for a page at most
  once per attempt; every such request before the last one was answered with a transient error (no reply, 429 or 5xx),
  so none follows one that was acknowledged or rejected. A page exists twice only where Notion carried out a request
  that it answered in that way. An upload of an approved media item is acknowledged at most once, counting what an
  earlier job had already stored on the row.\<close>

theorem job_sends_at_most_once:
  "(case find_action (jb_action j) (jb_user j) db of
      None \<Rightarrow> True
    | Some a \<Rightarrow>
        if running (an_status a) \<and> list_all no_dot (approved_media a) \<and> no_dot m
        then (\<exists>before after.
                snd (ax_provider (run_job j (traced_deps client keys store cr) made (Suc left) db)) = snd (ax_provider db) @ before @ after \<and>
                list_all retried before \<and> creates_of after \<le> 1 \<and> creates_of (before @ after) \<le> Suc left \<and>
                uploads_of m (before @ after) + sent a m \<le> 1)
        else True)"
proof (cases "find_action (jb_action j) (jb_user j) db")
  case (Some a)
  show ?thesis
  proof (cases "running (an_status a) \<and> list_all no_dot (approved_media a) \<and> no_dot m")
    case True
    have "moved snd j (\<lambda>_. True) db (run_job j (traced_deps client keys store cr) made (Suc left) db)
      (\<lambda>cs a'. (an_status a' = Done \<or> an_status a' = Failed) \<and> last_create (Suc left) cs \<and> sent_within a cs (\<lambda>_. 1))"
      by (rule tl.run_job_running) (use True Some in \<open>simp_all add: traced_deps_def row_after_def\<close>)
    then obtain cs where cs: "snd (ax_provider (run_job j (traced_deps client keys store cr) made (Suc left) db)) = snd (ax_provider db) @ cs"
      "last_create (Suc left) cs" "sent_within a cs (\<lambda>_. 1)" by (auto simp: moved_def)
    from cs(2) obtain before after where "cs = before @ after" "list_all retried before" "creates_of after \<le> 1" "creates_of cs \<le> Suc left"
      unfolding last_create_def by blast
    moreover have "uploads_of m cs + sent a m \<le> 1" using cs(3) True by (auto simp: sent_within_def no_dot_def)
    ultimately show ?thesis using cs(1) Some True by auto
  qed (use Some in auto)
qed simp

text \<open>C16. Every job settles: when its attempts are over, an action that was queued or executing is done or failed,
  so no approved action is left hanging, and an action in any other state is left as it was.\<close>

theorem job_settles_action:
  "(case find_action (jb_action j) (jb_user j) db of
      None \<Rightarrow> run_job j (traced_deps client keys store cr) made (Suc left) db = db
    | Some a \<Rightarrow>
        if \<not> running (an_status a) then run_job j (traced_deps client keys store cr) made (Suc left) db = db
        else if list_all no_dot (approved_media a)
        then (case find_action (jb_action j) (jb_user j) (run_job j (traced_deps client keys store cr) made (Suc left) db) of
                None \<Rightarrow> False | Some a' \<Rightarrow> an_status a' = Done \<or> an_status a' = Failed)
        else True)"
proof (cases "find_action (jb_action j) (jb_user j) db")
  case None
  then show ?thesis by (simp add: execute_not_running(1))
next
  case (Some a)
  show ?thesis
  proof (cases "running (an_status a) \<and> list_all no_dot (approved_media a)")
    case True
    have "moved snd j (\<lambda>_. True) db (run_job j (traced_deps client keys store cr) made (Suc left) db)
      (\<lambda>cs a'. (an_status a' = Done \<or> an_status a' = Failed) \<and> last_create (Suc left) cs \<and> sent_within a cs (\<lambda>_. 1))"
      by (rule tl.run_job_running) (use True Some in \<open>simp_all add: traced_deps_def row_after_def\<close>)
    then show ?thesis using Some True by (auto simp: moved_def row_after_def)
  next
    case False
    then show ?thesis using execute_not_running(2) [OF Some] Some by auto
  qed
qed

end
