(* ===== verification/Action_Steps.thy ===== *)
theory Action_Steps
  imports Action_Worker
begin

text \<open>
  One action under concurrency. The API handlers and any number of worker runs interleave at the level of their
  database statements: every rule of \<open>life_step\<close> is one statement, or one call of the queue or of the provider,
  of \<open>routes-m2.ts\<close> or \<open>actions.ts\<close>. BullMQ delivers a job at least once, so a job in the queue may start a run
  at any time, also while another run of it is alive, and a run may stop at any point when its process dies.
  The parameter \<open>honest\<close> says whether a failed \<open>queue.add\<close> means that no job was added.
\<close>

datatype run_pc = Pc_loaded | Pc_claimed | Pc_created | Pc_ended

record life =
  lf_row :: action_row
  lf_enqueueing :: bool \<comment> \<open>an approval holds the row and is about to add its job\<close>
  lf_job :: bool \<comment> \<open>the job is known to the queue\<close>
  lf_runs :: "run_pc list"
  lf_pages :: nat

definition running_row :: "life \<Rightarrow> bool" where
  "running_row s \<longleftrightarrow> running (an_status (lf_row s))"

inductive life_step :: "bool \<Rightarrow> string \<Rightarrow> life \<Rightarrow> life \<Rightarrow> bool" for honest user where
  approve_claim: "pending (an_id (lf_row s)) user (lf_row s) \<Longrightarrow>
     life_step honest user s (s\<lparr>lf_row := set_queued user dest ids (lf_row s), lf_enqueueing := True\<rparr>)"
| enqueue_ok: "lf_enqueueing s \<Longrightarrow> life_step honest user s (s\<lparr>lf_enqueueing := False, lf_job := True\<rparr>)"
| enqueue_failed: "lf_enqueueing s \<Longrightarrow> added \<longrightarrow> \<not> honest \<Longrightarrow>
     life_step honest user s (s\<lparr>lf_row := (lf_row s)\<lparr>an_status := Proposed, an_approved_by := None\<rparr>,
       lf_enqueueing := False, lf_job := added \<or> lf_job s\<rparr>)"
| rejected: "pending (an_id (lf_row s)) user (lf_row s) \<Longrightarrow>
     life_step honest user s (s\<lparr>lf_row := (lf_row s)\<lparr>an_status := Rejected\<rparr>\<rparr>)"
| deliver: "lf_job s \<Longrightarrow> running_row s \<Longrightarrow> life_step honest user s (s\<lparr>lf_runs := lf_runs s @ [Pc_loaded]\<rparr>)"
| claim: "i < length (lf_runs s) \<Longrightarrow> lf_runs s ! i = Pc_loaded \<Longrightarrow> running_row s \<Longrightarrow>
     life_step honest user s (s\<lparr>lf_row := (lf_row s)\<lparr>an_status := Executing\<rparr>, lf_runs := (lf_runs s)[i := Pc_claimed]\<rparr>)"
| claim_lost: "i < length (lf_runs s) \<Longrightarrow> lf_runs s ! i = Pc_loaded \<Longrightarrow> \<not> running_row s \<Longrightarrow>
     life_step honest user s (s\<lparr>lf_runs := (lf_runs s)[i := Pc_ended]\<rparr>)"
| save_media: "i < length (lf_runs s) \<Longrightarrow> lf_runs s ! i = Pc_claimed \<Longrightarrow>
     life_step honest user s (s\<lparr>lf_row := (lf_row s)\<lparr>an_result := Some ((case an_result (lf_row s) of None \<Rightarrow> no_result | Some r \<Rightarrow> r)
       \<lparr>rs_uploads := Some uploads\<rparr>)\<rparr>\<rparr>)"
| create: "i < length (lf_runs s) \<Longrightarrow> lf_runs s ! i = Pc_claimed \<Longrightarrow>
     life_step honest user s (s\<lparr>lf_runs := (lf_runs s)[i := Pc_created], lf_pages := lf_pages s + 1\<rparr>)"
| finish: "i < length (lf_runs s) \<Longrightarrow> lf_runs s ! i = Pc_created \<Longrightarrow>
     life_step honest user s (s\<lparr>lf_row := (lf_row s)\<lparr>an_status := Done, an_result := Some (no_result\<lparr>rs_page_id := Some page\<rparr>)\<rparr>,
       lf_runs := (lf_runs s)[i := Pc_ended]\<rparr>)"
| give_up: "i < length (lf_runs s) \<Longrightarrow> lf_runs s ! i \<noteq> Pc_ended \<Longrightarrow> running_row s \<Longrightarrow>
     life_step honest user s (s\<lparr>lf_row := (lf_row s)\<lparr>an_status := Failed, an_result := Some (no_result\<lparr>rs_error := Some reason\<rparr>)\<rparr>,
       lf_runs := (lf_runs s)[i := Pc_ended]\<rparr>)"
| late_failure: "lf_job s \<Longrightarrow> running_row s \<Longrightarrow>
     life_step honest user s (s\<lparr>lf_row := (lf_row s)\<lparr>an_status := Failed, an_result := Some (no_result\<lparr>rs_error := Some reason\<rparr>)\<rparr>\<rparr>)"
| stop: "i < length (lf_runs s) \<Longrightarrow> life_step honest user s (s\<lparr>lf_runs := (lf_runs s)[i := Pc_ended]\<rparr>)"

definition fresh_life :: "action_row \<Rightarrow> life" where
  \<comment> \<open>a proposed action as the enrichment worker inserts it\<close>
  "fresh_life a = \<lparr>lf_row = a\<lparr>an_status := Proposed, an_approved_by := None, an_result := None\<rparr>, lf_enqueueing = False,
     lf_job = False, lf_runs = [], lf_pages = 0\<rparr>"

inductive life_reach :: "bool \<Rightarrow> string \<Rightarrow> action_row \<Rightarrow> life \<Rightarrow> bool" for honest user a where
  start: "life_reach honest user a (fresh_life a)"
| step: "life_reach honest user a s \<Longrightarrow> life_step honest user s t \<Longrightarrow> life_reach honest user a t"

lemmas life_steps = life_step.intros
inductive_cases life_stepE: "life_step honest user s t"

definition life_inv :: "string \<Rightarrow> life \<Rightarrow> bool" where
  "life_inv user s \<longleftrightarrow>
     (lf_runs s \<noteq> [] \<or> 0 < lf_pages s \<longrightarrow> lf_job s) \<and>
     (lf_job s \<longrightarrow> \<not> lf_enqueueing s \<and> an_approved_by (lf_row s) = Some user \<and>
        an_status (lf_row s) \<in> {Queued, Executing, Done, Failed}) \<and>
     (lf_enqueueing s \<longrightarrow> an_status (lf_row s) = Queued \<and> an_approved_by (lf_row s) = Some user)"

lemma life_inv_step: "life_step True user s t \<Longrightarrow> life_inv user s \<Longrightarrow> life_inv user t"
  by (erule life_stepE) (auto simp: life_inv_def pending_def set_queued_def running_row_def running_def)

lemma life_inv_reach: "life_reach True user a s \<Longrightarrow> life_inv user s"
proof (induction rule: life_reach.induct)
  case start
  then show ?case by (simp add: life_inv_def fresh_life_def)
next
  case (step s t)
  then show ?case by (blast intro: life_inv_step)
qed

lemma decided_stay:
  "life_step True user s t \<Longrightarrow> life_inv user s \<Longrightarrow> an_status (lf_row s) = Done \<or> an_status (lf_row s) = Rejected \<Longrightarrow>
     an_status (lf_row t) = an_status (lf_row s)"
  by (erule life_stepE) (auto simp: life_inv_def pending_def set_queued_def running_row_def running_def)

lemma running_approved_step:
  "life_step honest user s t \<Longrightarrow> (running_row s \<longrightarrow> an_approved_by (lf_row s) = Some user) \<Longrightarrow>
     running_row t \<longrightarrow> an_approved_by (lf_row t) = Some user"
  by (erule life_stepE) (auto simp: pending_def set_queued_def running_row_def running_def)

lemma running_approved: "life_reach honest user a s \<Longrightarrow> running_row s \<longrightarrow> an_approved_by (lf_row s) = Some user"
proof (induction rule: life_reach.induct)
  case start
  then show ?case by (simp add: fresh_life_def running_row_def running_def)
next
  case (step s t)
  then show ?case using running_approved_step by blast
qed

definition new_claim :: "life \<Rightarrow> life \<Rightarrow> bool" where
  \<comment> \<open>the step from \<open>s\<close> to \<open>t\<close> starts a run or lets one claim the action\<close>
  "new_claim s t \<longleftrightarrow> length (lf_runs s) < length (lf_runs t) \<or>
     list_ex (\<lambda>i. lf_runs t ! i = Pc_claimed \<and> lf_runs s ! i \<noteq> Pc_claimed) [0..<length (lf_runs s)]"

lemma new_claim_running: "life_step honest user s t \<Longrightarrow> new_claim s t \<Longrightarrow> running_row s"
  by (erule life_stepE) (auto simp: new_claim_def list_ex_iff nth_list_update split: if_splits)

text \<open>C17. Approval under any interleaving of approvals, rejections, redelivered jobs and dying workers. Whatever the
  queue does, a run starts or claims the action only while the row carries the approval of the user and is queued or
  executing. When moreover a failed \<open>queue.add\<close> has added no job (\<open>honest\<close>), what is published stays approved: once a
  page exists the row carries the approval and is neither proposed nor rejected, a rejected action has no job, no run
  and no page, and no step takes an action out of \<open>done\<close> or \<open>rejected\<close>. Without that condition the second part fails,
  see the lemma \<open>unreliable_queue_publishes_undone\<close>.\<close>

theorem published_only_if_approved:
  assumes "life_reach honest user a s"
  shows "(\<forall>t. if life_step honest user s t \<and> new_claim s t
              then an_approved_by (lf_row s) = Some user \<and> running (an_status (lf_row s)) else True) \<and>
    (if honest
     then (if 0 < lf_pages s
           then an_approved_by (lf_row s) = Some user \<and> an_status (lf_row s) \<noteq> Proposed \<and> an_status (lf_row s) \<noteq> Rejected
           else True) \<and>
       (if an_status (lf_row s) = Rejected then \<not> lf_job s \<and> lf_runs s = [] \<and> lf_pages s = 0 else True) \<and>
       (if an_status (lf_row s) = Done \<or> an_status (lf_row s) = Rejected
        then (\<forall>t. life_step honest user s t \<longrightarrow> an_status (lf_row t) = an_status (lf_row s)) else True)
     else True)"
proof (intro conjI)
  show "\<forall>t. if life_step honest user s t \<and> new_claim s t
      then an_approved_by (lf_row s) = Some user \<and> running (an_status (lf_row s)) else True"
    using running_approved [OF assms] new_claim_running [of honest user s] by (auto simp: running_row_def)
next
  show "if honest
     then (if 0 < lf_pages s
           then an_approved_by (lf_row s) = Some user \<and> an_status (lf_row s) \<noteq> Proposed \<and> an_status (lf_row s) \<noteq> Rejected
           else True) \<and>
       (if an_status (lf_row s) = Rejected then \<not> lf_job s \<and> lf_runs s = [] \<and> lf_pages s = 0 else True) \<and>
       (if an_status (lf_row s) = Done \<or> an_status (lf_row s) = Rejected
        then (\<forall>t. life_step honest user s t \<longrightarrow> an_status (lf_row t) = an_status (lf_row s)) else True)
     else True"
  proof (cases honest)
    case True
    then have "life_inv user s" using life_inv_reach assms by simp
    then show ?thesis using True decided_stay [of user s] by (auto simp: life_inv_def)
  qed simp
qed

subsection \<open>Runs\<close>

definition sample_action :: action_row where
  "sample_action =
     \<lparr>an_id = ''a1'', an_user = ''u1'', an_type = ''notion_page'', an_risk = 1, an_status = Proposed, an_moment = None,
      an_project = None, an_payload = \<lparr>py_title = Some ''Notes'', py_detail = None, py_priority = None,
        py_destination = None, py_media_ids = None\<rparr>, an_result = None, an_approved_by = None\<rparr>"

definition with_runs :: "run_pc list \<Rightarrow> nat \<Rightarrow> life" where
  \<comment> \<open>the approved sample action in execution\<close>
  "with_runs pcs pages =
     \<lparr>lf_row = (set_queued ''u1'' None [] sample_action)\<lparr>an_status := Executing\<rparr>, lf_enqueueing = False, lf_job = True,
      lf_runs = pcs, lf_pages = pages\<rparr>"

lemma queued_sample: "life_reach honest ''u1'' sample_action
    \<lparr>lf_row = set_queued ''u1'' None [] sample_action, lf_enqueueing = False, lf_job = True, lf_runs = [], lf_pages = 0\<rparr>"
proof -
  let ?s = "fresh_life sample_action"
  have 1: "life_step honest ''u1'' ?s (?s\<lparr>lf_row := set_queued ''u1'' None [] (lf_row ?s), lf_enqueueing := True\<rparr>)"
    by (rule approve_claim) (simp add: fresh_life_def sample_action_def pending_def)
  note r1 = life_reach.step [OF life_reach.start 1]
  have "life_step honest ''u1'' (?s\<lparr>lf_row := set_queued ''u1'' None [] (lf_row ?s), lf_enqueueing := True\<rparr>)
      (?s\<lparr>lf_row := set_queued ''u1'' None [] (lf_row ?s), lf_enqueueing := True\<rparr>\<lparr>lf_enqueueing := False, lf_job := True\<rparr>)"
    by (rule enqueue_ok) simp
  from life_reach.step [OF r1 this] show ?thesis
    by (simp add: fresh_life_def sample_action_def set_queued_def)
qed

lemma two_runs_sample: "life_reach honest ''u1'' sample_action (with_runs [Pc_claimed, Pc_loaded] 0)"
proof -
  let ?s = "\<lparr>lf_row = set_queued ''u1'' None [] sample_action, lf_enqueueing = False, lf_job = True, lf_runs = [], lf_pages = 0\<rparr>"
  have run: "running_row ?s" by (simp add: running_row_def running_def set_queued_def)
  have 1: "life_step honest ''u1'' ?s (?s\<lparr>lf_runs := [Pc_loaded]\<rparr>)"
    using deliver [of ?s honest "''u1''"] run by simp
  have 2: "life_step honest ''u1'' (?s\<lparr>lf_runs := [Pc_loaded]\<rparr>) (?s\<lparr>lf_runs := [Pc_loaded, Pc_loaded]\<rparr>)"
    using deliver [of "?s\<lparr>lf_runs := [Pc_loaded]\<rparr>" honest "''u1''"] run by (simp add: running_row_def)
  have 3: "life_step honest ''u1'' (?s\<lparr>lf_runs := [Pc_loaded, Pc_loaded]\<rparr>) (with_runs [Pc_claimed, Pc_loaded] 0)"
    using claim [of 0 "?s\<lparr>lf_runs := [Pc_loaded, Pc_loaded]\<rparr>" honest "''u1''"] run
    by (simp add: running_row_def with_runs_def)
  show ?thesis by (rule life_reach.step [OF life_reach.step [OF life_reach.step [OF queued_sample 1] 2] 3])
qed

theorem published_only_if_approved_witness:
  "an_approved_by (lf_row (with_runs [Pc_created, Pc_loaded] 1)) = Some ''u1''"
proof -
  have "life_step True ''u1'' (with_runs [Pc_claimed, Pc_loaded] 0) (with_runs [Pc_created, Pc_loaded] 1)"
    using create [of 0 "with_runs [Pc_claimed, Pc_loaded] 0" True "''u1''"] by (simp add: with_runs_def)
  then have "life_reach True ''u1'' sample_action (with_runs [Pc_created, Pc_loaded] 1)"
    by (rule life_reach.step [OF two_runs_sample])
  from published_only_if_approved [OF this] show ?thesis by (simp add: with_runs_def)
qed

text \<open>A queue that added the job although \<open>add\<close> failed: the approval is undone, a second approval lets the first job
  run while its own \<open>add\<close> is under way, and when that fails as well the page exists for an action that is proposed
  and carries no approval.\<close>

lemma unreliable_queue_publishes_undone:
  "\<exists>s. life_reach False ''u1'' sample_action s \<and> 0 < lf_pages s \<and> an_status (lf_row s) = Proposed \<and> an_approved_by (lf_row s) = None"
proof -
  let ?q = "set_queued ''u1'' None []"
  let ?undo = "\<lambda>a. a\<lparr>an_status := Proposed, an_approved_by := None\<rparr>"
  define r0 where "r0 = lf_row (fresh_life sample_action)"
  define r1 where "r1 = ?undo (?q r0)"
  define r2 where "r2 = ?q r1"
  note rows = r0_def r1_def r2_def fresh_life_def sample_action_def set_queued_def
  let ?st = "\<lambda>r e j runs n. \<lparr>lf_row = r, lf_enqueueing = e, lf_job = j, lf_runs = runs, lf_pages = n\<rparr>"
  have s0: "life_reach False ''u1'' sample_action (?st r0 False False [] 0)"
    using life_reach.start [of False "''u1''" sample_action] by (simp add: rows)
  have 1: "life_step False ''u1'' (?st r0 False False [] 0) (?st (?q r0) True False [] 0)"
    using approve_claim [of "?st r0 False False [] 0" "''u1''" False None "[]"] by (simp add: rows pending_def)
  have 2: "life_step False ''u1'' (?st (?q r0) True False [] 0) (?st r1 False True [] 0)"
    using enqueue_failed [of "?st (?q r0) True False [] 0" True False "''u1''"] by (simp add: r1_def)
  have 3: "life_step False ''u1'' (?st r1 False True [] 0) (?st r2 True True [] 0)"
    using approve_claim [of "?st r1 False True [] 0" "''u1''" False None "[]"] by (simp add: rows pending_def)
  have run: "running_row (?st r2 e j runs n)" for e j runs n by (simp add: rows running_row_def running_def)
  have 4: "life_step False ''u1'' (?st r2 True True [] 0) (?st r2 True True [Pc_loaded] 0)"
    using deliver [of "?st r2 True True [] 0" False "''u1''"] run by simp
  have 5: "life_step False ''u1'' (?st r2 True True [Pc_loaded] 0) (?st (r2\<lparr>an_status := Executing\<rparr>) True True [Pc_claimed] 0)"
    using claim [of 0 "?st r2 True True [Pc_loaded] 0" False "''u1''"] run by simp
  have 6: "life_step False ''u1'' (?st (r2\<lparr>an_status := Executing\<rparr>) True True [Pc_claimed] 0)
      (?st (r2\<lparr>an_status := Executing\<rparr>) True True [Pc_created] 1)"
    using create [of 0 "?st (r2\<lparr>an_status := Executing\<rparr>) True True [Pc_claimed] 0" False "''u1''"] by simp
  have 7: "life_step False ''u1'' (?st (r2\<lparr>an_status := Executing\<rparr>) True True [Pc_created] 1)
      (?st (?undo (r2\<lparr>an_status := Executing\<rparr>)) False True [Pc_created] 1)"
    using enqueue_failed [of "?st (r2\<lparr>an_status := Executing\<rparr>) True True [Pc_created] 1" True False "''u1''"] by simp
  have "life_reach False ''u1'' sample_action (?st (?undo (r2\<lparr>an_status := Executing\<rparr>)) False True [Pc_created] 1)"
    by (intro life_reach.step [OF _ 7] life_reach.step [OF _ 6] life_reach.step [OF _ 5] life_reach.step [OF _ 4]
        life_reach.step [OF _ 3] life_reach.step [OF _ 2] life_reach.step [OF _ 1] s0)
  then show ?thesis
    by (intro exI [of _ "?st (?undo (r2\<lparr>an_status := Executing\<rparr>)) False True [Pc_created] 1"]) simp
qed

text \<open>The claim admits a second run while the first is alive, because it accepts the status \<open>executing\<close>: a job
  redelivered after a stall can publish the page twice, even with an honest queue.\<close>

lemma stalled_job_can_publish_twice: "\<exists>s. life_reach True ''u1'' sample_action s \<and> lf_pages s = 2"
proof -
  have run: "running_row (with_runs pcs n)" for pcs n by (simp add: running_row_def running_def with_runs_def)
  have 1: "life_step True ''u1'' (with_runs [Pc_claimed, Pc_loaded] 0) (with_runs [Pc_claimed, Pc_claimed] 0)"
    using claim [of 1 "with_runs [Pc_claimed, Pc_loaded] 0" True "''u1''"] run by (simp add: with_runs_def)
  have 2: "life_step True ''u1'' (with_runs [Pc_claimed, Pc_claimed] 0) (with_runs [Pc_created, Pc_claimed] 1)"
    using create [of 0 "with_runs [Pc_claimed, Pc_claimed] 0" True "''u1''"] by (simp add: with_runs_def)
  have 3: "life_step True ''u1'' (with_runs [Pc_created, Pc_claimed] 1) (with_runs [Pc_created, Pc_created] 2)"
    using create [of 1 "with_runs [Pc_created, Pc_claimed] 1" True "''u1''"] by (simp add: with_runs_def numeral_2_eq_2)
  have "life_reach True ''u1'' sample_action (with_runs [Pc_created, Pc_created] 2)"
    by (rule life_reach.step [OF life_reach.step [OF life_reach.step [OF two_runs_sample 1] 2] 3])
  then show ?thesis by (intro exI [of _ "with_runs [Pc_created, Pc_created] 2"]) (simp add: with_runs_def)
qed

end
