(* ===== verification/Sanitize.thy ===== *)
theory Sanitize
  imports Regex
begin

text \<open>
  The sanitizer of the validation gate, \<open>tools/validation-gate/src/sanitization.ts\<close>: redaction of the known
  secret values, longest first, then of secret shapes by the pattern table. The main result is that a declared
  secret does not survive in the output.
\<close>

subsection \<open>Layer 1: known values\<close>

definition redacted :: string where
  "redacted = ''[REDACTED]''"

definition secret_env_names :: "string list" where
  "secret_env_names =
     [''DATABASE_URL'', ''REDIS_URL'', ''NOVA_ENCRYPTION_KEY'', ''NOVA_ENCRYPTION_KEY_OLD'', ''NOVA_ENCRYPTION_KEYS_PREVIOUS'',
      ''NOVA_BACKUP_KEY'', ''NOVA_ALPHA_INVITE_CODE'', ''NOVA_MEDIA_S3_ACCESS_KEY_ID'', ''NOVA_MEDIA_S3_SECRET_ACCESS_KEY'',
      ''NOVA_BACKUP_S3_ACCESS_KEY_ID'', ''NOVA_BACKUP_S3_SECRET_ACCESS_KEY'', ''NOVA_VALIDATE_EVIDENCE_S3_ACCESS_KEY_ID'',
      ''NOVA_VALIDATE_EVIDENCE_S3_SECRET_ACCESS_KEY'', ''OPENAI_API_KEY'', ''ANTHROPIC_API_KEY'', ''NOTION_CLIENT_SECRET'',
      ''GITHUB_TOKEN'', ''GH_TOKEN'', ''NOVA_VALIDATE_SESSION_TOKEN'', ''NOVA_SMOKE_INVITE'']"

definition env_literals :: "(string \<times> string) list \<Rightarrow> string list" where
  "env_literals env =
     filter (\<lambda>v. 6 \<le> length v) (concat (map (\<lambda>n. case map_of env n of None \<Rightarrow> [] | Some v \<Rightarrow> [v]) secret_env_names))"

definition literals :: "(string \<times> string) list \<Rightarrow> string list \<Rightarrow> string list" where
  \<comment> \<open>\<open>literals.sort((a, b) => b.length - a.length)\<close>, a stable sort\<close>
  "literals env extra = sort_key (\<lambda>v. - int (length v)) (env_literals env @ filter (\<lambda>v. 3 \<le> length v) extra)"

function replace_literal :: "string \<Rightarrow> string \<Rightarrow> string \<Rightarrow> string" where
  \<comment> \<open>\<open>s.replaceAll(v, r)\<close> for a non-empty string \<open>v\<close> and an \<open>r\<close> without \<open>$\<close>\<close>
  "replace_literal v r s =
     (if v \<noteq> [] \<and> starts_with s v then r @ replace_literal v r (drop (length v) s)
      else case s of [] \<Rightarrow> [] | c # cs \<Rightarrow> c # replace_literal v r cs)"
  by pat_completeness auto
termination
proof (relation "measure (\<lambda>(v, r, s). length s)", goal_cases)
  case (2 v r s)
  then show ?case by (cases s) (auto simp: starts_with_def)
qed auto

declare replace_literal.simps [simp del]

definition redact_literals :: "string list \<Rightarrow> string \<Rightarrow> string" where
  "redact_literals vs s = foldl (\<lambda>out v. replace_literal v redacted out) s vs"

subsection \<open>Layer 2: shapes\<close>

datatype replacement = Whole string | Group1 string
  \<comment> \<open>a fixed text, or \<open>$1\<close> followed by a fixed text\<close>

definition group_text :: "nat \<Rightarrow> string \<times> string \<times> (nat \<times> nat \<times> nat) list \<Rightarrow> string" where
  "group_text i mt =
     (case mt of (s0, s1, g) \<Rightarrow>
        (case map_of g i of None \<Rightarrow> [] | Some (a, b) \<Rightarrow> take (a - b) (drop (length s0 - a) s0)))"

fun replace_text :: "replacement \<Rightarrow> string \<times> string \<times> (nat \<times> nat \<times> nat) list \<Rightarrow> string" where
  "replace_text (Whole r) mt = r"
| "replace_text (Group1 r) mt = group_text 1 mt @ r"

fun splice_with :: "string \<Rightarrow> (string \<times> string \<times> 'g) list \<Rightarrow> (string \<times> string \<times> 'g \<Rightarrow> string) \<Rightarrow> string" where
  "splice_with s [] f = s"
| "splice_with s (mt # ms) f = take (length s - length (fst mt)) s @ f mt @ splice_with (fst (snd mt)) ms f"

definition apply_rule :: "string \<Rightarrow> re \<times> replacement \<Rightarrow> string" where
  \<comment> \<open>\<open>out.replace(re, replacement)\<close> for a global pattern without empty matches\<close>
  "apply_rule s rule = splice_with s (match_all (fst rule) None s) (replace_text (snd rule))"

definition scheme_char :: "char \<Rightarrow> bool" where
  "scheme_char c \<longleftrightarrow> alnum c \<or> one_of ''+.-'' c"

definition any_char :: "char \<Rightarrow> bool" where "any_char c = True"

definition not_space_or :: "char list \<Rightarrow> char \<Rightarrow> bool" where
  "not_space_or cs c \<longleftrightarrow> \<not> js_space c \<and> c \<notin> set cs"

definition private_key_re :: re where
  "private_key_re = cats
     [lit ''-----BEGIN'', star (CC (\<lambda>c. upper_az c \<or> c = CHR '' '')), lit ''PRIVATE KEY-----'',
      Rep False 0 None (CC any_char), lit ''-----END'', star (CC (\<lambda>c. upper_az c \<or> c = CHR '' '')), lit ''PRIVATE KEY-----'']"

definition dsn_re :: re where
  "dsn_re = cats
     [WordB, Grp 1 (Cat (CC alpha) (star (CC scheme_char))), lit ''://'',
      plus_re (CC (not_space_or [CHR 0x22, CHR 0x27, CHR ''@'', CHR ''/''])), lit ''@'']"

definition gate_data_url_re :: re where
  "gate_data_url_re = cats
     [lit_i ''data:'', plus_re (CC scheme_char), lit ''/'', plus_re (CC scheme_char), CC (one_of '';,''),
      star (CC (not_space_or [CHR 0x22, CHR 0x27, CHR '')'']))]"

definition octet :: re where "octet = Rep True 1 (Some 3) (CC digit)"

definition dot :: re where "dot = lit ''.''"

definition in_range :: "char \<Rightarrow> char \<Rightarrow> re" where "in_range a b = CC (\<lambda>c. a \<le> c \<and> c \<le> b)"

definition private_ip_re :: re where
  "private_ip_re = cats
     [WordB,
      alts
        [cats [lit ''10.'', octet, dot, octet, dot, octet],
         cats [lit ''172.'',
               alts [Cat (lit ''1'') (in_range (CHR ''6'') (CHR ''9'')), Cat (lit ''2'') (CC digit),
                     Cat (lit ''3'') (in_range (CHR ''0'') (CHR ''1''))],
               dot, octet, dot, octet],
         cats [lit ''192.168.'', octet, dot, octet],
         cats [lit ''169.254.'', octet, dot, octet],
         cats [lit ''100.'',
               alts [Cat (lit ''6'') (in_range (CHR ''4'') (CHR ''9'')), Cat (in_range (CHR ''7'') (CHR ''9'')) (CC digit),
                     cats [lit ''1'', in_range (CHR ''0'') (CHR ''1''), CC digit],
                     cats [lit ''12'', in_range (CHR ''0'') (CHR ''7'')]],
               dot, octet, dot, octet]],
      opt_re (Cat (lit '':'') (Rep True 1 (Some 5) (CC digit))), WordB]"

definition bearer_re :: re where
  "bearer_re = cats
     [WordB, Grp 1 (lit_i ''bearer''), plus_re (CC js_space), Rep True 6 None (CC (\<lambda>c. alnum c \<or> one_of ''._~+/=-'' c))]"

definition auth_header_re :: re where
  "auth_header_re = cats
     [WordB,
      Grp 1 (cats [alts [lit_i ''authorization'', lit_i ''proxy-authorization'', lit_i ''cookie'', lit_i ''set-cookie''],
                   star (CC js_space), CC (one_of '':=''), star (CC js_space)]),
      plus_re (CC (\<lambda>c. c \<noteq> CHR 0x0D \<and> c \<noteq> CHR 0x0A))]"

definition assignment_re :: re where
  "assignment_re =
     (let sep = opt_re (CC (one_of ''_-'')) in cats
       [WordB,
        Grp 1 (cats
          [alts [lit_i ''password'', lit_i ''passwd'', lit_i ''pwd'', lit_i ''secret'', lit_i ''token'',
                 cats [lit_i ''session'', sep, lit_i ''token''],
                 cats [lit_i ''access'', sep, lit_i ''key'', opt_re (Cat sep (lit_i ''id''))],
                 cats [lit_i ''api'', sep, lit_i ''key''], cats [lit_i ''invite'', sep, lit_i ''code''],
                 cats [lit_i ''client'', sep, lit_i ''secret'']],
           star (CC js_space), CC (one_of ''=:''), star (CC js_space)]),
        plus_re (CC (not_space_or [CHR ''&'', CHR '';'', CHR '','', CHR 0x22, CHR 0x27]))])"

definition tok_char :: "char \<Rightarrow> bool" where "tok_char c \<longleftrightarrow> alnum c \<or> one_of ''_-'' c"

definition patterns :: "(re \<times> replacement) list" where
  "patterns =
     [(private_key_re, Whole redacted),
      (dsn_re, Group1 (''://'' @ redacted @ ''@'')),
      (gate_data_url_re, Whole ''[REDACTED_DATA_URL]''),
      (cats [WordB, lit ''sk-ant-'', Rep True 8 None (CC tok_char)], Whole redacted),
      (cats [WordB, lit ''sk-'', Rep True 16 None (CC tok_char)], Whole redacted),
      (cats [WordB, alts [lit ''ghp'', lit ''gho'', lit ''ghu'', lit ''ghs'', lit ''ghr''], lit ''_'', Rep True 20 None (CC alnum), WordB],
       Whole redacted),
      (cats [WordB, lit ''github_pat_'', Rep True 20 None (CC (\<lambda>c. alnum c \<or> c = CHR ''_'')), WordB], Whole redacted),
      (cats [WordB, lit ''AKIA'', Rep True 16 (Some 16) (CC (\<lambda>c. digit c \<or> upper_az c)), WordB], Whole redacted),
      (cats [WordB, Rep True 64 (Some 64) (CC hex_digit), WordB], Whole redacted),
      (private_ip_re, Whole redacted),
      (bearer_re, Group1 ('' '' @ redacted)),
      (auth_header_re, Group1 redacted),
      (assignment_re, Group1 redacted)]"

definition sanitize :: "(string \<times> string) list \<Rightarrow> string list \<Rightarrow> string \<Rightarrow> string" where
  "sanitize env extra txt =
     (if txt = [] then txt else foldl apply_rule (redact_literals (literals env extra) txt) patterns)"

definition excerpt :: "nat \<Rightarrow> string \<Rightarrow> string" where
  "excerpt cap txt =
     (if length txt \<le> cap * 2 then txt
      else take cap txt @ [CHR 0x0A, ellipsis] @ '' ['' @ nat_str (length txt - cap * 2) @ '' bytes elided] '' @
           [ellipsis, CHR 0x0A] @ slice_last cap txt)"

subsection \<open>Redaction brings nothing new\<close>

text \<open>
  A character is plain when no marker can contribute it at an edge: markers are bracketed, or begin with a space.
  A text \<open>t\<close> is tame for \<open>s\<close> when every plain word of \<open>t\<close> was a word of \<open>s\<close> or is one of the markers'.
\<close>

definition plain :: "string \<Rightarrow> bool" where
  "plain v \<longleftrightarrow> v \<noteq> [] \<and> list_all (\<lambda>c. c \<noteq> CHR ''['' \<and> c \<noteq> CHR '']'' \<and> \<not> js_space c) v"

definition marks :: string where "marks = ''REDACTED_DATA_URL''"

definition tame :: "string \<Rightarrow> string \<Rightarrow> bool" where
  "tame s t \<longleftrightarrow> (\<forall>v. plain v \<longrightarrow> (prefix v t \<longrightarrow> prefix v s) \<and> (sublist v t \<longrightarrow> sublist v s \<or> sublist v marks))"

definition bracketed :: "string \<Rightarrow> bool" where
  "bracketed m \<longleftrightarrow> (\<exists>c mm d. m = c # mm @ [d] \<and> (\<forall>v. plain v \<longrightarrow> c \<notin> set v \<and> d \<notin> set v \<and> (sublist v mm \<longrightarrow> sublist v marks)))"

lemma prefix_before: "prefix v (u @ c # w) \<Longrightarrow> c \<notin> set v \<Longrightarrow> prefix v u"
  by (auto simp: prefix_append prefix_Cons)

lemma sublist_around:
  assumes "sublist v (u @ c # w)" "c \<notin> set v" "v \<noteq> []"
  shows "sublist v u \<or> sublist v w"
  using assms by (auto simp: sublist_append sublist_Cons_right prefix_Cons suffix_def)

lemma sublist_mid: "sublist v w \<Longrightarrow> sublist v (a @ w @ b)"
proof -
  assume "sublist v w"
  then obtain ps ss where "w = ps @ v @ ss" by (auto simp: sublist_def)
  then have "a @ w @ b = (a @ ps) @ v @ (ss @ b)" by simp
  then show ?thesis unfolding sublist_def by blast
qed

lemma plain_split: "plain (v1 @ v2) \<Longrightarrow> v2 = [] \<or> plain v2"
  by (auto simp: plain_def)

lemma tame_refl: "tame s s" by (simp add: tame_def)

lemma tame_trans: "tame s t \<Longrightarrow> tame t u \<Longrightarrow> tame s u" by (auto simp: tame_def)

lemma tame_Cons: "tame s t \<Longrightarrow> tame (c # s) (c # t)"
  unfolding tame_def using plain_split [of "[c]"] by (fastforce simp: prefix_Cons sublist_Cons_right)

lemma tame_append:
  assumes "tame s t"
  shows "tame (q @ s) (q @ t)"
  using assms by (induction q) (auto intro: tame_Cons)

lemma tame_insert:
  assumes "tame s t" "bracketed m" "x = p @ y" "x = z @ q"
  shows "tame (a @ x @ s) (a @ p @ m @ q @ t)"
  unfolding tame_def
proof (intro allI impI conjI)
  fix v assume v: "plain v"
  obtain c mm d where m: "m = c # mm @ [d]" "c \<notin> set v" "d \<notin> set v" "sublist v mm \<longrightarrow> sublist v marks"
    using assms(2) v unfolding bracketed_def by blast
  have ne: "v \<noteq> []" using v by (simp add: plain_def)
  { assume "prefix v (a @ p @ m @ q @ t)"
    then have "prefix v (a @ p)" using prefix_before [of v "a @ p" c] m by simp
    then show "prefix v (a @ x @ s)" using prefix_prefix [of v "a @ p" "y @ s"] assms(3) by simp }
  assume "sublist v (a @ p @ m @ q @ t)"
  then have "sublist v (a @ p) \<or> sublist v (mm @ d # q @ t)" using sublist_around [of v "a @ p" c] m ne by simp
  then consider "sublist v (a @ p)" | "sublist v mm" | "sublist v (q @ t)"
    using sublist_around [of v mm d "q @ t"] m ne by blast
  then show "sublist v (a @ x @ s) \<or> sublist v marks"
  proof cases
    case 1
    then show ?thesis using sublist_mid [of v "a @ p" "[]" "y @ s"] assms(3) by simp
  next
    case 3
    then have "sublist v (q @ s) \<or> sublist v marks" using tame_append [OF assms(1), of q] v unfolding tame_def by blast
    then show ?thesis using sublist_mid [of v "q @ s" "a @ z" "[]"] assms(4) by auto
  qed (use m in blast)
qed

lemma bracketed_markers:
  "bracketed redacted" "bracketed ''[REDACTED_DATA_URL]''" "bracketed ('' '' @ redacted)"
proof -
  have "js_space (CHR '' '')" by (simp add: js_space_def)
  then have edge: "CHR ''['' \<notin> set v" "CHR '']'' \<notin> set v" "CHR '' '' \<notin> set v" if "plain v" for v
    using that unfolding plain_def list_all_iff by blast+
  have sub: "sublist v marks" if "sublist v ''REDACTED''" for v
    using sublist_mid [OF that, of "[]" "''_DATA_URL''"] by (simp add: marks_def)
  show "bracketed redacted"
    unfolding bracketed_def
    by (rule exI [of _ "CHR ''[''"], rule exI [of _ "''REDACTED''"], rule exI [of _ "CHR '']''"])
      (use edge sub in \<open>auto simp: redacted_def\<close>)
  show "bracketed ''[REDACTED_DATA_URL]''"
    unfolding bracketed_def
    by (rule exI [of _ "CHR ''[''"], rule exI [of _ marks], rule exI [of _ "CHR '']''"])
      (use edge in \<open>auto simp: marks_def\<close>)
  have "sublist v ''REDACTED''" if "plain v" "sublist v ''[REDACTED''" for v
    using sublist_around [of v "[]" "CHR ''[''" "''REDACTED''"] that edge by (auto simp: plain_def)
  then show "bracketed ('' '' @ redacted)"
    unfolding bracketed_def
    by (intro exI [of _ "CHR '' ''"] exI [of _ "''[REDACTED''"] exI [of _ "CHR '']''"])
      (use edge sub in \<open>auto simp: redacted_def\<close>)
qed

subsection \<open>Layer 1 removes the values\<close>

lemma replace_literal_cases:
  obtains (hit) s1 where "v \<noteq> []" "s = v @ s1" "replace_literal v r s = r @ replace_literal v r s1"
  | (stop) "s = []" "replace_literal v r s = []"
  | (skip) c cs where "s = c # cs" "v = [] \<or> \<not> prefix v s" "replace_literal v r s = c # replace_literal v r cs"
proof (cases "v \<noteq> [] \<and> starts_with s v")
  case True
  then have "s = v @ drop (length v) s" by (metis append_take_drop_id starts_with_def)
  then show thesis using hit True by (simp add: replace_literal.simps [of v r s])
next
  case False
  note [simp] = starts_with_prefix
  show thesis
  proof (cases s)
    case Nil
    then show thesis using stop by (simp add: replace_literal.simps [of v r "[]"])
  next
    case (Cons c cs)
    have "replace_literal v r (c # cs) = c # replace_literal v r cs"
      by (subst replace_literal.simps) (use False Cons in auto)
    then show thesis using skip [of c cs] False Cons by simp
  qed
qed

lemma replace_literal_tame: "tame s (replace_literal v redacted s)"
proof (induction "length s" arbitrary: s rule: less_induct)
  case less
  show ?case
  proof (cases rule: replace_literal_cases [where v = v and s = s and r = redacted])
    case (hit s1)
    have "tame (v @ s1) ([] @ [] @ redacted @ [] @ replace_literal v redacted s1)"
      using tame_insert [OF less(1) bracketed_markers(1), of s1 v "[]" v v "[]" "[]"] hit by simp
    then show ?thesis using hit by simp
  qed (use less in \<open>auto intro: tame_refl tame_Cons\<close>)
qed

lemma replace_literal_gone:
  assumes "plain v" "\<not> sublist v marks"
  shows "\<not> sublist v (replace_literal v redacted s)"
proof (induction "length s" arbitrary: s rule: less_induct)
  case less
  have ne: "v \<noteq> []" using assms by (simp add: plain_def)
  show ?case
  proof (cases rule: replace_literal_cases [where v = v and s = s and r = redacted])
    case (hit s1)
    obtain c mm d where m: "redacted = c # mm @ [d]" "c \<notin> set v" "d \<notin> set v" "\<not> sublist v mm"
      using bracketed_markers(1) assms unfolding bracketed_def by blast
    have "\<not> sublist v (replace_literal v redacted s1)" using less(1) [of s1] hit ne by simp
    then have "\<not> sublist v (mm @ d # replace_literal v redacted s1)" using sublist_around [of v mm d "replace_literal v redacted s1"] m ne by blast
    then have "\<not> sublist v ([] @ c # mm @ d # replace_literal v redacted s1)"
      using sublist_around [of v "[]" c] m(2) ne by fastforce
    then have "\<not> sublist v (redacted @ replace_literal v redacted s1)" by (subst m(1)) simp
    then show ?thesis unfolding hit(3) .
  next
    case stop
    then show ?thesis using ne by simp
  next
    case (skip c cs)
    have "\<not> sublist v (replace_literal v redacted cs)" using less(1) [of cs] skip by simp
    moreover have "\<not> prefix v (replace_literal v redacted s)"
      using replace_literal_tame [of s v] assms(1) skip(2) ne unfolding tame_def by blast
    ultimately show ?thesis using skip by (simp add: sublist_Cons_right)
  qed
qed

lemma redact_literals_tame: "tame s (redact_literals vs s)"
proof (induction vs arbitrary: s)
  case (Cons v vs)
  show ?case using tame_trans [OF replace_literal_tame Cons.IH] by (simp add: redact_literals_def)
qed (simp add: redact_literals_def tame_refl)

lemma redact_literals_gone:
  assumes "v \<in> set vs" "plain v" "\<not> sublist v marks"
  shows "\<not> sublist v (redact_literals vs s)"
proof -
  obtain us ws where "vs = us @ v # ws" using assms(1) by (meson split_list)
  then have "redact_literals vs s = redact_literals ws (replace_literal v redacted (redact_literals us s))"
    by (simp add: redact_literals_def)
  then show ?thesis
    using redact_literals_tame replace_literal_gone [OF assms(2,3)] assms(2,3) unfolding tame_def by metis
qed

subsection \<open>Layer 2 keeps them out\<close>

lemma search_match: "search r b s = Some (s0, st) \<Longrightarrow> \<exists>b0. match_here r b0 s0 = Some st"
proof (induction r b s rule: search.induct)
  case (1 r b s)
  show ?case
  proof (cases "match_here r b s")
    case None
    with "1.prems" obtain c s' where s: "s = c # s'" and "search r (Some c) s' = Some (s0, st)"
      by (simp add: search.simps [of r b s] split: list.splits)
    then show ?thesis using "1.IH" [OF None s] by simp
  next
    case (Some st')
    with "1.prems" have "s0 = s" "st = st'" by (simp_all add: search.simps [of r b s])
    with Some show ?thesis by blast
  qed
qed

lemma match_all_match:
  "(s0, s1, g) \<in> set (match_all r b s) \<Longrightarrow> \<exists>b0 b1. match_here r b0 s0 = Some (b1, s1, g)"
proof (induction r b s rule: match_all.induct)
  case (1 r b s)
  show ?case
  proof (cases r b s rule: match_all_cases)
    case (hit t0 b1 t1 g1)
    then show ?thesis using "1.prems" search_match [OF hit(1)] "1.IH"(1) [OF hit(1) refl refl refl hit(2)] by auto
  next
    case (skip t0 b1 c s2 g1)
    then show ?thesis using "1.IH"(2) [OF skip(1) refl refl refl skip(2) refl] "1.prems" by simp
  qed (use "1.prems" in auto)
qed

text \<open>A rule is sound when each of its replacements is a piece of the match, a marker and a piece of the match.\<close>

definition sound_rule :: "re \<times> replacement \<Rightarrow> bool" where
  "sound_rule rule \<longleftrightarrow>
     (\<forall>b0 b1 s0 s1 g. match_here (fst rule) b0 s0 = Some (b1, s1, g) \<longrightarrow>
        (\<exists>x p y m z q. s0 = x @ s1 \<and> x = p @ y \<and> x = z @ q \<and> bracketed m \<and> replace_text (snd rule) (s0, s1, g) = p @ m @ q))"

lemma splice_tame:
  assumes "sound_rule rule" "\<forall>mt\<in>set ms. \<exists>b0 b1. match_here (fst rule) b0 (fst mt) = Some (b1, snd mt)"
    "\<forall>mt\<in>set ms. suffix (fst mt) s" "sorted_wrt (\<lambda>mt nt. suffix (fst nt) (fst (snd mt))) ms"
  shows "tame s (splice_with s ms (replace_text (snd rule)))"
  using assms(2-4)
proof (induction ms arbitrary: s)
  case (Cons mt ms)
  obtain s0 s1 g where mt: "mt = (s0, s1, g)" by (cases mt) auto
  obtain b0 b1 where "match_here (fst rule) b0 s0 = Some (b1, s1, g)" using Cons.prems(1) mt by auto
  then obtain x p y m z q where x: "s0 = x @ s1" "x = p @ y" "x = z @ q" "bracketed m"
    and r: "replace_text (snd rule) (s0, s1, g) = p @ m @ q"
    using assms(1) unfolding sound_rule_def by blast
  have "tame s1 (splice_with s1 ms (replace_text (snd rule)))"
    using Cons.prems mt by (intro Cons.IH) auto
  from tame_insert [OF this x(4,2,3), of "take (length s - length s0) s"]
  show ?case using Cons.prems(2) take_suffix [of s0 s] mt r x(1) by (simp flip: append_assoc)
qed (simp add: tame_refl)

lemma apply_rule_tame:
  assumes "sound_rule rule"
  shows "tame s (apply_rule s rule)"
  unfolding apply_rule_def
proof (rule splice_tame [OF assms _ _ match_all_ordered])
  show "\<forall>mt\<in>set (match_all (fst rule) None s). \<exists>b0 b1. match_here (fst rule) b0 (fst mt) = Some (b1, snd mt)"
    using match_all_match by (metis prod.collapse)
  show "\<forall>mt\<in>set (match_all (fst rule) None s). suffix (fst mt) s"
    using match_all_bounds by (metis prod.collapse)
qed

lemma whole_sound: "bracketed m \<Longrightarrow> sound_rule (r, Whole m)"
  unfolding sound_rule_def
proof (intro allI impI)
  fix b0 b1 s0 s1 g
  assume m: "bracketed m" and "match_here (fst (r, Whole m)) b0 s0 = Some (b1, s1, g)"
  then obtain x where "s0 = x @ s1" using match_here_suffix by (fastforce simp: suffix_def)
  then show "\<exists>x p y m' z q. s0 = x @ s1 \<and> x = p @ y \<and> x = z @ q \<and> bracketed m' \<and> replace_text (snd (r, Whole m)) (s0, s1, g) = p @ m' @ q"
    using m by (intro exI [of _ x] exI [of _ "[]"] exI [of _ x] exI [of _ m] exI [of _ x] exI [of _ "[]"]) simp
qed

lemma group_match:
  assumes "match_here (Cat WordB (Cat (Grp 1 a) r)) b0 s0 = Some (b1, s1, g)" "grp_free a" "grp_free r"
  obtains p b t where "s0 = p @ t" "group_text 1 (s0, s1, g) = p" "run_re r Some (b, t, g) = Some (b1, s1, g)" "suffix s1 t"
proof -
  let ?k = "\<lambda>(b, s, g). run_re r Some (b, s, (1, length s0, length s) # g)"
  have run: "run_re a ?k (b0, s0, []) = Some (b1, s1, g)"
    using assms(1) by (auto simp: match_here_def split: if_splits)
  have "moves (\<lambda>st st'. suffix (rest st') (rest st) \<and> snd (snd st') = snd (snd st)) (run_re a)"
    using caps.moves_re assms(2) by blast
  from this [unfolded moves_def, rule_format, OF run]
  obtain st where st: "?k st = Some (b1, s1, g)" "suffix (rest st) s0" "snd (snd st) = []" by auto
  then obtain b t where r: "run_re r Some (b, t, [(1, length s0, length t)]) = Some (b1, s1, g)" "suffix t s0"
    by (cases st) auto
  then have g: "g = [(1, length s0, length t)]" "suffix s1 t"
    using movesE [OF caps.moves_re, of r Some] assms(3) by force+
  obtain p where "s0 = p @ t" using r(2) by (auto simp: suffix_def)
  with r(1) g show thesis using that [of p t b] by (simp add: group_text_def)
qed

lemma group_sound:
  assumes "grp_free a" "grp_free r" "bracketed m"
  shows "sound_rule (Cat WordB (Cat (Grp 1 a) r), Group1 m)"
  unfolding sound_rule_def
proof (intro allI impI)
  fix b0 b1 s0 s1 g
  assume "match_here (fst (Cat WordB (Cat (Grp 1 a) r), Group1 m)) b0 s0 = Some (b1, s1, g)"
  then have "match_here (Cat WordB (Cat (Grp 1 a) r)) b0 s0 = Some (b1, s1, g)" by simp
  then obtain p b t where p: "s0 = p @ t" "group_text 1 (s0, s1, g) = p" "suffix s1 t"
    by (rule group_match [OF _ assms(1,2)])
  then obtain y where "t = y @ s1" by (auto simp: suffix_def)
  then show "\<exists>x p y m' z q. s0 = x @ s1 \<and> x = p @ y \<and> x = z @ q \<and> bracketed m' \<and>
      replace_text (snd (Cat WordB (Cat (Grp 1 a) r), Group1 m)) (s0, s1, g) = p @ m' @ q"
    using p assms(3)
    by (intro exI [of _ "p @ y"] exI [of _ p] exI [of _ y] exI [of _ m] exI [of _ "p @ y"] exI [of _ "[]"]) simp
qed

lemma dsn_sound: "sound_rule (dsn_re, Group1 (''://'' @ redacted @ ''@''))"
  unfolding sound_rule_def
proof (intro allI impI)
  let ?h = "plus_re (CC (not_space_or [CHR 0x22, CHR 0x27, CHR ''@'', CHR ''/'']))"
  fix b0 b1 s0 s1 g
  assume "match_here (fst (dsn_re, Group1 (''://'' @ redacted @ ''@''))) b0 s0 = Some (b1, s1, g)"
  then have "match_here (Cat WordB (Cat (Grp 1 (Cat (CC alpha) (star (CC scheme_char)))) (Cat (lit ''://'') (Cat ?h (lit ''@''))))) b0 s0 = Some (b1, s1, g)"
    by (simp add: dsn_re_def del: lit.simps run_re.simps)
  then obtain p b t where p: "s0 = p @ t" "group_text 1 (s0, s1, g) = p"
    "run_re (Cat (lit ''://'') (Cat ?h (lit ''@''))) Some (b, t, g) = Some (b1, s1, g)"
    by (rule group_match) simp_all
  from p(3) obtain t' where t': "t = ''://'' @ t'" "run_re ?h (run_re (lit ''@'') Some) (Some (CHR ''/''), t', g) = Some (b1, s1, g)"
    by (auto split: list.splits if_splits simp del: run_re.simps(5))
  from forwardD [OF t'(2)] obtain st where st: "run_re (lit ''@'') Some st = Some (b1, s1, g)" "suffix (rest st) t'" by auto
  then have "rest st = CHR ''@'' # s1" by (cases st) (auto split: list.splits if_splits)
  with st(2) obtain h where "t' = h @ ''@'' @ s1" by (auto simp: suffix_def)
  then show "\<exists>x p y m z q. s0 = x @ s1 \<and> x = p @ y \<and> x = z @ q \<and> bracketed m \<and>
      replace_text (snd (dsn_re, Group1 (''://'' @ redacted @ ''@''))) (s0, s1, g) = p @ m @ q"
    using p(1,2) t'(1) bracketed_markers(1)
    by (intro exI [of _ "p @ ''://'' @ h @ ''@''"] exI [of _ "p @ ''://''"] exI [of _ "h @ ''@''"] exI [of _ redacted]
          exI [of _ "p @ ''://'' @ h"] exI [of _ "''@''"]) simp
qed

lemma patterns_sound: "list_all sound_rule patterns"
proof -
  have "sound_rule (bearer_re, Group1 ('' '' @ redacted))"
    unfolding bearer_re_def cats.simps by (rule group_sound) (use bracketed_markers(3) in simp_all)
  moreover have "sound_rule (auth_header_re, Group1 redacted)"
    unfolding auth_header_re_def cats.simps by (rule group_sound) (simp_all add: bracketed_markers)
  moreover have "sound_rule (assignment_re, Group1 redacted)"
    unfolding assignment_re_def Let_def cats.simps by (rule group_sound) (simp_all add: bracketed_markers)
  ultimately show ?thesis
    by (simp add: patterns_def whole_sound bracketed_markers dsn_sound del: append.simps cats.simps)
qed

lemma rules_tame: "list_all sound_rule rules \<Longrightarrow> tame s (foldl apply_rule s rules)"
proof (induction rules arbitrary: s)
  case (Cons rule rules)
  then show ?case using tame_trans [OF apply_rule_tame [of rule s] Cons.IH] by simp
qed (simp add: tame_refl)

lemma sanitize_tame: "tame s (sanitize env extra s)"
  using tame_trans [OF redact_literals_tame rules_tame [OF patterns_sound]] by (simp add: sanitize_def tame_refl)

lemma sanitize_removes:
  assumes "v \<in> set (literals env extra)" "plain v" "\<not> sublist v marks"
  shows "\<not> sublist v (sanitize env extra s)"
proof -
  have "\<not> sublist v (redact_literals (literals env extra) s)" by (rule redact_literals_gone [OF assms])
  then show ?thesis
    using rules_tame [OF patterns_sound, of "redact_literals (literals env extra) s"] assms(2,3)
    by (auto simp: sanitize_def tame_def plain_def)
qed

lemma env_secret_removed:
  assumes "n \<in> set secret_env_names" "map_of env n = Some v" "6 \<le> length v" "plain v" "\<not> sublist v marks"
  shows "\<not> sublist v (sanitize env extra s)"
  by (rule sanitize_removes) (use assms in \<open>force simp: literals_def env_literals_def split: option.splits\<close>)+

text \<open>C18. The sanitizer takes out every secret it was told about: the value of a known variable of at least six
  characters, or an extra secret of at least three, does not occur in the output, whatever the text; only
  secrets with white space or brackets, or spelled like the markers, are left aside.\<close>

theorem sanitized_text_has_no_secret:
  "(if list_ex (\<lambda>n. map_of env n = Some v) secret_env_names \<and> 6 \<le> length v \<or> v \<in> set extra \<and> 3 \<le> length v
    then if list_all (\<lambda>c. c \<noteq> CHR ''['' \<and> c \<noteq> CHR '']'' \<and> \<not> js_space c) v \<and> \<not> sublist v ''REDACTED_DATA_URL''
         then \<not> sublist v (sanitize env extra txt) else True
    else True)"
proof (cases "v \<in> set (literals env extra)")
  case True
  then have "v \<noteq> []" by (auto simp: literals_def env_literals_def)
  then show ?thesis using sanitize_removes [OF True] by (auto simp: plain_def marks_def)
next
  case False
  then show ?thesis by (force simp: literals_def env_literals_def list_ex_iff split: option.splits)
qed

end
