(* ===== verification/Gate.thy ===== *)
theory Gate
  imports Sanitize
begin

text \<open>
  The validation gate of \<open>tools/validation-gate\<close>: its types, the verdict of \<open>outcome.ts\<close> and the sequential runner
  of \<open>runner.ts\<close>. A check is a command run by a parameter of the context or a function of the world \<open>'w\<close>; both may
  throw. The clock and the override of timeouts are parameters too. Test totals parsed from command output, the
  git revision and the run id are left out of the report.
\<close>

subsection \<open>Types\<close>

datatype check_status = St_passed | St_failed | St_blocked | St_skipped | St_degraded

datatype verdict = V_pass | V_conditional | V_fail | V_blocked

datatype severity = P0 | P1 | P2 | P3

datatype category =
    C_build | C_typecheck | C_unit | C_integration | C_functional | C_isolation | C_security | C_adversarial
  | C_privacy | C_media | C_backup | C_recovery | C_performance | C_operations

definition protected_categories :: "category list" where
  "protected_categories = [C_security, C_privacy, C_isolation, C_adversarial, C_media, C_backup, C_recovery]"

datatype skip_reason = Sk_cascade | Sk_explicit_optional | Sk_not_applicable

datatype gate_mode = M_pr | M_predeploy | M_deploy | M_postdeploy | M_recovery

record check_result =
  cr_id :: string
  cr_category :: category
  cr_severity :: severity
  cr_required :: bool
  cr_status :: check_status
  cr_duration :: int
  cr_summary :: string
  cr_evidence :: string
  cr_skip :: "skip_reason option"
  cr_caused_by :: "string option"

record check_outcome =
  co_status :: check_status
  co_summary :: string
  co_evidence :: string
  co_skip :: "skip_reason option"
  co_blocking :: "string list"
  co_warnings :: "string list"
  co_metrics :: "(string \<times> int) list"

record command_spec =
  cm_cmd :: string
  cm_args :: "string list"
  cm_env :: "(string \<times> string) list"
  cm_expect_failure :: bool

record command_result =
  cx_code :: "int option"
  cx_timed_out :: bool
  cx_duration :: int
  cx_stdout :: string
  cx_stderr :: string

datatype 'w check_body =
    Run_command command_spec
  | Run_fn "'w \<Rightarrow> (string + check_outcome) \<times> 'w"
  | Run_nothing

record 'w check_spec =
  cs_id :: string
  cs_category :: category
  cs_severity :: severity
  cs_required :: bool
  cs_timeout :: nat
  cs_pure :: bool
  cs_always :: bool
  cs_body :: "'w check_body"

record 'w run_context =
  rx_run :: "command_spec \<Rightarrow> nat \<Rightarrow> 'w \<Rightarrow> (string + command_result) \<times> 'w"
  rx_timeout :: "string \<Rightarrow> nat \<Rightarrow> nat"
  rx_env :: "(string \<times> string) list"
  rx_secrets :: "'w \<Rightarrow> string list" \<comment> \<open>\<open>ctx.runtime.extraSecrets\<close>\<close>
  rx_elapsed :: "string \<Rightarrow> int"

subsection \<open>The verdict\<close>

record flags =
  fl_failed :: bool
  fl_blocked :: bool
  fl_conditional :: bool

definition first_position :: "string \<Rightarrow> check_result list \<Rightarrow> (nat \<times> check_result) option" where
  \<comment> \<open>the map \<open>positions\<close>: the first check with an id\<close>
  "first_position i checks = find (\<lambda>(n, c). cr_id c = i) (enumerate 0 checks)"

definition valid_cascade :: "check_result list \<Rightarrow> nat \<Rightarrow> check_result \<Rightarrow> bool" where
  "valid_cascade checks n c \<longleftrightarrow>
     (case (if cr_skip c = Some Sk_cascade then cr_caused_by c else None) of
        None \<Rightarrow> False
      | Some cause_id \<Rightarrow>
          cause_id \<noteq> [] \<and>
          (case first_position cause_id checks of
             None \<Rightarrow> False
           | Some (k, cause) \<Rightarrow> k < n \<and> cr_required cause \<and> (cr_status cause = St_failed \<or> cr_status cause = St_blocked)))"

definition flag_check :: "check_result list \<Rightarrow> nat \<Rightarrow> check_result \<Rightarrow> flags \<Rightarrow> flags" where
  "flag_check checks n c f =
     (case cr_status c of
        St_failed \<Rightarrow>
          (if cr_severity c = P0 \<or> cr_severity c = P1 then f\<lparr>fl_failed := True\<rparr>
           else if cr_severity c = P2 \<and> cr_required c then f\<lparr>fl_failed := True\<rparr>
           else if cr_category c \<in> set protected_categories then f\<lparr>fl_failed := True\<rparr>
           else f\<lparr>fl_conditional := True\<rparr>)
      | St_blocked \<Rightarrow> (if cr_required c then f\<lparr>fl_blocked := True\<rparr> else f\<lparr>fl_conditional := True\<rparr>)
      | St_skipped \<Rightarrow>
          (if \<not> cr_required c then f
           else if valid_cascade checks n c then f
           else f\<lparr>fl_blocked := True\<rparr>)
      | St_degraded \<Rightarrow> f\<lparr>fl_conditional := True\<rparr>
      | St_passed \<Rightarrow> f)"

definition compute_outcome :: "check_result list \<Rightarrow> verdict" where
  "compute_outcome checks =
     (let f = foldl (\<lambda>f (n, c). flag_check checks n c f)
                \<lparr>fl_failed = False, fl_blocked = False, fl_conditional = False\<rparr> (enumerate 0 checks)
      in if fl_failed f then V_fail else if fl_blocked f then V_blocked else if fl_conditional f then V_conditional else V_pass)"

fun exit_code_for :: "verdict \<Rightarrow> gate_mode \<Rightarrow> nat" where
  "exit_code_for V_pass m = 0"
| "exit_code_for V_conditional m = 0"
| "exit_code_for V_fail m = 1"
| "exit_code_for V_blocked m = (if m = M_pr then 1 else 2)"

subsection \<open>The runner\<close>

record gate_state =
  gs_results :: "check_result list"
  gs_blocking :: "string list"
  gs_warnings :: "string list"
  gs_metrics :: "(string \<times> int) list"
  gs_cascade :: "(string \<times> check_status) option"

fun status_name :: "check_status \<Rightarrow> string" where
  "status_name St_passed = ''passed''"
| "status_name St_failed = ''failed''"
| "status_name St_blocked = ''blocked''"
| "status_name St_skipped = ''skipped''"
| "status_name St_degraded = ''degraded''"

definition int_str :: "int \<Rightarrow> string" where
  "int_str n = (if n < 0 then ''-'' @ nat_str (nat (- n)) else nat_str (nat n))"

definition code_str :: "int option \<Rightarrow> string" where
  "code_str c = (case c of None \<Rightarrow> ''null'' | Some n \<Rightarrow> int_str n)"

definition result_of :: "'w check_spec \<Rightarrow> check_status \<Rightarrow> int \<Rightarrow> string \<Rightarrow> string \<Rightarrow> check_result" where
  \<comment> \<open>\<open>identity(spec)\<close> with a status\<close>
  "result_of spec st dur summary evidence =
     \<lparr>cr_id = cs_id spec, cr_category = cs_category spec, cr_severity = cs_severity spec, cr_required = cs_required spec,
      cr_status = st, cr_duration = dur, cr_summary = summary, cr_evidence = evidence, cr_skip = None, cr_caused_by = None\<rparr>"

definition tail_text :: "string \<Rightarrow> string" where
  "tail_text s = (if length s > 1500 then ellipsis # slice_last 1500 s else s)"

definition command_ok :: "command_spec \<Rightarrow> command_result \<Rightarrow> bool" where
  "command_ok cmd res =
     (if cm_expect_failure cmd then cx_code res \<noteq> Some 0 \<and> cx_code res \<noteq> None \<and> \<not> cx_timed_out res
      else cx_code res = Some 0)"

definition describe_command :: "(string \<times> string) list \<Rightarrow> command_spec \<Rightarrow> string" where
  "describe_command env cmd = sanitize env (map snd (cm_env cmd)) (join_with '' '' (cm_cmd cmd # cm_args cmd))"

definition command_summary :: "(string \<times> string) list \<Rightarrow> command_spec \<Rightarrow> nat \<Rightarrow> command_result \<Rightarrow> string" where
  "command_summary env cmd timeout res =
     (if cx_timed_out res then ''timed out after '' @ nat_str timeout @ ''ms: '' @ describe_command env cmd
      else if cm_expect_failure cmd
      then (if command_ok cmd res then ''failed as expected (exit '' @ code_str (cx_code res) @ ''): '' @ describe_command env cmd
            else if cx_code res = Some 0 then ''UNEXPECTED SUCCESS (must fail): '' @ describe_command env cmd
            else ''did not run to a clean expected failure: '' @ describe_command env cmd)
      else if command_ok cmd res then ''exit 0 in '' @ int_str (cx_duration res) @ ''ms: '' @ describe_command env cmd
      else ''exit '' @ code_str (cx_code res) @ '' in '' @ int_str (cx_duration res) @ ''ms: '' @ describe_command env cmd)"

definition command_status :: "command_spec \<Rightarrow> command_result \<Rightarrow> check_status" where
  "command_status cmd res = (if cx_timed_out res then St_failed else if command_ok cmd res then St_passed else St_failed)"

definition rx_sanitize :: "'w run_context \<Rightarrow> 'w \<Rightarrow> string \<Rightarrow> string" where
  "rx_sanitize ctx w s = sanitize (rx_env ctx) (rx_secrets ctx w) s"

definition threw :: "'w run_context \<Rightarrow> 'w check_spec \<Rightarrow> string \<Rightarrow> 'w \<Rightarrow> check_result" where
  "threw ctx spec e w = result_of spec St_failed (rx_elapsed ctx (cs_id spec)) (rx_sanitize ctx w (''check threw: '' @ e)) []"

definition run_check :: "'w run_context \<Rightarrow> 'w check_spec \<Rightarrow> gate_state \<Rightarrow> 'w \<Rightarrow> check_result \<times> gate_state \<times> 'w" where
  "run_check ctx spec g w =
     (case cs_body spec of
        Run_command cmd \<Rightarrow>
          (let timeout = rx_timeout ctx (cs_id spec) (cs_timeout spec) in
           case rx_run ctx cmd timeout w of
             (Inl e, w1) \<Rightarrow> (threw ctx spec e w1, g, w1)
           | (Inr res, w1) \<Rightarrow>
               let san = rx_sanitize ctx w1; st = command_status cmd res in
               (result_of spec st (cx_duration res) (san (command_summary (rx_env ctx) cmd timeout res))
                  (san (if st = St_passed then tail_text (cx_stdout res)
                        else js_trim (tail_text (cx_stdout res) @ [CHR 0x0A] @ tail_text (cx_stderr res)))),
                g\<lparr>gs_metrics := obj_set (cs_id spec @ ''_duration_ms'') (cx_duration res) (gs_metrics g)\<rparr>, w1))
      | Run_fn f \<Rightarrow>
          (case f w of
             (Inl e, w1) \<Rightarrow> (threw ctx spec e w1, g, w1)
           | (Inr out, w1) \<Rightarrow>
               let san = rx_sanitize ctx w1 in
               ((result_of spec (co_status out) (rx_elapsed ctx (cs_id spec)) (san (co_summary out)) (san (co_evidence out)))
                  \<lparr>cr_skip := (if co_status out = St_skipped
                               then Some (case co_skip out of None \<Rightarrow> Sk_not_applicable | Some r \<Rightarrow> r) else None)\<rparr>,
                g\<lparr>gs_blocking := gs_blocking g @ map san (co_blocking out), gs_warnings := gs_warnings g @ map san (co_warnings out),
                  gs_metrics := foldl (\<lambda>m (k, v). obj_set k v m) (gs_metrics g) (co_metrics out)\<rparr>, w1))
      | Run_nothing \<Rightarrow> (result_of spec St_failed 0 ''invalid check spec: neither command nor fn'' [], g, w))"

definition quote :: char where "quote = CHR 0x27"

definition cascade_skip :: "'w check_spec \<Rightarrow> string \<times> check_status \<Rightarrow> check_result" where
  "cascade_skip spec cause =
     (result_of spec St_skipped 0 (''not run: prior required check '' @ [quote] @ fst cause @ [quote] @ '' '' @ status_name (snd cause)) [])
       \<lparr>cr_skip := Some Sk_cascade, cr_caused_by := Some (fst cause)\<rparr>"

definition gate_step :: "'w run_context \<Rightarrow> 'w check_spec \<Rightarrow> gate_state \<times> 'w \<Rightarrow> gate_state \<times> 'w" where
  "gate_step ctx spec gw =
     (case gw of (g, w) \<Rightarrow>
        (case (if \<not> cs_pure spec \<and> \<not> cs_always spec then gs_cascade g else None) of
           Some cause \<Rightarrow> (g\<lparr>gs_results := gs_results g @ [cascade_skip spec cause]\<rparr>, w)
         | None \<Rightarrow>
             (case run_check ctx spec g w of (r, g1, w1) \<Rightarrow>
                let g2 = g1\<lparr>gs_results := gs_results g1 @ [r]\<rparr> in
                if cs_required spec \<and> (cr_status r = St_failed \<or> cr_status r = St_blocked)
                then (g2\<lparr>gs_cascade := Some (cs_id spec, cr_status r),
                         gs_blocking := (if cr_status r = St_blocked \<and> \<not> list_ex (\<lambda>b. starts_with b (cs_id spec @ '':'')) (gs_blocking g2)
                                         then gs_blocking g2 @ [rx_sanitize ctx w1 (cs_id spec @ '': '' @ cr_summary r)]
                                         else gs_blocking g2)\<rparr>, w1)
                else (g2, w1))))"

record run_report =
  rr_outcome :: verdict
  rr_checks :: "check_result list"
  rr_counts :: "(check_status \<times> nat) list"
  rr_blocking :: "string list"
  rr_warnings :: "string list"
  rr_metrics :: "(string \<times> int) list"

definition empty_gate :: gate_state where
  "empty_gate = \<lparr>gs_results = [], gs_blocking = [], gs_warnings = [], gs_metrics = [], gs_cascade = None\<rparr>"

definition run_gate :: "'w run_context \<Rightarrow> 'w check_spec list \<Rightarrow> int \<Rightarrow> 'w \<Rightarrow> run_report \<times> 'w" where
  "run_gate ctx specs total_ms w =
     (case foldl (\<lambda>gw spec. gate_step ctx spec gw) (empty_gate, w) specs of (g, w1) \<Rightarrow>
        (\<lparr>rr_outcome = compute_outcome (gs_results g), rr_checks = gs_results g,
          rr_counts = map (\<lambda>st. (st, length (filter (\<lambda>c. cr_status c = st) (gs_results g))))
            [St_passed, St_failed, St_blocked, St_skipped, St_degraded],
          rr_blocking = gs_blocking g, rr_warnings = gs_warnings g,
          rr_metrics = obj_set ''total_duration_ms'' total_ms (gs_metrics g)\<rparr>, w1))"

subsection \<open>The flags of the verdict\<close>

definition failing :: "check_result \<Rightarrow> bool" where
  \<comment> \<open>a failure that can never be waved through\<close>
  "failing c \<longleftrightarrow> cr_status c = St_failed \<and>
     (cr_severity c \<in> {P0, P1} \<or> cr_severity c = P2 \<and> cr_required c \<or> cr_category c \<in> set protected_categories)"

definition blocking :: "check_result list \<Rightarrow> nat \<times> check_result \<Rightarrow> bool" where
  "blocking checks nc \<longleftrightarrow> cr_required (snd nc) \<and>
     (cr_status (snd nc) = St_blocked \<or> cr_status (snd nc) = St_skipped \<and> \<not> valid_cascade checks (fst nc) (snd nc))"

definition conceding :: "check_result \<Rightarrow> bool" where
  "conceding c \<longleftrightarrow>
     cr_status c = St_degraded \<or> cr_status c = St_blocked \<and> \<not> cr_required c \<or> cr_status c = St_failed \<and> \<not> failing c"

definition flag_verdict :: "check_result list \<Rightarrow> verdict" where
  "flag_verdict checks =
     (if list_ex failing checks then V_fail
      else if list_ex (blocking checks) (enumerate 0 checks) then V_blocked
      else if list_ex conceding checks then V_conditional else V_pass)"

lemma flag_fold:
  "foldl (\<lambda>f (n, c). flag_check checks n c f) f ncs =
     \<lparr>fl_failed = (fl_failed f \<or> list_ex (\<lambda>nc. failing (snd nc)) ncs),
      fl_blocked = (fl_blocked f \<or> list_ex (blocking checks) ncs),
      fl_conditional = (fl_conditional f \<or> list_ex (\<lambda>nc. conceding (snd nc)) ncs)\<rparr>"
proof (induction ncs arbitrary: f)
  case (Cons nc ncs)
  obtain n c where nc: "nc = (n, c)" by (cases nc)
  have "flag_check checks n c f =
      \<lparr>fl_failed = (fl_failed f \<or> failing c), fl_blocked = (fl_blocked f \<or> blocking checks (n, c)),
       fl_conditional = (fl_conditional f \<or> conceding c)\<rparr>"
    by (cases f; cases "cr_status c"; cases "cr_severity c")
      (auto simp: flag_check_def failing_def blocking_def conceding_def)
  then show ?case by (simp add: Cons.IH nc disj_assoc)
qed simp

lemma list_ex_snd_enumerate: "list_ex (\<lambda>nc. P (snd nc)) (enumerate k xs) = list_ex P xs"
  by (induction xs arbitrary: k) auto

lemma verdict_flags: "compute_outcome checks = flag_verdict checks"
  by (simp add: compute_outcome_def flag_fold Let_def flag_verdict_def list_ex_snd_enumerate)

lemma verdict_exit:
  "(exit_code_for (compute_outcome checks) m = 0) = (\<not> list_ex failing checks \<and> \<not> list_ex (blocking checks) (enumerate 0 checks))"
  by (simp add: verdict_flags flag_verdict_def)

subsection \<open>Facts about the runner\<close>

definition from_spec :: "'w check_spec \<Rightarrow> check_result \<Rightarrow> bool" where
  "from_spec spec c \<longleftrightarrow> cr_id c = cs_id spec \<and> cr_category c = cs_category spec \<and> cr_severity c = cs_severity spec \<and>
     cr_required c = cs_required spec"

lemma run_check_result:
  assumes "run_check ctx spec g w = (r, g1, w1)"
  shows "from_spec spec r \<and> cr_caused_by r = None \<and> gs_results g1 = gs_results g \<and> gs_cascade g1 = gs_cascade g"
  using assms
  by (auto simp: run_check_def from_spec_def result_of_def threw_def Let_def split: check_body.splits prod.splits sum.splits)

lemma gate_step_cases:
  assumes "gate_step ctx spec (g, w) = (g', w')"
  obtains (skip) cause where "gs_cascade g = Some cause" "\<not> cs_pure spec" "\<not> cs_always spec" "w' = w"
    "gs_results g' = gs_results g @ [cascade_skip spec cause]" "gs_cascade g' = gs_cascade g"
  | (run) r g1 where "run_check ctx spec g w = (r, g1, w')" "gs_results g' = gs_results g @ [r]"
    "gs_cascade g' = (if cs_required spec \<and> (cr_status r = St_failed \<or> cr_status r = St_blocked) then Some (cs_id spec, cr_status r)
       else gs_cascade g)"
    "gs_cascade g = None \<or> cs_pure spec \<or> cs_always spec"
proof (cases "if \<not> cs_pure spec \<and> \<not> cs_always spec then gs_cascade g else None")
  case None
  obtain r g1 w1 where rc: "run_check ctx spec g w = (r, g1, w1)" by (cases "run_check ctx spec g w")
  show ?thesis
    by (rule run) (use assms None rc run_check_result [OF rc] in \<open>auto simp: gate_step_def Let_def split: if_splits\<close>)
next
  case (Some cause)
  show ?thesis
    by (rule skip) (use assms Some in \<open>auto simp: gate_step_def split: if_splits\<close>)
qed

definition decided_by :: "gate_state \<Rightarrow> bool" where
  \<comment> \<open>a cascade has a cause among the results\<close>
  "decided_by g \<longleftrightarrow> gs_cascade g \<noteq> None \<longrightarrow>
     list_ex (\<lambda>c. cr_required c \<and> (cr_status c = St_failed \<or> cr_status c = St_blocked)) (gs_results g)"

definition gate_inv :: "gate_state \<Rightarrow> bool" where
  "gate_inv g \<longleftrightarrow> decided_by g \<and> (list_ex (\<lambda>c. cr_caused_by c \<noteq> None) (gs_results g) \<longrightarrow> gs_cascade g \<noteq> None)"

lemma gate_step_inv:
  assumes "gate_step ctx spec (g, w) = (g', w')" "gate_inv g"
  shows "gate_inv g' \<and> (\<exists>c. gs_results g' = gs_results g @ [c] \<and> from_spec spec c)"
  using assms(1)
proof (cases rule: gate_step_cases)
  case (skip cause)
  then show ?thesis
    using assms(2) by (auto simp: gate_inv_def decided_by_def from_spec_def cascade_skip_def result_of_def)
next
  case (run r g1)
  then show ?thesis
    using assms(2) run_check_result [OF run(1)] by (auto simp: gate_inv_def decided_by_def from_spec_def)
qed

lemma run_gate_inv:
  "foldl (\<lambda>gw spec. gate_step ctx spec gw) (g, w) specs = (g', w') \<Longrightarrow> gate_inv g \<Longrightarrow>
     gate_inv g' \<and> (\<exists>cs. gs_results g' = gs_results g @ cs \<and> list_all2 from_spec specs cs)"
proof (induction specs arbitrary: g w)
  case (Cons spec specs)
  obtain g1 w1 where st: "gate_step ctx spec (g, w) = (g1, w1)" by (cases "gate_step ctx spec (g, w)")
  from gate_step_inv [OF st Cons.prems(2)] obtain c where c: "gate_inv g1" "gs_results g1 = gs_results g @ [c]" "from_spec spec c" by blast
  from Cons.IH [of g1 w1] Cons.prems(1) st c(1) obtain cs where "gate_inv g'" "gs_results g' = gs_results g1 @ cs" "list_all2 from_spec specs cs"
    by auto
  then show ?case using c by auto
qed simp

lemma required_not_failing:
  assumes "\<not> list_ex failing checks" "\<not> list_ex (blocking checks) (enumerate 0 checks)" "c \<in> set checks" "cr_required c" "cr_severity c \<noteq> P3"
  shows "cr_status c \<noteq> St_failed \<and> cr_status c \<noteq> St_blocked"
proof -
  obtain n where "n < length checks" "checks ! n = c" using assms(3) by (auto simp: in_set_conv_nth)
  then have n: "(n, c) \<in> set (enumerate 0 checks)" by (auto simp: in_set_enumerate_eq)
  show ?thesis
    using assms n by (cases "cr_severity c") (auto simp: list_ex_iff failing_def blocking_def)
qed

lemma first_position_in: "first_position i checks = Some (k, c) \<Longrightarrow> c \<in> set checks"
  by (auto simp: first_position_def find_Some_iff in_set_conv_nth nth_enumerate_eq)

lemma required_severity:
  assumes "list_all2 from_spec specs cs" "list_all (\<lambda>s. if cs_required s then cs_severity s \<noteq> P3 else True) specs"
    "c \<in> set cs" "cr_required c"
  shows "cr_severity c \<noteq> P3"
proof -
  obtain s where "s \<in> set specs" "from_spec s c" using assms(1,3) by (metis in_set_conv_nth list_all2_conv_all_nth)
  then show ?thesis using assms(2,4) by (auto simp: list_all_iff from_spec_def)
qed

lemma cascade_not_green:
  assumes "foldl (\<lambda>gw spec. gate_step ctx spec gw) (empty_gate, w) specs = (g, w')" "gs_cascade g \<noteq> None"
    "list_all (\<lambda>s. if cs_required s then cs_severity s \<noteq> P3 else True) specs"
  shows "exit_code_for (compute_outcome (gs_results g)) m \<noteq> 0"
proof -
  have "gate_inv empty_gate" by (simp add: gate_inv_def decided_by_def empty_gate_def)
  from run_gate_inv [OF assms(1) this] have inv: "gate_inv g" and specs: "list_all2 from_spec specs (gs_results g)"
    by (auto simp: empty_gate_def)
  then obtain c where c: "c \<in> set (gs_results g)" "cr_required c" "cr_status c = St_failed \<or> cr_status c = St_blocked"
    using assms(2) by (auto simp: gate_inv_def decided_by_def list_ex_iff)
  then show ?thesis
    using required_not_failing [OF _ _ c(1,2) required_severity [OF specs assms(3) c(1,2)]] by (auto simp: verdict_exit)
qed

subsection \<open>The verdict as a specification\<close>

text \<open>The documented verdict, written out over the positions of the report and without the functions of the code.\<close>

definition decisive :: "check_result \<Rightarrow> bool" where
  \<comment> \<open>a failure at P0 or P1, a required one at P2, or one in a category that is never optional\<close>
  "decisive c \<longleftrightarrow> cr_status c = St_failed \<and>
     (cr_severity c = P0 \<or> cr_severity c = P1 \<or> cr_severity c = P2 \<and> cr_required c \<or>
      cr_category c \<in> {C_security, C_privacy, C_isolation, C_adversarial, C_media, C_backup, C_recovery})"

definition excused :: "check_result list \<Rightarrow> nat \<Rightarrow> bool" where
  \<comment> \<open>the check at \<open>n\<close> was skipped because of an earlier required check that failed or was blocked, and names it; an id
    means its first position\<close>
  "excused checks n \<longleftrightarrow> cr_skip (checks ! n) = Some Sk_cascade \<and>
     list_ex (\<lambda>k. cr_caused_by (checks ! n) = Some (cr_id (checks ! k)) \<and> cr_id (checks ! k) \<noteq> [] \<and>
       cr_id (checks ! k) \<notin> set (map cr_id (take k checks)) \<and>
       cr_required (checks ! k) \<and> cr_status (checks ! k) \<in> {St_failed, St_blocked}) [0..<n]"

definition unmet :: "check_result list \<Rightarrow> nat \<Rightarrow> bool" where
  "unmet checks n \<longleftrightarrow> cr_required (checks ! n) \<and>
     (cr_status (checks ! n) = St_blocked \<or> cr_status (checks ! n) = St_skipped \<and> \<not> excused checks n)"

definition conceded :: "check_result \<Rightarrow> bool" where
  \<comment> \<open>degraded, an optional one blocked, or a failure that is not decisive\<close>
  "conceded c \<longleftrightarrow> cr_status c = St_degraded \<or> cr_status c = St_blocked \<and> \<not> cr_required c \<or>
     cr_status c = St_failed \<and> (cr_severity c = P3 \<or> cr_severity c = P2 \<and> \<not> cr_required c) \<and> \<not> decisive c"

definition outcome_spec :: "check_result list \<Rightarrow> verdict" where
  "outcome_spec checks =
     (if list_ex decisive checks then V_fail
      else if list_ex (unmet checks) [0..<length checks] then V_blocked
      else if list_ex conceded checks then V_conditional else V_pass)"

lemma decisive_failing: "failing c = decisive c"
  by (auto simp: failing_def decisive_def protected_categories_def)

lemma conceded_conceding: "conceding c = conceded c"
  by (cases "cr_severity c") (auto simp: conceding_def conceded_def decisive_failing decisive_def)

lemma first_position_Some:
  "first_position i checks = Some (k, c) \<longleftrightarrow>
     k < length checks \<and> c = checks ! k \<and> cr_id c = i \<and> i \<notin> set (map cr_id (take k checks))"
proof -
  have "first_position i checks = Some (k, c) \<longleftrightarrow>
      k < length checks \<and> c = checks ! k \<and> cr_id c = i \<and> (\<forall>j<k. cr_id (checks ! j) \<noteq> i)"
    by (auto simp: first_position_def find_Some_iff nth_enumerate_eq)
  moreover have "k < length checks \<Longrightarrow> (\<forall>j<k. cr_id (checks ! j) \<noteq> i) \<longleftrightarrow> i \<notin> set (map cr_id (take k checks))"
    by (force simp: in_set_conv_nth)
  ultimately show ?thesis by blast
qed

lemma cascade_excused:
  assumes "n < length checks"
  shows "valid_cascade checks n (checks ! n) = excused checks n"
proof
  assume "valid_cascade checks n (checks ! n)"
  then obtain i k cause where "cr_skip (checks ! n) = Some Sk_cascade" "cr_caused_by (checks ! n) = Some i" "i \<noteq> []"
    "first_position i checks = Some (k, cause)" "k < n" "cr_required cause" "cr_status cause = St_failed \<or> cr_status cause = St_blocked"
    by (auto simp: valid_cascade_def split: if_splits option.splits)
  then show "excused checks n"
    unfolding excused_def list_ex_iff by (intro conjI bexI [of _ k]) (auto simp: first_position_Some)
next
  assume "excused checks n"
  then obtain k where k: "cr_skip (checks ! n) = Some Sk_cascade" "k < n" "cr_caused_by (checks ! n) = Some (cr_id (checks ! k))"
    "cr_id (checks ! k) \<noteq> []" "cr_id (checks ! k) \<notin> set (map cr_id (take k checks))" "cr_required (checks ! k)"
    "cr_status (checks ! k) = St_failed \<or> cr_status (checks ! k) = St_blocked"
    by (auto simp: excused_def list_ex_iff)
  then have "first_position (cr_id (checks ! k)) checks = Some (k, checks ! k)" using assms by (simp add: first_position_Some)
  then show "valid_cascade checks n (checks ! n)" using k by (auto simp: valid_cascade_def)
qed

lemma unmet_blocking: "list_ex (blocking checks) (enumerate 0 checks) = list_ex (unmet checks) [0..<length checks]"
proof -
  have "blocking checks (n, checks ! n) = unmet checks n" if "n < length checks" for n
    using cascade_excused [OF that] by (simp add: blocking_def unmet_def)
  moreover have "set (enumerate 0 checks) = (\<lambda>n. (n, checks ! n)) ` {..<length checks}"
    by (auto simp: in_set_enumerate_eq image_iff)
  ultimately show ?thesis by (auto simp: list_ex_iff)
qed

lemma verdict_spec: "compute_outcome checks = outcome_spec checks"
  by (simp add: verdict_flags flag_verdict_def outcome_spec_def unmet_blocking decisive_failing conceded_conceding cong: list_ex_cong)

text \<open>C19. The verdict is the documented one: \<open>FAIL\<close> exactly when a check failed at P0 or P1, or at P2 while required,
  or in one of the seven protected categories whatever its severity; otherwise \<open>BLOCKED\<close> exactly when a required check is
  blocked, or skipped without naming, as a cascade, an earlier required check of the same report that failed or was
  blocked; otherwise \<open>CONDITIONAL_PASS\<close> exactly when something is degraded, optionally blocked or failed
  without being decisive; and the exit code is zero only for the two passes. The code says of a valid cascade that its
  cause already drove the verdict to \<open>FAIL\<close> or \<open>BLOCKED\<close>; the last clause is what is true of it: a required check
  can be skipped under a passing verdict only after a required failure at P3 outside the protected categories.\<close>

theorem verdict_meets_specification:
  "compute_outcome checks = outcome_spec checks \<and>
   (exit_code_for (compute_outcome checks) m = 0) =
     (\<not> list_ex decisive checks \<and> \<not> list_ex (unmet checks) [0..<length checks]) \<and>
   (if exit_code_for (compute_outcome checks) m = 0
    then list_all (\<lambda>n. if cr_required (checks ! n) \<and> cr_status (checks ! n) = St_skipped
           then list_ex (\<lambda>k. cr_required (checks ! k) \<and> cr_status (checks ! k) = St_failed \<and> cr_severity (checks ! k) = P3 \<and>
                  cr_category (checks ! k) \<notin> {C_security, C_privacy, C_isolation, C_adversarial, C_media, C_backup, C_recovery}) [0..<n]
           else True) [0..<length checks]
    else True)"
proof -
  have exit: "(exit_code_for (compute_outcome checks) m = 0) =
     (\<not> list_ex decisive checks \<and> \<not> list_ex (unmet checks) [0..<length checks])"
    using verdict_exit [of checks m] by (simp add: unmet_blocking decisive_failing cong: list_ex_cong)
  have cause: "list_ex (\<lambda>k. cr_required (checks ! k) \<and> cr_status (checks ! k) = St_failed \<and> cr_severity (checks ! k) = P3 \<and>
        cr_category (checks ! k) \<notin> {C_security, C_privacy, C_isolation, C_adversarial, C_media, C_backup, C_recovery}) [0..<n]"
    if green: "\<not> list_ex decisive checks" "\<not> list_ex (unmet checks) [0..<length checks]"
      and n: "n < length checks" "cr_required (checks ! n)" "cr_status (checks ! n) = St_skipped" for n
  proof -
    have "excused checks n" using green(2) n by (auto simp: list_ex_iff unmet_def)
    then obtain k where k: "k < n" "cr_required (checks ! k)" "cr_status (checks ! k) \<in> {St_failed, St_blocked}"
      by (auto simp: excused_def list_ex_iff)
    have "\<not> unmet checks k" "\<not> decisive (checks ! k)" using green k(1) n(1) by (auto simp: list_ex_iff)
    then have "cr_status (checks ! k) = St_failed" "cr_severity (checks ! k) = P3 \<and>
        cr_category (checks ! k) \<notin> {C_security, C_privacy, C_isolation, C_adversarial, C_media, C_backup, C_recovery}"
      using k(2,3) by (cases "cr_severity (checks ! k)"; auto simp: unmet_def decisive_def)+
    then show ?thesis using k(1,2) by (auto simp: list_ex_iff)
  qed
  show ?thesis unfolding verdict_spec [symmetric] exit using cause by (auto simp: list_all_iff)
qed

text \<open>A green gate means that everything required really ran. The report has one result per configured check, in
  order; and when the exit code is zero and no required check is configured at P3, no check was skipped for
  an earlier failure, and every required check ran and passed or was degraded.\<close>

theorem green_gate_ran_everything:
  "(case run_gate ctx specs total_ms w of (rep, w') \<Rightarrow>
      map cr_id (rr_checks rep) = map cs_id specs \<and>
      (if exit_code_for (rr_outcome rep) m = 0 \<and> list_all (\<lambda>s. if cs_required s then cs_severity s \<noteq> P3 else True) specs
       then list_all (\<lambda>c. cr_caused_by c = None \<and>
              (if cr_required c then cr_status c = St_passed \<or> cr_status c = St_degraded else True)) (rr_checks rep)
       else True))"
proof -
  obtain g w' where fold: "foldl (\<lambda>gw spec. gate_step ctx spec gw) (empty_gate, w) specs = (g, w')"
    by (cases "foldl (\<lambda>gw spec. gate_step ctx spec gw) (empty_gate, w) specs")
  have "gate_inv empty_gate" by (simp add: gate_inv_def decided_by_def empty_gate_def)
  from run_gate_inv [OF fold this] have inv: "gate_inv g" and specs: "list_all2 from_spec specs (gs_results g)"
    by (auto simp: empty_gate_def)
  let ?cs = "gs_results g"
  have ids: "map cr_id ?cs = map cs_id specs"
    using specs by (induction rule: list_all2_induct) (auto simp: from_spec_def)
  have green: "list_all (\<lambda>c. cr_caused_by c = None \<and> (if cr_required c then cr_status c = St_passed \<or> cr_status c = St_degraded else True)) ?cs"
    if z: "exit_code_for (compute_outcome ?cs) m = 0" and p3: "list_all (\<lambda>s. if cs_required s then cs_severity s \<noteq> P3 else True) specs"
  proof -
    have nf: "\<not> list_ex failing ?cs" "\<not> list_ex (blocking ?cs) (enumerate 0 ?cs)"
      using z by (auto simp: verdict_exit)
    note sev = required_severity [OF specs p3]
    have req: "cr_status c \<noteq> St_failed \<and> cr_status c \<noteq> St_blocked" if "c \<in> set ?cs" "cr_required c" for c
      by (rule required_not_failing [OF nf that sev [OF that]])
    have skip: "cr_status c \<noteq> St_skipped" if c: "c \<in> set ?cs" "cr_required c" for c
    proof
      assume s: "cr_status c = St_skipped"
      obtain n where "n < length ?cs" "?cs ! n = c" using c(1) by (auto simp: in_set_conv_nth)
      then have "(n, c) \<in> set (enumerate 0 ?cs)" by (auto simp: in_set_enumerate_eq)
      then have "valid_cascade ?cs n c" using nf(2) s c(2) by (auto simp: list_ex_iff blocking_def)
      then show False using req first_position_in by (fastforce simp: valid_cascade_def split: option.splits if_splits)
    qed
    have "gs_cascade g = None" using inv req by (fastforce simp: gate_inv_def decided_by_def list_ex_iff)
    then have "list_all (\<lambda>c. cr_caused_by c = None) ?cs" using inv by (auto simp: gate_inv_def list_ex_iff list_all_iff)
    moreover have "cr_status c = St_passed \<or> cr_status c = St_degraded" if "c \<in> set ?cs" "cr_required c" for c
      using req [OF that] skip [OF that] by (cases "cr_status c") auto
    ultimately show ?thesis by (auto simp: list_all_iff)
  qed
  show ?thesis using fold ids green by (simp add: run_gate_def)
qed

subsection \<open>Secrets in reports\<close>

definition silent :: "string \<Rightarrow> gate_state \<Rightarrow> bool" where
  "silent v g \<longleftrightarrow>
     list_all (\<lambda>c. if cr_caused_by c = None then \<not> sublist v (cr_summary c) \<and> \<not> sublist v (cr_evidence c) else True) (gs_results g) \<and>
     list_all (\<lambda>t. \<not> sublist v t) (gs_blocking g @ gs_warnings g)"

lemma run_check_silent:
  assumes "run_check ctx spec g w = (r, g1, w1)" "silent v g" "v \<noteq> []" "cs_body spec \<noteq> Run_nothing"
    and gone: "\<And>extra t. \<not> sublist v (sanitize (rx_env ctx) extra t)"
  shows "silent v g1 \<and> \<not> sublist v (cr_summary r) \<and> \<not> sublist v (cr_evidence r)"
proof (cases "cs_body spec")
  case (Run_command cmd)
  obtain res w2 where run: "rx_run ctx cmd (rx_timeout ctx (cs_id spec) (cs_timeout spec)) w = (res, w2)"
    by (cases "rx_run ctx cmd (rx_timeout ctx (cs_id spec) (cs_timeout spec)) w")
  show ?thesis
  proof (cases res)
    case (Inl e)
    then show ?thesis
      using assms(1-3) Run_command run gone by (auto simp: run_check_def result_of_def threw_def rx_sanitize_def Let_def)
  next
    case (Inr cr)
    have r: "\<exists>t. cr_summary r = rx_sanitize ctx w2 t" "\<exists>t. cr_evidence r = rx_sanitize ctx w2 t"
      and g1: "gs_results g1 = gs_results g" "gs_blocking g1 = gs_blocking g" "gs_warnings g1 = gs_warnings g"
      using assms(1) Run_command run Inr by (auto simp: run_check_def result_of_def Let_def)
    show ?thesis using assms(2) r gone unfolding silent_def g1 rx_sanitize_def by auto
  qed
next
  case (Run_fn f)
  obtain res w2 where run: "f w = (res, w2)" by (cases "f w")
  show ?thesis
  proof (cases res)
    case (Inl e)
    then show ?thesis
      using assms(1-3) Run_fn run gone by (auto simp: run_check_def result_of_def threw_def rx_sanitize_def)
  next
    case (Inr out)
    have r: "cr_summary r = rx_sanitize ctx w2 (co_summary out)" "cr_evidence r = rx_sanitize ctx w2 (co_evidence out)"
      and g1: "gs_results g1 = gs_results g" "gs_blocking g1 = gs_blocking g @ map (rx_sanitize ctx w2) (co_blocking out)"
        "gs_warnings g1 = gs_warnings g @ map (rx_sanitize ctx w2) (co_warnings out)"
      using assms(1) Run_fn run Inr by (auto simp: run_check_def result_of_def Let_def)
    show ?thesis using assms(2) gone unfolding silent_def r g1 rx_sanitize_def by (auto simp: list_all_iff)
  qed
qed (use assms(4) in simp)

lemma gate_step_silent:
  assumes "gate_step ctx spec (g, w) = (g', w')" "silent v g" "v \<noteq> []" "cs_body spec \<noteq> Run_nothing"
    "\<And>extra t. \<not> sublist v (sanitize (rx_env ctx) extra t)"
  shows "silent v g'"
proof (cases "if \<not> cs_pure spec \<and> \<not> cs_always spec then gs_cascade g else None")
  case None
  obtain r g1 w1 where rc: "run_check ctx spec g w = (r, g1, w1)" by (cases "run_check ctx spec g w")
  have "silent v g1" "\<not> sublist v (cr_summary r)" "\<not> sublist v (cr_evidence r)"
    using run_check_silent [OF rc assms(2-5)] by simp_all
  moreover have "gs_results g' = gs_results g1 @ [r]" "gs_warnings g' = gs_warnings g1"
    "gs_blocking g' = gs_blocking g1 \<or> (\<exists>t. gs_blocking g' = gs_blocking g1 @ [sanitize (rx_env ctx) (rx_secrets ctx w1) t])"
    using assms(1) None rc by (auto simp: gate_step_def rx_sanitize_def Let_def split: if_splits)
  ultimately show ?thesis using assms(5) unfolding silent_def by auto
next
  case (Some cause)
  then have g': "g' = g\<lparr>gs_results := gs_results g @ [cascade_skip spec cause]\<rparr>"
    using assms(1) by (simp add: gate_step_def split: if_splits)
  have "cr_caused_by (cascade_skip spec cause) \<noteq> None" by (simp add: cascade_skip_def)
  then show ?thesis using assms(2) unfolding g' silent_def by auto
qed

lemma run_gate_silent:
  assumes "\<And>extra t. \<not> sublist v (sanitize (rx_env ctx) extra t)" "v \<noteq> []"
  shows "foldl (\<lambda>gw spec. gate_step ctx spec gw) (g, w) specs = (g', w') \<Longrightarrow> silent v g \<Longrightarrow>
     list_all (\<lambda>s. cs_body s \<noteq> Run_nothing) specs \<Longrightarrow> silent v g'"
proof (induction specs arbitrary: g w)
  case (Cons spec specs)
  obtain g1 w1 where st: "gate_step ctx spec (g, w) = (g1, w1)" by (cases "gate_step ctx spec (g, w)")
  from gate_step_silent [OF st Cons.prems(2) assms(2) _ assms(1)] show ?case using Cons st by auto
qed simp

text \<open>No report carries a secret of the environment. Whatever the commands print and whatever the checks return
  or throw, the value of a known secret variable occurs in no blocking reason, no warning, and in no summary
  or evidence of a check that ran.\<close>

theorem reports_carry_no_secret:
  "(if list_ex (\<lambda>n. map_of (rx_env ctx) n = Some v) secret_env_names \<and> 6 \<le> length v \<and> plain v \<and> \<not> sublist v marks \<and>
       list_all (\<lambda>s. cs_body s \<noteq> Run_nothing) specs
    then case run_gate ctx specs total_ms w of (rep, w') \<Rightarrow>
      list_all (\<lambda>c. if cr_caused_by c = None then \<not> sublist v (cr_summary c) \<and> \<not> sublist v (cr_evidence c) else True) (rr_checks rep) \<and>
      list_all (\<lambda>t. \<not> sublist v t) (rr_blocking rep @ rr_warnings rep)
    else True)"
proof (cases "list_ex (\<lambda>n. map_of (rx_env ctx) n = Some v) secret_env_names \<and> 6 \<le> length v \<and> plain v \<and> \<not> sublist v marks \<and>
       list_all (\<lambda>s. cs_body s \<noteq> Run_nothing) specs")
  case True
  then have gone: "\<not> sublist v (sanitize (rx_env ctx) extra t)" for extra t
    using env_secret_removed by (auto simp: list_ex_iff)
  have ne: "v \<noteq> []" using True by auto
  obtain g w' where fold: "foldl (\<lambda>gw spec. gate_step ctx spec gw) (empty_gate, w) specs = (g, w')"
    by (cases "foldl (\<lambda>gw spec. gate_step ctx spec gw) (empty_gate, w) specs")
  have "silent v g"
    by (rule run_gate_silent [OF gone ne fold]) (use True in \<open>auto simp: silent_def empty_gate_def\<close>)
  then show ?thesis by (simp add: run_gate_def fold silent_def)
qed auto

end
