(* ===== verification/Gate_Config.thy ===== *)
theory Gate_Config
  imports Gate Store_Identity
begin

text \<open>
  The configured checks of the validation gate: prerequisites, configuration safety and feature posture of
  \<open>checks/prerequisites.ts\<close>, the recovery prerequisites of \<open>checks/recovery.ts\<close>, the check lists of \<open>config.ts\<close>
  and \<open>recovery-remote.ts\<close>. The environment and the flags are association lists; the display
  names of the checks are left out, and of the summaries only those that carry data.
\<close>

subsection \<open>Environment checks\<close>

type_synonym env = "(string \<times> string) list"

definition env_is :: "env \<Rightarrow> string \<Rightarrow> string \<Rightarrow> bool" where
  "env_is env n v \<longleftrightarrow> map_of env n = Some v"

definition env_set :: "env \<Rightarrow> string \<Rightarrow> bool" where
  \<comment> \<open>truthiness of \<open>env.X\<close>\<close>
  "env_set env n \<longleftrightarrow> truthy (map_of env n)"

definition missing_env :: "env \<Rightarrow> string list \<Rightarrow> string list" where
  "missing_env env names = filter (\<lambda>n. \<not> env_set env n \<or> js_trim (the (map_of env n)) = []) names"

definition outcome :: "check_status \<Rightarrow> string \<Rightarrow> string list \<Rightarrow> check_outcome" where
  "outcome st summary reasons =
     \<lparr>co_status = st, co_summary = summary, co_evidence = [], co_skip = None, co_blocking = reasons, co_warnings = [], co_metrics = []\<rparr>"

definition missing_reason :: "string \<Rightarrow> string" where
  "missing_reason n = ''missing env: '' @ n"

definition pr_local_stack :: "env \<Rightarrow> check_outcome" where
  "pr_local_stack env =
     (let absent = missing_env env [''DATABASE_URL'', ''REDIS_URL'']
      in if absent \<noteq> []
         then outcome St_blocked (''local validation stack not configured: missing '' @ join_with '', '' absent) (map missing_reason absent)
         else outcome St_passed ''local Postgres + Redis configured'' [])"

definition required_env :: "string list" where
  "required_env = [''DATABASE_URL'', ''REDIS_URL'', ''NOVA_ENCRYPTION_KEY'', ''NOVA_BACKUP_KEY'', ''NOVA_ALPHA_INVITE_CODE'']"

definition store_reasons :: "env \<Rightarrow> string list" where
  "store_reasons env =
     (if (case map_of env ''NOVA_MEDIA_STORE'' of None \<Rightarrow> ''fs'' | Some v \<Rightarrow> v) = ''s3''
      then map missing_reason (missing_env env
             [''NOVA_MEDIA_S3_BUCKET'', ''NOVA_MEDIA_S3_ACCESS_KEY_ID'', ''NOVA_MEDIA_S3_SECRET_ACCESS_KEY''])
      else if missing_env env [''NOVA_MEDIA_FS_ROOT''] \<noteq> []
      then [''missing env: NOVA_MEDIA_FS_ROOT (or set NOVA_MEDIA_STORE=s3 with credentials)''] else [])"

definition predeploy_reasons :: "env \<Rightarrow> string list" where
  "predeploy_reasons env =
     (if env_is env ''NODE_ENV'' ''production'' then []
      else [''NODE_ENV is not production (pre-deploy validates the production posture)'']) @
     map missing_reason (missing_env env required_env) @ store_reasons env"

definition predeploy_prerequisites :: "env \<Rightarrow> check_outcome" where
  "predeploy_prerequisites env =
     (let reasons = predeploy_reasons env
      in if reasons \<noteq> []
         then outcome St_blocked (''operator prerequisites missing ('' @ nat_str (length reasons) @ '')'') reasons
         else outcome St_passed ''production env + operator secrets present (values not inspected)'' [])"

definition violations :: "env \<Rightarrow> string list" where
  "violations env =
     (if env_is env ''NOVA_SIGNUP'' ''open'' then [''NOVA_SIGNUP=open in production (must be invite or closed)''] else []) @
     (if env_is env ''NOVA_REDACTION'' ''off'' then [''NOVA_REDACTION=off in production''] else []) @
     (if env_is env ''NOVA_IMAGE_REDACTION'' ''off'' then [''NOVA_IMAGE_REDACTION=off in production''] else []) @
     (case map_of env ''NOVA_SCREENSHOT_STORAGE'' of
        None \<Rightarrow> []
      | Some v \<Rightarrow> if v \<in> {''on'', ''off''} then [] else [''NOVA_SCREENSHOT_STORAGE has an unrecognized value'']) @
     (if env_is env ''NOVA_ALLOW_UNSAFE_REDACTION'' ''yes''
      then [''NOVA_ALLOW_UNSAFE_REDACTION=yes (the unsafe override must not be set)''] else []) @
     (if env_set env ''NOVA_ENCRYPTION_KEY'' \<and> env_set env ''NOVA_BACKUP_KEY'' \<and>
         map_of env ''NOVA_ENCRYPTION_KEY'' = map_of env ''NOVA_BACKUP_KEY''
      then [''NOVA_BACKUP_KEY equals NOVA_ENCRYPTION_KEY (they must be SEPARATE keys)''] else [])"

definition predeploy_config_safety :: "env \<Rightarrow> check_outcome" where
  "predeploy_config_safety env =
     (if violations env \<noteq> [] then outcome St_failed (''unsafe production configuration: '' @ join_with ''; '' (violations env)) []
      else outcome St_passed ''signup invite-only, redaction on, unsafe override unset, keys distinct'' [])"

definition enabled_features :: "env \<Rightarrow> string list" where
  "enabled_features env =
     (if env_set env ''NOTION_CLIENT_ID'' then [''notion''] else []) @
     (if env_set env ''ANTHROPIC_API_KEY'' \<and> \<not> env_is env ''NOVA_CLOUD_ENRICHMENT'' ''off'' then [''cloud_enrichment''] else []) @
     (if env_set env ''ANTHROPIC_API_KEY'' \<and> \<not> env_is env ''NOVA_LIVE_QA'' ''off'' then [''live_qa''] else []) @
     (if env_set env ''OPENAI_API_KEY'' then [''transcription_embeddings''] else [])"

definition predeploy_feature_posture :: "env \<Rightarrow> check_outcome" where
  "predeploy_feature_posture env =
     (let enabled = enabled_features env
      in if enabled = [] then outcome St_passed ''cloud/integration features OFF (first-deploy posture)'' []
         else (outcome St_degraded
                (''enabled beyond first-deploy posture: '' @ join_with '', '' enabled @
                 (if env_is env ''NOVA_VALIDATE_ALLOW_CLOUD'' ''yes'' then '' (operator-acknowledged)''
                  else '' '' @ [CHR 0x97] @ '' expected OFF until synthetic-smoked'')) [])
                \<lparr>co_warnings := map (\<lambda>f. ''feature enabled at deploy gate: '' @ f) enabled\<rparr>)"

subsection \<open>Recovery checks\<close>

definition loopback_hosts :: "string list" where
  "loopback_hosts = [''localhost'', ''127.0.0.1'', ''::1'', ''[::1]'']"

definition has_http_scheme :: "string \<Rightarrow> bool" where
  \<comment> \<open>\<open>/^https?:\/\//\<close>\<close>
  "has_http_scheme s \<longleftrightarrow> starts_with s ''http://'' \<or> starts_with s ''https://''"

definition recovery_reasons :: "env \<Rightarrow> env \<Rightarrow> string list" where
  "recovery_reasons flags env =
     (if env_set flags ''backup-dir'' then [] else [''missing --backup-dir (no sealed backup to drill against)'']) @
     (if env_set flags ''stamp'' then [] else [''missing --stamp (which backup set to verify/restore)'']) @
     (if env_set env ''NOVA_BACKUP_KEY'' then [] else [''missing env: NOVA_BACKUP_KEY (cannot unseal)'']) @
     (if env_set env ''DATABASE_URL'' then [] else [''missing env: DATABASE_URL (no scratch restore target)'']) @
     (if env_set env ''NOVA_ENCRYPTION_KEY'' then []
      else [''missing env: NOVA_ENCRYPTION_KEY (media:verify after restore needs the data key)'']) @
     (if env_set flags ''invite'' \<or> env_set env ''NOVA_SMOKE_INVITE'' then []
      else [''missing synthetic invite (--invite or NOVA_SMOKE_INVITE) for the mandatory post-restore smoke account''])"

definition recovery_prerequisites :: "(string \<Rightarrow> url option) \<Rightarrow> env \<Rightarrow> env \<Rightarrow> check_outcome" where
  \<comment> \<open>\<open>new URL\<close> is the first parameter, \<open>None\<close> when it throws\<close>
  "recovery_prerequisites url_parse flags env =
     (let finish = (\<lambda>reasons.
            if reasons \<noteq> [] then outcome St_blocked ''safe scratch recovery prerequisites unavailable'' reasons
            else outcome St_passed ''backup set, keys, scratch target, and restored-stack URL configured (values not inspected)'' []);
          reasons = recovery_reasons flags env
      in if \<not> env_set flags ''restored-base-url''
         then finish (reasons @ [''missing --restored-base-url (post-restore synthetic smoke is mandatory for a recovery PASS)''])
         else let restored = the (map_of flags ''restored-base-url'')
         in if \<not> has_http_scheme restored then outcome St_failed ''--restored-base-url must be an http(s) URL'' []
         else (case map_option url_hostname (url_parse restored) of
            None \<Rightarrow> outcome St_failed ''--restored-base-url is not a parseable URL'' []
          | Some host \<Rightarrow>
              if host \<notin> set loopback_hosts \<and> \<not> env_is env ''NOVA_VALIDATE_ALLOW_REMOTE_RESTORED'' ''yes''
              then finish (reasons @ [''restored-base-url is not loopback''])
              else finish reasons))"

definition scratch_guard_command :: command_spec where
  "scratch_guard_command =
     \<lparr>cm_cmd = ''pnpm'', cm_args = [''--filter'', ''@nova/api'', ''--silent'', ''backup:scratch-guard''], cm_env = [], cm_expect_failure = False\<rparr>"

definition scratch_target_guard :: "(command_spec \<Rightarrow> nat \<Rightarrow> 'w \<Rightarrow> (string + command_result) \<times> 'w) \<Rightarrow> 'w \<Rightarrow> (string + check_outcome) \<times> 'w" where
  "scratch_target_guard run w =
     (case run scratch_guard_command 120000 w of
        (Inl e, w1) \<Rightarrow> (Inl e, w1)
      | (Inr res, w1) \<Rightarrow>
          (Inr (if cx_code res = Some 0
                then (outcome St_passed ''restore target classified as safe scratch'' [])\<lparr>co_evidence := cx_stdout res\<rparr>
                else if cx_code res = Some 3
                then (outcome St_blocked ''restore target is NOT an authorized scratch database''
                        [''safe scratch target required''])\<lparr>co_evidence := cx_stdout res\<rparr>
                else (outcome St_failed ''scratch guard rejected DATABASE_URL (missing or malformed)'' [])\<lparr>co_evidence := cx_stderr res\<rparr>),
           w1))"

definition is_s3_media :: "env \<Rightarrow> bool" where
  "is_s3_media env \<longleftrightarrow> env_is env ''NOVA_MEDIA_STORE'' ''s3''"

definition s3_reasons :: "(string \<Rightarrow> string) \<Rightarrow> (string \<Rightarrow> url option) \<Rightarrow> env \<Rightarrow> string list" where
  "s3_reasons sha url_parse env =
     (let id_of = (\<lambda>endpoint bucket. fingerprint_identity sha url_parse
            (s3_identity (Some (canonicalize_endpoint url_parse endpoint)) bucket));
          backup_bucket = map_of env ''NOVA_BACKUP_S3_BUCKET''; media_bucket = map_of env ''NOVA_MEDIA_S3_BUCKET'';
          media_endpoint = map_of env ''NOVA_MEDIA_S3_ENDPOINT''
      in (if truthy backup_bucket then [] else [''missing env: NOVA_BACKUP_S3_BUCKET (media backup store to restore FROM)'']) @
         (if truthy media_bucket then [] else [''missing env: NOVA_MEDIA_S3_BUCKET (scratch media destination to restore INTO)'']) @
         (if to_lower (case map_of env ''NOVA_MEDIA_RESTORE_ALLOW_PRIMARY'' of None \<Rightarrow> [] | Some v \<Rightarrow> v) = ''yes''
          then [''NOVA_MEDIA_RESTORE_ALLOW_PRIMARY=yes disables the restore-over-primary guard''] else []) @
         (if truthy backup_bucket \<and> truthy media_bucket \<and>
             id_of media_endpoint (the media_bucket) =
             id_of (coalesce (map_of env ''NOVA_BACKUP_S3_ENDPOINT'') media_endpoint) (the backup_bucket)
          then [''scratch media store resolves to the SAME store as the backup''] else []))"

definition s3_recovery_prerequisites :: "(string \<Rightarrow> string) \<Rightarrow> (string \<Rightarrow> url option) \<Rightarrow> env \<Rightarrow> check_outcome" where
  "s3_recovery_prerequisites sha url_parse env =
     (if \<not> is_s3_media env
      then (outcome St_skipped ''fs media mode'' [])\<lparr>co_skip := Some Sk_not_applicable\<rparr>
      else if s3_reasons sha url_parse env \<noteq> []
      then outcome St_blocked ''s3 media recovery prerequisites unavailable (values not inspected)'' (s3_reasons sha url_parse env)
      else outcome St_passed ''s3 media backup store + a SEPARATE scratch media destination configured'' [])"

fun compute_exit :: "int \<Rightarrow> bool \<Rightarrow> int" where
  "compute_exit code cleanup_ok =
     (if \<not> cleanup_ok then (if code = 0 then 1 else code) else code)"

text \<open>The orchestration of \<open>validate:recovery-remote\<close>: fetch the sealed set into a fresh workspace, run the gate
  on it, remove the workspace, and exit by the rule above. A command resolves to its exit code, or throws.\<close>

record 'w remote =
  rm_mkdtemp :: "'w \<Rightarrow> (string \<times> bool) \<times> 'w" \<comment> \<open>the path, and whether \<open>lstat\<close> shows a real directory\<close>
  rm_run :: "string \<Rightarrow> string list \<Rightarrow> 'w \<Rightarrow> (string + int) \<times> 'w"
  rm_remove :: "string \<Rightarrow> 'w \<Rightarrow> bool \<times> 'w"
  rm_cli :: string
  rm_force_failure :: bool

definition fetch_args :: "string \<Rightarrow> string \<Rightarrow> string list" where
  "fetch_args stamp ws =
     [''--filter'', ''@nova/api'', ''--silent'', ''backup:fetch-s3'', ''--'', ''--stamp='' @ stamp, ''--out='' @ ws]"

definition gate_args :: "'w remote \<Rightarrow> env \<Rightarrow> string \<Rightarrow> string list" where
  "gate_args r args ws =
     [rm_cli r, ''recovery'', ''--backup-dir='' @ ws, ''--stamp='' @ the (map_of args ''stamp''),
      ''--restored-base-url='' @ the (map_of args ''restored-base-url'')] @
     (if env_set args ''invite'' then [''--invite='' @ the (map_of args ''invite'')] else [])"

definition remote_steps :: "'w remote \<Rightarrow> env \<Rightarrow> string \<Rightarrow> 'w \<Rightarrow> int \<times> 'w" where
  \<comment> \<open>the \<open>try\<close> block; \<open>1\<close> stands for whatever it throws\<close>
  "remote_steps r args ws w =
     (case rm_run r ''pnpm'' (fetch_args (the (map_of args ''stamp'')) ws) w of
        (Inl e, w1) \<Rightarrow> (1, w1)
      | (Inr code, w1) \<Rightarrow>
          if code \<noteq> 0 then (code, w1)
          else (case rm_run r ''tsx'' (gate_args r args ws) w1 of (Inl e, w2) \<Rightarrow> (1, w2) | (Inr code2, w2) \<Rightarrow> (code2, w2)))"

definition recovery_remote :: "'w remote \<Rightarrow> env \<Rightarrow> 'w \<Rightarrow> int \<times> 'w" where
  "recovery_remote r args w =
     (if \<not> env_set args ''stamp'' \<or> \<not> env_set args ''restored-base-url'' then (2, w)
      else case rm_mkdtemp r w of
        ((ws, real), w1) \<Rightarrow>
          if \<not> real then (1, snd (rm_remove r ws w1))
          else case remote_steps r args ws w1 of
            (code, w2) \<Rightarrow> (case rm_remove r ws w2 of (removed, w3) \<Rightarrow> (compute_exit code (removed \<and> \<not> rm_force_failure r), w3)))"

text \<open>A remote recovery exits with zero exactly when the fetch and the gate both did, in this order and on the fresh
  workspace, and the workspace is gone.\<close>

lemma remote_recovery_exit:
  assumes "env_set args ''stamp''" "env_set args ''restored-base-url''" "rm_mkdtemp r w = ((ws, True), w1)"
  shows "recovery_remote r args w = (0, w') \<longleftrightarrow>
    (\<exists>w2 w3. rm_run r ''pnpm'' (fetch_args (the (map_of args ''stamp'')) ws) w1 = (Inr 0, w2) \<and>
       rm_run r ''tsx'' (gate_args r args ws) w2 = (Inr 0, w3) \<and> rm_remove r ws w3 = (True, w') \<and> \<not> rm_force_failure r)"
  using assms by (auto simp: recovery_remote_def remote_steps_def split: prod.splits sum.splits if_splits)

subsection \<open>The check lists\<close>

definition mins :: nat where "mins = 60000"

definition mk :: "string \<Rightarrow> category \<Rightarrow> severity \<Rightarrow> nat \<Rightarrow> 'w check_body \<Rightarrow> 'w check_spec" where
  \<comment> \<open>a required check that is neither pure nor always run\<close>
  "mk i cat sev timeout body =
     \<lparr>cs_id = i, cs_category = cat, cs_severity = sev, cs_required = True, cs_timeout = timeout, cs_pure = False,
      cs_always = False, cs_body = body\<rparr>"

definition pnpm :: "string list \<Rightarrow> 'w check_body" where
  "pnpm args = Run_command \<lparr>cm_cmd = ''pnpm'', cm_args = args, cm_env = [], cm_expect_failure = False\<rparr>"

definition api :: "string list \<Rightarrow> string list" where
  "api args = [''--filter'', ''@nova/api''] @ args"

definition pure_fn :: "check_outcome \<Rightarrow> 'w check_body" where
  "pure_fn out = Run_fn (\<lambda>w. (Inr out, w))"

definition pr_checks :: "env \<Rightarrow> 'w check_spec list" where
  "pr_checks env =
     [mk ''pr_prerequisites'' C_operations P0 10000 (pure_fn (pr_local_stack env)),
      mk ''build'' C_build P0 (20 * mins) (pnpm [''build'']),
      mk ''typecheck'' C_typecheck P0 (15 * mins) (pnpm [''typecheck'']),
      mk ''unit'' C_unit P0 (20 * mins) (pnpm [''test'']),
      mk ''migrate'' C_integration P0 (10 * mins) (pnpm [''db:migrate'']),
      mk ''integration'' C_integration P0 (40 * mins) (pnpm [''test:integration''])]"

definition env_checks :: "env \<Rightarrow> 'w check_spec list" where
  \<comment> \<open>the three pure checks that open \<open>predeployChecks\<close> and \<open>deployChecks\<close>\<close>
  "env_checks env =
     [(mk ''config_safety'' C_security P0 10000 (pure_fn (predeploy_config_safety env)))\<lparr>cs_pure := True\<rparr>,
      (mk ''feature_posture'' C_operations P3 10000 (pure_fn (predeploy_feature_posture env)))\<lparr>cs_required := False, cs_pure := True\<rparr>,
      (mk ''predeploy_prerequisites'' C_operations P0 10000 (pure_fn (predeploy_prerequisites env)))\<lparr>cs_pure := True\<rparr>]"

definition predeploy_checks :: "env \<Rightarrow> 'w check_spec list" where
  "predeploy_checks env =
     env_checks env @ [mk ''preflight'' C_operations P0 (10 * mins) (pnpm (api [''ops:preflight'']))]"

definition deploy_checks :: "env \<Rightarrow> 'w check_spec list" where
  "deploy_checks env =
     env_checks env @
     [mk ''migrate'' C_integration P0 (10 * mins) (pnpm [''db:migrate'']),
      mk ''preflight'' C_operations P0 (10 * mins) (pnpm (api [''ops:preflight''])),
      mk ''migrations_current'' C_integration P0 (5 * mins) (pnpm (api [''db:migrate:status'']))]"

definition flag_or :: "env \<Rightarrow> string \<Rightarrow> string" where
  "flag_or flags n = (case map_of flags n of None \<Rightarrow> [] | Some v \<Rightarrow> v)"

definition smoke_invite :: "env \<Rightarrow> env \<Rightarrow> string" where
  "smoke_invite flags env =
     (case coalesce (map_of flags ''invite'') (map_of env ''NOVA_SMOKE_INVITE'') of None \<Rightarrow> [] | Some v \<Rightarrow> v)"

definition smoke_body :: "string \<Rightarrow> string \<Rightarrow> 'w check_body" where
  "smoke_body base invite =
     Run_command \<lparr>cm_cmd = ''pnpm'', cm_args = api [''ops:smoke'', ''--'', ''--base-url='' @ base],
       cm_env = (if invite = [] then [] else [(''NOVA_SMOKE_INVITE'', invite)]), cm_expect_failure = False\<rparr>"

record recovery_params =
  rp_sha256 :: "string \<Rightarrow> string"
  rp_url_parse :: "string \<Rightarrow> url option"
  rp_wrong_key :: string \<comment> \<open>\<open>randomBytes(32).toString("hex")\<close>\<close>
  rp_wrong_key2 :: string

definition wrong_key_body :: "string \<Rightarrow> string list \<Rightarrow> 'w check_body" where
  "wrong_key_body key args =
     Run_command \<lparr>cm_cmd = ''pnpm'', cm_args = api args, cm_env = [(''NOVA_BACKUP_KEY'', key)], cm_expect_failure = True\<rparr>"

definition recovery_checks ::
  "recovery_params \<Rightarrow> (command_spec \<Rightarrow> nat \<Rightarrow> 'w \<Rightarrow> (string + command_result) \<times> 'w) \<Rightarrow> env \<Rightarrow> env \<Rightarrow> 'w check_spec list" where
  "recovery_checks p run flags env =
     (let dir = flag_or flags ''backup-dir''; stamp = flag_or flags ''stamp''; restored = flag_or flags ''restored-base-url'';
          d = ''--dir='' @ dir; st = ''--stamp='' @ stamp; s3 = is_s3_media env;
          when = (\<lambda>xs. if s3 then xs else [])
      in [mk ''recovery_prerequisites'' C_operations P0 10000 (pure_fn (recovery_prerequisites (rp_url_parse p) flags env))] @
         when [mk ''s3_recovery_prerequisites'' C_backup P0 10000
                 (pure_fn (s3_recovery_prerequisites (rp_sha256 p) (rp_url_parse p) env))] @
         [mk ''scratch_guard'' C_recovery P0 (2 * mins) (Run_fn (scratch_target_guard run)),
          mk ''backup_verify'' C_backup P0 (10 * mins) (pnpm (api [''backup:verify'', ''--'', d, st])),
          mk ''backup_verify_wrong_key'' C_backup P0 (10 * mins) (wrong_key_body (rp_wrong_key p) [''backup:verify'', ''--'', d, st])] @
         when [mk ''media_backup_verify'' C_backup P0 (10 * mins) (pnpm (api [''media:verify-backup-s3'', ''--'', st, d])),
               mk ''media_backup_verify_wrong_key'' C_backup P0 (10 * mins)
                 (wrong_key_body (rp_wrong_key2 p) [''media:verify-backup-s3'', ''--'', st, d])] @
         [mk ''restore_scratch'' C_recovery P0 (30 * mins)
            (Run_command \<lparr>cm_cmd = ''bash'', cm_args = [''scripts/restore.sh'', dir, stamp],
               cm_env = [(''NOVA_RESTORE_CONFIRM'', ''RESTORE''), (''NOVA_RESTORE_MODE'', ''authorized-scratch'')], cm_expect_failure = False\<rparr>),
          mk ''post_restore_migrate'' C_recovery P1 (10 * mins) (pnpm [''db:migrate''])] @
         when [mk ''media_restore_s3'' C_recovery P1 (20 * mins) (pnpm (api [''media:restore-s3'', ''--'', st, d, ''--apply'']))] @
         [mk ''media_verify'' C_media P1 (20 * mins) (pnpm (api [''media:verify''])),
          mk ''post_restore_smoke'' C_recovery P1 (15 * mins) (smoke_body restored (smoke_invite flags env))])"

subsection \<open>Guards before commands\<close>

lemma cascade_freezes:
  assumes "list_all (\<lambda>s. \<not> cs_pure s \<and> \<not> cs_always s) specs" "gs_cascade g = Some cause"
  shows "\<exists>g'. foldl (\<lambda>gw spec. gate_step ctx spec gw) (g, w) specs = (g', w) \<and> gs_cascade g' = Some cause"
  using assms
proof (induction specs arbitrary: g)
  case (Cons s specs)
  then show ?case by (simp add: gate_step_def)
qed simp

lemma gate_step_pure:
  assumes "cs_body spec = pure_fn out" "cs_pure spec"
  obtains g' where "gate_step ctx spec (g, w) = (g', w)"
    "gs_cascade g \<noteq> None \<or> cs_required spec \<and> (co_status out = St_failed \<or> co_status out = St_blocked) \<Longrightarrow> gs_cascade g' \<noteq> None"
proof -
  obtain g' w' where st: "gate_step ctx spec (g, w) = (g', w')" by (cases "gate_step ctx spec (g, w)")
  from st show ?thesis
  proof (cases rule: gate_step_cases)
    case (skip cause)
    then show ?thesis using assms(2) by simp
  next
    case (run r g1)
    have r: "w' = w" "cr_status r = co_status out"
      using run(1) assms(1) by (auto simp: run_check_def pure_fn_def result_of_def Let_def)
    show ?thesis by (rule that [of g']) (use st run(3) r in auto)
  qed
qed

lemma env_status:
  "violations env \<noteq> [] \<Longrightarrow> co_status (predeploy_config_safety env) = St_failed"
  "predeploy_reasons env \<noteq> [] \<Longrightarrow> co_status (predeploy_prerequisites env) = St_blocked"
  by (simp_all add: predeploy_config_safety_def predeploy_prerequisites_def outcome_def Let_def)

lemma env_checks_cascade:
  assumes "violations env \<noteq> [] \<or> predeploy_reasons env \<noteq> []"
  shows "\<exists>g cause. foldl (\<lambda>gw spec. gate_step ctx spec gw) (empty_gate, w) (env_checks env) = (g, w) \<and> gs_cascade g = Some cause"
proof -
  let ?c1 = "(mk ''config_safety'' C_security P0 10000 (pure_fn (predeploy_config_safety env)))\<lparr>cs_pure := True\<rparr>"
  let ?c2 = "(mk ''feature_posture'' C_operations P3 10000 (pure_fn (predeploy_feature_posture env)))\<lparr>cs_required := False, cs_pure := True\<rparr>"
  let ?c3 = "(mk ''predeploy_prerequisites'' C_operations P0 10000 (pure_fn (predeploy_prerequisites env)))\<lparr>cs_pure := True\<rparr>"
  obtain g1 where g1: "gate_step ctx ?c1 (empty_gate, w) = (g1, w)"
    "gs_cascade empty_gate \<noteq> None \<or> cs_required ?c1 \<and> (co_status (predeploy_config_safety env) = St_failed \<or>
       co_status (predeploy_config_safety env) = St_blocked) \<Longrightarrow> gs_cascade g1 \<noteq> None"
    by (rule gate_step_pure [of ?c1 "predeploy_config_safety env" ctx empty_gate w]) (simp_all add: mk_def)
  obtain g2 where g2: "gate_step ctx ?c2 (g1, w) = (g2, w)" "gs_cascade g1 \<noteq> None \<Longrightarrow> gs_cascade g2 \<noteq> None"
    by (rule gate_step_pure [of ?c2 "predeploy_feature_posture env" ctx g1 w]) (simp_all add: mk_def)
  obtain g3 where g3: "gate_step ctx ?c3 (g2, w) = (g3, w)"
    "gs_cascade g2 \<noteq> None \<or> cs_required ?c3 \<and> (co_status (predeploy_prerequisites env) = St_failed \<or>
       co_status (predeploy_prerequisites env) = St_blocked) \<Longrightarrow> gs_cascade g3 \<noteq> None"
    by (rule gate_step_pure [of ?c3 "predeploy_prerequisites env" ctx g2 w]) (simp_all add: mk_def)
  have "cs_required ?c1" "cs_required ?c3" by (simp_all add: mk_def)
  then have "gs_cascade g3 \<noteq> None" using assms env_status [of env] g1(2) g2(2) g3(2) by blast
  then show ?thesis using g1(1) g2(1) g3(1) by (auto simp: env_checks_def)
qed

lemma unsafe_prefix:
  assumes "violations env \<noteq> [] \<or> predeploy_reasons env \<noteq> []" "list_all (\<lambda>s. \<not> cs_pure s \<and> \<not> cs_always s) later"
    "list_all (\<lambda>s. if cs_required s then cs_severity s \<noteq> P3 else True) later"
  shows "case run_gate ctx (env_checks env @ later) total_ms w of (rep, w') \<Rightarrow> w' = w \<and> exit_code_for (rr_outcome rep) m \<noteq> 0"
proof -
  obtain g cause where 1: "foldl (\<lambda>gw spec. gate_step ctx spec gw) (empty_gate, w) (env_checks env) = (g, w)" "gs_cascade g = Some cause"
    using env_checks_cascade [OF assms(1), of ctx w] by (elim exE conjE)
  obtain g' where 2: "foldl (\<lambda>gw spec. gate_step ctx spec gw) (g, w) later = (g', w)" "gs_cascade g' = Some cause"
    using cascade_freezes [OF assms(2) 1(2)] by blast
  have fold: "foldl (\<lambda>gw spec. gate_step ctx spec gw) (empty_gate, w) (env_checks env @ later) = (g', w)"
    using 1 2 by simp
  have sev: "list_all (\<lambda>s. if cs_required s then cs_severity s \<noteq> P3 else True) (env_checks env @ later)"
    using assms(3) by (simp add: env_checks_def mk_def)
  have "exit_code_for (compute_outcome (gs_results g')) m \<noteq> 0"
    by (rule cascade_not_green [OF fold _ sev]) (simp add: 2(2))
  then show ?thesis unfolding run_gate_def fold by simp
qed

text \<open>A deployment with an unsafe configuration or missing prerequisites never reaches a command: not the
  migrations, not the preflight. The world is as before and the gate does not exit with zero.\<close>

theorem unsafe_config_never_migrates:
  "(if violations env @ predeploy_reasons env \<noteq> []
    then (case run_gate ctx (deploy_checks env) total_ms w of (rep, w') \<Rightarrow>
            w' = w \<and> exit_code_for (rr_outcome rep) M_deploy \<noteq> 0) \<and>
         (case run_gate ctx (predeploy_checks env) total_ms w of (rep, w') \<Rightarrow>
            w' = w \<and> exit_code_for (rr_outcome rep) M_predeploy \<noteq> 0)
    else True)"
proof (cases "violations env @ predeploy_reasons env \<noteq> []")
  case True
  then have "violations env \<noteq> [] \<or> predeploy_reasons env \<noteq> []" by simp
  note prefix = unsafe_prefix [OF this]
  show ?thesis
    unfolding if_P [OF True] deploy_checks_def predeploy_checks_def
    by (intro conjI prefix) (simp_all add: mk_def)
qed auto

text \<open>No shipped list has a required check at P3, so \<open>green_gate_ran_everything\<close> applies to every mode.\<close>

lemma shipped_checks_required:
  "list_all (\<lambda>s. if cs_required s then cs_severity s \<noteq> P3 else True)
     (pr_checks env @ predeploy_checks env @ deploy_checks env @ recovery_checks p run flags env)"
  by (simp add: pr_checks_def predeploy_checks_def deploy_checks_def recovery_checks_def env_checks_def mk_def Let_def)

end
