(* ===== verification/Gate_Session.thy ===== *)
theory Gate_Session
  imports Gate_Config Sanitize
begin

text \<open>
  The post-deploy checks of the gate, \<open>checks/postdeploy.ts\<close>, and their list in \<open>config.ts\<close>: the prerequisites,
  the synthetic session with its bootstrap and cleanup, the readiness and the authenticated status check. The
  network is an abstract \<open>fetch\<close> over its own state; the in-memory session is part of the world of the gate, and
  a child process can change the network only.
\<close>

subsection \<open>The world of a post-deploy run\<close>

datatype session_state =
    S_not_started | S_account_state_unknown | S_account_created | S_authenticated | S_deletion_attempted | S_cleaned
  | S_cleanup_failed

record gate_session =
  se_state :: session_state
  se_email :: string
  se_password :: string
  se_token :: "string option"
  se_bootstrapped :: bool

record 'n gate_world =
  gw_net :: 'n
  gw_session :: "gate_session option"
  gw_secrets :: "string list"

record api_request =
  aq_base :: "string option"
  aq_path :: string
  aq_method :: string
  aq_token :: "string option"
  aq_body :: "(string \<times> string) list option"

datatype fetched = Fetch_failed string | Fetched nat string "json option"
  \<comment> \<open>an exception, or a status with the text of the body and what \<open>JSON.parse\<close> makes of it\<close>

type_synonym 'n fetch = "api_request \<Rightarrow> 'n \<Rightarrow> fetched \<times> 'n"

record post_params =
  pp_flags :: env
  pp_env :: env
  pp_time36 :: string \<comment> \<open>\<open>Date.now().toString(36)\<close>\<close>
  pp_rand6 :: bytes
  pp_rand24 :: bytes
  pp_latency :: int

subsection \<open>Requests\<close>

definition on_net :: "('n \<Rightarrow> 'a \<times> 'n) \<Rightarrow> 'n gate_world \<Rightarrow> 'a \<times> 'n gate_world" where
  "on_net f w = (case f (gw_net w) of (x, n) \<Rightarrow> (x, w\<lparr>gw_net := n\<rparr>))"

definition api_call :: "'n fetch \<Rightarrow> api_request \<Rightarrow> 'n \<Rightarrow> (string + nat \<times> json) \<times> 'n" where
  "api_call fetch rq n =
     (case fetch rq n of
        (Fetch_failed e, n1) \<Rightarrow> (Inl e, n1)
      | (Fetched status txt parsed, n1) \<Rightarrow> (Inr (status, case parsed of None \<Rightarrow> JObj [] | Some j \<Rightarrow> j), n1))"

definition token_of :: "json \<Rightarrow> string + string option" where
  \<comment> \<open>\<open>typeof body.token === "string"\<close>, which throws on \<open>null\<close>\<close>
  "token_of body =
     (if body = JNull then Inl ''Cannot read properties of null''
      else Inr (case jget ''token'' body of Some (JStr t) \<Rightarrow> Some t | _ \<Rightarrow> None))"

definition hex_digits :: string where "hex_digits = ''0123456789abcdef''"

definition hex_byte :: "8 word \<Rightarrow> string" where
  "hex_byte b = [hex_digits ! unat (drop_bit 4 b), hex_digits ! unat (take_bit 4 b)]"

definition random_hex :: "bytes \<Rightarrow> string" where
  "random_hex bs = concat (map hex_byte bs)"

definition base_url :: "post_params \<Rightarrow> string option" where
  "base_url p = map_of (pp_flags p) ''base-url''"

definition login_request :: "post_params \<Rightarrow> string \<Rightarrow> string \<Rightarrow> api_request" where
  "login_request p email password =
     \<lparr>aq_base = base_url p, aq_path = ''/v1/auth/login'', aq_method = ''POST'', aq_token = None,
      aq_body = Some [(''email'', email), (''password'', password)]\<rparr>"

definition get_request :: "post_params \<Rightarrow> string \<Rightarrow> string option \<Rightarrow> api_request" where
  "get_request p path token_opt =
     \<lparr>aq_base = base_url p, aq_path = path, aq_method = ''GET'', aq_token = token_opt, aq_body = None\<rparr>"

definition logout_request :: "post_params \<Rightarrow> string option \<Rightarrow> api_request" where
  "logout_request p token_opt =
     \<lparr>aq_base = base_url p, aq_path = ''/v1/auth/logout'', aq_method = ''POST'', aq_token = token_opt, aq_body = None\<rparr>"

definition delete_request :: "post_params \<Rightarrow> string \<Rightarrow> string \<Rightarrow> api_request" where
  "delete_request p token_str password =
     \<lparr>aq_base = base_url p, aq_path = ''/v1/auth/account/delete'', aq_method = ''POST'', aq_token = Some token_str,
      aq_body = Some [(''password'', password), (''confirm'', ''DELETE'')]\<rparr>"

subsection \<open>Prerequisites and bootstrap\<close>

definition has_url_scheme :: "string \<Rightarrow> bool" where
  \<comment> \<open>\<open>/^https?:\/\//\<close>\<close>
  "has_url_scheme u \<longleftrightarrow> starts_with u ''http://'' \<or> starts_with u ''https://''"

definition missing_base :: string where
  "missing_base = ''missing --base-url (no deployed Nova API to validate)''"

definition missing_invite :: string where
  "missing_invite = ''missing invite (--invite or NOVA_SMOKE_INVITE)''"

definition postdeploy_prerequisites :: "post_params \<Rightarrow> check_outcome" where
  "postdeploy_prerequisites p =
     (if env_set (pp_flags p) ''base-url'' \<and> \<not> has_url_scheme (the (base_url p))
      then outcome St_failed ''--base-url must be an http(s) URL'' []
      else
        let reasons = (if env_set (pp_flags p) ''base-url'' then [] else [missing_base]) @
                      (if \<not> env_set (pp_flags p) ''invite'' \<and> \<not> env_set (pp_env p) ''NOVA_SMOKE_INVITE'' then [missing_invite] else [])
        in if reasons \<noteq> [] then outcome St_blocked ''post-deploy prerequisites missing'' reasons
           else outcome St_passed ''deployment URL + invite available'' [])"

definition supplied_token :: "post_params \<Rightarrow> string option" where
  "supplied_token p = map_of (pp_env p) ''NOVA_VALIDATE_SESSION_TOKEN''"

definition invite_of :: "post_params \<Rightarrow> string option" where
  "invite_of p = coalesce (map_of (pp_flags p) ''invite'') (map_of (pp_env p) ''NOVA_SMOKE_INVITE'')"

definition synthetic_email :: "post_params \<Rightarrow> string" where
  "synthetic_email p = ''validate-'' @ pp_time36 p @ ''-'' @ random_hex (pp_rand6 p) @ ''@nova-validate.invalid''"

definition synthetic_password :: "post_params \<Rightarrow> string" where
  "synthetic_password p = ''Vg1-'' @ random_hex (pp_rand24 p)"

definition signup_request :: "post_params \<Rightarrow> string \<Rightarrow> api_request" where
  "signup_request p invite =
     \<lparr>aq_base = base_url p, aq_path = ''/v1/auth/signup'', aq_method = ''POST'', aq_token = None,
      aq_body = Some [(''email'', synthetic_email p), (''password'', synthetic_password p), (''invite_code'', invite)]\<rparr>"

definition san :: "post_params \<Rightarrow> string \<Rightarrow> string" where
  "san p s = sanitize (pp_env p) [] s"

definition bootstrap_login :: "'n fetch \<Rightarrow> post_params \<Rightarrow> gate_session \<Rightarrow> 'n gate_world \<Rightarrow> check_outcome \<times> 'n gate_world" where
  "bootstrap_login fetch p s w =
     (case on_net (api_call fetch (login_request p (se_email s) (se_password s))) w of
        (Inl e, w1) \<Rightarrow> (outcome St_failed (san p (''synthetic login unreachable after signup: '' @ e)) [], w1)
      | (Inr (status, body), w1) \<Rightarrow>
          (case token_of body of
             Inl e \<Rightarrow> (outcome St_failed (san p (''synthetic login unreachable after signup: '' @ e)) [], w1)
           | Inr tk \<Rightarrow>
               if status \<noteq> 200 \<or> \<not> truthy tk
               then (outcome St_failed (''synthetic login failed (HTTP '' @ nat_str status @ '')'') [], w1)
               else (outcome St_passed ''in-gate synthetic session created'' [],
                     w1\<lparr>gw_session := Some (s\<lparr>se_token := tk, se_state := S_authenticated\<rparr>), gw_secrets := gw_secrets w1 @ [the tk]\<rparr>)))"

definition synthetic_session_bootstrap :: "'n fetch \<Rightarrow> post_params \<Rightarrow> 'n gate_world \<Rightarrow> check_outcome \<times> 'n gate_world" where
  "synthetic_session_bootstrap fetch p w =
     (if truthy (supplied_token p)
      then (outcome St_passed ''using pre-supplied operator session (approach A)'' [],
            w\<lparr>gw_session := Some \<lparr>se_state = S_authenticated, se_email = [], se_password = [], se_token = supplied_token p, se_bootstrapped = False\<rparr>,
              gw_secrets := gw_secrets w @ [the (supplied_token p)]\<rparr>)
      else if \<not> truthy (base_url p) \<or> \<not> truthy (invite_of p)
      then (outcome St_failed ''bootstrap prerequisites absent at check time (prerequisite bypass?)'' [], w)
      else
        let s = \<lparr>se_state = S_account_state_unknown, se_email = synthetic_email p, se_password = synthetic_password p,
                 se_token = None, se_bootstrapped = True\<rparr>;
            w1 = w\<lparr>gw_secrets := gw_secrets w @ [synthetic_password p, the (invite_of p)], gw_session := Some s\<rparr>
        in case on_net (api_call fetch (signup_request p (the (invite_of p)))) w1 of
             (Inl e, w2) \<Rightarrow> (outcome St_failed (san p (''synthetic signup response lost: '' @ e)) [], w2)
           | (Inr (status, body), w2) \<Rightarrow>
               if status \<noteq> 201
               then (outcome St_failed (''synthetic signup returned HTTP '' @ nat_str status) [], w2)
               else bootstrap_login fetch p (s\<lparr>se_state := S_account_created\<rparr>) (w2\<lparr>gw_session := Some (s\<lparr>se_state := S_account_created\<rparr>)\<rparr>))"

subsection \<open>Cleanup\<close>

definition cleanup_attempts :: nat where "cleanup_attempts = 3"

fun recover_token :: "'n fetch \<Rightarrow> post_params \<Rightarrow> string \<Rightarrow> string \<Rightarrow> nat \<Rightarrow> 'n \<Rightarrow> string option \<times> 'n" where
  \<comment> \<open>the argument counts the attempts left; the delays are not modelled\<close>
  "recover_token fetch p email password 0 n = (None, n)"
| "recover_token fetch p email password (Suc k) n =
     (case api_call fetch (login_request p email password) n of
        (Inl e, n1) \<Rightarrow> recover_token fetch p email password k n1
      | (Inr (status, body), n1) \<Rightarrow>
          (case (if status = 200 then token_of body else Inr None) of
             Inr (Some t) \<Rightarrow> (Some t, n1)
           | _ \<Rightarrow> recover_token fetch p email password k n1))"

fun delete_account :: "'n fetch \<Rightarrow> post_params \<Rightarrow> string \<Rightarrow> string \<Rightarrow> nat \<Rightarrow> nat option \<Rightarrow> 'n \<Rightarrow> nat option \<times> 'n" where
  "delete_account fetch p token_str password 0 last_status n = (last_status, n)"
| "delete_account fetch p token_str password (Suc k) last_status n =
     (case api_call fetch (delete_request p token_str password) n of
        (Inl e, n1) \<Rightarrow> delete_account fetch p token_str password k None n1
      | (Inr (status, body), n1) \<Rightarrow>
          if status = 200 then (Some 200, n1) else delete_account fetch p token_str password k (Some status) n1)"

definition end_session :: "gate_session \<Rightarrow> session_state \<Rightarrow> 'n gate_world \<Rightarrow> 'n gate_world" where
  \<comment> \<open>\<open>clearSessionSecrets(ctx); s.state = \<dots>\<close>\<close>
  "end_session s st w = w\<lparr>gw_session := Some (s\<lparr>se_token := None, se_password := [], se_state := st\<rparr>)\<rparr>"

definition synthetic_handle :: "string \<Rightarrow> string" where
  "synthetic_handle email = (if email = [] then ''(unknown synthetic account)'' else email)"

definition status_or :: "string \<Rightarrow> nat option \<Rightarrow> string" where
  "status_or alt st = (case st of None \<Rightarrow> alt | Some c \<Rightarrow> nat_str c)"

definition revoke_supplied :: "'n fetch \<Rightarrow> post_params \<Rightarrow> gate_session \<Rightarrow> 'n gate_world \<Rightarrow> check_outcome \<times> 'n gate_world" where
  "revoke_supplied fetch p s w =
     (let lost = (\<lambda>e w1. (outcome St_failed (san p (''approach-A revoke unreachable: '' @ e)) [], end_session s S_cleanup_failed w1))
      in case on_net (api_call fetch (logout_request p (se_token s))) w of
           (Inl e, w1) \<Rightarrow> lost e w1
         | (Inr (logout, body1), w1) \<Rightarrow>
             (case on_net (api_call fetch (get_request p ''/v1/ops/status'' (se_token s))) w1 of
                (Inl e, w2) \<Rightarrow> lost e w2
              | (Inr (probe, body2), w2) \<Rightarrow>
                  if probe = 401
                  then (outcome St_passed (''pre-supplied session REVOKED + proven dead (logout HTTP '' @ nat_str logout @ '', probe HTTP 401)'') [],
                        end_session s S_cleaned w2)
                  else (outcome St_failed (''pre-supplied session NOT proven revoked (logout HTTP '' @ nat_str logout @ '', probe HTTP '' @
                          nat_str probe @ ''; only 401 proves a dead session) - revoke it manually'') [],
                        end_session s S_cleanup_failed w2)))"

definition login_status :: "(string + nat \<times> json) \<Rightarrow> nat option" where
  "login_status r = (case r of Inl e \<Rightarrow> None | Inr (status, body) \<Rightarrow> Some status)"

definition destroy_account :: "'n fetch \<Rightarrow> post_params \<Rightarrow> gate_session \<Rightarrow> string \<Rightarrow> 'n gate_world \<Rightarrow> check_outcome \<times> 'n gate_world" where
  "destroy_account fetch p s token_str w =
     (let manual = (\<lambda>what w1. (outcome St_failed (what @ synthetic_handle (se_email s)) [], end_session s S_cleanup_failed w1))
      in case on_net (delete_account fetch p token_str (se_password s) cleanup_attempts None) w of
           (del, w1) \<Rightarrow>
             if del \<noteq> Some 200
             then manual (''synthetic account deletion failed (HTTP '' @ status_or ''network error'' del @ '') - MANUAL cleanup required for synthetic handle '') w1
             else
               (case on_net (api_call fetch (login_request p (se_email s) (se_password s))) w1 of
                  (relogin, w2) \<Rightarrow>
                    if login_status relogin \<noteq> Some 401
                    then manual (''synthetic account deletion NOT proven - post-delete login returned HTTP '' @
                            status_or ''unreachable'' (login_status relogin) @ ''; MANUAL verification required for synthetic handle '') w2
                    else (outcome St_passed ''synthetic account deleted + sessions revoked (post-delete login HTTP 401 - cleanup proven)'' [],
                          end_session s S_cleaned w2)))"

definition synthetic_session_cleanup :: "'n fetch \<Rightarrow> post_params \<Rightarrow> 'n gate_world \<Rightarrow> check_outcome \<times> 'n gate_world" where
  "synthetic_session_cleanup fetch p w =
     (case gw_session w of
        None \<Rightarrow> (outcome St_passed ''no synthetic account was created - nothing to clean'' [], w)
      | Some s \<Rightarrow>
          if se_state s = S_not_started then (outcome St_passed ''no synthetic account was created - nothing to clean'' [], w)
          else if \<not> se_bootstrapped s then revoke_supplied fetch p s w
          else if truthy (se_token s) then destroy_account fetch p (s\<lparr>se_state := S_deletion_attempted\<rparr>) (the (se_token s)) w
          else
            (case on_net (recover_token fetch p (se_email s) (se_password s) cleanup_attempts) w of
               (tk, w1) \<Rightarrow>
                 if truthy tk
                 then destroy_account fetch p (s\<lparr>se_token := tk, se_state := S_deletion_attempted\<rparr>) (the tk)
                        (w1\<lparr>gw_secrets := gw_secrets w1 @ [the tk]\<rparr>)
                 else (outcome St_failed (''could not authenticate to delete the '' @
                         (if se_state s = S_account_created then ''CONFIRMED'' else ''possible (signup response was non-definitive)'') @
                         '' synthetic account after '' @ nat_str cleanup_attempts @
                         '' attempts - MANUAL cleanup/verification required for synthetic handle '' @ synthetic_handle (se_email s)) [],
                       end_session s S_cleanup_failed w1)))"

subsection \<open>Readiness and the authenticated status\<close>

definition ok_status :: "nat \<Rightarrow> bool" where
  \<comment> \<open>\<open>Response.ok\<close>\<close>
  "ok_status st \<longleftrightarrow> 200 \<le> st \<and> st < 300"

definition readyz :: "'n fetch \<Rightarrow> post_params \<Rightarrow> 'n \<Rightarrow> check_outcome \<times> 'n" where
  "readyz fetch p n =
     (case api_call fetch (get_request p ''/readyz'' None) n of
        (Inl e, n1) \<Rightarrow> (outcome St_failed (san p (''/readyz unreachable: '' @ e)) [], n1)
      | (Inr (status, body), n1) \<Rightarrow>
          if ok_status status \<and> jget ''ready'' body = Some (JBool True)
          then ((outcome St_passed (''/readyz ready:true in '' @ int_str (pp_latency p) @ ''ms'') [])\<lparr>co_metrics := [(''readyz_latency_ms'', pp_latency p)]\<rparr>, n1)
          else if body = JNull
          then (outcome St_failed (san p ''/readyz unreachable: Cannot read properties of null'') [], n1)
          else ((outcome St_failed (''/readyz not ready (HTTP '' @ nat_str status @ '')'') [])\<lparr>co_metrics := [(''readyz_latency_ms'', pp_latency p)]\<rparr>, n1))"

definition raw_error_patterns :: "re list" where
  "raw_error_patterns =
     [lit_i ''ECONNREFUSED'', lit_i ''ENOTFOUND'', lit_i ''ETIMEDOUT'', lit_i ''EAI_AGAIN'', lit_i ''AccessDenied'',
      lit_i ''getaddrinfo'', alts [lit_i ''pg_hba'', lit_i ''password authentication failed''], lit_i ''data:image'']"

definition status_body_problem :: "string \<Rightarrow> post_params \<Rightarrow> string \<Rightarrow> json option \<Rightarrow> string option" where
  "status_body_problem token_str p txt parsed =
     (case parsed of
        None \<Rightarrow> Some ''/v1/ops/status body is not valid JSON (contract violation)''
      | Some j \<Rightarrow>
          if (case j of JObj fs \<Rightarrow> False | _ \<Rightarrow> True) then Some ''/v1/ops/status body is not a JSON object (contract violation)''
          else if list_ex (\<lambda>r. test_re r txt) raw_error_patterns
          then Some ''/v1/ops/status body matches a forbidden raw-infrastructure/content pattern''
          else if sanitize (pp_env p) [token_str] txt \<noteq> txt then Some ''/v1/ops/status body contains redactable content (possible leak)''
          else None)"

definition status_token :: "post_params \<Rightarrow> gate_session option \<Rightarrow> string option" where
  "status_token p s = coalesce (case s of None \<Rightarrow> None | Some x \<Rightarrow> se_token x) (supplied_token p)"

definition ops_status_authed :: "'n fetch \<Rightarrow> post_params \<Rightarrow> gate_session option \<Rightarrow> 'n \<Rightarrow> check_outcome \<times> 'n" where
  "ops_status_authed fetch p s n =
     (if \<not> truthy (status_token p s)
      then (outcome St_failed ''no session token available at check time (prerequisite bypass?)'' [], n)
      else
        case fetch (get_request p ''/v1/ops/status'' (status_token p s)) n of
          (Fetch_failed e, n1) \<Rightarrow> (outcome St_failed (san p (''/v1/ops/status unreachable: '' @ e)) [], n1)
        | (Fetched status txt parsed, n1) \<Rightarrow>
            if \<not> ok_status status then (outcome St_failed (''/v1/ops/status HTTP '' @ nat_str status) [], n1)
            else
              (case status_body_problem (the (status_token p s)) p txt parsed of
                 Some what \<Rightarrow> (outcome St_failed what [], n1)
               | None \<Rightarrow> ((outcome St_passed (''/v1/ops/status ok in '' @ int_str (pp_latency p) @ ''ms'') [])\<lparr>co_metrics := [(''ops_status_latency_ms'', pp_latency p)]\<rparr>, n1)))"

subsection \<open>The list\<close>

definition fn_body :: "('w \<Rightarrow> check_outcome \<times> 'w) \<Rightarrow> 'w check_body" where
  "fn_body f = Run_fn (\<lambda>w. case f w of (out, w1) \<Rightarrow> (Inr out, w1))"

definition postdeploy_checks :: "'n fetch \<Rightarrow> post_params \<Rightarrow> 'n gate_world check_spec list" where
  "postdeploy_checks fetch p =
     [mk ''postdeploy_prerequisites'' C_operations P0 10000 (pure_fn (postdeploy_prerequisites p)),
      mk ''readyz'' C_operations P0 30000 (fn_body (on_net (readyz fetch p))),
      mk ''synthetic_session_bootstrap'' C_security P1 60000 (fn_body (synthetic_session_bootstrap fetch p)),
      mk ''ops_status_authed'' C_privacy P1 30000 (fn_body (\<lambda>w. on_net (ops_status_authed fetch p (gw_session w)) w)),
      mk ''smoke'' C_functional P0 (15 * mins) (smoke_body (flag_or (pp_flags p) ''base-url'') (smoke_invite (pp_flags p) (pp_env p))),
      (mk ''synthetic_session_cleanup'' C_privacy P1 60000 (fn_body (synthetic_session_cleanup fetch p)))\<lparr>cs_always := True\<rparr>]"

definition net_context ::
  "(command_spec \<Rightarrow> nat \<Rightarrow> 'n \<Rightarrow> (string + command_result) \<times> 'n) \<Rightarrow> (string \<Rightarrow> nat \<Rightarrow> nat) \<Rightarrow> (string \<Rightarrow> int) \<Rightarrow> post_params \<Rightarrow> 'n gate_world run_context" where
  \<comment> \<open>a child process reaches the network, never the memory of the gate\<close>
  "net_context run timeout elapsed p =
     \<lparr>rx_run = (\<lambda>cmd t. on_net (run cmd t)), rx_timeout = timeout, rx_env = pp_env p, rx_secrets = gw_secrets, rx_elapsed = elapsed\<rparr>"

subsection \<open>What cleanup proves\<close>

definition logged :: "'n fetch \<Rightarrow> ((api_request \<times> fetched) list \<times> 'n) fetch" where
  \<comment> \<open>the same network, with the list of the requests made and their answers\<close>
  "logged fetch rq ln = (case ln of (l, n) \<Rightarrow> (case fetch rq n of (r, n1) \<Rightarrow> (r, (l @ [(rq, r)], n1))))"

definition ended :: "check_outcome \<Rightarrow> gate_session option \<Rightarrow> bool" where
  \<comment> \<open>a terminal session holds no secret, and is clean exactly when the check passed\<close>
  "ended out s \<longleftrightarrow>
     (case s of None \<Rightarrow> False
      | Some x \<Rightarrow> se_token x = None \<and> se_password x = [] \<and>
          (co_status out = St_passed \<and> se_state x = S_cleaned \<or> co_status out = St_failed \<and> se_state x = S_cleanup_failed))"

lemma ended_end [simp]:
  "ended (outcome St_passed t rs) (gw_session (end_session s S_cleaned w))"
  "ended (outcome St_failed t rs) (gw_session (end_session s S_cleanup_failed w))"
  by (simp_all add: ended_def end_session_def outcome_def)

lemma revoke_ended: "revoke_supplied fetch p s w = (out, w') \<Longrightarrow> ended out (gw_session w')"
  by (auto simp: revoke_supplied_def Let_def split: prod.splits sum.splits if_splits)

lemma destroy_ended: "destroy_account fetch p s t w = (out, w') \<Longrightarrow> ended out (gw_session w')"
  by (auto simp: destroy_account_def Let_def split: prod.splits if_splits)

lemma cleanup_ended:
  assumes "synthetic_session_cleanup fetch p w = (out, w')" "gw_session w = Some s" "se_state s \<noteq> S_not_started"
  shows "ended out (gw_session w')"
  using assms
  by (auto simp: synthetic_session_cleanup_def split: prod.splits if_splits dest: revoke_ended destroy_ended)

text \<open>The requests of the bounded loops.\<close>

lemma api_call_logged:
  assumes "api_call (logged fetch) rq (l, n) = (r, l', n')"
  obtains f where "l' = l @ [(rq, f)]" "case r of Inl e \<Rightarrow> f = Fetch_failed e | Inr (status, body) \<Rightarrow> \<exists>txt j. f = Fetched status txt j"
  using assms by (auto simp: api_call_def logged_def split: prod.splits fetched.splits)

lemma recover_log:
  "recover_token (logged fetch) p em pw k (l, n) = (r, l', n') \<Longrightarrow>
     \<exists>fs. l' = l @ map (Pair (login_request p em pw)) fs \<and> length fs \<le> k"
proof (induction k arbitrary: l n)
  case 0
  then show ?case by (intro exI [of _ "[]"]) simp
next
  case (Suc k)
  obtain a l1 n1 where call: "api_call (logged fetch) (login_request p em pw) (l, n) = (a, l1, n1)"
    by (cases "api_call (logged fetch) (login_request p em pw) (l, n)") auto
  then obtain f where l1: "l1 = l @ [(login_request p em pw, f)]" by (rule api_call_logged)
  consider "l' = l1" | "recover_token (logged fetch) p em pw k (l1, n1) = (r, l', n')"
    using Suc.prems call by (auto split: sum.splits prod.splits option.splits)
  then show ?case
  proof cases
    case 1
    then show ?thesis using l1 by (intro exI [of _ "[f]"]) simp
  next
    case 2
    from Suc.IH [OF this] obtain fs where "l' = l1 @ map (Pair (login_request p em pw)) fs" "length fs \<le> k" by blast
    then show ?thesis using l1 by (intro exI [of _ "f # fs"]) simp
  qed
qed

lemma delete_log:
  "delete_account (logged fetch) p t pw k st (l, n) = (r, l', n') \<Longrightarrow>
     \<exists>fs. l' = l @ map (Pair (delete_request p t pw)) fs \<and> length fs \<le> k \<and>
       (r = Some 200 \<longrightarrow> st = Some 200 \<or> (fs \<noteq> [] \<and> (\<exists>txt j. last fs = Fetched 200 txt j)))"
proof (induction k arbitrary: st l n)
  case 0
  then show ?case by (intro exI [of _ "[]"]) simp
next
  case (Suc k)
  obtain a l1 n1 where call: "api_call (logged fetch) (delete_request p t pw) (l, n) = (a, l1, n1)"
    by (cases "api_call (logged fetch) (delete_request p t pw) (l, n)") auto
  then obtain f where l1: "l1 = l @ [(delete_request p t pw, f)]"
    and f: "case a of Inl e \<Rightarrow> f = Fetch_failed e | Inr (status, body) \<Rightarrow> \<exists>txt j. f = Fetched status txt j"
    by (rule api_call_logged)
  have "l' = l1 \<and> (\<exists>txt j. f = Fetched 200 txt j) \<or>
      (\<exists>st1. st1 \<noteq> Some 200 \<and> delete_account (logged fetch) p t pw k st1 (l1, n1) = (r, l', n'))"
  proof (cases a)
    case (Inl e)
    then show ?thesis using Suc.prems call by (auto intro!: exI [of _ "None"])
  next
    case (Inr sb)
    obtain status body where sb: "sb = (status, body)" by (cases sb)
    show ?thesis
      using Suc.prems call Inr sb f by (cases "status = 200") (auto intro!: exI [of _ "Some status"])
  qed
  then consider (deleted) "l' = l1" "\<exists>txt j. f = Fetched 200 txt j"
    | (next_try) st1 where "st1 \<noteq> Some 200" "delete_account (logged fetch) p t pw k st1 (l1, n1) = (r, l', n')"
    by blast
  then show ?case
  proof cases
    case deleted
    then show ?thesis using l1 by (intro exI [of _ "[f]"]) simp
  next
    case next_try
    from Suc.IH [OF next_try(2)] next_try(1)
    obtain fs where "l' = l1 @ map (Pair (delete_request p t pw)) fs" "length fs \<le> k"
      "r = Some 200 \<longrightarrow> fs \<noteq> [] \<and> (\<exists>txt j. last fs = Fetched 200 txt j)" by blast
    then show ?thesis using l1 by (intro exI [of _ "f # fs"]) auto
  qed
qed

lemma on_net_log:
  "on_net f w = (r, w') \<longleftrightarrow> (\<exists>n'. f (gw_net w) = (r, n') \<and> w' = w\<lparr>gw_net := n'\<rparr>)"
  by (auto simp: on_net_def split: prod.splits)

definition proved_dead :: "post_params \<Rightarrow> gate_session \<Rightarrow> (api_request \<times> fetched) list \<Rightarrow> bool" where
  \<comment> \<open>the evidence: the supplied session was logged out and then answered with 401; or the account was deleted
     with status 200 and its credentials were then refused with 401\<close>
  "proved_dead p s l \<longleftrightarrow>
     (if se_bootstrapped s
      then \<exists>pre t txt j txt' j'. l = pre @ [(delete_request p t (se_password s), Fetched 200 txt j),
             (login_request p (se_email s) (se_password s), Fetched 401 txt' j')]
      else \<exists>f txt j. l = [(logout_request p (se_token s), f), (get_request p ''/v1/ops/status'' (se_token s), Fetched 401 txt j)])"

lemma destroy_log:
  assumes "destroy_account (logged fetch) p s t w = (out, w')" "gw_net w = (l, n)"
  shows "\<exists>l' n'. gw_net w' = (l @ l', n') \<and> length l' \<le> 4 \<and>
    (co_status out = St_passed \<longrightarrow> (\<exists>pre txt j txt' j'. l' = pre @ [(delete_request p t (se_password s), Fetched 200 txt j),
       (login_request p (se_email s) (se_password s), Fetched 401 txt' j')]))"
proof -
  obtain r l1 n1 where del: "delete_account (logged fetch) p t (se_password s) cleanup_attempts None (l, n) = (r, l1, n1)"
    by (cases "delete_account (logged fetch) p t (se_password s) cleanup_attempts None (l, n)") auto
  from delete_log [OF del] obtain fs where fs: "l1 = l @ map (Pair (delete_request p t (se_password s))) fs" "length fs \<le> 3"
    "r = Some 200 \<longrightarrow> fs \<noteq> [] \<and> (\<exists>txt j. last fs = Fetched 200 txt j)"
    by (auto simp: cleanup_attempts_def)
  obtain a l2 n2 where login: "api_call (logged fetch) (login_request p (se_email s) (se_password s)) (l1, n1) = (a, l2, n2)"
    by (cases "api_call (logged fetch) (login_request p (se_email s) (se_password s)) (l1, n1)") auto
  then obtain f where f: "l2 = l1 @ [(login_request p (se_email s) (se_password s), f)]"
    "case a of Inl e \<Rightarrow> f = Fetch_failed e | Inr (status, body) \<Rightarrow> \<exists>txt j. f = Fetched status txt j"
    by (rule api_call_logged)
  show ?thesis
  proof (cases "r = Some 200")
    case False
    then have "gw_net w' = (l1, n1)" "co_status out = St_failed"
      using assms del by (auto simp: destroy_account_def on_net_def end_session_def outcome_def Let_def)
    then show ?thesis using fs(1,2) by simp
  next
    case True
    have w': "gw_net w' = (l2, n2)" "co_status out = St_passed \<longrightarrow> login_status a = Some 401"
      using assms del login True by (auto simp: destroy_account_def on_net_def end_session_def outcome_def Let_def split: if_splits)
    obtain bt j where lst: "fs \<noteq> []" "last fs = Fetched 200 bt j" using fs(3) True by blast
    then have "fs = butlast fs @ [Fetched 200 bt j]" by (metis append_butlast_last_id)
    then have "map (Pair (delete_request p t (se_password s))) fs =
        map (Pair (delete_request p t (se_password s))) (butlast fs) @ [(delete_request p t (se_password s), Fetched 200 bt j)]"
      by (metis list.simps(8,9) map_append)
    then show ?thesis
      using w' fs(1,2) f by (auto simp: login_status_def split: sum.splits prod.splits)
  qed
qed

text \<open>C20. Cleanup passes on evidence only. If a session was recorded, the check passes only after the proof that it is
  dead: the supplied session logged out and refused with 401, or the account deleted with 200 and its
  credentials refused with 401. In every case the secrets are wiped, the state tells the result, and at most
  seven requests are made.\<close>

theorem cleanup_needs_evidence:
  "(if gw_net w = ([], n)
    then case synthetic_session_cleanup (logged fetch) p w of (out, w') \<Rightarrow>
      (case gw_session w of
         None \<Rightarrow> w' = w
       | Some s \<Rightarrow>
           if se_state s = S_not_started then w' = w
           else ended out (gw_session w') \<and> length (fst (gw_net w')) \<le> 7 \<and>
                (if co_status out = St_passed then proved_dead p s (fst (gw_net w')) else True))
    else True)"
proof (cases "gw_net w = ([], n)")
  case net: True
  obtain out w' where cl: "synthetic_session_cleanup (logged fetch) p w = (out, w')"
    by (cases "synthetic_session_cleanup (logged fetch) p w")
  show ?thesis
  proof (cases "gw_session w")
    case None
    then show ?thesis using cl by (simp add: synthetic_session_cleanup_def)
  next
    case (Some s)
    show ?thesis
    proof (cases "se_state s = S_not_started")
      case True
      then show ?thesis using cl Some by (simp add: synthetic_session_cleanup_def)
    next
      case False
      note ended = cleanup_ended [OF cl Some False]
      have "length (fst (gw_net w')) \<le> 7 \<and> (co_status out = St_passed \<longrightarrow> proved_dead p s (fst (gw_net w')))"
      proof (cases "se_bootstrapped s")
        case False
        then have "revoke_supplied (logged fetch) p s w = (out, w')"
          using cl Some \<open>se_state s \<noteq> S_not_started\<close> by (simp add: synthetic_session_cleanup_def)
        then show ?thesis
          using net False
          by (auto simp: revoke_supplied_def Let_def on_net_def end_session_def outcome_def proved_dead_def api_call_def logged_def
              split: prod.splits sum.splits if_splits fetched.splits)
      next
        case True
        have dead: "proved_dead p s l" if "\<exists>pre txt j txt' j'. l = pre @ [(delete_request p t (se_password s), Fetched 200 txt j),
            (login_request p (se_email s) (se_password s), Fetched 401 txt' j')]" for l t
          using that True unfolding proved_dead_def by auto
        show ?thesis
        proof (cases "truthy (se_token s)")
          case tok: True
          then have "destroy_account (logged fetch) p (s\<lparr>se_state := S_deletion_attempted\<rparr>) (the (se_token s)) w = (out, w')"
            using cl Some \<open>se_state s \<noteq> S_not_started\<close> True by (simp add: synthetic_session_cleanup_def)
          from destroy_log [OF this net] show ?thesis using dead by auto
        next
          case tok: False
          obtain tk l1 n1 where rec: "recover_token (logged fetch) p (se_email s) (se_password s) cleanup_attempts ([], n) = (tk, l1, n1)"
            by (cases "recover_token (logged fetch) p (se_email s) (se_password s) cleanup_attempts ([], n)") auto
          from recover_log [OF rec] have l1: "length l1 \<le> 3" by (auto simp: cleanup_attempts_def)
          show ?thesis
          proof (cases "truthy tk")
            case False
            then show ?thesis
              using cl Some \<open>se_state s \<noteq> S_not_started\<close> True tok rec net l1
              by (auto simp: synthetic_session_cleanup_def on_net_def end_session_def outcome_def)
          next
            case tk: True
            have "destroy_account (logged fetch) p (s\<lparr>se_token := tk, se_state := S_deletion_attempted\<rparr>) (the tk)
                    (w\<lparr>gw_net := (l1, n1), gw_secrets := gw_secrets w @ [the tk]\<rparr>) = (out, w')"
              using cl Some \<open>se_state s \<noteq> S_not_started\<close> True tok rec net tk
              by (auto simp: synthetic_session_cleanup_def on_net_def)
            from destroy_log [OF this, of l1 n1] show ?thesis using l1 dead [of _ "the tk"] by (fastforce simp flip: append_assoc)
          qed
        qed
      qed
      then show ?thesis using cl Some False ended by simp
    qed
  qed
qed auto

subsection \<open>The session across a whole run\<close>

lemma gate_step_fn:
  assumes "gate_step ctx spec (g, w) = (g', w')" "cs_body spec = fn_body f" "cs_required spec"
  obtains (skip) "gs_cascade g \<noteq> None" "\<not> cs_always spec" "w' = w" "gs_cascade g' = gs_cascade g"
  | (run) out where "f w = (out, w')"
      "gs_cascade g' = (if co_status out = St_failed \<or> co_status out = St_blocked then Some (cs_id spec, co_status out) else gs_cascade g)"
  using assms(1)
proof (cases rule: gate_step_cases)
  case (skip cause)
  then show ?thesis using that(1) by auto
next
  case (run r g1)
  obtain out w1 where f: "f w = (out, w1)" by (cases "f w")
  then have "w1 = w'" "cr_status r = co_status out"
    using run(1) assms(2) by (auto simp: run_check_def fn_body_def result_of_def Let_def)
  then show ?thesis using that(2) [of out] f run(3) assms(3) by simp
qed

lemma pure_as_fn: "pure_fn out = fn_body (\<lambda>w. (out, w))"
  by (simp add: pure_fn_def fn_body_def)

lemma cascade_back:
  assumes "gate_step ctx spec (g, w) = (g', w')" "gs_cascade g' = None"
  shows "gs_cascade g = None"
  using assms by (cases rule: gate_step_cases) (auto split: if_splits)

lemma on_net_session: "on_net f w = (r, w') \<Longrightarrow> gw_session w' = gw_session w"
  by (auto simp: on_net_def split: prod.splits)

lemma bootstrap_session:
  assumes "synthetic_session_bootstrap fetch p w = (out, w')" "gw_session w = None"
  shows "case gw_session w' of None \<Rightarrow> co_status out = St_failed | Some s \<Rightarrow> se_state s \<noteq> S_not_started"
proof -
  note login = bootstrap_login_def on_net_def outcome_def Let_def
  consider "truthy (supplied_token p)" | "\<not> truthy (supplied_token p)" "\<not> truthy (base_url p) \<or> \<not> truthy (invite_of p)"
    | "\<not> truthy (supplied_token p)" "\<not> (\<not> truthy (base_url p) \<or> \<not> truthy (invite_of p))" by blast
  then show ?thesis
  proof cases
    case 3
    have "gw_session w' \<noteq> None \<and> se_state (the (gw_session w')) \<noteq> S_not_started"
      using assms(1) 3
      by (auto simp: synthetic_session_bootstrap_def login split: prod.splits sum.splits if_splits)
    then show ?thesis by (auto split: option.splits)
  qed (use assms in \<open>auto simp: synthetic_session_bootstrap_def outcome_def\<close>)
qed

lemma command_keeps_session:
  assumes "gate_step (net_context run timeout elapsed p) spec (g, w) = (g', w')" "cs_body spec = Run_command cmd"
  shows "gw_session w' = gw_session w"
  using assms(1)
proof (cases rule: gate_step_cases)
  case (run r g1)
  then show ?thesis
    using assms(2) on_net_session
    by (auto simp: run_check_def net_context_def Let_def split: prod.splits sum.splits)
qed simp

lemma postdeploy_sessions:
  assumes "foldl (\<lambda>gw spec. gate_step (net_context run timeout elapsed p) spec gw) (empty_gate, w) (postdeploy_checks fetch p) = (g, w')"
    "gw_session w = None"
  shows "if gs_cascade g = None then \<exists>s. gw_session w' = Some s \<and> se_state s = S_cleaned \<and> se_token s = None \<and> se_password s = []
    else case gw_session w' of None \<Rightarrow> True
      | Some s \<Rightarrow> se_token s = None \<and> se_password s = [] \<and> (se_state s = S_cleaned \<or> se_state s = S_cleanup_failed)"
proof -
  let ?step = "gate_step (net_context run timeout elapsed p)"
  define c1 c2 c3 c4 c5 c6 where cs:
    "c1 = (mk ''postdeploy_prerequisites'' C_operations P0 10000 (pure_fn (postdeploy_prerequisites p)) :: 'a gate_world check_spec)"
    "c2 = mk ''readyz'' C_operations P0 30000 (fn_body (on_net (readyz fetch p)))"
    "c3 = mk ''synthetic_session_bootstrap'' C_security P1 60000 (fn_body (synthetic_session_bootstrap fetch p))"
    "c4 = mk ''ops_status_authed'' C_privacy P1 30000 (fn_body (\<lambda>w. on_net (ops_status_authed fetch p (gw_session w)) w))"
    "c5 = (mk ''smoke'' C_functional P0 (15 * mins) (smoke_body (flag_or (pp_flags p) ''base-url'') (smoke_invite (pp_flags p) (pp_env p))) :: 'a gate_world check_spec)"
    "c6 = (mk ''synthetic_session_cleanup'' C_privacy P1 60000 (fn_body (synthetic_session_cleanup fetch p)))\<lparr>cs_always := True\<rparr>"
  have req: "cs_required c1" "cs_required c2" "cs_required c3" "cs_required c4" "cs_required c6" "cs_always c6"
    by (simp_all add: cs mk_def)
  have body: "cs_body c1 = fn_body (\<lambda>w. (postdeploy_prerequisites p, w))" "cs_body c2 = fn_body (on_net (readyz fetch p))"
    "cs_body c3 = fn_body (synthetic_session_bootstrap fetch p)"
    "cs_body c4 = fn_body (\<lambda>w. on_net (ops_status_authed fetch p (gw_session w)) w)"
    "cs_body c6 = fn_body (synthetic_session_cleanup fetch p)"
    by (simp_all add: cs mk_def pure_as_fn)
  obtain cmd where body5: "cs_body c5 = Run_command cmd" by (simp add: cs mk_def smoke_body_def)
  obtain g1 w1 where s1: "?step c1 (empty_gate, w) = (g1, w1)" by (cases "?step c1 (empty_gate, w)")
  obtain g2 w2 where s2: "?step c2 (g1, w1) = (g2, w2)" by (cases "?step c2 (g1, w1)")
  obtain g3 w3 where s3: "?step c3 (g2, w2) = (g3, w3)" by (cases "?step c3 (g2, w2)")
  obtain g4 w4 where s4: "?step c4 (g3, w3) = (g4, w4)" by (cases "?step c4 (g3, w3)")
  obtain g5 w5 where s5: "?step c5 (g4, w4) = (g5, w5)" by (cases "?step c5 (g4, w4)")
  have s6: "?step c6 (g5, w5) = (g, w')"
    using assms(1) s1 s2 s3 s4 s5 by (simp add: postdeploy_checks_def cs)
  have n1: "gw_session w1 = None"
    by (rule gate_step_fn [OF s1 body(1) req(1)]) (use assms(2) in auto)
  have n2: "gw_session w2 = None"
    by (rule gate_step_fn [OF s2 body(2) req(2)]; use n1 in \<open>auto dest: on_net_session\<close>)
  have n3: "case gw_session w3 of None \<Rightarrow> gs_cascade g3 \<noteq> None | Some s \<Rightarrow> se_state s \<noteq> S_not_started"
  proof (cases rule: gate_step_fn [OF s3 body(3) req(3)])
    case (2 out)
    then show ?thesis using bootstrap_session [OF 2(1) n2] by (auto split: option.splits)
  qed (use n2 in auto)
  have "gw_session w4 = gw_session w3"
    by (rule gate_step_fn [OF s4 body(4) req(4)]; auto dest: on_net_session)
  moreover have "gw_session w5 = gw_session w4" by (rule command_keeps_session [OF s5 body5])
  moreover have "gs_cascade g5 = None \<Longrightarrow> gs_cascade g3 = None" using cascade_back [OF s4] cascade_back [OF s5] by simp
  ultimately have n5: "case gw_session w5 of None \<Rightarrow> gs_cascade g5 \<noteq> None | Some s \<Rightarrow> se_state s \<noteq> S_not_started"
    using n3 by (cases "gs_cascade g5") (auto split: option.splits)
  obtain out where out: "synthetic_session_cleanup fetch p w5 = (out, w')"
    "gs_cascade g = (if co_status out = St_failed \<or> co_status out = St_blocked then Some (cs_id c6, co_status out) else gs_cascade g5)"
    by (rule gate_step_fn [OF s6 body(5) req(5)]) (use req(6) in auto)
  show ?thesis
  proof (cases "gw_session w5")
    case None
    then have "gw_session w' = None" using out(1) by (auto simp: synthetic_session_cleanup_def)
    moreover have "gs_cascade g \<noteq> None" using out(2) n5 None by simp
    ultimately show ?thesis by simp
  next
    case (Some s)
    then have "ended out (gw_session w')" using cleanup_ended [OF out(1) Some] n5 by simp
    then show ?thesis using out(2) by (auto simp: ended_def split: option.splits)
  qed
qed

text \<open>A post-deploy run leaves no session behind. From a start without a session, whatever the network and the
  smoke command do, the run ends with no session recorded, or with its secrets wiped and its fate known; and
  when the gate is green the session existed and was proved dead.\<close>

theorem postdeploy_leaves_no_session:
  "(if gw_session w = None
    then case run_gate (net_context run timeout elapsed p) (postdeploy_checks fetch p) total_ms w of (rep, w') \<Rightarrow>
      (if exit_code_for (rr_outcome rep) M_postdeploy = 0
       then \<exists>s. gw_session w' = Some s \<and> se_state s = S_cleaned \<and> se_token s = None \<and> se_password s = []
       else case gw_session w' of None \<Rightarrow> True
         | Some s \<Rightarrow> se_token s = None \<and> se_password s = [] \<and> (se_state s = S_cleaned \<or> se_state s = S_cleanup_failed))
    else True)"
proof (cases "gw_session w = None")
  case True
  obtain g w' where fold: "foldl (\<lambda>gw spec. gate_step (net_context run timeout elapsed p) spec gw) (empty_gate, w) (postdeploy_checks fetch p) = (g, w')"
    by (cases "foldl (\<lambda>gw spec. gate_step (net_context run timeout elapsed p) spec gw) (empty_gate, w) (postdeploy_checks fetch p)")
  have sev: "list_all (\<lambda>s. if cs_required s then cs_severity s \<noteq> P3 else True) (postdeploy_checks fetch p)"
    by (simp add: postdeploy_checks_def mk_def)
  have rep: "run_gate (net_context run timeout elapsed p) (postdeploy_checks fetch p) total_ms w = (rep, w'') \<Longrightarrow>
      rr_outcome rep = compute_outcome (gs_results g) \<and> w'' = w'" for rep w''
    using fold by (auto simp: run_gate_def)
  show ?thesis
    using postdeploy_sessions [OF fold True] cascade_not_green [OF fold _ sev, of M_postdeploy] rep True
    by (auto split: prod.splits option.splits if_splits)
qed auto

end
