(* ===== verification/Restore_Target.thy ===== *)
theory Restore_Target
  imports Sanitize Store_Identity
begin

text \<open>
  Restore targets, \<open>services/api/src/backup/target.ts\<close> with its two command-line guards, and the sanitizer of the
  backup commands, \<open>backup/sanitize.ts\<close>. \<open>new URL\<close>, \<open>decodeURIComponent\<close> and SHA-256 are parameters; a parsed
  DSN is a record with its query parameters. Environments are association lists.
\<close>

subsection \<open>Identity of a database\<close>

record dsn =
  dn_protocol :: string
  dn_username :: string
  dn_hostname :: string
  dn_port :: string
  dn_pathname :: string
  dn_query :: "(string \<times> string) list"

record dsn_lib =
  dl_parse :: "string \<Rightarrow> dsn option"
  dl_decode :: "string \<Rightarrow> string option" \<comment> \<open>\<open>decodeURIComponent\<close>, which may throw\<close>
  dl_sha256 :: "string \<Rightarrow> string"

definition or_else_str :: "string \<Rightarrow> string \<Rightarrow> string" where
  \<comment> \<open>\<open>a || b\<close> on strings\<close>
  "or_else_str a b = (if a = [] then b else a)"

definition drop_slash :: "string \<Rightarrow> string" where
  \<comment> \<open>\<open>s.replace(/^\//, "")\<close>\<close>
  "drop_slash s = (case s of [] \<Rightarrow> [] | c # cs \<Rightarrow> if c = slash then cs else s)"

definition redact_database_url :: "dsn_lib \<Rightarrow> string \<Rightarrow> string" where
  "redact_database_url lib url =
     (case dl_parse lib url of
        None \<Rightarrow> ''<unparseable-database-url>''
      | Some u \<Rightarrow>
          dn_protocol u @ ''//'' @ (if dn_username u = [] then [] else ''***@'') @ or_else_str (dn_hostname u) ''?'' @
          (if dn_port u = [] then [] else '':'' @ dn_port u) @ ''/'' @ or_else_str (drop_slash (dn_pathname u)) ''?'')"

definition local_hosts :: "string list" where
  "local_hosts = [''localhost'', ''127.0.0.1'', ''::1'', ''[::1]'']"

definition canonicalize_host :: "string \<Rightarrow> string" where
  "canonicalize_host host = rev (dropWhile (\<lambda>c. c = CHR ''.'') (rev (to_lower (js_trim host))))"

record restore_target =
  rt_redacted :: string
  rt_local :: bool
  rt_requires_override :: bool

definition classify_restore_target :: "dsn_lib \<Rightarrow> string \<Rightarrow> string option \<Rightarrow> restore_target" where
  "classify_restore_target lib url node_env =
     (let host = (case dl_parse lib url of None \<Rightarrow> [] | Some u \<Rightarrow> canonicalize_host (dn_hostname u));
          is_local = host \<in> set local_hosts \<and> node_env \<noteq> Some ''production''
      in \<lparr>rt_redacted = redact_database_url lib url, rt_local = is_local, rt_requires_override = \<not> is_local\<rparr>)"

definition restore_guard_exit :: "dsn_lib \<Rightarrow> (string \<times> string) list \<Rightarrow> nat" where
  \<comment> \<open>\<open>run-restore-guard.ts\<close>\<close>
  "restore_guard_exit lib env =
     (if \<not> truthy (map_of env ''DATABASE_URL'') then 2
      else if rt_requires_override (classify_restore_target lib (the (map_of env ''DATABASE_URL'')) (map_of env ''NODE_ENV'')) then 3
      else 0)"

definition query_or_empty :: "dsn \<Rightarrow> string \<Rightarrow> string" where
  "query_or_empty u k = to_lower (case map_of (dn_query u) k of None \<Rightarrow> [] | Some v \<Rightarrow> v)"

definition tls_posture :: "dsn \<Rightarrow> string" where
  "tls_posture u =
     (let ssl = query_or_empty u ''ssl''
      in or_else_str (query_or_empty u ''sslmode'')
           (if ssl = ''true'' then ''require'' else if ssl = ''false'' then ''disable'' else []))"

definition db_name :: "dsn_lib \<Rightarrow> dsn \<Rightarrow> string option" where
  "db_name lib u = dl_decode lib (drop_slash (dn_pathname u))"

definition identity_of :: "dsn \<Rightarrow> string \<Rightarrow> string" where
  "identity_of u db =
     (let p = to_lower (dn_protocol u);
          proto = (if p = ''postgres:'' \<or> p = ''postgresql:'' then ''postgresql:'' else p)
      in ''db|'' @ proto @ ''//'' @ canonicalize_host (dn_hostname u) @ '':'' @ or_else_str (dn_port u) ''5432'' @ ''/'' @ db @
         ''|tls='' @ tls_posture u)"

definition canonicalize_db_identity :: "dsn_lib \<Rightarrow> string \<Rightarrow> string option" where
  \<comment> \<open>\<open>None\<close>: \<open>new URL\<close> or \<open>decodeURIComponent\<close> throws\<close>
  "canonicalize_db_identity lib url =
     (case dl_parse lib url of None \<Rightarrow> None | Some u \<Rightarrow> map_option (identity_of u) (db_name lib u))"

definition db_target_fingerprint :: "dsn_lib \<Rightarrow> string \<Rightarrow> string option" where
  "db_target_fingerprint lib url = map_option (dl_sha256 lib) (canonicalize_db_identity lib url)"

subsection \<open>Scratch targets\<close>

datatype scratch_verdict = Local_scratch | Remote_scratch | Scratch_blocked | Scratch_error

record scratch_classification =
  sc_verdict :: scratch_verdict
  sc_redacted :: string
  sc_reasons :: "string list"
  sc_fingerprint :: "string option"

definition fingerprint_re :: re where
  "fingerprint_re = cats [Bol, Rep True 64 (Some 64) (CC lower_hex), Eol]"

definition run_id_re :: re where
  "run_id_re = cats [Bol, Rep True 32 (Some 32) (CC lower_hex), Eol]"

definition remote_scratch_confirm :: string where
  "remote_scratch_confirm = ''RESTORE-TO-SCRATCH''"

definition env_or :: "(string \<times> string) list \<Rightarrow> string \<Rightarrow> string" where
  "env_or env n = (case map_of env n of None \<Rightarrow> [] | Some v \<Rightarrow> v)"

definition expect_host :: "(string \<times> string) list \<Rightarrow> string" where
  "expect_host env = canonicalize_host (env_or env ''NOVA_RESTORE_EXPECT_HOST'')"

definition expect_db :: "(string \<times> string) list \<Rightarrow> string" where
  "expect_db env = js_trim (env_or env ''NOVA_RESTORE_EXPECT_DATABASE'')"

definition expect_fp :: "(string \<times> string) list \<Rightarrow> string" where
  "expect_fp env = to_lower (js_trim (env_or env ''NOVA_RESTORE_EXPECT_FINGERPRINT''))"

definition primary_fp :: "(string \<times> string) list \<Rightarrow> string" where
  "primary_fp env = to_lower (js_trim (env_or env ''NOVA_PRIMARY_DATABASE_FINGERPRINT''))"

definition run_id :: "(string \<times> string) list \<Rightarrow> string" where
  "run_id env = js_trim (env_or env ''NOVA_RECOVERY_RUN_ID'')"

definition marker_of :: "string \<Rightarrow> string" where
  "marker_of rid = CHR ''_'' # rid"

definition remote_reasons :: "(string \<times> string) list \<Rightarrow> string \<Rightarrow> string \<Rightarrow> string \<Rightarrow> string list" where
  \<comment> \<open>the reasons in the order of the code, their texts abbreviated\<close>
  "remote_reasons env host db fp =
     (if map_of env ''NOVA_VALIDATE_ALLOW_REMOTE_SCRATCH'' = Some ''yes'' then [] else [''remote scratch not authorized'']) @
     (if map_of env ''NOVA_RESTORE_TARGET_CLASS'' = Some ''scratch'' then [] else [''target class must be scratch'']) @
     (if map_of env ''NOVA_RESTORE_SCRATCH_CONFIRM'' = Some remote_scratch_confirm then [] else [''typed confirmation absent/incorrect'']) @
     (if expect_host env = [] then [''NOVA_RESTORE_EXPECT_HOST absent''] else []) @
     (if expect_db env = [] then [''NOVA_RESTORE_EXPECT_DATABASE absent''] else []) @
     (if test_re fingerprint_re (expect_fp env) then [] else [''NOVA_RESTORE_EXPECT_FINGERPRINT absent/malformed'']) @
     (if test_re fingerprint_re (primary_fp env) then [] else [''NOVA_PRIMARY_DATABASE_FINGERPRINT absent/malformed'']) @
     (if \<not> test_re run_id_re (run_id env) then [''NOVA_RECOVERY_RUN_ID absent/malformed'']
      else if ends_with db (marker_of (run_id env)) then [] else [''database name does not end with the run id'']) @
     (if expect_host env \<noteq> [] \<and> host \<noteq> expect_host env then [''target host differs''] else []) @
     (if expect_db env \<noteq> [] \<and> db \<noteq> expect_db env then [''target database differs''] else []) @
     (if test_re fingerprint_re (expect_fp env) \<and> fp \<noteq> expect_fp env then [''target fingerprint differs''] else []) @
     (if test_re fingerprint_re (primary_fp env) \<and> fp = primary_fp env then [''target fingerprint equals the primary''] else [])"

definition classify_scratch_target :: "dsn_lib \<Rightarrow> string \<Rightarrow> (string \<times> string) list \<Rightarrow> scratch_classification option" where
  \<comment> \<open>\<open>None\<close>: \<open>decodeURIComponent\<close> throws, outside the \<open>try\<close>\<close>
  "classify_scratch_target lib url env =
     (let redacted_url = redact_database_url lib url;
          result = (\<lambda>v rs fp. Some \<lparr>sc_verdict = v, sc_redacted = redacted_url, sc_reasons = rs, sc_fingerprint = fp\<rparr>)
      in case dl_parse lib url of
           None \<Rightarrow> result Scratch_error [''DATABASE_URL is malformed/unparseable''] None
         | Some u \<Rightarrow>
             (case db_name lib u of
                None \<Rightarrow> None
              | Some db \<Rightarrow>
                  let host = canonicalize_host (dn_hostname u); fp = dl_sha256 lib (identity_of u db)
                  in if host = [] \<or> db = [] then result Scratch_error [''DATABASE_URL is missing a host or database name''] None
                     else if host \<in> set local_hosts \<and> map_of env ''NODE_ENV'' \<noteq> Some ''production''
                     then result Local_scratch [] (Some fp)
                     else let reasons = remote_reasons env host db fp
                          in if reasons \<noteq> [] then result Scratch_blocked reasons (Some fp)
                             else result Remote_scratch [] (Some fp)))"

definition scratch_guard_exit :: "dsn_lib \<Rightarrow> bool \<Rightarrow> (string \<times> string) list \<Rightarrow> nat" where
  \<comment> \<open>\<open>run-scratch-guard.ts\<close>; \<open>fp_only\<close>: the flag \<open>--fingerprint\<close>; an uncaught exception exits with 1\<close>
  "scratch_guard_exit lib fp_only env =
     (if \<not> truthy (map_of env ''DATABASE_URL'') then 2
      else let url = the (map_of env ''DATABASE_URL'')
      in if fp_only then (if db_target_fingerprint lib url = None then 2 else 0)
         else (case classify_scratch_target lib url env of
                 None \<Rightarrow> 1
               | Some c \<Rightarrow> (case sc_verdict c of Local_scratch \<Rightarrow> 0 | Remote_scratch \<Rightarrow> 0 | Scratch_blocked \<Rightarrow> 3 | Scratch_error \<Rightarrow> 2)))"

subsection \<open>The authorization as a specification\<close>

definition hex_text :: "nat \<Rightarrow> string \<Rightarrow> bool" where
  "hex_text n s \<longleftrightarrow> length s = n \<and> list_all lower_hex s"

definition authorized_remote :: "(string \<times> string) list \<Rightarrow> string \<Rightarrow> string \<Rightarrow> string \<Rightarrow> bool" where
  \<comment> \<open>host, database and fingerprint of the target\<close>
  "authorized_remote env host db fp \<longleftrightarrow>
     map_of env ''NOVA_VALIDATE_ALLOW_REMOTE_SCRATCH'' = Some ''yes'' \<and>
     map_of env ''NOVA_RESTORE_TARGET_CLASS'' = Some ''scratch'' \<and>
     map_of env ''NOVA_RESTORE_SCRATCH_CONFIRM'' = Some ''RESTORE-TO-SCRATCH'' \<and>
     host \<noteq> [] \<and> host = expect_host env \<and> db = expect_db env \<and> fp = expect_fp env \<and> fp \<noteq> primary_fp env \<and>
     hex_text 64 (expect_fp env) \<and> hex_text 64 (primary_fp env) \<and> hex_text 32 (run_id env) \<and> suffix (CHR ''_'' # run_id env) db"

lemma fingerprint_text: "test_re fingerprint_re s \<longleftrightarrow> hex_text 64 s" "test_re run_id_re s \<longleftrightarrow> hex_text 32 s"
  by (simp_all only: fingerprint_re_def run_id_re_def test_anchored_class hex_text_def)

lemma remote_reasons_authorized:
  assumes "host \<noteq> []" "db \<noteq> []"
  shows "remote_reasons env host db fp = [] \<longleftrightarrow> authorized_remote env host db fp"
  using assms
  by (auto simp: remote_reasons_def authorized_remote_def fingerprint_text ends_with_suffix marker_of_def remote_scratch_confirm_def
      split: if_splits)

text \<open>C21. The scratch classification implements the authorization. A target that is not a loopback host outside
  production is accepted exactly when the whole envelope authorizes it: the flags, the typed confirmation, the
  expected host, database and fingerprint, a fingerprint that is not the primary's, and a database name that
  ends with the run id. The guard exits with zero exactly on the accepted targets.\<close>

theorem scratch_guard_implements_authorization:
  "(case classify_scratch_target lib url env of
      None \<Rightarrow> (\<exists>u. dl_parse lib url = Some u \<and> db_name lib u = None)
    | Some c \<Rightarrow>
        (case sc_verdict c of
           Scratch_error \<Rightarrow> (case dl_parse lib url of None \<Rightarrow> True | Some u \<Rightarrow> canonicalize_host (dn_hostname u) = [] \<or> db_name lib u = Some [])
         | v \<Rightarrow> (\<exists>u db. dl_parse lib url = Some u \<and> db_name lib u = Some db \<and>
             (let host = canonicalize_host (dn_hostname u); fp = dl_sha256 lib (identity_of u db);
                  is_local = host \<in> set local_hosts \<and> map_of env ''NODE_ENV'' \<noteq> Some ''production''
              in sc_fingerprint c = Some fp \<and>
                 v = (if is_local then Local_scratch else if authorized_remote env host db fp then Remote_scratch else Scratch_blocked))))) \<and>
   (if truthy (map_of env ''DATABASE_URL'')
    then (scratch_guard_exit lib False env = 0) =
         (case classify_scratch_target lib (the (map_of env ''DATABASE_URL'')) env of
            None \<Rightarrow> False | Some c \<Rightarrow> sc_verdict c = Local_scratch \<or> sc_verdict c = Remote_scratch)
    else scratch_guard_exit lib False env = 2)"
proof (intro conjI, goal_cases)
  case 1
  show ?case
  proof (cases "dl_parse lib url")
    case None
    then show ?thesis by (simp add: classify_scratch_target_def)
  next
    case (Some u)
    show ?thesis
    proof (cases "db_name lib u")
      case None
      then show ?thesis using Some by (simp add: classify_scratch_target_def)
    next
      case (Some db)
      show ?thesis
        using \<open>dl_parse lib url = Some u\<close> Some remote_reasons_authorized [of "canonicalize_host (dn_hostname u)" db env "dl_sha256 lib (identity_of u db)"]
        by (auto simp: classify_scratch_target_def Let_def)
    qed
  qed
next
  case 2
  show ?case by (auto simp: scratch_guard_exit_def split: option.splits scratch_verdict.splits)
qed

text \<open>The fingerprint binds the TLS posture too: two connection strings for one database that differ only in
  \<open>sslmode\<close> have different identities, so the comparison with the fingerprint of the primary does not catch
  the primary under another \<open>sslmode\<close>.\<close>

lemma tls_splits_identity:
  "identity_of (u\<lparr>dn_query := [(''sslmode'', ''require'')]\<rparr>) db \<noteq> identity_of (u\<lparr>dn_query := []\<rparr>) db"
  by (simp add: identity_of_def Let_def canonicalize_host_def tls_posture_def query_or_empty_def or_else_str_def to_lower_def lower_char_def)

subsection \<open>The sanitizer of the backup commands\<close>

definition backup_secret_names :: "string list" where
  "backup_secret_names =
     [''NOVA_BACKUP_KEY'', ''NOVA_ENCRYPTION_KEY'', ''NOVA_ENCRYPTION_KEY_OLD'', ''DATABASE_URL'', ''NOVA_MEDIA_S3_ACCESS_KEY_ID'',
      ''NOVA_MEDIA_S3_SECRET_ACCESS_KEY'', ''NOVA_BACKUP_S3_ACCESS_KEY_ID'', ''NOVA_BACKUP_S3_SECRET_ACCESS_KEY'',
      ''NOVA_VALIDATE_EVIDENCE_S3_ACCESS_KEY_ID'', ''NOVA_VALIDATE_EVIDENCE_S3_SECRET_ACCESS_KEY'']"

definition endpoint_names :: "string list" where
  "endpoint_names = [''NOVA_MEDIA_S3_ENDPOINT'', ''NOVA_BACKUP_S3_ENDPOINT'', ''NOVA_VALIDATE_EVIDENCE_S3_ENDPOINT'']"

definition bucket_names :: "string list" where
  "bucket_names = [''NOVA_MEDIA_S3_BUCKET'', ''NOVA_BACKUP_S3_BUCKET'', ''NOVA_VALIDATE_EVIDENCE_S3_BUCKET'']"

definition js_set :: "'a list \<Rightarrow> 'a list" where
  \<comment> \<open>\<open>[...new Set(xs)]\<close>: the first occurrences, in order\<close>
  "js_set xs = rev (remdups (rev xs))"

lemma set_js_set [simp]: "set (js_set xs) = set xs"
  by (simp add: js_set_def)

definition scheme_prefix_re :: re where
  "scheme_prefix_re = cats [Bol, plus_re (CC scheme_char), lit ''://'']"

definition path_suffix_re :: re where
  "path_suffix_re = cats [lit ''/'', star (CC (\<lambda>c. c \<noteq> CHR 0x0A \<and> c \<noteq> CHR 0x0D)), Eol]"

definition endpoint_variants :: "(string \<Rightarrow> url option) \<Rightarrow> (url \<Rightarrow> string) \<Rightarrow> string \<Rightarrow> string list" where
  \<comment> \<open>the second parameter is \<open>URL.host\<close>, the host name with its port\<close>
  "endpoint_variants url_parse host_of endpoint =
     js_set (endpoint # (case url_parse endpoint of
        Some u \<Rightarrow> filter (\<lambda>v. v \<noteq> []) [url_hostname u, host_of u]
      | None \<Rightarrow>
          let bare = replace_all path_suffix_re (\<lambda>_. []) (replace_all scheme_prefix_re (\<lambda>_. []) endpoint)
          in if bare = [] then [] else [bare, hd (split_on CHR '':'' bare)]))"

definition env_values :: "(string \<times> string) list \<Rightarrow> string list \<Rightarrow> string list" where
  "env_values env names = filter (\<lambda>v. v \<noteq> []) (concat (map (\<lambda>n. case map_of env n of None \<Rightarrow> [] | Some v \<Rightarrow> [v]) names))"

definition backup_literals :: "(string \<Rightarrow> url option) \<Rightarrow> (url \<Rightarrow> string) \<Rightarrow> (string \<times> string) list \<Rightarrow> string list" where
  "backup_literals url_parse host_of env =
     filter (\<lambda>v. 3 \<le> length v) (env_values env backup_secret_names) @
     concat (map (\<lambda>v. filter (\<lambda>s. 3 \<le> length s) (endpoint_variants url_parse host_of v)) (env_values env endpoint_names)) @
     filter (\<lambda>v. 3 \<le> length v) (env_values env bucket_names)"

definition backup_patterns :: "(re \<times> replacement) list" where
  "backup_patterns =
     [(dsn_re, Group1 (''://'' @ redacted @ ''@'')),
      (cats [WordB, lit ''AKIA'', Rep True 16 (Some 16) (CC (\<lambda>c. digit c \<or> upper_az c)), WordB], Whole redacted),
      (cats [WordB, Rep True 64 (Some 64) (CC hex_digit), WordB], Whole redacted),
      (private_ip_re, Whole redacted)]"

definition sanitize_backup_error :: "(string \<Rightarrow> url option) \<Rightarrow> (url \<Rightarrow> string) \<Rightarrow> (string \<times> string) list \<Rightarrow> string \<Rightarrow> string" where
  "sanitize_backup_error url_parse host_of env txt =
     (if txt = [] then txt
      else foldl apply_rule
             (redact_literals (sort_key (\<lambda>v. - int (length v)) (js_set (backup_literals url_parse host_of env))) txt)
             backup_patterns)"

lemma backup_patterns_sound: "list_all sound_rule backup_patterns"
  using patterns_sound by (simp add: backup_patterns_def patterns_def list_all_iff del: append.simps cats.simps)

text \<open>The sanitizer takes out the keys, the endpoints with their bare hosts, and the buckets.\<close>

lemma backup_error_has_no_secret:
  assumes "v \<in> set (backup_literals url_parse host_of env)" "plain v" "\<not> sublist v marks"
  shows "\<not> sublist v (sanitize_backup_error url_parse host_of env txt)"
proof -
  let ?out = "redact_literals (sort_key (\<lambda>v. - int (length v)) (js_set (backup_literals url_parse host_of env))) txt"
  have "\<not> sublist v ?out" by (rule redact_literals_gone) (use assms in simp_all)
  then show ?thesis
    using rules_tame [OF backup_patterns_sound, of ?out] assms(2,3) by (auto simp: sanitize_backup_error_def tame_def plain_def)
qed

lemma endpoint_host_is_secret:
  assumes "map_of env ''NOVA_BACKUP_S3_ENDPOINT'' = Some e" "e \<noteq> []" "url_parse e = Some u" "3 \<le> length (url_hostname u)"
  shows "url_hostname u \<in> set (backup_literals url_parse host_of env)"
proof -
  have "e \<in> set (env_values env endpoint_names)" using assms(1,2) by (auto simp: env_values_def endpoint_names_def)
  moreover have "url_hostname u \<in> set (endpoint_variants url_parse host_of e)" using assms(3,4) by (auto simp: endpoint_variants_def)
  ultimately show ?thesis using assms(4) by (auto simp: backup_literals_def)
qed

end
