(* ===== verification/Backup_Media.thy ===== *)
theory Backup_Media
  imports Store_Identity Secret_Box "HOL-Library.List_Lexorder"
begin

text \<open>
  Media backup, \<open>services/api/src/backup/media-s3.ts\<close>: the two-phase backup with its authenticated inventory, the
  verification of a backup and the restore. Inventories that come from outside are JSON values, checked by
  the shape test of the code. SHA-256, HMAC, the collation of \<open>localeCompare\<close> and the byte encoding of JSON are
  the fields of a library record; the stores are those of \<open>Object_Store\<close>.
\<close>

subsection \<open>Hex digests\<close>

fun buffer_hex :: "string \<Rightarrow> bytes" where
  \<comment> \<open>\<open>Buffer.from(s, "hex")\<close>: decoding stops at the first pair that is not hex\<close>
  "buffer_hex (a # b # cs) = (if hex_digit a \<and> hex_digit b then (16 * hex_val a + hex_val b) # buffer_hex cs else [])"
| "buffer_hex _ = []"

definition mac_matches :: "string \<Rightarrow> string \<Rightarrow> bool" where
  "mac_matches a b \<longleftrightarrow> buffer_hex a = buffer_hex b"

definition hex64 :: "string \<Rightarrow> bool" where
  \<comment> \<open>\<open>/^[0-9a-f]{64}$/\<close>\<close>
  "hex64 s \<longleftrightarrow> test_re (cats [Bol, Rep True 64 (Some 64) (CC lower_hex), Eol]) s"

lemma mac_matches_refl [simp]: "mac_matches a a"
  by (simp add: mac_matches_def)

subsection \<open>Inventories\<close>

record media_key_row =
  mk_storage_key :: string
  mk_thumb_key :: "string option"

definition referenced_keys :: "media_key_row list \<Rightarrow> string list" where
  "referenced_keys rows =
     sort (remdups (concat (map (\<lambda>r. mk_storage_key r # (if truthy (mk_thumb_key r) then [the (mk_thumb_key r)] else [])) rows)))"

record inventory_entry =
  ie_key :: string
  ie_bytes :: nat
  ie_sha256 :: string

record backup_lib =
  bl_sha256 :: "bytes \<Rightarrow> string"
  bl_hmac :: "bytes \<Rightarrow> json \<Rightarrow> string" \<comment> \<open>HMAC-SHA256 of \<open>JSON.stringify\<close>, in hex\<close>
  bl_collate :: "string \<Rightarrow> nat list" \<comment> \<open>sort keys of \<open>localeCompare\<close>\<close>
  bl_encode :: "json \<Rightarrow> bytes"
  bl_fingerprint :: "string \<Rightarrow> string" \<comment> \<open>\<open>fingerprintIdentity\<close>\<close>

definition inventory_file_name :: "string \<Rightarrow> string" where
  "inventory_file_name stamp = ''media-inventory-'' @ stamp @ ''.json''"

definition backup_prefix_for :: "string \<Rightarrow> string" where
  "backup_prefix_for stamp = ''media/'' @ stamp @ ''/''"

definition entry_json :: "inventory_entry \<Rightarrow> json" where
  "entry_json e = JObj [(''key'', JStr (ie_key e)), (''bytes'', JNum (int (ie_bytes e))), (''sha256'', JStr (ie_sha256 e))]"

definition inventory_notes :: json where
  "inventory_notes = JArr (map JStr
     [''Objects are AES-256-GCM ciphertext copied AS STORED - never decrypted.'',
      ''NOVA_ENCRYPTION_KEY is NOT in this backup; restore recovers ciphertext'',
      ''that still requires the data key. Inventory MAC uses NOVA_BACKUP_KEY.'',
      ''Published LAST as the backup-set commit marker (M18A.1).''])"

definition pick :: "string \<Rightarrow> json \<Rightarrow> (string \<times> json) list" where
  \<comment> \<open>a property of an object literal; \<open>JSON.stringify\<close> leaves \<open>undefined\<close> out\<close>
  "pick k j = (case jget k j of None \<Rightarrow> [] | Some v \<Rightarrow> [(k, v)])"

definition text_at :: "string \<Rightarrow> json \<Rightarrow> string" where
  "text_at k j = (case jget k j of Some (JStr s) \<Rightarrow> s | _ \<Rightarrow> [])"

definition num_at :: "string \<Rightarrow> json \<Rightarrow> int" where
  "num_at k j = (case jget k j of Some (JNum n) \<Rightarrow> n | _ \<Rightarrow> 0)"

definition items_at :: "string \<Rightarrow> json \<Rightarrow> json list" where
  "items_at k j = (case jget k j of Some (JArr xs) \<Rightarrow> xs | _ \<Rightarrow> [])"

definition canonical_body :: "backup_lib \<Rightarrow> json \<Rightarrow> json" where
  "canonical_body lib body = JObj (concat (map (\<lambda>k. pick k body)
     [''backup_prefix'', ''completeness'', ''created_at'', ''destination_role'', ''expected_object_count'', ''format_version'', ''kind'',
      ''notes'', ''object_count'']) @
     [(''objects'', JArr (sort_key (\<lambda>ob. bl_collate lib (text_at ''key'' ob))
        (map (\<lambda>ob. JObj (pick ''bytes'' ob @ pick ''key'' ob @ pick ''sha256'' ob)) (items_at ''objects'' body))))] @
     concat (map (\<lambda>k. pick k body) [''source_fingerprint'', ''source_role'', ''stamp'', ''total_bytes'']))"

definition inventory_mac :: "backup_lib \<Rightarrow> bytes \<Rightarrow> json \<Rightarrow> string" where
  "inventory_mac lib key body = bl_hmac lib key (canonical_body lib body)"

definition inventory_body :: "backup_lib \<Rightarrow> string \<Rightarrow> string \<Rightarrow> string \<Rightarrow> nat \<Rightarrow> inventory_entry list \<Rightarrow> (string \<times> json) list" where
  "inventory_body lib source_id stamp created expected entries =
     [(''format_version'', JNum 2), (''kind'', JStr ''media-s3-inventory''), (''stamp'', JStr stamp), (''created_at'', JStr created),
      (''source_role'', JStr ''primary-media''), (''destination_role'', JStr ''media-backup''),
      (''backup_prefix'', JStr (backup_prefix_for stamp)), (''source_fingerprint'', JStr (bl_fingerprint lib source_id)),
      (''expected_object_count'', JNum (int expected)), (''object_count'', JNum (int (length entries))),
      (''total_bytes'', JNum (int (sum_list (map ie_bytes entries)))), (''completeness'', JStr ''complete''),
      (''objects'', JArr (map entry_json entries)), (''notes'', inventory_notes)]"

definition build_inventory :: "backup_lib \<Rightarrow> string \<Rightarrow> string \<Rightarrow> string \<Rightarrow> bytes \<Rightarrow> nat \<Rightarrow> inventory_entry list \<Rightarrow> json" where
  "build_inventory lib source_id stamp created key expected entries =
     (let body = inventory_body lib source_id stamp created expected entries
      in JObj (body @ [(''mac'', JStr (inventory_mac lib key (JObj body)))]))"

subsection \<open>Backup\<close>

record backup_media_result =
  br_inventory :: "json option"
  br_complete :: bool
  br_expected :: nat
  br_copied :: nat
  br_skipped :: nat
  br_verified :: nat
  br_missing :: "string list"
  br_failed :: "string list"
  br_applied :: bool

definition same_target :: "backup_lib \<Rightarrow> string \<Rightarrow> string \<Rightarrow> bool" where
  \<comment> \<open>the test of \<open>assertDistinctTargets\<close>\<close>
  "same_target lib a b \<longleftrightarrow> bl_fingerprint lib a = bl_fingerprint lib b"

fun scan_source :: "backup_lib \<Rightarrow> 's store_ops \<Rightarrow> 's \<Rightarrow> string list \<Rightarrow> (inventory_entry \<times> bytes) list \<times> string list" where
  \<comment> \<open>phase A: the entries with their blobs, and the missing keys; an unreadable object is missing\<close>
  "scan_source lib ops s [] = ([], [])"
| "scan_source lib ops s (k # ks) =
     (case scan_source lib ops s ks of
        (found, missing) \<Rightarrow>
          (case st_get ops k s of
             Inr (Some blob) \<Rightarrow> ((\<lparr>ie_key = k, ie_bytes = length blob, ie_sha256 = bl_sha256 lib blob\<rparr>, blob) # found, missing)
           | _ \<Rightarrow> (found, k # missing)))"

fun copy_objects :: "backup_lib \<Rightarrow> 's store_ops \<Rightarrow> string \<Rightarrow> (inventory_entry \<times> bytes) list \<Rightarrow> nat \<Rightarrow> nat \<Rightarrow> 's \<Rightarrow> (string + nat \<times> nat) \<times> 's" where
  "copy_objects lib ops pre [] copied skipped s = (Inr (copied, skipped), s)"
| "copy_objects lib ops pre ((e, blob) # es) copied skipped s =
     (case st_get ops (pre @ ie_key e) s of
        Inl err \<Rightarrow> (Inl err, s)
      | Inr existing \<Rightarrow>
          if (case existing of None \<Rightarrow> False | Some b \<Rightarrow> bl_sha256 lib b = ie_sha256 e)
          then copy_objects lib ops pre es copied (skipped + 1) s
          else (case st_put ops (pre @ ie_key e) blob s of
                  Inl err \<Rightarrow> (Inl err, s)
                | Inr s1 \<Rightarrow> copy_objects lib ops pre es (copied + 1) skipped s1))"

definition intact :: "backup_lib \<Rightarrow> inventory_entry \<Rightarrow> bytes option \<Rightarrow> bool" where
  "intact lib e blob =
     (case blob of None \<Rightarrow> False | Some b \<Rightarrow> length b = ie_bytes e \<and> bl_sha256 lib b = ie_sha256 e)"

fun verify_copies :: "backup_lib \<Rightarrow> 's store_ops \<Rightarrow> string \<Rightarrow> inventory_entry list \<Rightarrow> 's \<Rightarrow> string + string list" where
  \<comment> \<open>the keys whose copy is missing or differs\<close>
  "verify_copies lib ops pre [] s = Inr []"
| "verify_copies lib ops pre (e # es) s =
     (case st_get ops (pre @ ie_key e) s of
        Inl err \<Rightarrow> Inl err
      | Inr written \<Rightarrow>
          (case verify_copies lib ops pre es s of
             Inl err \<Rightarrow> Inl err
           | Inr failed \<Rightarrow> Inr (if intact lib e written then failed else ie_key e # failed)))"

definition alias_error :: string where
  "alias_error = ''source and destination resolve to the SAME object store''"

definition inventory_key :: "string \<Rightarrow> string" where
  "inventory_key stamp = backup_prefix_for stamp @ ''inventory.json''"

definition commit_backup ::
  "backup_lib \<Rightarrow> 's store_ops \<Rightarrow> string \<Rightarrow> backup_media_result \<Rightarrow> json \<Rightarrow> (inventory_entry \<times> bytes) list \<Rightarrow> 's \<Rightarrow> (string + backup_media_result) \<times> 's" where
  \<comment> \<open>phase B: copy, verify every copy, and only then publish the inventory; the result so far is an argument\<close>
  "commit_backup lib ops stamp res inventory found s =
     (let pre = backup_prefix_for stamp; entries = map fst found
      in case copy_objects lib ops pre found 0 0 s of
           (Inl err, s1) \<Rightarrow> (Inl err, s1)
         | (Inr (copied, skipped), s1) \<Rightarrow>
             (case verify_copies lib ops pre entries s1 of
                Inl err \<Rightarrow> (Inl err, s1)
              | Inr failed \<Rightarrow>
                  let res1 = res\<lparr>br_copied := copied, br_skipped := skipped, br_verified := length entries - length failed,
                                 br_failed := failed, br_applied := True\<rparr>
                  in if failed \<noteq> [] then (Inr res1, s1)
                     else (case st_put ops (inventory_key stamp) (bl_encode lib inventory) s1 of
                             Inl err \<Rightarrow> (Inl err, s1)
                           | Inr s2 \<Rightarrow> (Inr (res1\<lparr>br_inventory := Some inventory, br_complete := True\<rparr>), s2))))"

definition backup_media_to_store ::
  "backup_lib \<Rightarrow> media_key_row list \<Rightarrow> 'a store_ops \<Rightarrow> 'a \<Rightarrow> string \<Rightarrow> 's store_ops \<Rightarrow> string \<Rightarrow> string \<Rightarrow> string \<Rightarrow> bytes \<Rightarrow> bool \<Rightarrow>
     's \<Rightarrow> (string + backup_media_result) \<times> 's" where
  "backup_media_to_store lib rows sops src source_id ops backup_id stamp created key apply s =
     (if same_target lib source_id backup_id then (Inl alias_error, s)
      else
        let keys = referenced_keys rows; expected = length keys
        in case scan_source lib sops src keys of
          (found, missing) \<Rightarrow>
            let res = \<lparr>br_inventory = None, br_complete = False, br_expected = expected, br_copied = 0, br_skipped = 0,
                       br_verified = 0, br_missing = missing, br_failed = [], br_applied = False\<rparr>;
                inventory = build_inventory lib source_id stamp created key expected (map fst found)
            in if missing \<noteq> [] then (Inr res, s)
               else if \<not> apply then (Inr (res\<lparr>br_inventory := Some inventory, br_complete := True\<rparr>), s)
               else commit_backup lib ops stamp res inventory found s)"

subsection \<open>Verification\<close>

definition throws_null :: string where "throws_null = ''Cannot read properties of null''"

definition is_str :: "json option \<Rightarrow> bool" where
  "is_str v = (case v of Some (JStr s) \<Rightarrow> True | _ \<Rightarrow> False)"

definition is_num :: "json option \<Rightarrow> bool" where
  "is_num v = (case v of Some (JNum n) \<Rightarrow> True | _ \<Rightarrow> False)"

definition is_arr :: "json option \<Rightarrow> bool" where
  "is_arr v = (case v of Some (JArr xs) \<Rightarrow> True | _ \<Rightarrow> False)"

fun entry_errors :: "json list \<Rightarrow> string + string option" where
  "entry_errors [] = Inr None"
| "entry_errors (ob # obs) =
     (if ob = JNull then Inl throws_null
      else if \<not> is_str (jget ''key'' ob) \<or> \<not> is_num (jget ''bytes'' ob) \<or> num_at ''bytes'' ob < 0 then Inr (Some ''bad entry'')
      else if \<not> is_str (jget ''sha256'' ob) \<or> \<not> hex64 (text_at ''sha256'' ob) then Inr (Some ''bad entry sha256'')
      else entry_errors obs)"

definition validate_shape :: "json \<Rightarrow> string + string option" where
  "validate_shape inven =
     (if inven = JNull then Inl throws_null
      else if jget ''format_version'' inven \<noteq> Some (JNum 2) \<or> jget ''kind'' inven \<noteq> Some (JStr ''media-s3-inventory'') then Inr (Some ''unexpected header'')
      else if \<not> is_str (jget ''stamp'' inven) \<or> \<not> is_str (jget ''created_at'' inven) then Inr (Some ''bad header'')
      else if \<not> is_str (jget ''mac'' inven) \<or> \<not> hex64 (text_at ''mac'' inven) then Inr (Some ''missing/invalid mac'')
      else if \<not> is_str (jget ''backup_prefix'' inven) \<or> \<not> is_str (jget ''source_fingerprint'' inven) then Inr (Some ''bad target metadata'')
      else if jget ''completeness'' inven \<noteq> Some (JStr ''complete'') then Inr (Some ''inventory is not marked complete'')
      else if \<not> is_num (jget ''expected_object_count'' inven) then Inr (Some ''missing expected_object_count'')
      else if \<not> is_arr (jget ''objects'' inven) then Inr (Some ''bad objects'')
      else
        case entry_errors (items_at ''objects'' inven) of
          Inl err \<Rightarrow> Inl err
        | Inr (Some err) \<Rightarrow> Inr (Some err)
        | Inr None \<Rightarrow>
            if jget ''object_count'' inven \<noteq> Some (JNum (int (length (items_at ''objects'' inven)))) then Inr (Some ''object_count mismatch'')
            else if jget ''expected_object_count'' inven \<noteq> jget ''object_count'' inven then Inr (Some ''expected/actual count mismatch (incomplete)'')
            else Inr None)"

record verify_media_result =
  vm_ok :: bool
  vm_detail :: "string option" \<comment> \<open>the error of an invalid shape\<close>
  vm_mac_ok :: bool
  vm_expected :: int
  vm_object_count :: nat
  vm_verified :: nat
  vm_missing :: nat
  vm_altered :: nat

definition entry_of :: "json \<Rightarrow> inventory_entry" where
  "entry_of ob = \<lparr>ie_key = text_at ''key'' ob, ie_bytes = nat (num_at ''bytes'' ob), ie_sha256 = text_at ''sha256'' ob\<rparr>"

definition inventory_entries :: "json \<Rightarrow> inventory_entry list" where
  "inventory_entries inven = map entry_of (items_at ''objects'' inven)"

fun count_objects :: "backup_lib \<Rightarrow> 's store_ops \<Rightarrow> string \<Rightarrow> inventory_entry list \<Rightarrow> nat \<times> nat \<times> nat \<Rightarrow> 's \<Rightarrow> string + nat \<times> nat \<times> nat" where
  \<comment> \<open>verified, missing and altered\<close>
  "count_objects lib ops pre [] counts s = Inr counts"
| "count_objects lib ops pre (e # es) (v, mi, al) s =
     (case st_get ops (pre @ ie_key e) s of
        Inl err \<Rightarrow> Inl err
      | Inr None \<Rightarrow> count_objects lib ops pre es (v, mi + 1, al) s
      | Inr (Some b) \<Rightarrow>
          if intact lib e (Some b) then count_objects lib ops pre es (v + 1, mi, al) s
          else count_objects lib ops pre es (v, mi, al + 1) s)"

definition verify_media_backup :: "backup_lib \<Rightarrow> 's store_ops \<Rightarrow> json \<Rightarrow> bytes \<Rightarrow> 's \<Rightarrow> string + verify_media_result" where
  "verify_media_backup lib ops inven key s =
     (case validate_shape inven of
        Inl err \<Rightarrow> Inl err
      | Inr (Some detail) \<Rightarrow>
          Inr \<lparr>vm_ok = False, vm_detail = Some detail, vm_mac_ok = False, vm_expected = num_at ''expected_object_count'' inven,
               vm_object_count = 0, vm_verified = 0, vm_missing = 0, vm_altered = 0\<rparr>
      | Inr None \<Rightarrow>
          let expected = num_at ''expected_object_count'' inven; n = length (items_at ''objects'' inven)
          in if \<not> mac_matches (inventory_mac lib key inven) (text_at ''mac'' inven)
             then Inr \<lparr>vm_ok = False, vm_detail = None, vm_mac_ok = False, vm_expected = expected, vm_object_count = n,
                       vm_verified = 0, vm_missing = 0, vm_altered = 0\<rparr>
             else (case count_objects lib ops (text_at ''backup_prefix'' inven) (inventory_entries inven) (0, 0, 0) s of
                     Inl err \<Rightarrow> Inl err
                   | Inr (v, mi, al) \<Rightarrow>
                       Inr \<lparr>vm_ok = (mi = 0 \<and> al = 0 \<and> int v = expected), vm_detail = None, vm_mac_ok = True, vm_expected = expected,
                            vm_object_count = n, vm_verified = v, vm_missing = mi, vm_altered = al\<rparr>))"

subsection \<open>Restore\<close>

record restore_media_result =
  rm_restored :: nat
  rm_skipped :: nat
  rm_failed :: nat
  rm_applied :: bool

fun restore_objects :: "backup_lib \<Rightarrow> 'a store_ops \<Rightarrow> 'a \<Rightarrow> string \<Rightarrow> 's store_ops \<Rightarrow> bool \<Rightarrow> inventory_entry list \<Rightarrow> nat \<times> nat \<times> nat \<Rightarrow> 's \<Rightarrow>
    (string + nat \<times> nat \<times> nat) \<times> 's" where
  \<comment> \<open>restored, skipped and failed\<close>
  "restore_objects lib bops b pre ops apply [] counts s = (Inr counts, s)"
| "restore_objects lib bops b pre ops apply (e # es) (re, sk, fa) s =
     (case st_get bops (pre @ ie_key e) b of
        Inl err \<Rightarrow> (Inl err, s)
      | Inr got \<Rightarrow>
          if \<not> intact lib e got then restore_objects lib bops b pre ops apply es (re, sk, fa + 1) s
          else if \<not> apply then restore_objects lib bops b pre ops apply es (re, sk, fa) s
          else (case st_get ops (ie_key e) s of
                  Inl err \<Rightarrow> (Inl err, s)
                | Inr existing \<Rightarrow>
                    if (case existing of None \<Rightarrow> False | Some x \<Rightarrow> bl_sha256 lib x = ie_sha256 e)
                    then restore_objects lib bops b pre ops apply es (re, sk + 1, fa) s
                    else (case st_put ops (ie_key e) (the got) s of
                            Inl err \<Rightarrow> (Inl err, s)
                          | Inr s1 \<Rightarrow>
                              (case st_get ops (ie_key e) s1 of
                                 Inl err \<Rightarrow> (Inl err, s1)
                               | Inr written \<Rightarrow>
                                   if (case written of None \<Rightarrow> True | Some x \<Rightarrow> bl_sha256 lib x \<noteq> ie_sha256 e)
                                   then restore_objects lib bops b pre ops apply es (re, sk, fa + 1) s1
                                   else restore_objects lib bops b pre ops apply es (re + 1, sk, fa) s1))))"

definition primary_error :: string where
  "primary_error = ''media:restore-s3 refuses to restore into the ORIGINAL primary media store''"

definition restore_media_from_backup ::
  "backup_lib \<Rightarrow> json \<Rightarrow> 'a store_ops \<Rightarrow> 'a \<Rightarrow> string \<Rightarrow> 's store_ops \<Rightarrow> string \<Rightarrow> bool \<Rightarrow> bool \<Rightarrow> 's \<Rightarrow> (string + restore_media_result) \<times> 's" where
  "restore_media_from_backup lib inven bops b backup_id ops dest_id apply allow_primary s =
     (if same_target lib backup_id dest_id then (Inl alias_error, s)
      else if jget ''source_fingerprint'' inven = Some (JStr (bl_fingerprint lib dest_id)) \<and> \<not> allow_primary then (Inl primary_error, s)
      else (case restore_objects lib bops b (text_at ''backup_prefix'' inven) ops apply (inventory_entries inven) (0, 0, 0) s of
              (Inl err, s1) \<Rightarrow> (Inl err, s1)
            | (Inr (re, sk, fa), s1) \<Rightarrow> (Inr \<lparr>rm_restored = re, rm_skipped = sk, rm_failed = fa, rm_applied = apply\<rparr>, s1)))"

subsection \<open>The phases\<close>

definition entry_for :: "backup_lib \<Rightarrow> string \<Rightarrow> bytes \<Rightarrow> inventory_entry" where
  "entry_for lib k blob = \<lparr>ie_key = k, ie_bytes = length blob, ie_sha256 = bl_sha256 lib blob\<rparr>"

lemma entry_for_simps [simp]:
  "ie_key (entry_for lib k b) = k" "intact lib (entry_for lib k b) (Some c) \<longleftrightarrow> length c = length b \<and> bl_sha256 lib c = bl_sha256 lib b"
  "ie_sha256 (entry_for lib k b) = bl_sha256 lib b"
  by (simp_all add: entry_for_def intact_def)

lemma scan_source_found:
  "scan_source lib ops s ks = (found, missing) \<Longrightarrow>
     list_all (\<lambda>(e, b). ie_key e \<in> set ks \<and> st_get ops (ie_key e) s = Inr (Some b) \<and> e = entry_for lib (ie_key e) b) found \<and>
     (missing = [] \<longrightarrow> map (\<lambda>(e, b). ie_key e) found = ks)"
proof (induction ks arbitrary: found missing)
  case (Cons k ks)
  obtain f m where "scan_source lib ops s ks = (f, m)" by (cases "scan_source lib ops s ks")
  with Cons show ?case
    by (auto simp: entry_for_def list_all_iff split: sum.splits option.splits)
qed simp

lemma verify_copies_all:
  "verify_copies lib ops pre es s = Inr [] \<Longrightarrow> list_all (\<lambda>e. \<exists>b. st_get ops (pre @ ie_key e) s = Inr (Some b) \<and> intact lib e (Some b)) es"
proof (induction es)
  case (Cons e es)
  obtain r failed where r: "st_get ops (pre @ ie_key e) s = Inr r" "verify_copies lib ops pre es s = Inr failed"
    using Cons.prems by (auto split: sum.splits)
  then have "intact lib e r" "failed = []" using Cons.prems by (auto split: if_splits)
  then show ?case using r Cons.IH by (cases r) (auto simp: intact_def)
qed simp

definition backed_up :: "backup_lib \<Rightarrow> 's store_ops \<Rightarrow> string \<Rightarrow> inventory_entry list \<Rightarrow> 's \<Rightarrow> bool" where
  \<comment> \<open>every object that can be read is intact\<close>
  "backed_up lib ops pre es s \<longleftrightarrow>
     list_all (\<lambda>e. case st_get ops (pre @ ie_key e) s of Inl err \<Rightarrow> True | Inr r \<Rightarrow> intact lib e r) es"

lemma backed_up_Cons [simp]:
  "backed_up lib ops pre (e # es) s \<longleftrightarrow>
     (case st_get ops (pre @ ie_key e) s of Inl err \<Rightarrow> True | Inr r \<Rightarrow> intact lib e r) \<and> backed_up lib ops pre es s"
  by (simp add: backed_up_def)

lemma count_objects_all:
  "count_objects lib ops pre es (v, mi, al) s = Inr counts \<Longrightarrow> backed_up lib ops pre es s \<Longrightarrow> counts = (v + length es, mi, al)"
proof (induction es arbitrary: v)
  case (Cons e es)
  obtain r where r: "st_get ops (pre @ ie_key e) s = Inr r" using Cons.prems(1) by (auto split: sum.splits)
  then have "intact lib e r" using Cons.prems(2) by simp
  then obtain b where "r = Some b" "intact lib e (Some b)" by (cases r) (auto simp: intact_def)
  then show ?case using Cons.IH [of "v + 1"] Cons.prems r by simp
qed simp

context object_store
begin

lemma copy_objects_keeps:
  "copy_objects lib ops pre found c k s = (r, s') \<Longrightarrow> list_all (\<lambda>(e, b). loc (pre @ ie_key e) \<noteq> l) found \<Longrightarrow> content s' l = content s l"
proof (induction found arbitrary: c k s)
  case (Cons eb es)
  obtain e blob where eb: "eb = (e, blob)" by (cases eb)
  show ?case
  proof (cases "st_get ops (pre @ ie_key e) s")
    case (Inl err)
    then show ?thesis using Cons.prems eb by simp
  next
    case get: (Inr existing)
    show ?thesis
    proof (cases "case existing of None \<Rightarrow> False | Some b \<Rightarrow> bl_sha256 lib b = ie_sha256 e")
      case True
      then show ?thesis using Cons.IH [of c "k + 1" s] Cons.prems get eb by simp
    next
      case new: False
      show ?thesis
      proof (cases "st_put ops (pre @ ie_key e) blob s")
        case (Inl err)
        then show ?thesis using Cons.prems new get eb by simp
      next
        case (Inr s1)
        have "content s' l = content s1 l" using Cons.IH [of "c + 1" k s1] Cons.prems new get eb Inr by simp
        moreover have "content s1 l = content s l" using put_law [OF Inr] Cons.prems(2) eb by auto
        ultimately show ?thesis by simp
      qed
    qed
  qed
qed simp

lemma restore_objects_all:
  assumes "restore_objects lib bops b pre ops True es (re, sk, fa) s = (Inr (re', sk', fa'), s')"
    "backed_up lib bops pre es b"
    "distinct (map (\<lambda>e. loc (ie_key e)) es)"
  shows "fa' = fa \<and> re' + sk' = re + sk + length es \<and>
    list_all (\<lambda>e. \<exists>c. content s' (loc (ie_key e)) = Some c \<and> bl_sha256 lib c = ie_sha256 e) es \<and>
    (\<forall>l. l \<notin> (\<lambda>e. loc (ie_key e)) ` set es \<longrightarrow> content s' l = content s l)"
  using assms
proof (induction es arbitrary: re sk fa s)
  case (Cons e es)
  obtain got where got: "st_get bops (pre @ ie_key e) b = Inr got" "intact lib e got"
    using Cons.prems(1,2) by (auto split: sum.splits)
  then obtain x where x: "got = Some x" "bl_sha256 lib x = ie_sha256 e" by (auto simp: intact_def split: option.splits)
  obtain existing where ex: "st_get ops (ie_key e) s = Inr existing"
    using Cons.prems(1) got by (auto split: sum.splits)
  let ?same = "case existing of None \<Rightarrow> False | Some y \<Rightarrow> bl_sha256 lib y = ie_sha256 e"
  obtain s1 re1 sk1 where s1: "restore_objects lib bops b pre ops True es (re1, sk1, fa) s1 = (Inr (re', sk', fa'), s')"
    "re1 + sk1 = re + sk + 1" "\<exists>c. content s1 (loc (ie_key e)) = Some c \<and> bl_sha256 lib c = ie_sha256 e"
    "\<forall>l. l \<noteq> loc (ie_key e) \<longrightarrow> content s1 l = content s l"
  proof (cases ?same)
    case True
    then have "\<exists>c. content s (loc (ie_key e)) = Some c \<and> bl_sha256 lib c = ie_sha256 e"
      using get_law [OF ex] by (auto split: option.splits)
    then show thesis using that [of re "sk + 1" s] Cons.prems(1) got ex True by simp
  next
    case False
    obtain s1 where put: "st_put ops (ie_key e) x s = Inr s1"
      using Cons.prems(1) got ex False x(1) by (auto split: sum.splits)
    obtain w where w: "st_get ops (ie_key e) s1 = Inr w"
      using Cons.prems(1) got ex False x(1) put by (auto split: sum.splits)
    then have "w = Some x" using put_then_get [OF put w] by simp
    then show thesis
      using that [of "re + 1" sk s1] Cons.prems(1) got ex False x put w put_law [OF put] by simp
  qed
  from Cons.IH [OF s1(1)] Cons.prems(2,3)
  have ih: "fa' = fa" "re' + sk' = re1 + sk1 + length es"
    "list_all (\<lambda>e. \<exists>c. content s' (loc (ie_key e)) = Some c \<and> bl_sha256 lib c = ie_sha256 e) es"
    "\<forall>l. l \<notin> (\<lambda>e. loc (ie_key e)) ` set es \<longrightarrow> content s' l = content s1 l" by auto
  have "content s' (loc (ie_key e)) = content s1 (loc (ie_key e))" using ih(4) Cons.prems(3) by auto
  then show ?case using ih s1(2-4) by auto
qed simp

lemma commit_backup_cases:
  assumes "commit_backup lib ops stamp res inventory found s = (r, s')" "\<not> br_complete res"
    "list_all (\<lambda>(e, b). loc (backup_prefix_for stamp @ ie_key e) \<noteq> loc (inventory_key stamp)) found"
  obtains (no_commit) "content s' (loc (inventory_key stamp)) = content s (loc (inventory_key stamp))"
      "case r of Inl e \<Rightarrow> True | Inr res' \<Rightarrow> \<not> br_complete res'"
  | (commit) res' where "r = Inr res'" "br_complete res'" "br_applied res'" "br_inventory res' = Some inventory"
      "content s' (loc (inventory_key stamp)) = Some (bl_encode lib inventory)"
      "list_all (\<lambda>(e, b). \<exists>c. content s' (loc (backup_prefix_for stamp @ ie_key e)) = Some c \<and> intact lib e (Some c)) found"
proof -
  let ?pre = "backup_prefix_for stamp"
  obtain cr s1 where copy: "copy_objects lib ops ?pre found 0 0 s = (cr, s1)"
    by (cases "copy_objects lib ops ?pre found 0 0 s")
  note kept = copy_objects_keeps [OF copy assms(3)]
  show thesis
  proof (cases cr)
    case (Inl e)
    then show ?thesis using no_commit assms(1) copy kept by (auto simp: commit_backup_def)
  next
    case cr: (Inr counts)
    obtain n m where nm: "counts = (n, m)" by (cases counts)
    show ?thesis
    proof (cases "verify_copies lib ops ?pre (map fst found) s1")
      case (Inl e)
      then have "r = Inl e" "s' = s1" using assms(1) copy cr nm by (simp_all add: commit_backup_def)
      then show ?thesis using no_commit kept by simp
    next
      case ver: (Inr failed)
      show ?thesis
      proof (cases "failed = []")
        case False
        then show ?thesis using no_commit assms(1,2) copy kept cr nm ver by (auto simp: commit_backup_def Let_def)
      next
        case True
        show ?thesis
        proof (cases "st_put ops (inventory_key stamp) (bl_encode lib inventory) s1")
          case (Inl e)
          then show ?thesis using no_commit assms(1) copy kept cr nm ver True by (auto simp: commit_backup_def Let_def)
        next
          case (Inr s2)
          have all: "list_all (\<lambda>e. \<exists>b. st_get ops (?pre @ ie_key e) s1 = Inr (Some b) \<and> intact lib e (Some b)) (map fst found)"
            by (rule verify_copies_all) (simp add: ver True)
          have copies: "\<exists>c. content s2 (loc (?pre @ ie_key e)) = Some c \<and> intact lib e (Some c)" if mem: "(e, b) \<in> set found" for e b
          proof -
            obtain c where c: "st_get ops (?pre @ ie_key e) s1 = Inr (Some c)" "intact lib e (Some c)"
              using all mem by (fastforce simp: list_all_iff)
            have "loc (?pre @ ie_key e) \<noteq> loc (inventory_key stamp)" using assms(3) mem by (auto simp: list_all_iff)
            then have "content s2 (loc (?pre @ ie_key e)) = Some c"
              using put_other [OF Inr] get_law [OF c(1)] by simp
            then show ?thesis using c(2) by simp
          qed
          have run: "r = Inr (res\<lparr>br_copied := n, br_skipped := m, br_verified := length found, br_failed := [], br_applied := True,
              br_inventory := Some inventory, br_complete := True\<rparr>)" "s' = s2"
            using assms(1) copy cr nm ver True Inr by (simp_all add: commit_backup_def Let_def)
          show ?thesis
          proof (rule commit [OF run(1)])
            show "content s' (loc (inventory_key stamp)) = Some (bl_encode lib inventory)" using put_law [OF Inr] run(2) by simp
            show "list_all (\<lambda>(e, b). \<exists>c. content s' (loc (?pre @ ie_key e)) = Some c \<and> intact lib e (Some c)) found"
              using copies run(2) by (fastforce simp: list_all_iff)
          qed simp_all
        qed
      qed
    qed
  qed
qed

lemma backup_commits:
  assumes "backup_media_to_store lib rows sops src sid ops bid stamp created key apply s = (r, s')"
    "list_all (\<lambda>k. loc (backup_prefix_for stamp @ k) \<noteq> loc (inventory_key stamp)) (referenced_keys rows)"
  obtains (no_commit) "content s' (loc (inventory_key stamp)) = content s (loc (inventory_key stamp))"
      "case r of Inl e \<Rightarrow> True | Inr res \<Rightarrow> \<not> br_complete res \<or> \<not> br_applied res"
  | (commit) res found where "r = Inr res" "br_complete res" "br_applied res"
      "scan_source lib sops src (referenced_keys rows) = (found, [])"
      "br_inventory res = Some (build_inventory lib sid stamp created key (length (referenced_keys rows)) (map fst found))"
      "content s' (loc (inventory_key stamp)) = Some (bl_encode lib (the (br_inventory res)))"
      "list_all (\<lambda>(e, b). \<exists>c. content s' (loc (backup_prefix_for stamp @ ie_key e)) = Some c \<and> intact lib e (Some c)) found"
proof -
  obtain found missing where scan: "scan_source lib sops src (referenced_keys rows) = (found, missing)"
    by (cases "scan_source lib sops src (referenced_keys rows)")
  have keys: "list_all (\<lambda>(e, b). loc (backup_prefix_for stamp @ ie_key e) \<noteq> loc (inventory_key stamp)) found"
    using scan_source_found [OF scan] assms(2) by (auto simp: list_all_iff)
  show thesis
  proof (cases "\<not> same_target lib sid bid \<and> missing = [] \<and> apply")
    case False
    then show ?thesis
      using no_commit assms(1) scan by (auto simp: backup_media_to_store_def Let_def split: if_splits)
  next
    case True
    then have "commit_backup lib ops stamp \<lparr>br_inventory = None, br_complete = False, br_expected = length (referenced_keys rows),
        br_copied = 0, br_skipped = 0, br_verified = 0, br_missing = missing, br_failed = [], br_applied = False\<rparr>
        (build_inventory lib sid stamp created key (length (referenced_keys rows)) (map fst found)) found s = (r, s')"
      using assms(1) scan by (simp add: backup_media_to_store_def Let_def)
    from commit_backup_cases [OF this _ keys] show ?thesis
    proof (cases, goal_cases)
      case 2
      then show ?case by (intro no_commit) (auto split: sum.splits)
    next
      case (3 res')
      then show ?case using commit [of res' found] scan True by simp
    qed simp
  qed
qed

end


subsection \<open>Round trip\<close>

definition lib_ok :: "backup_lib \<Rightarrow> bool" where
  \<comment> \<open>digests are 64 lower-case hex digits\<close>
  "lib_ok lib \<longleftrightarrow> (\<forall>b. hex64 (bl_sha256 lib b)) \<and> (\<forall>k j. hex64 (bl_hmac lib k j))"

lemma jget_add_mac: "k \<noteq> ''mac'' \<Longrightarrow> jget k (JObj (fs @ [(''mac'', v)])) = jget k (JObj fs)"
  by (simp add: map_add_def split: option.splits)

lemma canonical_no_mac: "canonical_body lib (JObj (fs @ [(''mac'', v)])) = canonical_body lib (JObj fs)"
proof -
  note [simp] = jget_add_mac
  have "pick k (JObj (fs @ [(''mac'', v)])) = pick k (JObj fs)" if "k \<noteq> ''mac''" for k
    unfolding pick_def using that by (simp only: jget_add_mac not_False_eq_True)
  moreover have "items_at ''objects'' (JObj (fs @ [(''mac'', v)])) = items_at ''objects'' (JObj fs)"
    unfolding items_at_def by (subst jget_add_mac) simp_all
  ultimately show ?thesis unfolding canonical_body_def by simp
qed

lemma entry_round [simp]: "entry_of (entry_json e) = e"
  by (simp add: entry_of_def entry_json_def text_at_def num_at_def)

lemma entry_errors_ok: "list_all (\<lambda>e. hex64 (ie_sha256 e)) es \<Longrightarrow> entry_errors (map entry_json es) = Inr None"
  by (induction es) (auto simp: entry_json_def is_str_def is_num_def num_at_def text_at_def)

lemma inventory_fields:
  fixes lib :: backup_lib and sid stamp created :: string and key :: bytes and n :: nat and es :: "inventory_entry list"
  defines "inven \<equiv> build_inventory lib sid stamp created key n es"
  shows "jget ''format_version'' inven = Some (JNum 2)" "jget ''kind'' inven = Some (JStr ''media-s3-inventory'')"
    "jget ''stamp'' inven = Some (JStr stamp)" "jget ''created_at'' inven = Some (JStr created)"
    "jget ''mac'' inven = Some (JStr (inventory_mac lib key inven))"
    "jget ''backup_prefix'' inven = Some (JStr (backup_prefix_for stamp))"
    "jget ''source_fingerprint'' inven = Some (JStr (bl_fingerprint lib sid))" "jget ''completeness'' inven = Some (JStr ''complete'')"
    "jget ''expected_object_count'' inven = Some (JNum (int n))" "jget ''object_count'' inven = Some (JNum (int (length es)))"
    "jget ''objects'' inven = Some (JArr (map entry_json es))" "inven \<noteq> JNull"
proof -
  have mac: "inventory_mac lib key inven = inventory_mac lib key (JObj (inventory_body lib sid stamp created n es))"
    by (simp only: inven_def build_inventory_def Let_def inventory_mac_def canonical_no_mac)
  show "jget ''mac'' inven = Some (JStr (inventory_mac lib key inven))"
    unfolding mac by (simp add: inven_def build_inventory_def Let_def inventory_body_def)
qed (simp_all add: inven_def build_inventory_def Let_def inventory_body_def)

lemmas inventory_readers = is_str_def is_num_def is_arr_def text_at_def items_at_def num_at_def

lemma built_inventory_valid:
  assumes "lib_ok lib" "list_all (\<lambda>e. hex64 (ie_sha256 e)) es"
  shows "validate_shape (build_inventory lib sid stamp created key (length es) es) = Inr None"
  using assms entry_errors_ok [OF assms(2)]
  by (simp add: validate_shape_def inventory_fields inventory_readers lib_ok_def inventory_mac_def)

lemma built_inventory_entries:
  "inventory_entries (build_inventory lib sid stamp created key n es) = es"
  by (simp add: inventory_entries_def items_at_def inventory_fields comp_def)

lemma verify_built:
  assumes "verify_media_backup lib ops (build_inventory lib sid stamp created key (length es) es) key s = Inr v"
    "lib_ok lib" "list_all (\<lambda>e. hex64 (ie_sha256 e)) es" "backed_up lib ops (backup_prefix_for stamp) es s"
  shows "vm_ok v \<and> vm_verified v = length es"
proof -
  obtain counts where counts: "count_objects lib ops (backup_prefix_for stamp) es (0, 0, 0) s = Inr counts"
    using assms(1) built_inventory_valid [OF assms(2,3)]
    by (auto simp: verify_media_backup_def built_inventory_entries inventory_fields inventory_readers Let_def split: sum.splits)
  show ?thesis
    using assms(1) built_inventory_valid [OF assms(2,3)] counts count_objects_all [OF counts assms(4)]
    by (auto simp: verify_media_backup_def built_inventory_entries inventory_fields inventory_readers Let_def)
qed

lemma restore_built:
  assumes "restore_media_from_backup lib (build_inventory lib sid stamp created key n es) bops b bid (fs_store root) did True primary d = (Inr m, d')"
    "backed_up lib bops (backup_prefix_for stamp) es b" "distinct (map (\<lambda>e. path_for root (ie_key e)) es)"
  shows "rm_failed m = 0 \<and> rm_restored m + rm_skipped m = length es \<and>
    list_all (\<lambda>e. \<exists>c. fs_content d' (path_for root (ie_key e)) = Some c \<and> bl_sha256 lib c = ie_sha256 e) es"
proof -
  obtain re sk fa where r: "restore_objects lib bops b (backup_prefix_for stamp) (fs_store root) True es (0, 0, 0) d = (Inr (re, sk, fa), d')"
    "m = \<lparr>rm_restored = re, rm_skipped = sk, rm_failed = fa, rm_applied = True\<rparr>"
    using assms(1)
    by (auto simp: restore_media_from_backup_def built_inventory_entries inventory_fields inventory_readers split: if_splits prod.splits sum.splits)
  show ?thesis using fs.restore_objects_all [OF r(1) assms(2,3)] r(2) by simp
qed

text \<open>What a media backup saved, its verification accepts and its restore brings back. After a complete applied
  backup, verifying the inventory with the same key at the same store reports every object verified unless a
  read fails; and restoring it at another store, unless it stops with an error, loses no object and leaves at
  every referenced key a blob with the digest of the blob the source had.\<close>

theorem media_backup_roundtrip:
  "(if lib_ok lib \<and> list_all (\<lambda>k. path_for root (backup_prefix_for stamp @ k) \<noteq> path_for root (inventory_key stamp)) (referenced_keys rows) \<and>
       distinct (map (path_for root2) (referenced_keys rows))
    then case backup_media_to_store lib rows sops src sid (fs_store root) bid stamp created key apply s of
        (Inl err, s1) \<Rightarrow> True
      | (Inr res, s1) \<Rightarrow>
          (if br_complete res \<and> br_applied res
           then (case verify_media_backup lib (fs_store root) (the (br_inventory res)) key s1 of
                   Inl err \<Rightarrow> True
                 | Inr v \<Rightarrow> vm_ok v \<and> vm_verified v = length (referenced_keys rows)) \<and>
                (case restore_media_from_backup lib (the (br_inventory res)) (fs_store root) s1 bid (fs_store root2) did True primary d of
                   (Inl err, d') \<Rightarrow> True
                 | (Inr m, d') \<Rightarrow>
                     rm_failed m = 0 \<and> rm_restored m + rm_skipped m = length (referenced_keys rows) \<and>
                     list_all (\<lambda>k. \<exists>b c. st_get sops k src = Inr (Some b) \<and> fs_content d' (path_for root2 k) = Some c \<and>
                       bl_sha256 lib c = bl_sha256 lib b) (referenced_keys rows))
           else True)
    else True)" (is "(if ?ok then ?run else True)")
proof (cases ?ok)
  case ok: True
  let ?keys = "referenced_keys rows" and ?pre = "backup_prefix_for stamp"
  obtain r s1 where run: "backup_media_to_store lib rows sops src sid (fs_store root) bid stamp created key apply s = (r, s1)"
    by (cases "backup_media_to_store lib rows sops src sid (fs_store root) bid stamp created key apply s")
  from ok have paths: "list_all (\<lambda>k. path_for root (?pre @ k) \<noteq> path_for root (inventory_key stamp)) ?keys" by simp
  from fs.backup_commits [OF run paths] show ?thesis
  proof (cases, goal_cases)
    case 1
    then show ?case using run by (auto split: sum.splits)
  next
    case commit: (2 res found)
    define inven where "inven = the (br_inventory res)"
    let ?es = "map fst found"
    note found = scan_source_found [OF commit(4)]
    have keys: "map ie_key ?es = ?keys" using found by (simp add: comp_def case_prod_unfold)
    then have count: "length ?keys = length ?es" by (metis length_map)
    have inven: "inven = build_inventory lib sid stamp created key (length ?es) ?es"
      using commit(5) count by (simp add: inven_def)
    have hexes: "list_all (\<lambda>e. hex64 (ie_sha256 e)) ?es"
      unfolding list_all_iff
    proof (rule ballI)
      fix e
      assume "e \<in> set ?es"
      then obtain b where "(e, b) \<in> set found" by auto
      then have "e = entry_for lib (ie_key e) b" using found by (auto simp: list_all_iff)
      then have "ie_sha256 e = bl_sha256 lib b" by (metis entry_for_simps(3))
      then show "hex64 (ie_sha256 e)" using ok by (simp add: lib_ok_def)
    qed
    have saved: "backed_up lib (fs_store root) ?pre ?es s1"
      using commit(7) fs.get_law [of root] unfolding backed_up_def list_all_iff by (fastforce split: sum.splits)
    have distinct: "distinct (map (\<lambda>e. path_for root2 (ie_key e)) ?es)"
      using ok unfolding keys [symmetric] by (simp add: comp_def)
    have verified: "case verify_media_backup lib (fs_store root) inven key s1 of Inl err \<Rightarrow> True
        | Inr v \<Rightarrow> vm_ok v \<and> vm_verified v = length ?keys"
      using verify_built [OF _ _ hexes saved] ok unfolding inven count by (auto split: sum.splits)
    have restored: "case restore_media_from_backup lib inven (fs_store root) s1 bid (fs_store root2) did True primary d of
        (Inl err, d') \<Rightarrow> True
      | (Inr m, d') \<Rightarrow> rm_failed m = 0 \<and> rm_restored m + rm_skipped m = length ?keys \<and>
          list_all (\<lambda>e. \<exists>c. fs_content d' (path_for root2 (ie_key e)) = Some c \<and> bl_sha256 lib c = ie_sha256 e) ?es"
      using restore_built [OF _ saved distinct] unfolding inven count by (auto split: sum.splits prod.splits)
    have sources: "list_all (\<lambda>k. \<exists>b c. st_get sops k src = Inr (Some b) \<and> fs_content d' (path_for root2 k) = Some c \<and>
          bl_sha256 lib c = bl_sha256 lib b) ?keys"
      if kept: "list_all (\<lambda>e. \<exists>c. fs_content d' (path_for root2 (ie_key e)) = Some c \<and> bl_sha256 lib c = ie_sha256 e) ?es" for d'
      unfolding keys [symmetric] list_all_iff
    proof (safe, goal_cases)
      case (1 k)
      then obtain e b where e: "(e, b) \<in> set found" "k = ie_key e" by auto
      then have "st_get sops k src = Inr (Some b)" "e = entry_for lib k b" using found by (auto simp: list_all_iff)
      moreover obtain c where "fs_content d' (path_for root2 k) = Some c" "bl_sha256 lib c = ie_sha256 e"
        using kept e by (force simp: list_all_iff)
      ultimately show ?case by auto
    qed
    obtain rr d' where rr: "restore_media_from_backup lib inven (fs_store root) s1 bid (fs_store root2) did True primary d = (rr, d')"
      by (cases "restore_media_from_backup lib inven (fs_store root) s1 bid (fs_store root2) did True primary d")
    have "case (rr, d') of (Inl err, d') \<Rightarrow> True
      | (Inr m, d') \<Rightarrow> rm_failed m = 0 \<and> rm_restored m + rm_skipped m = length ?keys \<and>
          list_all (\<lambda>k. \<exists>b c. st_get sops k src = Inr (Some b) \<and> fs_content d' (path_for root2 k) = Some c \<and>
            bl_sha256 lib c = bl_sha256 lib b) ?keys"
      using restored sources [of d'] unfolding rr by (cases rr) simp_all
    then have ?run
      using commit(2,3) verified rr unfolding run commit(1) inven_def by simp
    then show ?case by simp
  qed
next
  case False
  then show ?thesis by (simp only: if_False simp_thms)
qed

end
