(* ===== verification/Backup_Manifest.thy ===== *)
theory Backup_Manifest
  imports Backup_Media
begin

text \<open>
  Sealed database backups, \<open>services/api/src/backup/crypto.ts\<close> and \<open>manifest.ts\<close>, with the commands that seal,
  verify and unseal (\<open>run-seal.ts\<close>, \<open>run-verify.ts\<close>, \<open>run-unseal-file.ts\<close>). The files of the machine are a map
  from paths to contents; streams are whole contents, and what a failed stream has already written is the
  argument \<open>partial\<close>. AES-256-GCM is the \<open>crypto\<close> of \<open>Secret_Box\<close>, SHA-256 and HMAC are those of \<open>Backup_Media\<close>,
  \<open>JSON.parse\<close> is the field \<open>bi_parse\<close>.
\<close>

type_synonym files = "string \<Rightarrow> bytes option"

record backup_io =
  bi_lib :: backup_lib
  bi_crypto :: crypto
  bi_parse :: "bytes \<Rightarrow> json option"

subsection \<open>Sealed artifacts\<close>

definition parse_backup_key :: "crypto \<Rightarrow> string option \<Rightarrow> string + bytes" where
  "parse_backup_key c value =
     (if \<not> truthy value then Inl ''NOVA_BACKUP_KEY is required (32 bytes, hex or base64)''
      else let trimmed = js_trim (the value);
               key = (if test_re hex_key_re trimmed then hex_bytes trimmed else base64_bytes c trimmed)
           in if length key \<noteq> 32 then Inl ''NOVA_BACKUP_KEY must decode to 32 bytes (hex or base64)'' else Inr key)"

definition enoent :: string where "enoent = ''ENOENT: no such file or directory''"

definition key_length_error :: string where "key_length_error = ''Invalid key length''"

definition too_small :: string where "too_small = ''sealed artifact is too small to be valid''"

definition leave :: "string \<Rightarrow> bytes option \<Rightarrow> files \<Rightarrow> files" where
  \<comment> \<open>what a write stream that failed leaves at its path\<close>
  "leave path partial fs = (case partial of None \<Rightarrow> fs | Some b \<Rightarrow> fs(path \<mapsto> b))"

definition sha256_file :: "backup_lib \<Rightarrow> string \<Rightarrow> files \<Rightarrow> string + string" where
  "sha256_file lib path fs = (case fs path of None \<Rightarrow> Inl enoent | Some b \<Rightarrow> Inr (bl_sha256 lib b))"

definition encrypt_file :: "crypto \<Rightarrow> bytes \<Rightarrow> bytes \<Rightarrow> bytes option \<Rightarrow> string \<Rightarrow> string \<Rightarrow> files \<Rightarrow> (string + unit) \<times> files" where
  \<comment> \<open>the nonce is an argument; the layout is nonce, ciphertext, tag\<close>
  "encrypt_file c iv key partial inp out fs =
     (if length key \<noteq> key_len then (Inl key_length_error, fs)
      else case fs inp of
             None \<Rightarrow> (Inl enoent, leave out partial fs)
           | Some plain \<Rightarrow> (case gcm_seal c key iv plain of (data, tag) \<Rightarrow> (Inr (), fs(out \<mapsto> iv @ data @ tag))))"

definition sealed_range_error :: "nat \<Rightarrow> string option" where
  \<comment> \<open>\<open>createReadStream\<close> refuses a start beyond its end\<close>
  "sealed_range_error n =
     (if n - tag_len - 1 < iv_len then Some ''The value of \"start\" is out of range'' else None)"

definition open_sealed :: "crypto \<Rightarrow> bytes \<Rightarrow> bytes \<Rightarrow> string + bytes" where
  "open_sealed c key box =
     (let n = length box
      in if n < iv_len + tag_len then Inl too_small
         else if length key \<noteq> key_len then Inl key_length_error
         else case sealed_range_error n of
                Some e \<Rightarrow> Inl e
              | None \<Rightarrow>
                  (case gcm_open c key (take iv_len box) (drop (n - tag_len) box) (take (n - iv_len - tag_len) (drop iv_len box)) of
                     None \<Rightarrow> Inl ''Unsupported state or unable to authenticate data''
                   | Some plain \<Rightarrow> Inr plain))"

definition decrypt_file :: "crypto \<Rightarrow> bytes \<Rightarrow> bytes option \<Rightarrow> string \<Rightarrow> string \<Rightarrow> files \<Rightarrow> (string + unit) \<times> files" where
  \<comment> \<open>the output is opened once size and key have been accepted, before the tag is checked\<close>
  "decrypt_file c key partial inp out fs =
     (case fs inp of
        None \<Rightarrow> (Inl enoent, fs)
      | Some box \<Rightarrow>
          (case open_sealed c key box of
             Inr plain \<Rightarrow> (Inr (), fs(out \<mapsto> plain))
           | Inl e \<Rightarrow> (Inl e, if length box < iv_len + tag_len \<or> length key \<noteq> key_len then fs else leave out partial fs)))"

definition assert_decryptable :: "crypto \<Rightarrow> bytes \<Rightarrow> string \<Rightarrow> files \<Rightarrow> string + unit" where
  "assert_decryptable c key path fs =
     (case fs path of
        None \<Rightarrow> Inl enoent
      | Some box \<Rightarrow> (case open_sealed c key box of Inl e \<Rightarrow> Inl e | Inr plain \<Rightarrow> Inr ()))"

definition hashes_equal :: "string \<Rightarrow> string \<Rightarrow> bool" where
  "hashes_equal a b \<longleftrightarrow> buffer_hex a = buffer_hex b"

subsection \<open>Manifests\<close>

record manifest_artifact =
  ma_name :: string
  ma_role :: string
  ma_sha256 :: string
  ma_bytes :: nat

definition manifest_path :: "string \<Rightarrow> string \<Rightarrow> string" where
  "manifest_path dir stamp = path_join dir (''manifest-'' @ stamp @ ''.json'')"

definition artifact_json :: "manifest_artifact \<Rightarrow> json" where
  "artifact_json a =
     JObj [(''name'', JStr (ma_name a)), (''role'', JStr (ma_role a)), (''sha256'', JStr (ma_sha256 a)), (''bytes'', JNum (int (ma_bytes a)))]"

definition canonical_manifest :: "backup_lib \<Rightarrow> json \<Rightarrow> json" where
  "canonical_manifest lib body =
     JObj ([(''artifacts'', JArr (sort_key (\<lambda>a. bl_collate lib (text_at ''name'' a))
              (map (\<lambda>a. JObj (pick ''bytes'' a @ pick ''name'' a @ pick ''role'' a @ pick ''sha256'' a)) (items_at ''artifacts'' body))))] @
           concat (map (\<lambda>k. pick k body) [''created_at'', ''encryption'', ''format_version'', ''notes'', ''stamp'']))"

definition manifest_mac :: "backup_lib \<Rightarrow> json \<Rightarrow> bytes \<Rightarrow> string" where
  "manifest_mac lib body key = bl_hmac lib key (canonical_manifest lib body)"

definition manifest_notes :: json where
  "manifest_notes = JArr (map JStr
     [''Artifacts are AES-256-GCM sealed with NOVA_BACKUP_KEY (NOT in this backup).'',
      ''Restore recovers metadata + sealed blobs; NOVA_ENCRYPTION_KEY is still'',
      ''required to read media/tokens. Redis/queues are not backed up.''])"

fun read_artifacts :: "backup_lib \<Rightarrow> string \<Rightarrow> (string \<times> string) list \<Rightarrow> files \<Rightarrow> string + manifest_artifact list" where
  \<comment> \<open>names and roles\<close>
  "read_artifacts lib dir [] fs = Inr []"
| "read_artifacts lib dir ((name, role) # as) fs =
     (case fs (path_join dir name) of
        None \<Rightarrow> Inl enoent
      | Some b \<Rightarrow>
          (case read_artifacts lib dir as fs of
             Inl e \<Rightarrow> Inl e
           | Inr es \<Rightarrow> Inr (\<lparr>ma_name = name, ma_role = role, ma_sha256 = bl_sha256 lib b, ma_bytes = length b\<rparr> # es)))"

definition manifest_body :: "string \<Rightarrow> string \<Rightarrow> manifest_artifact list \<Rightarrow> (string \<times> json) list" where
  "manifest_body stamp created entries =
     [(''format_version'', JNum 1), (''created_at'', JStr created), (''stamp'', JStr stamp), (''encryption'', JStr ''aes-256-gcm''),
      (''artifacts'', JArr (map artifact_json entries)), (''notes'', manifest_notes)]"

definition sign_manifest :: "backup_lib \<Rightarrow> bytes \<Rightarrow> (string \<times> json) list \<Rightarrow> json" where
  "sign_manifest lib key body = JObj (body @ [(''mac'', JStr (manifest_mac lib (JObj body) key))])"

definition build_manifest ::
  "backup_lib \<Rightarrow> string \<Rightarrow> string \<Rightarrow> string \<Rightarrow> (string \<times> string) list \<Rightarrow> bytes \<Rightarrow> files \<Rightarrow> string + json" where
  "build_manifest lib dir stamp created artifacts key fs =
     (case read_artifacts lib dir artifacts fs of
        Inl e \<Rightarrow> Inl e
      | Inr entries \<Rightarrow> Inr (sign_manifest lib key (manifest_body stamp created entries)))"

definition write_manifest :: "backup_io \<Rightarrow> string \<Rightarrow> json \<Rightarrow> files \<Rightarrow> files" where
  "write_manifest io dir manifest fs = fs(manifest_path dir (text_at ''stamp'' manifest) \<mapsto> bl_encode (bi_lib io) manifest)"

definition read_manifest :: "backup_io \<Rightarrow> string \<Rightarrow> string \<Rightarrow> files \<Rightarrow> string + json" where
  "read_manifest io dir stamp fs =
     (case fs (manifest_path dir stamp) of
        None \<Rightarrow> Inl enoent
      | Some raw \<Rightarrow> (case bi_parse io raw of None \<Rightarrow> Inl ''Unexpected token in JSON'' | Some m \<Rightarrow> Inr m))"

definition manifest_roles :: "string list" where
  "manifest_roles = [''postgres'', ''media'']"

definition has_role :: "string list \<Rightarrow> json \<Rightarrow> bool" where
  "has_role roles a \<longleftrightarrow> is_str (jget ''role'' a) \<and> text_at ''role'' a \<in> set roles"

fun artifact_errors :: "string list \<Rightarrow> json list \<Rightarrow> string + string option" where
  \<comment> \<open>the loop over the entries; the roles that are valid are an argument\<close>
  "artifact_errors roles [] = Inr None"
| "artifact_errors roles (a # as) =
     (if a = JNull then Inl throws_null
      else if \<not> is_str (jget ''name'' a) \<or> \<not> has_role roles a then Inr (Some ''bad artifact entry'')
      else if \<not> is_num (jget ''bytes'' a) \<or> num_at ''bytes'' a < 0 then Inr (Some ''bad artifact bytes'')
      else if \<not> is_str (jget ''sha256'' a) \<or> \<not> hex64 (text_at ''sha256'' a) then Inr (Some ''bad artifact sha256'')
      else artifact_errors roles as)"

definition validate_manifest_shape :: "json \<Rightarrow> string + string option" where
  "validate_manifest_shape m =
     (if m = JNull then Inl throws_null
      else if jget ''format_version'' m \<noteq> Some (JNum 1) then Inr (Some ''unexpected format_version'')
      else if \<not> is_str (jget ''stamp'' m) \<or> \<not> is_str (jget ''created_at'' m) then Inr (Some ''bad header'')
      else if jget ''encryption'' m \<noteq> Some (JStr ''aes-256-gcm'') then Inr (Some ''unexpected encryption'')
      else if \<not> is_str (jget ''mac'' m) \<or> \<not> hex64 (text_at ''mac'' m) then Inr (Some ''missing/invalid mac'')
      else if \<not> is_arr (jget ''artifacts'' m) \<or> items_at ''artifacts'' m = [] then Inr (Some ''no artifacts'')
      else
        case artifact_errors manifest_roles (items_at ''artifacts'' m) of
          Inl e \<Rightarrow> Inl e
        | Inr (Some e) \<Rightarrow> Inr (Some e)
        | Inr None \<Rightarrow>
            if list_ex (\<lambda>a. jget ''role'' a = Some (JStr ''postgres'')) (items_at ''artifacts'' m) then Inr None
            else Inr (Some ''missing required postgres artifact''))"

datatype mac_state = Mac_ok | Mac_mismatch | Mac_no_key

datatype check_state = Check_ok | Check_mismatch | Check_missing | Check_unknown

record artifact_check =
  ac_artifact :: string
  ac_hash :: check_state
  ac_size :: check_state
  ac_decrypt :: "bool option" \<comment> \<open>\<open>Some True\<close>: it decrypts\<close>

record verify_result =
  vf_ok :: bool
  vf_detail :: "string option" \<comment> \<open>\<open>None\<close>: the shape is ok\<close>
  vf_mac :: mac_state
  vf_checks :: "artifact_check list"

definition iterate_artifacts :: "json \<Rightarrow> string + json list" where
  \<comment> \<open>\<open>for (const a of manifest.artifacts)\<close> throws on what is not iterable; a character of a string has no name\<close>
  "iterate_artifacts m =
     (case jget ''artifacts'' m of
        Some (JArr xs) \<Rightarrow> Inr xs
      | Some (JStr []) \<Rightarrow> Inr []
      | _ \<Rightarrow> Inl throws_null)"

definition mac_computable :: "json \<Rightarrow> bool" where
  \<comment> \<open>the canonical body exists: an array without nulls whose names can be compared\<close>
  "mac_computable m \<longleftrightarrow>
     is_arr (jget ''artifacts'' m) \<and> JNull \<notin> set (items_at ''artifacts'' m) \<and>
     (length (items_at ''artifacts'' m) \<le> 1 \<or> list_all (\<lambda>a. is_str (jget ''name'' a)) (items_at ''artifacts'' m))"

definition check_artifact :: "backup_io \<Rightarrow> string \<Rightarrow> bytes option \<Rightarrow> files \<Rightarrow> json \<Rightarrow> string + artifact_check" where
  \<comment> \<open>\<open>join\<close> throws on a name that is not a string; a hash that is not a string throws inside the \<open>try\<close>\<close>
  "check_artifact io dir key fs a =
     (if \<not> is_str (jget ''name'' a) then Inl throws_null
      else let name = text_at ''name'' a; p = path_join dir name
      in case fs p of
           None \<Rightarrow> Inr \<lparr>ac_artifact = name, ac_hash = Check_missing, ac_size = Check_unknown, ac_decrypt = None\<rparr>
         | Some b \<Rightarrow>
             if \<not> is_str (jget ''sha256'' a)
             then Inr \<lparr>ac_artifact = name, ac_hash = Check_missing, ac_size = Check_unknown, ac_decrypt = None\<rparr>
             else let hash = (if hashes_equal (bl_sha256 (bi_lib io) b) (text_at ''sha256'' a) then Check_ok else Check_mismatch);
                      size_state = (if jget ''bytes'' a = Some (JNum (int (length b))) then Check_ok else Check_mismatch)
                  in Inr \<lparr>ac_artifact = name, ac_hash = hash, ac_size = size_state,
                          ac_decrypt = (case key of
                             None \<Rightarrow> None
                           | Some k \<Rightarrow> if hash = Check_ok
                                       then Some (case assert_decryptable (bi_crypto io) k p fs of Inl e \<Rightarrow> False | Inr u \<Rightarrow> True)
                                       else None)\<rparr>)"

definition check_good :: "artifact_check \<Rightarrow> bool" where
  "check_good ch \<longleftrightarrow> ac_hash ch = Check_ok \<and> ac_size ch = Check_ok \<and> ac_decrypt ch \<noteq> Some False"

fun check_artifacts :: "backup_io \<Rightarrow> string \<Rightarrow> bytes option \<Rightarrow> files \<Rightarrow> json list \<Rightarrow> string + artifact_check list" where
  "check_artifacts io dir key fs [] = Inr []"
| "check_artifacts io dir key fs (a # as) =
     (case check_artifact io dir key fs a of
        Inl e \<Rightarrow> Inl e
      | Inr ch \<Rightarrow> (case check_artifacts io dir key fs as of Inl e \<Rightarrow> Inl e | Inr chs \<Rightarrow> Inr (ch # chs)))"

definition verify_backup :: "backup_io \<Rightarrow> string \<Rightarrow> string \<Rightarrow> bytes option \<Rightarrow> files \<Rightarrow> string + verify_result" where
  "verify_backup io dir stamp key fs =
     (case read_manifest io dir stamp fs of
        Inl e \<Rightarrow> Inl e
      | Inr m \<Rightarrow>
          (case validate_manifest_shape m of
             Inl e \<Rightarrow> Inl e
           | Inr detail \<Rightarrow>
               if key \<noteq> None \<and> \<not> mac_computable m then Inl throws_null
               else let mac = (case key of
                          None \<Rightarrow> Mac_no_key
                        | Some k \<Rightarrow> if mac_matches (manifest_mac (bi_lib io) m k) (text_at ''mac'' m) then Mac_ok else Mac_mismatch)
                    in case iterate_artifacts m of
                         Inl e \<Rightarrow> Inl e
                       | Inr as \<Rightarrow>
                           (case check_artifacts io dir key fs as of
                              Inl e \<Rightarrow> Inl e
                            | Inr checks \<Rightarrow>
                                Inr \<lparr>vf_ok = (detail = None \<and> mac \<noteq> Mac_mismatch \<and> list_all check_good checks),
                                     vf_detail = detail, vf_mac = mac, vf_checks = checks\<rparr>)))"

subsection \<open>The commands\<close>

definition candidates :: "string \<Rightarrow> (string \<times> string) list" where
  "candidates stamp = [(''nova-db-'' @ stamp @ ''.dump'', ''postgres''), (''nova-media-'' @ stamp @ ''.tar.gz'', ''media'')]"

record seal_args =
  sl_work :: "string option"
  sl_out :: "string option"
  sl_stamp :: "string option"
  sl_dir :: "string option"
  sl_created :: string \<comment> \<open>the argument or the clock\<close>

fun seal_candidates ::
  "crypto \<Rightarrow> (string \<Rightarrow> bytes) \<Rightarrow> bytes option \<Rightarrow> string \<Rightarrow> string \<Rightarrow> bytes \<Rightarrow> (string \<times> string) list \<Rightarrow> (string \<times> string) list \<Rightarrow> files \<Rightarrow>
     (string + (string \<times> string) list) \<times> files" where
  \<comment> \<open>the nonces are a function of the artifact; a failing \<open>unlink\<close> is ignored and not modelled\<close>
  "seal_candidates c ivs partial work out key [] sealed fs = (Inr sealed, fs)"
| "seal_candidates c ivs partial work out key ((plain, role) # cs) sealed fs =
     (case fs (path_join work plain) of
        None \<Rightarrow> seal_candidates c ivs partial work out key cs sealed fs
      | Some b \<Rightarrow>
          (case encrypt_file c (ivs plain) key partial (path_join work plain) (path_join out (plain @ ''.enc'')) fs of
             (Inl e, fs1) \<Rightarrow> (Inl e, fs1)
           | (Inr u, fs1) \<Rightarrow>
               seal_candidates c ivs partial work out key cs (sealed @ [(plain @ ''.enc'', role)]) (fs1(path_join work plain := None))))"

definition seal_main ::
  "backup_io \<Rightarrow> (string \<Rightarrow> string option) \<Rightarrow> (string \<Rightarrow> bytes) \<Rightarrow> bytes option \<Rightarrow> seal_args \<Rightarrow> string option \<Rightarrow> files \<Rightarrow> (string + json) \<times> files" where
  \<comment> \<open>\<open>realpath\<close> is a parameter; an error makes the command exit with 1\<close>
  "seal_main io realpath ivs partial args key_text fs =
     (if sl_dir args \<noteq> None then (Inl ''backup:seal no longer accepts --dir'', fs)
      else if \<not> truthy (sl_work args) \<or> \<not> truthy (sl_out args) \<or> \<not> truthy (sl_stamp args)
      then (Inl ''usage: backup:seal -- --work=<dir> --out=<dir> --stamp=<stamp>'', fs)
      else let work = the (sl_work args); out = the (sl_out args); stamp = the (sl_stamp args)
      in case realpath work of
           None \<Rightarrow> (Inl ''--work dir does not exist'', fs)
         | Some work_real \<Rightarrow>
             (case realpath out of
                None \<Rightarrow> (Inl enoent, fs)
              | Some out_real \<Rightarrow>
                  if work_real = out_real then (Inl ''backup:seal refuses --work === --out'', fs)
                  else (case parse_backup_key (bi_crypto io) key_text of
                          Inl e \<Rightarrow> (Inl e, fs)
                        | Inr key \<Rightarrow>
                            (case seal_candidates (bi_crypto io) ivs partial work out key (candidates stamp) [] fs of
                               (Inl e, fs1) \<Rightarrow> (Inl e, fs1)
                             | (Inr sealed, fs1) \<Rightarrow>
                                 if sealed = [] then (Inl ''no backup artifacts found'', fs1)
                                 else (case build_manifest (bi_lib io) out stamp (sl_created args) sealed key fs1 of
                                         Inl e \<Rightarrow> (Inl e, fs1)
                                       | Inr manifest \<Rightarrow> (Inr manifest, write_manifest io out manifest fs1))))))"

definition verify_main :: "backup_io \<Rightarrow> string option \<Rightarrow> string option \<Rightarrow> string option \<Rightarrow> files \<Rightarrow> nat" where
  \<comment> \<open>the exit code of \<open>run-verify.ts\<close>: directory, stamp and the text of the key\<close>
  "verify_main io dir stamp key_text fs =
     (if \<not> truthy dir \<or> \<not> truthy stamp then 1
      else let run = (\<lambda>key. case verify_backup io (the dir) (the stamp) key fs of Inl e \<Rightarrow> 1 | Inr r \<Rightarrow> if vf_ok r then 0 else 1)
      in if truthy key_text
         then (case parse_backup_key (bi_crypto io) key_text of Inl e \<Rightarrow> 1 | Inr k \<Rightarrow> run (Some k))
         else run None)"

definition unseal_main ::
  "crypto \<Rightarrow> (string \<Rightarrow> string option) \<Rightarrow> bytes option \<Rightarrow> string option \<Rightarrow> string option \<Rightarrow> string option \<Rightarrow> files \<Rightarrow> nat \<times> files" where
  "unseal_main c realpath partial inp out key_text fs =
     (if \<not> truthy inp \<or> \<not> truthy out then (1, fs)
      else case parse_backup_key c key_text of
             Inl e \<Rightarrow> (1, fs)
           | Inr key \<Rightarrow>
               (case realpath (the inp) of
                  None \<Rightarrow> (1, fs)
                | Some real_in \<Rightarrow>
                    (case decrypt_file c key partial real_in (the out) fs of
                       (Inl e, fs1) \<Rightarrow> (2, fs1)
                     | (Inr u, fs1) \<Rightarrow> (0, fs1))))"

subsection \<open>A verified backup is intact\<close>

lemma check_artifacts_good:
  assumes "check_artifacts io dir (Some key) fs as = Inr checks" "list_all check_good checks"
  shows "list_all (\<lambda>a. \<exists>b plain. fs (path_join dir (text_at ''name'' a)) = Some b \<and> jget ''bytes'' a = Some (JNum (int (length b))) \<and>
    hashes_equal (bl_sha256 (bi_lib io) b) (text_at ''sha256'' a) \<and> open_sealed (bi_crypto io) key b = Inr plain) as"
  using assms
proof (induction as arbitrary: checks)
  case (Cons a as)
  obtain ch chs where ch: "check_artifact io dir (Some key) fs a = Inr ch" "check_artifacts io dir (Some key) fs as = Inr chs"
    "checks = ch # chs" using Cons.prems(1) by (auto split: sum.splits)
  have "check_good ch" using Cons.prems(2) ch(3) by simp
  then have "\<exists>b plain. fs (path_join dir (text_at ''name'' a)) = Some b \<and> jget ''bytes'' a = Some (JNum (int (length b))) \<and>
    hashes_equal (bl_sha256 (bi_lib io) b) (text_at ''sha256'' a) \<and> open_sealed (bi_crypto io) key b = Inr plain"
    using ch(1) by (auto simp: check_artifact_def check_good_def assert_decryptable_def Let_def split: if_splits option.splits sum.splits)
  then show ?case using Cons ch by simp
qed simp

text \<open>C24. A backup that verifies with the key can be restored. Its manifest is authentic and names a database dump,
  and every artifact it lists is on disk with the recorded size and digest and opens under the key.\<close>

theorem verified_backup_is_intact:
  "(case verify_backup io dir stamp (Some key) fs of
      Inl e \<Rightarrow> True
    | Inr r \<Rightarrow>
        (if vf_ok r
         then (\<exists>m. read_manifest io dir stamp fs = Inr m \<and> mac_matches (manifest_mac (bi_lib io) m key) (text_at ''mac'' m) \<and>
                list_ex (\<lambda>a. jget ''role'' a = Some (JStr ''postgres'')) (items_at ''artifacts'' m) \<and>
                list_all (\<lambda>a. \<exists>b plain. fs (path_join dir (text_at ''name'' a)) = Some b \<and>
                    jget ''bytes'' a = Some (JNum (int (length b))) \<and>
                    hashes_equal (bl_sha256 (bi_lib io) b) (text_at ''sha256'' a) \<and>
                    open_sealed (bi_crypto io) key b = Inr plain) (items_at ''artifacts'' m))
         else True))"
proof (cases "verify_backup io dir stamp (Some key) fs")
  case (Inr r)
  show ?thesis
  proof (cases "vf_ok r")
    case True
    obtain m where m: "read_manifest io dir stamp fs = Inr m" using Inr by (auto simp: verify_backup_def split: sum.splits)
    obtain detail where d: "validate_manifest_shape m = Inr detail" using Inr m by (auto simp: verify_backup_def split: sum.splits)
    obtain as checks where as: "iterate_artifacts m = Inr as" "check_artifacts io dir (Some key) fs as = Inr checks"
      using Inr m d by (auto simp: verify_backup_def Let_def split: sum.splits if_splits)
    have ok: "detail = None" "mac_matches (manifest_mac (bi_lib io) m key) (text_at ''mac'' m)" "list_all check_good checks"
      using Inr m d as True by (auto simp: verify_backup_def Let_def split: if_splits)
    have shape: "is_arr (jget ''artifacts'' m)" "list_ex (\<lambda>a. jget ''role'' a = Some (JStr ''postgres'')) (items_at ''artifacts'' m)"
      using d ok(1) by (auto simp: validate_manifest_shape_def split: if_splits sum.splits option.splits)
    then have "items_at ''artifacts'' m = as"
      using as(1) by (auto simp: iterate_artifacts_def items_at_def is_arr_def split: option.splits json.splits)
    then show ?thesis using Inr True m ok(2) shape(2) check_artifacts_good [OF as(2) ok(3)] by auto
  qed (use Inr in simp)
qed simp

subsection \<open>What was sealed verifies and opens\<close>

definition gcm_opens :: "crypto \<Rightarrow> bool" where
  \<comment> \<open>GCM keeps the length of the plaintext, its tag has 16 bytes, and it opens what it sealed\<close>
  "gcm_opens c \<longleftrightarrow> (\<forall>key iv plain. length key = key_len \<longrightarrow>
     (case gcm_seal c key iv plain of (data, tag) \<Rightarrow>
        length data = length plain \<and> length tag = tag_len \<and> gcm_open c key iv tag data = Some plain))"

lemma open_encrypted:
  assumes "encrypt_file c iv key partial inp out fs = (Inr (), fs')" "fs inp = Some plain" "plain \<noteq> []" "length iv = iv_len" "gcm_opens c"
  obtains box where "fs' = fs(out \<mapsto> box)" "open_sealed c key box = Inr plain"
proof -
  obtain data tag where s: "gcm_seal c key iv plain = (data, tag)" by (cases "gcm_seal c key iv plain")
  have k: "length key = key_len" using assms(1) by (auto simp: encrypt_file_def split: if_splits)
  have g: "length data = length plain" "length tag = tag_len" "gcm_open c key iv tag data = Some plain"
    using assms(5) [unfolded gcm_opens_def, rule_format, OF k, of plain iv] s by simp_all
  have "length data > 0" using g(1) assms(3) by simp
  then have "open_sealed c key (iv @ data @ tag) = Inr plain"
    using g k assms(4) by (simp add: open_sealed_def sealed_range_error_def Let_def iv_len_def tag_len_def)
  moreover have "fs' = fs(out \<mapsto> iv @ data @ tag)" using assms(1,2) k s by (simp add: encrypt_file_def)
  ultimately show thesis using that by blast
qed

lemma read_artifacts_files:
  "read_artifacts lib dir arts fs = Inr es \<Longrightarrow>
     map (\<lambda>e. (ma_name e, ma_role e)) es = arts \<and>
     list_all (\<lambda>e. \<exists>b. fs (path_join dir (ma_name e)) = Some b \<and> ma_bytes e = length b \<and> ma_sha256 e = bl_sha256 lib b) es"
proof (induction arts arbitrary: es)
  case (Cons a as)
  then show ?case by (cases a) (auto split: option.splits sum.splits)
qed simp

lemma canonical_manifest_no_mac: "canonical_manifest lib (JObj (fs @ [(''mac'', v)])) = canonical_manifest lib (JObj fs)"
proof -
  have "pick k (JObj (fs @ [(''mac'', v)])) = pick k (JObj fs)" if "k \<noteq> ''mac''" for k
    unfolding pick_def using that by (simp only: jget_add_mac not_False_eq_True)
  moreover have "items_at ''artifacts'' (JObj (fs @ [(''mac'', v)])) = items_at ''artifacts'' (JObj fs)"
    unfolding items_at_def by (subst jget_add_mac) simp_all
  ultimately show ?thesis unfolding canonical_manifest_def by simp
qed

lemma manifest_fields:
  fixes lib :: backup_lib and stamp created :: string and key :: bytes and es :: "manifest_artifact list"
  defines "m \<equiv> sign_manifest lib key (manifest_body stamp created es)"
  shows "jget ''format_version'' m = Some (JNum 1)" "jget ''created_at'' m = Some (JStr created)" "jget ''stamp'' m = Some (JStr stamp)"
    "jget ''encryption'' m = Some (JStr ''aes-256-gcm'')" "jget ''artifacts'' m = Some (JArr (map artifact_json es))"
    "jget ''mac'' m = Some (JStr (manifest_mac lib m key))" "m \<noteq> JNull"
proof -
  have mac: "manifest_mac lib m key = manifest_mac lib (JObj (manifest_body stamp created es)) key"
    by (simp only: m_def sign_manifest_def manifest_mac_def canonical_manifest_no_mac)
  show "jget ''mac'' m = Some (JStr (manifest_mac lib m key))"
    unfolding mac by (simp add: m_def sign_manifest_def manifest_body_def)
qed (simp_all add: m_def sign_manifest_def manifest_body_def)

lemma artifact_fields [simp]:
  "jget ''name'' (artifact_json a) = Some (JStr (ma_name a))" "jget ''role'' (artifact_json a) = Some (JStr (ma_role a))"
  "jget ''sha256'' (artifact_json a) = Some (JStr (ma_sha256 a))" "jget ''bytes'' (artifact_json a) = Some (JNum (int (ma_bytes a)))"
  "artifact_json a \<noteq> JNull" "JNull \<noteq> artifact_json a"
  by (simp_all add: artifact_json_def)

lemma artifact_errors_none:
  "list_all (\<lambda>a. ma_role a \<in> set roles \<and> hex64 (ma_sha256 a)) es \<Longrightarrow> artifact_errors roles (map artifact_json es) = Inr None"
  by (induction es) (auto simp: has_role_def inventory_readers)

lemma check_artifacts_intact:
  assumes "list_all (\<lambda>e. \<exists>b plain. fs (path_join dir (ma_name e)) = Some b \<and> ma_bytes e = length b \<and>
    ma_sha256 e = bl_sha256 (bi_lib io) b \<and> open_sealed (bi_crypto io) key b = Inr plain) es"
  shows "\<exists>checks. check_artifacts io dir (Some key) fs (map artifact_json es) = Inr checks \<and> list_all check_good checks"
  using assms
proof (induction es)
  case (Cons e es)
  then obtain checks where checks: "check_artifacts io dir (Some key) fs (map artifact_json es) = Inr checks" "list_all check_good checks"
    by auto
  have "\<exists>ch. check_artifact io dir (Some key) fs (artifact_json e) = Inr ch \<and> check_good ch"
    using Cons.prems by (auto simp: check_artifact_def check_good_def assert_decryptable_def Let_def inventory_readers hashes_equal_def)
  then show ?case using checks by auto
qed simp

lemma built_manifest_verifies:
  assumes built: "build_manifest (bi_lib io) dir stamp created arts key fs = Inr m"
    and lib: "lib_ok (bi_lib io)" "\<forall>j. bi_parse io (bl_encode (bi_lib io) j) = Some j"
    and roles: "list_all (\<lambda>(n, r). r \<in> set manifest_roles) arts" "list_ex (\<lambda>(n, r). r = ''postgres'') arts"
    and opens: "list_all (\<lambda>(n, r). case fs (path_join dir n) of None \<Rightarrow> True | Some b \<Rightarrow> (\<exists>plain. open_sealed (bi_crypto io) key b = Inr plain)) arts"
    and elsewhere: "list_all (\<lambda>(n, r). path_join dir n \<noteq> manifest_path dir stamp) arts"
  shows "\<exists>r. verify_backup io dir stamp (Some key) (write_manifest io dir m fs) = Inr r \<and> vf_ok r"
proof -
  let ?fs = "write_manifest io dir m fs"
  obtain es where es: "read_artifacts (bi_lib io) dir arts fs = Inr es" "m = sign_manifest (bi_lib io) key (manifest_body stamp created es)"
    using built by (auto simp: build_manifest_def split: sum.splits)
  note files = read_artifacts_files [OF es(1)] and fields = manifest_fields [of "bi_lib io" key stamp created es, folded es(2)]
  have arts: "arts = map (\<lambda>e. (ma_name e, ma_role e)) es" using files by simp
  have fs: "?fs = fs(manifest_path dir stamp \<mapsto> bl_encode (bi_lib io) m)"
    using fields(3) by (simp add: write_manifest_def text_at_def)
  have read: "read_manifest io dir stamp ?fs = Inr m" using lib(2) by (simp add: read_manifest_def fs)
  have entries: "list_all (\<lambda>e. ma_role e \<in> set manifest_roles \<and> hex64 (ma_sha256 e)) es"
    using files roles(1) lib(1) unfolding arts by (auto simp: list_all_iff lib_ok_def)
  have pg: "list_ex (\<lambda>e. ma_role e = ''postgres'') es" using roles(2) unfolding arts by (simp add: list_ex_iff)
  have shape: "validate_manifest_shape m = Inr None"
    using pg lib(1) artifact_errors_none [OF entries]
    by (auto simp: validate_manifest_shape_def fields inventory_readers lib_ok_def manifest_mac_def list_ex_iff)
  obtain checks where checks: "check_artifacts io dir (Some key) ?fs (map artifact_json es) = Inr checks" "list_all check_good checks"
  proof -
    have "list_all (\<lambda>e. \<exists>b plain. ?fs (path_join dir (ma_name e)) = Some b \<and> ma_bytes e = length b \<and>
        ma_sha256 e = bl_sha256 (bi_lib io) b \<and> open_sealed (bi_crypto io) key b = Inr plain) es"
      unfolding list_all_iff
    proof (rule ballI)
      fix e
      assume e: "e \<in> set es"
      then obtain b where b: "fs (path_join dir (ma_name e)) = Some b" "ma_bytes e = length b" "ma_sha256 e = bl_sha256 (bi_lib io) b"
        using files by (auto simp: list_all_iff)
      have "path_join dir (ma_name e) \<noteq> manifest_path dir stamp" "\<exists>plain. open_sealed (bi_crypto io) key b = Inr plain"
        using elsewhere opens e b(1) unfolding arts by (auto simp: list_all_iff)
      then show "\<exists>b plain. ?fs (path_join dir (ma_name e)) = Some b \<and> ma_bytes e = length b \<and>
        ma_sha256 e = bl_sha256 (bi_lib io) b \<and> open_sealed (bi_crypto io) key b = Inr plain"
        using b by (auto simp: fs)
    qed
    from check_artifacts_intact [OF this] show thesis using that by blast
  qed
  have mac: "mac_computable m" "iterate_artifacts m = Inr (map artifact_json es)"
    by (auto simp: mac_computable_def iterate_artifacts_def fields inventory_readers list_all_iff image_iff)
  show ?thesis
    using read shape mac checks fields(6) by (simp add: verify_backup_def text_at_def)
qed

lemma read_artifacts_ok:
  "list_all (\<lambda>(n, r). fs (path_join dir n) \<noteq> None) arts \<Longrightarrow> \<exists>es. read_artifacts lib dir arts fs = Inr es"
proof (induction arts)
  case (Cons a as)
  then show ?case by (cases a) auto
qed simp

text \<open>An empty artifact is sealed to 28 bytes that nothing opens: the stream of its ciphertext would start after its end.\<close>

lemma empty_artifact_unopenable:
  assumes "encrypt_file c iv key partial inp out fs = (Inr (), fs')" "fs inp = Some []" "length iv = iv_len" "gcm_opens c"
  shows "\<exists>box e. fs' out = Some box \<and> open_sealed c key box = Inl e"
proof -
  obtain data tag where s: "gcm_seal c key iv [] = (data, tag)" by (cases "gcm_seal c key iv []")
  have k: "length key = key_len" using assms(1) by (auto simp: encrypt_file_def split: if_splits)
  have "data = []" "length tag = tag_len" using assms(4) [unfolded gcm_opens_def, rule_format, OF k, of "[]" iv] s by simp_all
  then have "open_sealed c key (iv @ data @ tag) = Inl ''The value of \"start\" is out of range''"
    using k assms(3) by (simp add: open_sealed_def sealed_range_error_def Let_def iv_len_def tag_len_def)
  moreover have "fs' out = Some (iv @ data @ tag)" using assms(1,2) k s by (auto simp: encrypt_file_def)
  ultimately show ?thesis by blast
qed

definition seal_paths :: "string \<Rightarrow> string \<Rightarrow> string \<Rightarrow> string list" where
  \<comment> \<open>the two plaintexts, the two sealed artifacts and the manifest\<close>
  "seal_paths work out stamp =
     map (\<lambda>(p, r). path_join work p) (candidates stamp) @ map (\<lambda>(p, r). path_join out (p @ ''.enc'')) (candidates stamp) @
     [manifest_path out stamp]"

definition seal_ready :: "backup_io \<Rightarrow> (string \<Rightarrow> string option) \<Rightarrow> (string \<Rightarrow> bytes) \<Rightarrow> string \<Rightarrow> string \<Rightarrow> string \<Rightarrow> files \<Rightarrow> bool" where
  \<comment> \<open>what a run of the command finds: work and output directory are two directories, the dump is there, no artifact is empty\<close>
  "seal_ready io realpath ivs work out stamp fs \<longleftrightarrow>
     work \<noteq> [] \<and> out \<noteq> [] \<and> stamp \<noteq> [] \<and> realpath work \<noteq> None \<and> realpath out \<noteq> None \<and> realpath work \<noteq> realpath out \<and>
     distinct (seal_paths work out stamp) \<and> (\<forall>p. length (ivs p) = iv_len) \<and>
     fs (path_join work (''nova-db-'' @ stamp @ ''.dump'')) \<notin> {None, Some []} \<and>
     fs (path_join work (''nova-media-'' @ stamp @ ''.tar.gz'')) \<noteq> Some [] \<and>
     lib_ok (bi_lib io) \<and> gcm_opens (bi_crypto io) \<and> (\<forall>j. bi_parse io (bl_encode (bi_lib io) j) = Some j)"

definition sealed_from :: "crypto \<Rightarrow> bytes \<Rightarrow> string \<Rightarrow> string \<Rightarrow> files \<Rightarrow> files \<Rightarrow> string \<times> string \<Rightarrow> bool" where
  \<comment> \<open>what became of one candidate between two states of the files\<close>
  "sealed_from c key work out fs fs' = (\<lambda>(p, r).
     fs' (path_join work p) = None \<and>
     (case fs (path_join work p) of
        None \<Rightarrow> True
      | Some plain \<Rightarrow> \<exists>box. fs' (path_join out (p @ ''.enc'')) = Some box \<and> open_sealed c key box = Inr plain))"

lemma seal_candidates_ok:
  assumes "length key = key_len" "gcm_opens c" "\<forall>p. length (ivs p) = iv_len"
    "list_all (\<lambda>(p, r). fs (path_join work p) \<noteq> Some []) cs"
    "distinct (map (\<lambda>(p, r). path_join work p) cs @ map (\<lambda>(p, r). path_join out (p @ ''.enc'')) cs)"
  shows "\<exists>fs'. seal_candidates c ivs partial work out key cs sealed fs =
      (Inr (sealed @ map (\<lambda>(p, r). (p @ ''.enc'', r)) (filter (\<lambda>(p, r). fs (path_join work p) \<noteq> None) cs)), fs') \<and>
    list_all (sealed_from c key work out fs fs') cs \<and>
    (\<forall>l. l \<notin> set (map (\<lambda>(p, r). path_join work p) cs @ map (\<lambda>(p, r). path_join out (p @ ''.enc'')) cs) \<longrightarrow> fs' l = fs l)"
  using assms(4,5)
proof (induction cs arbitrary: sealed fs)
  case (Cons pr cs)
  obtain p r where pr: "pr = (p, r)" by (cases pr)
  let ?w = "path_join work p" and ?o = "path_join out (p @ ''.enc'')"
  show ?case
  proof (cases "fs ?w")
    case None
    obtain fs' where fs': "seal_candidates c ivs partial work out key cs sealed fs =
      (Inr (sealed @ map (\<lambda>(p, r). (p @ ''.enc'', r)) (filter (\<lambda>(p, r). fs (path_join work p) \<noteq> None) cs)), fs')"
      "list_all (sealed_from c key work out fs fs') cs"
      "\<forall>l. l \<notin> set (map (\<lambda>(p, r). path_join work p) cs @ map (\<lambda>(p, r). path_join out (p @ ''.enc'')) cs) \<longrightarrow> fs' l = fs l"
      using Cons.IH [of fs sealed] Cons.prems pr by auto
    then have "fs' ?w = None" using Cons.prems(2) None pr by auto
    then show ?thesis using fs' None pr by (auto simp: sealed_from_def)
  next
    case (Some b)
    then have "b \<noteq> []" using Cons.prems(1) pr by auto
    obtain fs1 where e: "encrypt_file c (ivs p) key partial ?w ?o fs = (Inr (), fs1)"
      using Some assms(1) by (cases "gcm_seal c key (ivs p) b") (auto simp: encrypt_file_def)
    from open_encrypted [OF e Some \<open>b \<noteq> []\<close> _ assms(2)] assms(3)
    obtain box where box: "fs1 = fs(?o \<mapsto> box)" "open_sealed c key box = Inr b" by auto
    let ?fs2 = "fs1(?w := None)" and ?sealed = "sealed @ [(p @ ''.enc'', r)]"
    have same: "?fs2 (path_join work q) = fs (path_join work q)" if "(q, x) \<in> set cs" for q x
    proof -
      have "path_join work q \<in> set (map (\<lambda>(p, r). path_join work p) cs)"
        unfolding set_map by (rule image_eqI [OF _ that]) simp
      then show ?thesis using Cons.prems(2) by (auto simp: box(1) pr)
    qed
    have flt: "filter (\<lambda>(p, r). ?fs2 (path_join work p) \<noteq> None) cs = filter (\<lambda>(p, r). fs (path_join work p) \<noteq> None) cs"
      by (rule filter_cong [OF refl]) (use same in auto)
    have "list_all (\<lambda>(p, r). ?fs2 (path_join work p) \<noteq> Some []) cs"
      using Cons.prems(1) same by (auto simp: list_all_iff)
    moreover have "distinct (map (\<lambda>(p, r). path_join work p) cs @ map (\<lambda>(p, r). path_join out (p @ ''.enc'')) cs)"
      using Cons.prems(2) by (auto simp: pr)
    ultimately obtain fs' where fs': "seal_candidates c ivs partial work out key cs ?sealed ?fs2 =
      (Inr (?sealed @ map (\<lambda>(p, r). (p @ ''.enc'', r)) (filter (\<lambda>(p, r). fs (path_join work p) \<noteq> None) cs)), fs')"
      "list_all (sealed_from c key work out ?fs2 fs') cs"
      "\<forall>l. l \<notin> set (map (\<lambda>(p, r). path_join work p) cs @ map (\<lambda>(p, r). path_join out (p @ ''.enc'')) cs) \<longrightarrow> fs' l = ?fs2 l"
      using Cons.IH [of ?fs2 ?sealed] unfolding flt by blast
    have "list_all (sealed_from c key work out fs fs') cs"
      using fs'(2) same by (auto simp: list_all_iff sealed_from_def)
    moreover have "fs' ?w = None" "fs' ?o = Some box"
      using fs'(3) Cons.prems(2) pr by (auto simp: box(1))
    ultimately show ?thesis using fs'(1,3) Some e box pr by (auto simp: sealed_from_def)
  qed
qed simp


end
