(* ===== verification/Backup_Remote.thy ===== *)
theory Backup_Remote
  imports Backup_Manifest
begin

text \<open>
  Remote copies of sealed backups, \<open>services/api/src/backup/sealed-backup-s3.ts\<close>: a sealed set is published to an
  object store with an authenticated marker as its commit, verified there, and fetched into a directory. The
  local files are those of \<open>Backup_Manifest\<close>, the store is any store of \<open>Object_Store\<close>.
\<close>

subsection \<open>Markers\<close>

definition remote_marker_name :: string where
  "remote_marker_name = ''remote-marker.json''"

definition stamp_char :: "char \<Rightarrow> bool" where
  "stamp_char c \<longleftrightarrow> digit c \<or> upper_az c \<or> lower_az c \<or> c \<in> {CHR ''.'', CHR ''_'', CHR ''-''}"

definition safe_stamp :: "string \<Rightarrow> bool" where
  "safe_stamp stamp \<longleftrightarrow>
     stamp \<noteq> [] \<and> test_re (cats [Bol, plus_re (CC stamp_char), Eol]) stamp \<and> stamp \<noteq> ''.'' \<and> stamp \<noteq> ''..''"

definition stamp_error :: string where
  "stamp_error = ''unsafe backup stamp (must match [0-9A-Za-z._-], no path separators)''"

definition remote_prefix_for :: "string \<Rightarrow> string" where
  \<comment> \<open>of a safe stamp\<close>
  "remote_prefix_for stamp = ''sealed-backups/'' @ stamp @ ''/''"

definition canonical_marker :: "backup_lib \<Rightarrow> json \<Rightarrow> json" where
  "canonical_marker lib body =
     JObj ([(''artifacts'', JArr (sort_key (\<lambda>a. bl_collate lib (text_at ''name'' a))
              (map (\<lambda>a. JObj (pick ''bytes'' a @ pick ''name'' a @ pick ''role'' a @ pick ''sha256'' a)) (items_at ''artifacts'' body))))] @
           concat (map (\<lambda>k. pick k body) [''completeness'', ''created_at'', ''destination_role'', ''expected_artifact_count'', ''format_version'',
             ''kind'', ''media_inventory_sha256'', ''sealed_manifest_sha256'', ''source_role'', ''stamp'']))"

definition marker_mac :: "backup_lib \<Rightarrow> json \<Rightarrow> bytes \<Rightarrow> string" where
  "marker_mac lib body key = bl_hmac lib key (canonical_marker lib body)"

definition manifest_name :: "string \<Rightarrow> string" where
  "manifest_name stamp = ''manifest-'' @ stamp @ ''.json''"

definition media_inventory_name :: "string \<Rightarrow> string" where
  "media_inventory_name stamp = ''media-inventory-'' @ stamp @ ''.json''"

definition local_artifacts :: "backup_lib \<Rightarrow> string \<Rightarrow> string \<Rightarrow> json \<Rightarrow> files \<Rightarrow> string + manifest_artifact list \<times> bool" where
  \<comment> \<open>the artifacts of the manifest, the manifest, and the media inventory when there is one\<close>
  "local_artifacts lib dir stamp manifest fs =
     (case read_artifacts lib dir (map (\<lambda>a. (text_at ''name'' a, text_at ''role'' a)) (items_at ''artifacts'' manifest)) fs of
        Inl e \<Rightarrow> Inl e
      | Inr es \<Rightarrow>
          (case read_artifacts lib dir [(manifest_name stamp, ''manifest'')] fs of
             Inl e \<Rightarrow> Inl e
           | Inr ms \<Rightarrow>
               (case read_artifacts lib dir [(media_inventory_name stamp, ''media-inventory'')] fs of
                  Inl e \<Rightarrow> Inr (es @ ms, False)
                | Inr is \<Rightarrow> Inr (es @ ms @ is, True))))"

definition sha_of_role :: "string \<Rightarrow> manifest_artifact list \<Rightarrow> string option" where
  "sha_of_role r es = map_option ma_sha256 (find (\<lambda>e. ma_role e = r) es)"

definition marker_body :: "string \<Rightarrow> string \<Rightarrow> manifest_artifact list \<Rightarrow> bool \<Rightarrow> (string \<times> json) list" where
  "marker_body stamp created es inventory =
     [(''format_version'', JNum 1), (''kind'', JStr ''sealed-backup-remote-marker''), (''stamp'', JStr stamp), (''created_at'', JStr created),
      (''artifacts'', JArr (map artifact_json es)), (''sealed_manifest_sha256'', JStr (the (sha_of_role ''manifest'' es))),
      (''media_inventory_sha256'', if inventory then JStr (the (sha_of_role ''media-inventory'' es)) else JNull),
      (''expected_artifact_count'', JNum (int (length es))), (''completeness'', JStr ''complete''),
      (''source_role'', JStr ''local-sealed-backup-dir''), (''destination_role'', JStr ''remote-sealed-backup-store'')]"

definition sign_marker :: "backup_lib \<Rightarrow> bytes \<Rightarrow> (string \<times> json) list \<Rightarrow> json" where
  "sign_marker lib key body = JObj (body @ [(''mac'', JStr (marker_mac lib (JObj body) key))])"

subsection \<open>Publishing\<close>

record publish_result =
  pr_marker :: json
  pr_applied :: bool
  pr_uploaded :: "string list"
  pr_expected :: nat
  pr_verified :: nat

fun upload_artifacts ::
  "backup_lib \<Rightarrow> 's store_ops \<Rightarrow> string \<Rightarrow> string \<Rightarrow> files \<Rightarrow> manifest_artifact list \<Rightarrow> string list \<Rightarrow> nat \<Rightarrow> 's \<Rightarrow> (string + string list \<times> nat) \<times> 's" where
  \<comment> \<open>uploaded names and number of verified copies\<close>
  "upload_artifacts lib ops pre dir fs [] uploaded verified s = (Inr (uploaded, verified), s)"
| "upload_artifacts lib ops pre dir fs (e # es) uploaded verified s =
     (case fs (path_join dir (ma_name e)) of
        None \<Rightarrow> (Inl enoent, s)
      | Some b \<Rightarrow>
          (case st_put ops (pre @ ma_name e) b s of
             Inl err \<Rightarrow> (Inl err, s)
           | Inr s1 \<Rightarrow>
               (case st_get ops (pre @ ma_name e) s1 of
                  Inl err \<Rightarrow> (Inl err, s1)
                | Inr back_read \<Rightarrow>
                    if (case back_read of None \<Rightarrow> True | Some r \<Rightarrow> bl_sha256 lib r \<noteq> ma_sha256 e \<or> length r \<noteq> ma_bytes e)
                    then (Inl ''sealed-backup publish INCOMPLETE'', s1)
                    else upload_artifacts lib ops pre dir fs es (uploaded @ [ma_name e]) (verified + 1) s1)))"

definition local_set :: "backup_io \<Rightarrow> string \<Rightarrow> string \<Rightarrow> files \<Rightarrow> string + manifest_artifact list \<times> bool" where
  "local_set io dir stamp fs =
     (case read_manifest io dir stamp fs of
        Inl e \<Rightarrow> Inl e
      | Inr manifest \<Rightarrow> local_artifacts (bi_lib io) dir stamp manifest fs)"

definition publish_sealed_backup ::
  "backup_io \<Rightarrow> string \<Rightarrow> string \<Rightarrow> 's store_ops \<Rightarrow> bytes \<Rightarrow> string \<Rightarrow> bool \<Rightarrow> files \<Rightarrow> 's \<Rightarrow> (string + publish_result) \<times> 's" where
  "publish_sealed_backup io dir stamp ops key created apply fs s =
     (if \<not> safe_stamp stamp then (Inl stamp_error, s)
      else let pre = remote_prefix_for stamp
      in case verify_backup io dir stamp (Some key) fs of
           Inl e \<Rightarrow> (Inl e, s)
         | Inr v \<Rightarrow>
             if \<not> vf_ok v then (Inl ''refusing to publish: the LOCAL sealed backup failed verification'', s)
             else (case local_set io dir stamp fs of
                     Inl e \<Rightarrow> (Inl e, s)
                   | Inr (es, inventory) \<Rightarrow>
                       let marker = sign_marker (bi_lib io) key (marker_body stamp created es inventory)
                       in if \<not> apply
                          then (Inr \<lparr>pr_marker = marker, pr_applied = False, pr_uploaded = [], pr_expected = length es, pr_verified = 0\<rparr>, s)
                          else (case upload_artifacts (bi_lib io) ops pre dir fs es [] 0 s of
                                  (Inl e, s1) \<Rightarrow> (Inl e, s1)
                                | (Inr (uploaded, verified), s1) \<Rightarrow>
                                    (case st_put ops (pre @ remote_marker_name) (bl_encode (bi_lib io) marker) s1 of
                                       Inl e \<Rightarrow> (Inl e, s1)
                                     | Inr s2 \<Rightarrow>
                                         (Inr \<lparr>pr_marker = marker, pr_applied = True, pr_uploaded = uploaded @ [remote_marker_name],
                                               pr_expected = length es, pr_verified = verified\<rparr>, s2)))))"

subsection \<open>Verifying and fetching\<close>

definition remote_roles :: "string list" where
  "remote_roles = [''postgres'', ''media'', ''manifest'', ''media-inventory'']"

definition validate_marker_shape :: "json \<Rightarrow> string + string option" where
  "validate_marker_shape m =
     (if m = JNull then Inl throws_null
      else if jget ''format_version'' m \<noteq> Some (JNum 1) \<or> jget ''kind'' m \<noteq> Some (JStr ''sealed-backup-remote-marker'') then Inr (Some ''unexpected header'')
      else if \<not> is_str (jget ''stamp'' m) \<or> \<not> is_str (jget ''created_at'' m) then Inr (Some ''bad header'')
      else if jget ''completeness'' m \<noteq> Some (JStr ''complete'') then Inr (Some ''incomplete marker'')
      else if \<not> is_str (jget ''mac'' m) \<or> \<not> hex64 (text_at ''mac'' m) then Inr (Some ''missing/invalid mac'')
      else if \<not> is_arr (jget ''artifacts'' m) \<or> items_at ''artifacts'' m = [] then Inr (Some ''no artifacts'')
      else if jget ''expected_artifact_count'' m \<noteq> Some (JNum (int (length (items_at ''artifacts'' m)))) then Inr (Some ''artifact count mismatch'')
      else
        case artifact_errors remote_roles (items_at ''artifacts'' m) of
          Inl e \<Rightarrow> Inl e
        | Inr (Some e) \<Rightarrow> Inr (Some e)
        | Inr None \<Rightarrow>
            if \<not> list_ex (\<lambda>a. jget ''role'' a = Some (JStr ''postgres'')) (items_at ''artifacts'' m) then Inr (Some ''missing required postgres artifact'')
            else (case find (\<lambda>a. jget ''role'' a = Some (JStr ''manifest'')) (items_at ''artifacts'' m) of
                    None \<Rightarrow> Inr (Some ''missing sealed manifest'')
                  | Some a \<Rightarrow>
                      if jget ''sha256'' a \<noteq> jget ''sealed_manifest_sha256'' m then Inr (Some ''sealed_manifest_sha256 mismatch'') else Inr None))"

datatype marker_shape = Shape_ok | Shape_invalid string | Shape_missing

record verify_remote_result =
  vr_ok :: bool
  vr_shape :: marker_shape
  vr_mac :: mac_state
  vr_expected :: nat
  vr_verified :: nat
  vr_missing :: "string list"
  vr_altered :: "string list"

definition remote_intact :: "backup_lib \<Rightarrow> json \<Rightarrow> bytes \<Rightarrow> bool" where
  "remote_intact lib a b \<longleftrightarrow> jget ''bytes'' a = Some (JNum (int (length b))) \<and> hashes_equal (bl_sha256 lib b) (text_at ''sha256'' a)"

fun count_remote :: "backup_lib \<Rightarrow> 's store_ops \<Rightarrow> string \<Rightarrow> json list \<Rightarrow> nat \<Rightarrow> string list \<Rightarrow> string list \<Rightarrow> 's \<Rightarrow> string + nat \<times> string list \<times> string list" where
  \<comment> \<open>verified, missing and altered\<close>
  "count_remote lib ops pre [] v mi al s = Inr (v, mi, al)"
| "count_remote lib ops pre (a # as) v mi al s =
     (case st_get ops (pre @ text_at ''name'' a) s of
        Inl e \<Rightarrow> Inl e
      | Inr None \<Rightarrow> count_remote lib ops pre as v (mi @ [text_at ''name'' a]) al s
      | Inr (Some b) \<Rightarrow>
          if remote_intact lib a b then count_remote lib ops pre as (v + 1) mi al s
          else count_remote lib ops pre as v mi (al @ [text_at ''name'' a]) s)"

definition verify_sealed_backup_remote :: "backup_io \<Rightarrow> 's store_ops \<Rightarrow> string \<Rightarrow> bytes option \<Rightarrow> 's \<Rightarrow> string + verify_remote_result" where
  "verify_sealed_backup_remote io ops stamp key s =
     (if \<not> safe_stamp stamp then Inl stamp_error
      else let pre = remote_prefix_for stamp
      in case st_get ops (pre @ remote_marker_name) s of
           Inl e \<Rightarrow> Inl e
         | Inr None \<Rightarrow>
             Inr \<lparr>vr_ok = False, vr_shape = Shape_missing, vr_mac = Mac_no_key, vr_expected = 0, vr_verified = 0,
                  vr_missing = [remote_marker_name], vr_altered = []\<rparr>
         | Inr (Some raw) \<Rightarrow>
             (case bi_parse io raw of
                None \<Rightarrow>
                  Inr \<lparr>vr_ok = False, vr_shape = Shape_invalid ''marker not JSON'', vr_mac = Mac_no_key, vr_expected = 0, vr_verified = 0,
                       vr_missing = [], vr_altered = [remote_marker_name]\<rparr>
              | Some m \<Rightarrow>
                  (case validate_marker_shape m of
                     Inl e \<Rightarrow> Inl e
                   | Inr detail \<Rightarrow>
                       if key \<noteq> None \<and> \<not> mac_computable m then Inl throws_null
                       else let mac = (case key of
                                  None \<Rightarrow> Mac_no_key
                                | Some k \<Rightarrow> if mac_matches (marker_mac (bi_lib io) m k) (text_at ''mac'' m) then Mac_ok else Mac_mismatch);
                                res = \<lparr>vr_ok = (detail = None \<and> mac = Mac_ok),
                                       vr_shape = (case detail of None \<Rightarrow> Shape_ok | Some d \<Rightarrow> Shape_invalid d), vr_mac = mac,
                                       vr_expected = length (items_at ''artifacts'' m), vr_verified = 0, vr_missing = [], vr_altered = []\<rparr>
                            in if detail \<noteq> None then Inr res
                               else (case count_remote (bi_lib io) ops pre (items_at ''artifacts'' m) 0 [] [] s of
                                       Inl e \<Rightarrow> Inl e
                                     | Inr (v, mi, al) \<Rightarrow>
                                         Inr (res\<lparr>vr_ok := (vr_ok res \<and> mi = [] \<and> al = []), vr_verified := v, vr_missing := mi, vr_altered := al\<rparr>)))))"

record fetch_result =
  fr_files :: "string list"
  fr_verified :: nat
  fr_expected :: nat

fun fetch_artifacts :: "backup_lib \<Rightarrow> 's store_ops \<Rightarrow> string \<Rightarrow> string \<Rightarrow> json list \<Rightarrow> string list \<Rightarrow> 's \<Rightarrow> files \<Rightarrow> (string + string list) \<times> files" where
  "fetch_artifacts lib ops pre dest [] names s fs = (Inr names, fs)"
| "fetch_artifacts lib ops pre dest (a # as) names s fs =
     (case st_get ops (pre @ text_at ''name'' a) s of
        Inl e \<Rightarrow> (Inl e, fs)
      | Inr got \<Rightarrow>
          if (case got of None \<Rightarrow> True | Some b \<Rightarrow> \<not> remote_intact lib a b)
          then (Inl ''fetched object failed hash/size verification'', fs)
          else fetch_artifacts lib ops pre dest as (names @ [text_at ''name'' a]) s (fs(path_join dest (text_at ''name'' a) := got)))"

definition fetch_sealed_backup :: "backup_io \<Rightarrow> 's store_ops \<Rightarrow> string \<Rightarrow> bytes \<Rightarrow> string \<Rightarrow> 's \<Rightarrow> files \<Rightarrow> (string + fetch_result) \<times> files" where
  "fetch_sealed_backup io ops stamp key dest s fs =
     (if \<not> safe_stamp stamp then (Inl stamp_error, fs)
      else let pre = remote_prefix_for stamp
      in case verify_sealed_backup_remote io ops stamp (Some key) s of
           Inl e \<Rightarrow> (Inl e, fs)
         | Inr v \<Rightarrow>
             if \<not> vr_ok v then (Inl ''refusing to fetch'', fs)
             else (case st_get ops (pre @ remote_marker_name) s of
                     Inl e \<Rightarrow> (Inl e, fs)
                   | Inr None \<Rightarrow> (Inl throws_null, fs)
                   | Inr (Some raw) \<Rightarrow>
                       (case bi_parse io raw of
                          None \<Rightarrow> (Inl ''Unexpected token in JSON'', fs)
                        | Some m \<Rightarrow>
                            (case fetch_artifacts (bi_lib io) ops pre dest (items_at ''artifacts'' m) [] s fs of
                               (Inl e, fs1) \<Rightarrow> (Inl e, fs1)
                             | (Inr names, fs1) \<Rightarrow>
                                 (Inr \<lparr>fr_files = names, fr_verified = length names, fr_expected = length (items_at ''artifacts'' m)\<rparr>,
                                  fs1(path_join dest remote_marker_name \<mapsto> raw))))))"

subsection \<open>The marker is the commit\<close>

definition remote_loc :: "(string \<Rightarrow> 'l) \<Rightarrow> string \<Rightarrow> string \<Rightarrow> 'l" where
  \<comment> \<open>where an artifact of a stamp is kept\<close>
  "remote_loc loc stamp name = loc (remote_prefix_for stamp @ name)"

context object_store
begin

lemma upload_keeps:
  "upload_artifacts lib ops pre dir fs es up v s = (r, s') \<Longrightarrow> l \<notin> (\<lambda>e. loc (pre @ ma_name e)) ` set es \<Longrightarrow> content s' l = content s l"
proof (induction es arbitrary: up v s)
  case (Cons e es)
  then show ?case
    using put_law [of "pre @ ma_name e"] by (auto split: option.splits sum.splits if_splits simp: fun_upd_apply)
qed simp

lemma upload_all:
  assumes "upload_artifacts lib ops pre dir fs es up v s = (Inr r, s')" "distinct (map (\<lambda>e. loc (pre @ ma_name e)) es)"
  shows "list_all (\<lambda>e. \<exists>b. fs (path_join dir (ma_name e)) = Some b \<and> content s' (loc (pre @ ma_name e)) = Some b \<and>
      bl_sha256 lib b = ma_sha256 e \<and> length b = ma_bytes e) es"
  using assms
proof (induction es arbitrary: up v s)
  case (Cons e es)
  obtain b where b: "fs (path_join dir (ma_name e)) = Some b" using Cons.prems(1) by (auto split: option.splits)
  obtain s1 where put: "st_put ops (pre @ ma_name e) b s = Inr s1" using Cons.prems(1) b by (auto split: sum.splits)
  obtain got where get: "st_get ops (pre @ ma_name e) s1 = Inr got" using Cons.prems(1) b put by (auto split: sum.splits)
  have "got = Some b" using put_then_get [OF put get] by simp
  then have rest_run: "upload_artifacts lib ops pre dir fs es (up @ [ma_name e]) (v + 1) s1 = (Inr r, s')"
    and same: "bl_sha256 lib b = ma_sha256 e" "length b = ma_bytes e"
    using Cons.prems(1) b put get by (auto split: if_splits)
  have "content s' (loc (pre @ ma_name e)) = content s1 (loc (pre @ ma_name e))"
    using upload_keeps [OF rest_run] Cons.prems(2) by auto
  then show ?case using Cons.IH [OF rest_run] Cons.prems(2) b same put_law [OF put] by auto
qed simp

end

lemma local_artifacts_read:
  assumes "local_artifacts lib dir stamp manifest fs = Inr (es, inventory)"
  shows "list_all (\<lambda>e. \<exists>b. fs (path_join dir (ma_name e)) = Some b \<and> ma_bytes e = length b \<and> ma_sha256 e = bl_sha256 lib b) es"
    "\<exists>more. map (\<lambda>e. (ma_name e, ma_role e)) es =
       map (\<lambda>a. (text_at ''name'' a, text_at ''role'' a)) (items_at ''artifacts'' manifest) @ (manifest_name stamp, ''manifest'') # more \<and>
       set more \<subseteq> {(media_inventory_name stamp, ''media-inventory'')}"
proof -
  obtain es1 ms where r: "read_artifacts lib dir (map (\<lambda>a. (text_at ''name'' a, text_at ''role'' a)) (items_at ''artifacts'' manifest)) fs = Inr es1"
    "read_artifacts lib dir [(manifest_name stamp, ''manifest'')] fs = Inr ms"
    using assms by (auto simp: local_artifacts_def simp del: read_artifacts.simps split: sum.splits)
  show "list_all (\<lambda>e. \<exists>b. fs (path_join dir (ma_name e)) = Some b \<and> ma_bytes e = length b \<and> ma_sha256 e = bl_sha256 lib b) es"
    "\<exists>more. map (\<lambda>e. (ma_name e, ma_role e)) es =
       map (\<lambda>a. (text_at ''name'' a, text_at ''role'' a)) (items_at ''artifacts'' manifest) @ (manifest_name stamp, ''manifest'') # more \<and>
       set more \<subseteq> {(media_inventory_name stamp, ''media-inventory'')}"
    using assms r read_artifacts_files [OF r(1)] read_artifacts_files [OF r(2)]
      read_artifacts_files [of lib dir "[(media_inventory_name stamp, ''media-inventory'')]" fs]
    by (auto simp: local_artifacts_def simp del: read_artifacts.simps split: sum.splits)
qed

text \<open>A sealed backup is published completely or not at all. The marker of the stamp changes only when the set verifies
  locally and every artifact, the manifest included, is at the store with the bytes, the size and the digest of
  the local file; a dry run changes nothing.\<close>

theorem publish_commits_last:
  "(case local_set io dir stamp files of
      Inl e \<Rightarrow> True
    | Inr (es, inventory) \<Rightarrow>
        (if distinct (map (remote_loc (path_for root) stamp) (remote_marker_name # map ma_name es))
         then (case publish_sealed_backup io dir stamp (fs_store root) key created apply files s of
                 (Inl e, s') \<Rightarrow> fs_content s' (remote_loc (path_for root) stamp remote_marker_name) = fs_content s (remote_loc (path_for root) stamp remote_marker_name)
               | (Inr r, s') \<Rightarrow>
                   (if pr_applied r
                    then (case verify_backup io dir stamp (Some key) files of Inl e \<Rightarrow> False | Inr v \<Rightarrow> vf_ok v) \<and>
                      fs_content s' (remote_loc (path_for root) stamp remote_marker_name) = Some (bl_encode (bi_lib io) (pr_marker r)) \<and>
                      list_all (\<lambda>e. \<exists>b. files (path_join dir (ma_name e)) = Some b \<and>
                         fs_content s' (remote_loc (path_for root) stamp (ma_name e)) = Some b \<and>
                         bl_sha256 (bi_lib io) b = ma_sha256 e \<and> length b = ma_bytes e) es
                    else s' = s))
         else True))"
proof (cases "local_set io dir stamp files")
  case (Inr esi)
  obtain es inventory where esi: "esi = (es, inventory)" by (cases esi)
  let ?pre = "remote_prefix_for stamp" and ?marker = "sign_marker (bi_lib io) key (marker_body stamp created es inventory)"
  have "case publish_sealed_backup io dir stamp (fs_store root) key created apply files s of
                 (Inl e, s') \<Rightarrow> fs_content s' (remote_loc (path_for root) stamp remote_marker_name) = fs_content s (remote_loc (path_for root) stamp remote_marker_name)
               | (Inr r, s') \<Rightarrow>
                   (if pr_applied r
                    then (case verify_backup io dir stamp (Some key) files of Inl e \<Rightarrow> False | Inr v \<Rightarrow> vf_ok v) \<and>
                      fs_content s' (remote_loc (path_for root) stamp remote_marker_name) = Some (bl_encode (bi_lib io) (pr_marker r)) \<and>
                      list_all (\<lambda>e. \<exists>b. files (path_join dir (ma_name e)) = Some b \<and>
                         fs_content s' (remote_loc (path_for root) stamp (ma_name e)) = Some b \<and>
                         bl_sha256 (bi_lib io) b = ma_sha256 e \<and> length b = ma_bytes e) es
                    else s' = s)"
    if distinct: "distinct (map (remote_loc (path_for root) stamp) (remote_marker_name # map ma_name es))"
  proof (cases "safe_stamp stamp \<and> apply \<and> (\<exists>v. verify_backup io dir stamp (Some key) files = Inr v \<and> vf_ok v)")
    case True
    obtain ur s1 where up: "upload_artifacts (bi_lib io) (fs_store root) ?pre dir files es [] 0 s = (ur, s1)"
      by (cases "upload_artifacts (bi_lib io) (fs_store root) ?pre dir files es [] 0 s")
    have locs: "distinct (map (\<lambda>e. path_for root (?pre @ ma_name e)) es)"
      "path_for root (?pre @ remote_marker_name) \<notin> (\<lambda>e. path_for root (?pre @ ma_name e)) ` set es"
      using distinct by (auto simp: remote_loc_def comp_def)
    note kept = fs.upload_keeps [OF up locs(2)]
    show ?thesis
    proof (cases ur)
      case (Inl e)
      then show ?thesis using True Inr esi up kept by (auto simp: publish_sealed_backup_def remote_loc_def)
    next
      case ur: (Inr uv)
      obtain u v where uv: "uv = (u, v)" by (cases uv)
      show ?thesis
      proof (cases "st_put (fs_store root) (?pre @ remote_marker_name) (bl_encode (bi_lib io) ?marker) s1")
        case (Inl e)
        then show ?thesis using True Inr esi up ur uv kept by (auto simp: publish_sealed_backup_def remote_loc_def)
      next
        case put: (Inr s2)
        have "fs_content s2 (path_for root (?pre @ ma_name e)) = fs_content s1 (path_for root (?pre @ ma_name e))" if "e \<in> set es" for e
          by (rule fs.put_other [OF put]) (use locs(2) that in \<open>metis (mono_tags, lifting) image_eqI\<close>)
        then have "list_all (\<lambda>e. \<exists>b. files (path_join dir (ma_name e)) = Some b \<and>
            fs_content s2 (path_for root (?pre @ ma_name e)) = Some b \<and> bl_sha256 (bi_lib io) b = ma_sha256 e \<and> length b = ma_bytes e) es"
          using fs.upload_all [OF up [unfolded ur] locs(1)] by (auto simp: list_all_iff)
        then show ?thesis
          using True Inr esi up ur uv put fs.put_law [OF put] by (auto simp: publish_sealed_backup_def remote_loc_def)
      qed
    qed
  next
    case False
    then show ?thesis using Inr esi by (auto simp: publish_sealed_backup_def Let_def split: sum.splits)
  qed
  then show ?thesis using Inr esi by simp
qed simp

subsection \<open>What was published can be fetched\<close>

lemma canonical_marker_no_mac: "canonical_marker lib (JObj (fs @ [(''mac'', v)])) = canonical_marker lib (JObj fs)"
proof -
  have "pick k (JObj (fs @ [(''mac'', v)])) = pick k (JObj fs)" if "k \<noteq> ''mac''" for k
    unfolding pick_def using that by (simp only: jget_add_mac not_False_eq_True)
  moreover have "items_at ''artifacts'' (JObj (fs @ [(''mac'', v)])) = items_at ''artifacts'' (JObj fs)"
    unfolding items_at_def by (subst jget_add_mac) simp_all
  ultimately show ?thesis unfolding canonical_marker_def by simp
qed

lemma marker_fields:
  fixes lib :: backup_lib and stamp created :: string and key :: bytes and es :: "manifest_artifact list" and inventory :: bool
  defines "m \<equiv> sign_marker lib key (marker_body stamp created es inventory)"
  shows "jget ''format_version'' m = Some (JNum 1)" "jget ''kind'' m = Some (JStr ''sealed-backup-remote-marker'')"
    "jget ''stamp'' m = Some (JStr stamp)" "jget ''created_at'' m = Some (JStr created)"
    "jget ''artifacts'' m = Some (JArr (map artifact_json es))"
    "jget ''sealed_manifest_sha256'' m = Some (JStr (the (sha_of_role ''manifest'' es)))"
    "jget ''expected_artifact_count'' m = Some (JNum (int (length es)))" "jget ''completeness'' m = Some (JStr ''complete'')"
    "jget ''mac'' m = Some (JStr (marker_mac lib m key))" "m \<noteq> JNull"
proof -
  have mac: "marker_mac lib m key = marker_mac lib (JObj (marker_body stamp created es inventory)) key"
    by (simp only: m_def sign_marker_def marker_mac_def canonical_marker_no_mac)
  show "jget ''mac'' m = Some (JStr (marker_mac lib m key))"
    unfolding mac by (simp add: m_def sign_marker_def marker_body_def)
qed (simp_all add: m_def sign_marker_def marker_body_def)

lemma find_manifest_entry:
  assumes "e \<in> set es" "ma_role e = ''manifest''"
  shows "\<exists>a. find (\<lambda>a. jget ''role'' a = Some (JStr ''manifest'')) (map artifact_json es) = Some a \<and>
    jget ''sha256'' a = Some (JStr (the (sha_of_role ''manifest'' es)))"
  using assms by (induction es) (auto simp: sha_of_role_def)

lemma built_marker_valid:
  assumes "lib_ok lib" "list_all (\<lambda>e. ma_role e \<in> set remote_roles \<and> hex64 (ma_sha256 e)) es"
    "list_ex (\<lambda>e. ma_role e = ''postgres'') es" "list_ex (\<lambda>e. ma_role e = ''manifest'') es"
  shows "validate_marker_shape (sign_marker lib key (marker_body stamp created es inventory)) = Inr None"
proof -
  obtain e where "e \<in> set es" "ma_role e = ''manifest''" using assms(4) by (auto simp: list_ex_iff)
  from find_manifest_entry [OF this] obtain a where
    "find (\<lambda>a. jget ''role'' a = Some (JStr ''manifest'')) (map artifact_json es) = Some a"
    "jget ''sha256'' a = Some (JStr (the (sha_of_role ''manifest'' es)))" by blast
  moreover have "hex64 (marker_mac lib m key)" for m using assms(1) by (simp add: lib_ok_def marker_mac_def)
  moreover have "es \<noteq> []" using assms(3) by auto
  moreover have "list_ex (\<lambda>a. jget ''role'' a = Some (JStr ''postgres'')) (map artifact_json es)"
    using assms(3) by (simp add: list_ex_iff)
  ultimately show ?thesis
    using artifact_errors_none [OF assms(2)]
    by (simp add: validate_marker_shape_def marker_fields inventory_readers)
qed

lemma count_remote_intact:
  "list_all (\<lambda>a. \<exists>b. st_get ops (pre @ text_at ''name'' a) s = Inr (Some b) \<and> remote_intact lib a b) as \<Longrightarrow>
     count_remote lib ops pre as v mi al s = Inr (v + length as, mi, al)"
  by (induction as arbitrary: v) auto

lemma fetch_artifacts_intact:
  assumes "list_all (\<lambda>a. \<exists>b. st_get ops (pre @ text_at ''name'' a) s = Inr (Some b) \<and> remote_intact lib a b) as"
    "distinct (map (\<lambda>a. path_join dest (text_at ''name'' a)) as)"
  shows "\<exists>fs'. fetch_artifacts lib ops pre dest as names s fs = (Inr (names @ map (text_at ''name'') as), fs') \<and>
    list_all (\<lambda>a. st_get ops (pre @ text_at ''name'' a) s = Inr (fs' (path_join dest (text_at ''name'' a)))) as \<and>
    (\<forall>l. l \<notin> (\<lambda>a. path_join dest (text_at ''name'' a)) ` set as \<longrightarrow> fs' l = fs l)"
  using assms
proof (induction as arbitrary: names fs)
  case (Cons a as)
  obtain b where b: "st_get ops (pre @ text_at ''name'' a) s = Inr (Some b)" "remote_intact lib a b" using Cons.prems(1) by auto
  let ?fs1 = "fs(path_join dest (text_at ''name'' a) := Some b)"
  obtain fs' where fs': "fetch_artifacts lib ops pre dest as (names @ [text_at ''name'' a]) s ?fs1 =
      (Inr ((names @ [text_at ''name'' a]) @ map (text_at ''name'') as), fs')"
    "list_all (\<lambda>a. st_get ops (pre @ text_at ''name'' a) s = Inr (fs' (path_join dest (text_at ''name'' a)))) as"
    "\<forall>l. l \<notin> (\<lambda>a. path_join dest (text_at ''name'' a)) ` set as \<longrightarrow> fs' l = ?fs1 l"
  proof -
    have "list_all (\<lambda>a. \<exists>b. st_get ops (pre @ text_at ''name'' a) s = Inr (Some b) \<and> remote_intact lib a b) as"
      "distinct (map (\<lambda>a. path_join dest (text_at ''name'' a)) as)" using Cons.prems by simp_all
    from Cons.IH [OF this, of "names @ [text_at ''name'' a]" ?fs1] show thesis using that by blast
  qed
  have "fs' (path_join dest (text_at ''name'' a)) = Some b" using fs'(3) Cons.prems(2) by auto
  then show ?case using b fs' by auto
qed simp

lemma verify_backup_moved:
  assumes "fs2 (manifest_path dest stamp) = fs1 (manifest_path dir stamp)"
    "\<And>m a. read_manifest io dir stamp fs1 = Inr m \<Longrightarrow> a \<in> set (items_at ''artifacts'' m) \<Longrightarrow>
       fs2 (path_join dest (text_at ''name'' a)) = fs1 (path_join dir (text_at ''name'' a))"
  shows "verify_backup io dest stamp key fs2 = verify_backup io dir stamp key fs1"
proof -
  have read: "read_manifest io dest stamp fs2 = read_manifest io dir stamp fs1" by (simp add: read_manifest_def assms(1))
  have checks: "check_artifacts io dest key fs2 as = check_artifacts io dir key fs1 as"
    if "\<And>a. a \<in> set as \<Longrightarrow> fs2 (path_join dest (text_at ''name'' a)) = fs1 (path_join dir (text_at ''name'' a))" for as
    using that by (induction as) (auto simp: check_artifact_def assert_decryptable_def Let_def split: sum.splits option.splits)
  have "check_artifacts io dest key fs2 as = check_artifacts io dir key fs1 as"
    if "read_manifest io dir stamp fs1 = Inr m" "iterate_artifacts m = Inr as" for m as
    using checks assms(2) [OF that(1)] that(2)
    by (auto simp: iterate_artifacts_def items_at_def split: option.splits json.splits list.splits)
  then show ?thesis by (auto simp: verify_backup_def read Let_def split: sum.splits)
qed

definition quiet :: "fs \<Rightarrow> bool" where
  \<comment> \<open>no operation of the disk fails\<close>
  "quiet s \<longleftrightarrow> (\<forall>p x. fs_io_error s p x = None)"

lemma quiet_get: "quiet s \<Longrightarrow> fs_content s (path_for root k) = Some b \<Longrightarrow> st_get (fs_store root) k s = Inr (Some b)"
  by (auto simp: quiet_def fs_store_def fs_get_def fs_content_def split: option.splits)

lemma quiet_put: "st_put (fs_store root) k b s = Inr s' \<Longrightarrow> quiet s \<Longrightarrow> quiet s'"
  by (auto simp: quiet_def fs_store_def fs_put_def split: option.splits)

lemma quiet_upload:
  "upload_artifacts lib (fs_store root) pre dir fs es up v s = (r, s') \<Longrightarrow> quiet s \<Longrightarrow> quiet s'"
proof (induction es arbitrary: up v s)
  case (Cons e es)
  then show ?case using quiet_put [of root "pre @ ma_name e"] by (auto split: option.splits sum.splits if_splits)
qed simp

lemma artifact_errors_roles:
  "artifact_errors roles as = Inr None \<Longrightarrow> list_all (\<lambda>a. text_at ''role'' a \<in> set roles) as"
  by (induction as) (auto simp: has_role_def split: if_splits)

lemma local_set_contents:
  assumes "local_set io dir stamp files = Inr (es, inventory)" "verify_backup io dir stamp (Some key) files = Inr v" "vf_ok v" "lib_ok (bi_lib io)"
  shows "list_all (\<lambda>e. ma_role e \<in> set remote_roles \<and> hex64 (ma_sha256 e)) es"
    "list_ex (\<lambda>e. ma_role e = ''postgres'') es" "list_ex (\<lambda>e. ma_role e = ''manifest'') es"
    "read_manifest io dir stamp files = Inr m \<Longrightarrow> a \<in> set (items_at ''artifacts'' m) \<Longrightarrow> text_at ''name'' a \<in> ma_name ` set es"
    "manifest_name stamp \<in> ma_name ` set es"
proof -
  obtain m where m: "read_manifest io dir stamp files = Inr m" "local_artifacts (bi_lib io) dir stamp m files = Inr (es, inventory)"
    using assms(1) by (auto simp: local_set_def split: sum.splits)
  have shape: "validate_manifest_shape m = Inr None"
    using assms(2,3) m(1) by (auto simp: verify_backup_def Let_def split: sum.splits if_splits)
  then have valid: "artifact_errors manifest_roles (items_at ''artifacts'' m) = Inr None"
    "list_ex (\<lambda>a. jget ''role'' a = Some (JStr ''postgres'')) (items_at ''artifacts'' m)"
    by (auto simp: validate_manifest_shape_def split: if_splits sum.splits option.splits)
  obtain more where more: "map (\<lambda>e. (ma_name e, ma_role e)) es =
      map (\<lambda>a. (text_at ''name'' a, text_at ''role'' a)) (items_at ''artifacts'' m) @ (manifest_name stamp, ''manifest'') # more"
    "set more \<subseteq> {(media_inventory_name stamp, ''media-inventory'')}"
    using local_artifacts_read(2) [OF m(2)] by blast
  have es: "(\<lambda>e. (ma_name e, ma_role e)) ` set es =
      insert (manifest_name stamp, ''manifest'') ((\<lambda>a. (text_at ''name'' a, text_at ''role'' a)) ` set (items_at ''artifacts'' m) \<union> set more)"
    using arg_cong [OF more(1), of set] by auto
  have roles: "ma_role e \<in> set remote_roles" if "e \<in> set es" for e
  proof -
    have "(ma_name e, ma_role e) \<in> (\<lambda>e. (ma_name e, ma_role e)) ` set es" using that by (rule imageI)
    then show ?thesis
      using more(2) artifact_errors_roles [OF valid(1)] unfolding es
      by (auto simp: list_all_iff manifest_roles_def remote_roles_def)
  qed
  show "list_all (\<lambda>e. ma_role e \<in> set remote_roles \<and> hex64 (ma_sha256 e)) es"
    using roles local_artifacts_read(1) [OF m(2)] assms(4) by (auto simp: list_all_iff lib_ok_def)
  obtain a where a: "a \<in> set (items_at ''artifacts'' m)" "jget ''role'' a = Some (JStr ''postgres'')" using valid(2) by (auto simp: list_ex_iff)
  have "(text_at ''name'' a, ''postgres'') \<in> (\<lambda>e. (ma_name e, ma_role e)) ` set es"
    unfolding es using a by (intro insertI2 UnI1 image_eqI [of _ _ a]) (simp_all add: text_at_def)
  then show "list_ex (\<lambda>e. ma_role e = ''postgres'') es" by (auto simp: list_ex_iff)
  have manifest: "(manifest_name stamp, ''manifest'') \<in> (\<lambda>e. (ma_name e, ma_role e)) ` set es" unfolding es by simp
  then show "list_ex (\<lambda>e. ma_role e = ''manifest'') es" "manifest_name stamp \<in> ma_name ` set es" by (auto simp: list_ex_iff)
  show "text_at ''name'' a \<in> ma_name ` set es"
    if "read_manifest io dir stamp files = Inr m" "a \<in> set (items_at ''artifacts'' m)" for m a
  proof -
    have "(text_at ''name'' a, text_at ''role'' a) \<in> (\<lambda>e. (ma_name e, ma_role e)) ` set es"
      unfolding es using that m(1) by auto
    then show ?thesis by auto
  qed
qed

definition remote_ready :: "backup_io \<Rightarrow> string \<Rightarrow> string \<Rightarrow> string \<Rightarrow> fs \<Rightarrow> manifest_artifact list \<Rightarrow> bool" where
  \<comment> \<open>the disk works, the artifacts have places of their own at the store and in the directory they are fetched to\<close>
  "remote_ready io root stamp dest s es \<longleftrightarrow>
     lib_ok (bi_lib io) \<and> (\<forall>j. bi_parse io (bl_encode (bi_lib io) j) = Some j) \<and> quiet s \<and>
     distinct (map (remote_loc (path_for root) stamp) (remote_marker_name # map ma_name es)) \<and>
     distinct (map (path_join dest) (remote_marker_name # map ma_name es))"


end
