(* ===== verification/Intent.thy ===== *)
theory Intent
  imports Sanitize Complex_Main
begin

text \<open>
  What a capture means: the heuristic intent parser and the provider chain of \<open>packages/model-router/src/intent\<close>,
  the project suggestions of \<open>packages/context-engine/src/suggest.ts\<close>, the heuristic enrichment of
  \<open>local-enrichment.ts\<close> and the consent gate of \<open>consent.ts\<close>. Confidences are exact rationals where the code has
  doubles; providers that call a model are parameters.
\<close>

subsection \<open>The heuristic parser\<close>

datatype action_type = Create_task | Remind_follow_up | Save_reference | Research | Unknown_action

datatype priority = Low_priority | Normal_priority | High_priority

datatype parser = Heuristic | Llm

record parsed_intent =
  pi_action :: action_type
  pi_project_hint :: "string option"
  pi_summary :: string
  pi_priority :: priority
  pi_confidence :: rat
  pi_parser :: parser
  pi_model :: "string option"

record intent_input =
  ii_text :: string
  ii_page_title :: "string option"
  ii_known_projects :: "string list"

definition words :: "re list \<Rightarrow> re" where
  "words rs = cats [WordB, alts rs, WordB]"

definition verb_task :: "string \<Rightarrow> re" where
  "verb_task v = cats [lit_i (v @ '' ''), opt_re (lit_i ''a ''), lit_i ''task'']"

definition dash_space :: re where
  "dash_space = opt_re (CC (one_of ''- ''))"

definition task_re :: re where
  "task_re = words [verb_task ''create'', verb_task ''add'', verb_task ''make'', cats [lit_i ''to'', dash_space, lit_i ''do''], lit_i ''todo'',
     lit_i ''checklist'', verb_task ''draft'']"

definition follow_up_re :: re where
  "follow_up_re = words [lit_i ''remind me'', cats [lit_i ''follow'', dash_space, lit_i ''up''], lit_i ''check back'', lit_i ''circle back'',
     lit_i ''reminder'', lit_i ''later this week'', lit_i ''next week'', lit_i ''tomorrow'']"

definition research_re :: re where
  "research_re = words [lit_i ''research'', lit_i ''compare'', lit_i ''find out'', lit_i ''investigate'', lit_i ''look into'',
     cats [lit_i ''analy'', CC (one_of ''szSZ''), lit_i ''e''], lit_i ''evaluate'', lit_i ''dig into'']"

definition save_re :: re where
  "save_re = cats [WordB, alts (map lit_i [''remember'', ''save'', ''keep'', ''bookmark'', ''store'', ''preserve'', ''capture'', ''add'']), lit '' '',
     opt_re (alts (map lit_i [''this'', ''it'', ''that'', ''the''])), WordB]"

definition high_re :: re where
  "high_re = words (map lit_i [''urgent'', ''asap'', ''immediately'', ''critical'', ''important'', ''high priority'', ''right away''])"

definition low_re :: re where
  "low_re = words (map lit_i [''low priority'', ''whenever'', ''no rush'', ''someday'', ''eventually'', ''not urgent''])"

definition name_char :: "char \<Rightarrow> bool" where
  \<comment> \<open>\<open>[\w &'-]\<close>\<close>
  "name_char c \<longleftrightarrow> word_char c \<or> c \<in> {CHR '' '', CHR ''&'', CHR 0x27, CHR ''-''}"

definition hint_group :: re where
  "hint_group = Grp 1 (Cat (CC word_char) (Rep False 0 (Some 60) (CC name_char)))"

definition spaces :: re where
  "spaces = plus_re (CC js_space)"

definition hint_before_re :: re where
  "hint_before_re = cats [Bol, star (CC (\<lambda>_. True)), WordB, alts (map lit_i [''for'', ''to'', ''in'', ''into'', ''under'', ''on'']), spaces,
     opt_re (alts [Cat (lit_i ''the'') spaces, Cat (lit_i ''my'') spaces]), hint_group, spaces, lit_i ''project'', WordB]"

definition quote :: re where
  "quote = opt_re (CC (\<lambda>c. c = CHR 0x22 \<or> c = CHR 0x27))"

definition hint_after_re :: re where
  "hint_after_re = cats [WordB, lit_i ''project'', spaces, opt_re (alts [Cat (lit_i ''called'') spaces, Cat (lit_i ''named'') spaces]), quote,
     hint_group, quote, alts [CC (one_of ''.,;!''), Eol]]"

definition exec_group :: "re \<Rightarrow> string \<Rightarrow> string option" where
  \<comment> \<open>\<open>pattern.exec(text)?.[1]\<close>\<close>
  "exec_group r s = (case search r None s of None \<Rightarrow> None | Some (s0, b, s1, g) \<Rightarrow> Some (group_text 1 (s0, s1, g)))"

fun first_hint :: "re list \<Rightarrow> string \<Rightarrow> string option" where
  "first_hint [] txt = None"
| "first_hint (r # rs) txt =
     (case map_option js_trim (exec_group r txt) of
        Some (c # cs) \<Rightarrow> Some (c # cs)
      | _ \<Rightarrow> first_hint rs txt)"

definition extract_project_hint :: "string \<Rightarrow> string option" where
  "extract_project_hint txt = first_hint [hint_before_re, hint_after_re] txt"

fun first_sentence :: "char option \<Rightarrow> string \<Rightarrow> string" where
  \<comment> \<open>the first part of \<open>split(/(?<=[.!?])\s/)\<close>; the first argument is the character before\<close>
  "first_sentence b [] = []"
| "first_sentence b (c # cs) = (if js_space c \<and> opt_char (one_of ''.!?'') b then [] else c # first_sentence (Some c) cs)"

definition squeeze :: "string \<Rightarrow> string" where
  \<comment> \<open>\<open>text.replace(/\s+/g, " ").trim()\<close>\<close>
  "squeeze txt = js_trim (replace_all spaces (\<lambda>_. '' '') txt)"

definition summarize :: "string \<Rightarrow> string" where
  "summarize txt =
     (let cleaned = squeeze txt
      in if cleaned = [] then ''Captured context''
         else let s = first_sentence None cleaned in if 140 < length s then take 137 s @ ''...'' else s)"

definition heuristic_intent :: "intent_input \<Rightarrow> parsed_intent" where
  "heuristic_intent input =
     (let txt = js_trim (ii_text input);
          (action, confidence) =
            (if test_re task_re txt then (Create_task, 8/10)
             else if test_re follow_up_re txt then (Remind_follow_up, 7/10)
             else if test_re research_re txt then (Research, 6/10)
             else if test_re save_re txt then (Save_reference, 6/10)
             else if txt \<noteq> [] then (Save_reference, 4/10)
             else (Unknown_action, 3/10))
      in \<lparr>pi_action = action, pi_project_hint = extract_project_hint txt, pi_summary = summarize txt,
          pi_priority = (if test_re high_re txt then High_priority else if test_re low_re txt then Low_priority else Normal_priority),
          pi_confidence = confidence, pi_parser = Heuristic, pi_model = None\<rparr>)"

subsection \<open>The chain of providers\<close>

record intent_provider =
  ip_name :: string
  ip_parse :: "intent_input \<Rightarrow> string + parsed_intent"

definition heuristic_provider :: intent_provider where
  "heuristic_provider = \<lparr>ip_name = ''heuristic'', ip_parse = (\<lambda>i. Inr (heuristic_intent i))\<rparr>"

definition intent_chain :: "intent_provider list \<Rightarrow> intent_provider list" where
  "intent_chain providers = filter (\<lambda>p. ip_name p \<noteq> ip_name heuristic_provider) providers @ [heuristic_provider]"

fun try_providers :: "intent_provider list \<Rightarrow> intent_input \<Rightarrow> (string \<times> string) list \<Rightarrow> string + parsed_intent \<times> string \<times> (string \<times> string) list" where
  \<comment> \<open>the intent, its provider and the failures before it\<close>
  "try_providers [] input failures = Inl (''All intent providers failed: '' @ join_with '', '' (map fst failures))"
| "try_providers (p # ps) input failures =
     (case ip_parse p input of
        Inr intent \<Rightarrow> Inr (intent, ip_name p, failures)
      | Inl err \<Rightarrow> try_providers ps input (failures @ [(ip_name p, err)]))"

definition parse_intent :: "intent_provider list \<Rightarrow> intent_input \<Rightarrow> string + parsed_intent \<times> string \<times> (string \<times> string) list" where
  "parse_intent providers input = try_providers (intent_chain providers) input []"

subsection \<open>Project suggestions\<close>

record project_row =
  pj_id :: string
  pj_user :: string
  pj_name :: string
  pj_archived :: bool

record source_row =
  \<comment> \<open>what the suggestions read of a moment\<close>
  sr_user :: string
  sr_project :: "string option"
  sr_url :: "string option"
  sr_captured :: int

record suggestion =
  sg_id :: string
  sg_name :: string
  sg_confidence :: rat
  sg_reason :: string

definition token_char :: "char \<Rightarrow> bool" where
  "token_char c \<longleftrightarrow> digit c \<or> lower_az c"

fun split_at :: "(char \<Rightarrow> bool) \<Rightarrow> string \<Rightarrow> string list" where
  \<comment> \<open>the maximal runs of characters of a class\<close>
  "split_at p [] = [[]]"
| "split_at p (c # cs) =
     (if p c then (case split_at p cs of [] \<Rightarrow> [[c]] | w # ws \<Rightarrow> (c # w) # ws) else [] # split_at p cs)"

definition tokenize :: "string \<Rightarrow> string list" where
  "tokenize s = filter (\<lambda>t. 1 < length t) (split_at token_char (to_lower s))"

definition contains :: "string \<Rightarrow> string \<Rightarrow> bool" where
  "contains s part \<longleftrightarrow> list_ex (\<lambda>n. starts_with (drop n s) part) [0..<Suc (length s)]"

definition name_match_score :: "string \<Rightarrow> string \<Rightarrow> rat" where
  "name_match_score hint name =
     (let h = to_lower (js_trim hint); n = to_lower (js_trim name)
      in if h = [] \<or> n = [] then 0
         else if h = n then 9/10
         else if contains n h \<or> contains h n then 7/10
         else let hs = remdups (tokenize h); ns = tokenize n; overlap = length (filter (\<lambda>t. t \<in> set hs) ns)
              in if overlap = 0 then 0 else (4/10) * (of_nat overlap / of_nat (max (length ns) (length hs))))"

fun sql_like :: "string \<Rightarrow> string \<Rightarrow> bool" where
  \<comment> \<open>SQL \<open>LIKE\<close>: \<open>%\<close> is any text, \<open>_\<close> any character\<close>
  "sql_like [] txt = (txt = [])"
| "sql_like (p # ps) [] = (p = CHR ''%'' \<and> sql_like ps [])"
| "sql_like (p # ps) (c # cs) =
     (if p = CHR ''%'' then sql_like ps (c # cs) \<or> sql_like (p # ps) cs
      else (p = CHR ''_'' \<or> p = c) \<and> sql_like ps cs)"

definition last_used :: "source_row list \<Rightarrow> project_row \<Rightarrow> int option" where
  "last_used moments p =
     (case map sr_captured (filter (\<lambda>m. sr_project m = Some (pj_id p)) moments) of [] \<Rightarrow> None | t # ts \<Rightarrow> Some (foldl max t ts))"

definition host_count :: "source_row list \<Rightarrow> string \<Rightarrow> string option \<Rightarrow> string \<Rightarrow> nat" where
  "host_count moments user host project =
     (case host of
        None \<Rightarrow> 0
      | Some h \<Rightarrow> if h = [] then 0 else
          length (filter (\<lambda>m. sr_user m = user \<and> sr_project m = Some project \<and>
            (case sr_url m of None \<Rightarrow> False | Some u \<Rightarrow> sql_like (''%://'' @ h @ ''%'') u)) moments))"

definition to_fixed2 :: "rat \<Rightarrow> rat" where
  \<comment> \<open>\<open>Number(x.toFixed(2))\<close>\<close>
  "to_fixed2 x = of_int \<lfloor>100 * x + 1/2\<rfloor> / 100"

definition most_recent :: "source_row list \<Rightarrow> project_row list \<Rightarrow> string option" where
  "most_recent moments projects =
     (case sort_key (\<lambda>p. - (case last_used moments p of None \<Rightarrow> 0 | Some t \<Rightarrow> t)) (filter (\<lambda>p. last_used moments p \<noteq> None) projects) of
        [] \<Rightarrow> None | p # ps \<Rightarrow> Some (pj_id p))"

definition score_project :: "source_row list \<Rightarrow> string \<Rightarrow> string option \<Rightarrow> string option \<Rightarrow> string option \<Rightarrow> project_row \<Rightarrow> suggestion" where
  "score_project moments user hint host recent p =
     (let name_score = (if truthy hint then name_match_score (the hint) (pj_name p) else 0);
          hosts = host_count moments user host (pj_id p);
          score = name_score + (if 0 < hosts then min (5/10) (2/10 + (1/10) * of_nat hosts) else 0) + (if recent = Some (pj_id p) then 1/10 else 0);
          reasons = (if 0 < name_score then [''name matches '' @ [CHR 0x22] @ the hint @ [CHR 0x22]] else []) @
            (if 0 < hosts then [nat_str hosts @ '' previous capture(s) from '' @ the host] else []) @
            (if recent = Some (pj_id p) then [''most recently used''] else [])
      in \<lparr>sg_id = pj_id p, sg_name = pj_name p, sg_confidence = min 1 (to_fixed2 score),
          sg_reason = (if reasons = [] then ''no signal'' else join_with ''; '' reasons)\<rparr>)"

definition suggest_projects ::
  "(string \<Rightarrow> string option) \<Rightarrow> project_row list \<Rightarrow> source_row list \<Rightarrow> string \<Rightarrow> string option \<Rightarrow> string option \<Rightarrow> nat \<Rightarrow> suggestion list" where
  \<comment> \<open>\<open>host_of\<close> is \<open>new URL(u).host\<close>; hint, URL and limit are arguments\<close>
  "suggest_projects host_of projects moments user hint url limit =
     (let mine = filter (\<lambda>p. pj_user p = user \<and> \<not> pj_archived p) projects;
          host = (if truthy url then host_of (the url) else None);
          recent = most_recent moments mine
      in take limit (sort_key (\<lambda>s. - sg_confidence s) (filter (\<lambda>s. 0 < sg_confidence s) (map (score_project moments user hint host recent) mine))))"

subsection \<open>Consent\<close>

definition consent_version :: int where "consent_version = 1"

record consent_record =
  cr_version :: "int option" \<comment> \<open>\<open>None\<close>: not a number\<close>
  cr_accepted_at :: string

definition consent_valid :: "(string \<Rightarrow> bool) \<Rightarrow> consent_record option \<Rightarrow> int \<Rightarrow> bool" where
  \<comment> \<open>the first argument tells whether \<open>Date.parse\<close> gives a finite number\<close>
  "consent_valid parses rec current =
     (case rec of
        None \<Rightarrow> False
      | Some r \<Rightarrow> (case cr_version r of None \<Rightarrow> False | Some v \<Rightarrow> current \<le> v \<and> parses (cr_accepted_at r)))"

definition make_consent :: "string \<Rightarrow> consent_record" where
  "make_consent now = \<lparr>cr_version = Some consent_version, cr_accepted_at = now\<rparr>"

subsection \<open>Facts\<close>

lemma first_sentence_prefix: "prefix (first_sentence b s) s"
  by (induction b s rule: first_sentence.induct) auto

lemma js_trim_first: "c # cs = js_trim s \<Longrightarrow> \<not> js_space c"
proof -
  assume t: "c # cs = js_trim s"
  let ?d = "dropWhile js_space s"
  have "prefix (js_trim s) ?d"
    unfolding js_trim_def by (metis suffix_dropWhile suffix_to_prefix rev_rev_ident)
  then have "\<exists>r. ?d = c # r" using t by (metis Cons_prefix_Cons prefix_def append_Cons)
  then show ?thesis by (metis hd_dropWhile list.sel(1) list.distinct(1))
qed

lemma summary_bounds: "0 < length (summarize txt) \<and> length (summarize txt) \<le> 140"
proof (cases "squeeze txt")
  case (Cons c cs)
  have "\<not> js_space c" by (rule js_trim_first [OF Cons [unfolded squeeze_def, symmetric]])
  then show ?thesis using Cons by (auto simp: summarize_def Let_def)
qed (simp add: summarize_def)

abbreviation failed_on :: "intent_input \<Rightarrow> intent_provider \<Rightarrow> bool" where
  "failed_on input p \<equiv> isl (ip_parse p input)"

definition failure_list :: "intent_input \<Rightarrow> intent_provider list \<Rightarrow> (string \<times> string) list" where
  "failure_list input ps = map (\<lambda>p. (ip_name p, projl (ip_parse p input))) ps"

lemma try_providers_spec:
  "try_providers (ps @ [heuristic_provider]) input fs =
     (case find (\<lambda>p. \<not> failed_on input p) ps of
        Some p \<Rightarrow> Inr (projr (ip_parse p input), ip_name p, fs @ failure_list input (takeWhile (failed_on input) ps))
      | None \<Rightarrow> Inr (heuristic_intent input, ''heuristic'', fs @ failure_list input ps))"
proof (induction ps arbitrary: fs)
  case (Cons p ps)
  then show ?case by (cases "ip_parse p input") (simp_all add: failure_list_def split: option.split)
qed (simp add: heuristic_provider_def failure_list_def)

text \<open>C28. The interpretation of a capture never fails, and the answer is the one of the first provider that gives
  one. The given providers are asked in their order, one called \<open>heuristic\<close> left out; the first that does not
  fail answers, with its name and the errors of exactly the providers asked before it; when all of them fail, the
  answer is the heuristic intent, with the errors of all of them. The heuristic intent has a summary of 1 to 140
  characters and a confidence between 0 and 1.\<close>

theorem intent_never_fails:
  "(let asked = filter (\<lambda>p. ip_name p \<noteq> ''heuristic'') providers
    in parse_intent providers input =
         (case find (\<lambda>p. \<not> failed_on input p) asked of
            Some p \<Rightarrow> Inr (projr (ip_parse p input), ip_name p, failure_list input (takeWhile (failed_on input) asked))
          | None \<Rightarrow> Inr (heuristic_intent input, ''heuristic'', failure_list input asked))) \<and>
   0 < length (pi_summary (heuristic_intent input)) \<and> length (pi_summary (heuristic_intent input)) \<le> 140 \<and>
   0 < pi_confidence (heuristic_intent input) \<and> pi_confidence (heuristic_intent input) \<le> 1"
proof (intro conjI, goal_cases)
  case 1
  have "ip_name heuristic_provider = ''heuristic''" by (simp add: heuristic_provider_def)
  then show ?case
    using try_providers_spec [of "filter (\<lambda>p. ip_name p \<noteq> ''heuristic'') providers" input "[]"]
    by (simp add: parse_intent_def intent_chain_def Let_def split: option.split)
qed (use summary_bounds [of "js_trim (ii_text input)"] in \<open>simp_all add: heuristic_intent_def Let_def case_prod_unfold\<close>)

text \<open>The pattern for a low priority asks for \<open>not urgent\<close>, but the pattern for a high one is tried first and finds
  \<open>urgent\<close> in it.\<close>

lemma not_urgent_is_high: "pi_priority (heuristic_intent \<lparr>ii_text = ''not urgent'', ii_page_title = None, ii_known_projects = []\<rparr>) = High_priority"
proof -
  have "js_trim ''not urgent'' = ''not urgent''" by code_simp
  moreover have "test_re high_re ''not urgent''" by code_simp
  ultimately show ?thesis by (simp add: heuristic_intent_def Let_def)
qed

lemma score_project_basic:
  "sg_id (score_project moments user hint host recent p) = pj_id p" "sg_confidence (score_project moments user hint host recent p) \<le> 1"
  by (simp_all only: score_project_def Let_def suggestion.simps min.cobounded1)

lemma sort_key_desc: "sorted_wrt (\<lambda>a b. f b \<le> f a) (sort_key (\<lambda>x. - f x) xs)" for f :: "'a \<Rightarrow> rat"
  using sorted_sort_key [of "\<lambda>x. - f x" xs] by (simp add: sorted_map)

lemma take_left_out:
  assumes "sorted_wrt P xs" "s \<in> set xs" "s \<notin> set (take n xs)"
  shows "list_all (\<lambda>t. P t s) (take n xs) \<and> length (take n xs) = n"
proof -
  have s: "s \<in> set (drop n xs)" using assms(2,3) by (metis append_take_drop_id set_append Un_iff)
  then have "n < length xs" by (metis drop_all empty_iff list.set(1) not_less)
  have "sorted_wrt P (take n xs @ drop n xs)" using assms(1) by simp
  then have "\<forall>t\<in>set (take n xs). P t s" using s by (simp only: sorted_wrt_append) blast
  then show ?thesis using \<open>n < length xs\<close> by (simp add: list_all_iff)
qed

text \<open>Suggestions are sound. At most the limit is returned, best first, each with a confidence above 0 and at most 1, each a
  project of the user that is not archived; and no project with a better score is left out.\<close>

theorem suggestions_are_sound:
  "(let out = suggest_projects host_of projects moments user hint url limit;
        host = (if truthy url then host_of (the url) else None);
        mine = filter (\<lambda>p. pj_user p = user \<and> \<not> pj_archived p) projects;
        scored = map (score_project moments user hint host (most_recent moments mine)) mine
    in length out \<le> limit \<and> sorted_wrt (\<lambda>a b. sg_confidence b \<le> sg_confidence a) out \<and>
       list_all (\<lambda>s. 0 < sg_confidence s \<and> sg_confidence s \<le> 1 \<and>
         list_ex (\<lambda>p. pj_id p = sg_id s \<and> pj_user p = user \<and> \<not> pj_archived p) projects) out \<and>
       list_all (\<lambda>s. if s \<in> set out then True else if 0 < sg_confidence s then list_all (\<lambda>t. sg_confidence s \<le> sg_confidence t) out \<and> length out = limit
         else True) scored)"
proof -
  define mine where "mine = filter (\<lambda>p. pj_user p = user \<and> \<not> pj_archived p) projects"
  define host where "host = (if truthy url then host_of (the url) else None)"
  define scored where "scored = map (score_project moments user hint host (most_recent moments mine)) mine"
  define ranked where "ranked = sort_key (\<lambda>s. - sg_confidence s) (filter (\<lambda>s. 0 < sg_confidence s) scored)"
  have out: "suggest_projects host_of projects moments user hint url limit = take limit ranked"
    by (simp add: suggest_projects_def Let_def mine_def host_def scored_def ranked_def)
  have desc: "sorted_wrt (\<lambda>a b. sg_confidence b \<le> sg_confidence a) ranked" unfolding ranked_def by (rule sort_key_desc)
  have members: "set ranked = {s \<in> set scored. 0 < sg_confidence s}" by (auto simp: ranked_def)
  have scored_ok: "sg_confidence s \<le> 1 \<and> list_ex (\<lambda>p. pj_id p = sg_id s \<and> pj_user p = user \<and> \<not> pj_archived p) projects" if "s \<in> set scored" for s
    using that by (auto simp: scored_def mine_def score_project_basic list_ex_iff)
  note left_out = take_left_out [OF desc]
  have sound: "0 < sg_confidence s \<and> sg_confidence s \<le> 1 \<and> list_ex (\<lambda>p. pj_id p = sg_id s \<and> pj_user p = user \<and> \<not> pj_archived p) projects"
    if "s \<in> set (take limit ranked)" for s
    using in_set_takeD [OF that] members scored_ok by blast
  have best: "if s \<in> set (take limit ranked) then True else if 0 < sg_confidence s
      then list_all (\<lambda>t. sg_confidence s \<le> sg_confidence t) (take limit ranked) \<and> length (take limit ranked) = limit else True"
    if "s \<in> set scored" for s
    using left_out [of s limit] members that by simp
  show ?thesis
    unfolding Let_def mine_def [symmetric] host_def [symmetric] scored_def [symmetric] out list_all_iff
  proof (intro conjI ballI)
    show "length (take limit ranked) \<le> limit" by simp
    show "sorted_wrt (\<lambda>a b. sg_confidence b \<le> sg_confidence a) (take limit ranked)" using sorted_wrt_take [OF desc] .
  next
    fix s
    assume "s \<in> set (take limit ranked)"
    from sound [OF this]
    show "0 < sg_confidence s" "sg_confidence s \<le> 1" "list_ex (\<lambda>p. pj_id p = sg_id s \<and> pj_user p = user \<and> \<not> pj_archived p) projects"
      by blast+
  next
    fix s
    assume "s \<in> set scored"
    from best [OF this]
    show "if s \<in> set (take limit ranked) then True else if 0 < sg_confidence s
      then (\<forall>t\<in>set (take limit ranked). sg_confidence s \<le> sg_confidence t) \<and> length (take limit ranked) = limit else True"
      unfolding list_all_iff .
  qed
qed

end
