(* ===== verification/Capture.thy ===== *)
theory Capture
  imports Actions Auth Intent
begin

text \<open>
  Context moments: the capture route, the timeline and the database tables of \<open>services/api/src/app.ts\<close>, with the
  product events of \<open>analytics.ts\<close>. A capture is redacted, its images are certified and moved to the media
  pipeline, its intent is parsed, and the rows are written in the order of the code. A handler takes the parsed
  request, the identifiers drawn for it and the database, and returns its reply with the new database. Queries
  do not fail; the enrichment queue, the host of a URL and the clock are parameters.
\<close>

subsection \<open>Tables\<close>

datatype source_mode = Instant_capture | Live_context

record source_meta =
  sm_url :: "string option"
  sm_title :: "string option"
  sm_favicon :: "string option"
  sm_app :: "string option"
  sm_viewport :: "(nat \<times> nat) option"

datatype enrichment_status = En_pending | En_processing | En_completed | En_failed | En_skipped

record capture_row =
  \<comment> \<open>a row of \<open>context_moments\<close>\<close>
  cm_id :: string
  cm_user :: string
  cm_project :: "string option"
  cm_mode :: source_mode
  cm_meta :: source_meta
  cm_payload :: "json option"
  cm_extracted :: "string option"
  cm_intent_text :: "string option"
  cm_summary :: "string option"
  cm_captured :: int
  cm_redacted :: bool
  cm_intent :: "parsed_intent option"
  cm_status :: enrichment_status
  cm_enrichment :: "json option"
  cm_image_state :: string
  cm_image_masked :: nat
  cm_image_tally :: "(visual_type \<times> nat) list"
  cm_ocr_text :: "string option"

record event_row =
  ev_user :: string
  ev_name :: string
  ev_props :: "(string \<times> json) list"

record version_row =
  \<comment> \<open>a row of \<open>enrichment_versions\<close>\<close>
  vn_moment :: string
  vn_user :: string
  vn_version :: nat
  vn_summary :: "string option"
  vn_enrichment :: "json option"
  vn_provider :: "string option"
  vn_model :: "string option"

record embedding_row =
  em_user :: string
  em_kind :: string
  em_owner :: string

record owned_row =
  \<comment> \<open>a row of a table that the handlers leave to the cascade: its table, user and moment\<close>
  ow_table :: string
  ow_user :: string
  ow_moment :: "string option"

record tombstone =
  tb_id :: string
  tb_user :: string
  tb_email_hash :: string
  tb_detail :: "(string \<times> json) list"

record ('rl, 's) nova =
  nv_users :: "user_row list"
  nv_sessions :: "session_row list"
  nv_projects :: "project_row list"
  nv_moments :: "capture_row list"
  nv_tasks :: "task_row list"
  nv_actions :: "action_row list"
  nv_connections :: "connection_row list"
  nv_versions :: "version_row list"
  nv_embeddings :: "embedding_row list"
  nv_owned :: "owned_row list"
  nv_audit :: "act_audit list"
  nv_events :: "event_row list"
  nv_jobs :: "(string \<times> string) list"
  nv_tombstones :: "tombstone list"
  nv_media :: "'s media"
  nv_limiter :: 'rl

definition nova_audit :: "string \<Rightarrow> string \<Rightarrow> string \<Rightarrow> (string \<times> json) list \<Rightarrow> ('rl, 's) nova \<Rightarrow> ('rl, 's) nova" where
  "nova_audit user event subject detail db =
     db\<lparr>nv_audit := nv_audit db @ [\<lparr>aa_user = user, aa_event = event, aa_subject = subject, aa_detail = detail\<rparr>]\<rparr>"

subsection \<open>Product events\<close>

definition safe_props :: "(string \<times> json) list \<Rightarrow> (string \<times> json) list" where
  \<comment> \<open>keys and texts are cut to 40 characters; keys that become equal are one entry\<close>
  "safe_props props =
     fold (\<lambda>(k, v) out. obj_set (take 40 k) (case v of JStr s \<Rightarrow> JStr (take 40 s) | _ \<Rightarrow> v) out) props []"

definition track :: "bool \<Rightarrow> string \<Rightarrow> string \<Rightarrow> (string \<times> json) list \<Rightarrow> ('rl, 's) nova \<Rightarrow> ('rl, 's) nova" where
  "track enabled user event props db =
     (if \<not> enabled then db
      else db\<lparr>nv_events := nv_events db @ [\<lparr>ev_user = user, ev_name = event, ev_props = safe_props props\<rparr>]\<rparr>)"

subsection \<open>Capturing\<close>

record capture_body =
  \<comment> \<open>the parsed request; \<open>undefined\<close> and \<open>null\<close> are both \<open>None\<close>, as both are stored as null\<close>
  cb_mode :: source_mode
  cb_meta :: source_meta
  cb_payload :: json
  cb_extracted :: "string option"
  cb_intent :: "string option"
  cb_project :: "string option"
  cb_strict :: bool

record 's capture_deps =
  ce_redaction_on :: bool
  ce_ocr :: "imaging option"
  ce_production :: bool
  ce_storage_on :: bool
  ce_media :: "media_env option" \<comment> \<open>\<open>None\<close>: the media pipeline is unavailable\<close>
  ce_store :: "'s store_ops"
  ce_enqueue :: "(string \<Rightarrow> string + string) option" \<comment> \<open>the enrichment queue: an exception or the id of the job\<close>
  ce_host_of :: "string \<Rightarrow> string option"
  ce_analytics :: bool

record capture_rnd =
  cx_moment :: string
  cx_now :: int
  cx_image :: "nat \<Rightarrow> image_rnd"
  cx_schedule :: "nat \<Rightarrow> nat"
  cx_action_id :: string
  cx_task_id :: string

type_synonym text_tally = "(redaction_type \<times> nat) list"

definition redact_text_field :: "string option \<Rightarrow> text_tally \<Rightarrow> string option \<times> text_tally" where
  \<comment> \<open>\<open>v ? redactDeep(v, tally) : v\<close>\<close>
  "redact_text_field v tally =
     (case v of
        None \<Rightarrow> (None, tally)
      | Some s \<Rightarrow> if s = [] then (Some s, tally)
          else let r = redact_text s in (Some (rr_text r), add_hits (rr_hits r) tally))"

definition redact_capture :: "capture_body \<Rightarrow> capture_body \<times> text_tally" where
  "redact_capture body =
     (case redact_text_field (cb_extracted body) [] of (extracted, t1) \<Rightarrow>
        case redact_text_field (cb_intent body) t1 of (intent, t2) \<Rightarrow>
          case redact_deep (cb_payload body) t2 of (payload, t3) \<Rightarrow>
            case redact_text_field (sm_title (cb_meta body)) t3 of (title, t4) \<Rightarrow>
              (body\<lparr>cb_extracted := extracted, cb_intent := intent, cb_payload := payload,
                    cb_meta := (cb_meta body)\<lparr>sm_title := title\<rparr>\<rparr>, t4))"

definition redacted_body :: "'s capture_deps \<Rightarrow> capture_body \<Rightarrow> capture_body \<times> text_tally option" where
  "redacted_body env body =
     (if ce_redaction_on env then (case redact_capture body of (b, t) \<Rightarrow> (b, Some t)) else (body, None))"

record image_stage =
  is_payload :: "json option"
  is_images :: "(string \<times> image_kind) list"
  is_state :: string
  is_report :: image_report
  is_ocr_text :: "string option"

definition capture_images :: "'s capture_deps \<Rightarrow> (nat \<Rightarrow> nat) \<Rightarrow> capture_body \<Rightarrow> image_error + image_stage" where
  \<comment> \<open>visual redaction, then the extraction of the images from the payload\<close>
  "capture_images env schedule body =
     (case redact_payload_images schedule (cb_payload body)
        \<lparr>po_ocr = ce_ocr env, po_strict = (cb_strict body \<or> ce_production env), po_storage_enabled = ce_storage_on env\<rparr> of
        Inl e \<Rightarrow> Inl e
      | Inr out \<Rightarrow>
          (case (case io_payload out of None \<Rightarrow> (None, []) | Some p \<Rightarrow> extract_payload_images p) of (payload, images) \<Rightarrow>
             let lost = images \<noteq> [] \<and> ce_media env = None
             in Inr \<lparr>is_payload = payload, is_images = (if lost then [] else images),
                     is_state = (if lost then ''media_unavailable'' else state_name (ir_state (io_report out))),
                     is_report = io_report out, is_ocr_text = io_ocr_text out\<rparr>))"

definition capture_intent :: "string \<Rightarrow> capture_body \<Rightarrow> ('rl, 's) nova \<Rightarrow> string + parsed_intent option" where
  "capture_intent user body db =
     (case cb_intent body of
        None \<Rightarrow> Inr None
      | Some txt \<Rightarrow>
          if js_trim txt = [] then Inr None
          else let names = map pj_name (filter (\<lambda>p. pj_user p = user \<and> \<not> pj_archived p) (nv_projects db))
               in (case parse_intent [] \<lparr>ii_text = txt, ii_page_title = sm_title (cb_meta body), ii_known_projects = names\<rparr> of
                     Inl e \<Rightarrow> Inl e
                   | Inr (intent, provider, failures) \<Rightarrow> Inr (Some intent)))"

definition source_of :: "capture_row \<Rightarrow> source_row" where
  "source_of m = \<lparr>sr_user = cm_user m, sr_project = cm_project m, sr_url = sm_url (cm_meta m), sr_captured = cm_captured m\<rparr>"

definition capture_suggestions :: "'s capture_deps \<Rightarrow> string \<Rightarrow> capture_body \<Rightarrow> parsed_intent option \<Rightarrow> ('rl, 's) nova \<Rightarrow> suggestion list" where
  "capture_suggestions env user body intent db =
     suggest_projects (ce_host_of env) (nv_projects db) (map source_of (nv_moments db)) user
       (case intent of None \<Rightarrow> None | Some i \<Rightarrow> pi_project_hint i) (sm_url (cb_meta body)) 3"

definition moment_of :: "'s capture_deps \<Rightarrow> capture_rnd \<Rightarrow> string \<Rightarrow> capture_body \<Rightarrow> image_stage \<Rightarrow> parsed_intent option \<Rightarrow> capture_row" where
  "moment_of env rnd user body img intent =
     \<lparr>cm_id = cx_moment rnd, cm_user = user, cm_project = cb_project body, cm_mode = cb_mode body, cm_meta = cb_meta body,
      cm_payload = is_payload img, cm_extracted = cb_extracted body, cm_intent_text = cb_intent body, cm_summary = None,
      cm_captured = cx_now rnd, cm_redacted = ce_redaction_on env, cm_intent = intent,
      cm_status = (if ce_enqueue env = None then En_skipped else En_pending), cm_enrichment = None,
      cm_image_state = is_state img, cm_image_masked = ir_masked (is_report img), cm_image_tally = ir_tally (is_report img),
      cm_ocr_text = is_ocr_text img\<rparr>"

definition row_to_moment :: "capture_row \<Rightarrow> capture_row" where
  \<comment> \<open>the shape the API returns: the legacy inline media of the payload are stripped\<close>
  "row_to_moment m = m\<lparr>cm_payload := map_option sanitize_legacy_inline_media (cm_payload m)\<rparr>"

definition store_capture_media :: "'s capture_deps \<Rightarrow> capture_rnd \<Rightarrow> string \<Rightarrow> image_stage \<Rightarrow> ('rl, 's) nova \<Rightarrow> media_ref list \<times> ('rl, 's) nova" where
  \<comment> \<open>an exception of the pipeline leaves the moment without references\<close>
  "store_capture_media env rnd user img db =
     (case ce_media env of
        None \<Rightarrow> ([], db)
      | Some pipe \<Rightarrow>
          if is_images img = [] then ([], db)
          else (case store_moment_images pipe (ce_store env) user (cx_moment rnd)
                       (zip (map (cx_image rnd) [0..<length (is_images img)]) (is_images img)) (is_state img) (nv_media db) of
                  (res, md) \<Rightarrow> ((case res of Inl e \<Rightarrow> [] | Inr refs \<Rightarrow> refs), db\<lparr>nv_media := md\<rparr>)))"

definition set_status :: "string \<Rightarrow> enrichment_status \<Rightarrow> ('rl, 's) nova \<Rightarrow> ('rl, 's) nova" where
  "set_status mid st db = db\<lparr>nv_moments := map (\<lambda>m. if cm_id m = mid then m\<lparr>cm_status := st\<rparr> else m) (nv_moments db)\<rparr>"

definition enqueue_capture :: "'s capture_deps \<Rightarrow> capture_rnd \<Rightarrow> string \<Rightarrow> ('rl, 's) nova \<Rightarrow> string option \<times> ('rl, 's) nova" where
  "enqueue_capture env rnd user db =
     (case ce_enqueue env of
        None \<Rightarrow> (None, db)
      | Some add \<Rightarrow>
          (case add (cx_moment rnd) of
             Inr job \<Rightarrow> (Some job, db\<lparr>nv_jobs := nv_jobs db @ [(cx_moment rnd, user)]\<rparr>)
           | Inl err \<Rightarrow> (None, set_status (cx_moment rnd) En_skipped db)))"

definition log_override :: "capture_rnd \<Rightarrow> string \<Rightarrow> capture_body \<Rightarrow> suggestion list \<Rightarrow> ('rl, 's) nova \<Rightarrow> ('rl, 's) nova" where
  \<comment> \<open>JSON numbers are integers in this model: the confidence is in hundredths\<close>
  "log_override rnd user body suggestions db =
     (case (cb_project body, suggestions) of
        (Some chosen, best # others) \<Rightarrow>
          if chosen \<noteq> [] \<and> sg_id best \<noteq> chosen
          then nova_audit user ''project.link.override'' (cx_moment rnd)
                 [(''chosen_project_id'', JStr chosen), (''suggested_project_id'', JStr (sg_id best)),
                  (''suggested_confidence'', JNum \<lfloor>100 * sg_confidence best\<rfloor>)] db
          else db
      | _ \<Rightarrow> db)"

fun action_type_name :: "action_type \<Rightarrow> string" where
  "action_type_name Create_task = ''create_task''"
| "action_type_name Remind_follow_up = ''remind_follow_up''"
| "action_type_name Save_reference = ''save_reference''"
| "action_type_name Research = ''research''"
| "action_type_name Unknown_action = ''unknown''"

fun priority_name :: "priority \<Rightarrow> string" where
  "priority_name Low_priority = ''low''"
| "priority_name Normal_priority = ''normal''"
| "priority_name High_priority = ''high''"

fun parser_name :: "parser \<Rightarrow> string" where
  "parser_name Heuristic = ''heuristic''"
| "parser_name Llm = ''llm''"

definition creates_task :: "parsed_intent option \<Rightarrow> bool" where
  "creates_task intent \<longleftrightarrow> (case intent of None \<Rightarrow> False | Some i \<Rightarrow> pi_action i \<in> {Create_task, Remind_follow_up})"

definition auto_task :: "'s capture_deps \<Rightarrow> capture_rnd \<Rightarrow> string \<Rightarrow> capture_body \<Rightarrow> parsed_intent option \<Rightarrow> ('rl, 's) nova \<Rightarrow>
    (string \<times> string) option \<times> ('rl, 's) nova" where
  \<comment> \<open>the Tier-0 action, its task, the result of the action and the audit row\<close>
  "auto_task env rnd user body intent db =
     (case intent of
        None \<Rightarrow> (None, db)
      | Some i \<Rightarrow>
          if \<not> creates_task intent then (None, db)
          else
            let action = \<lparr>an_id = cx_action_id rnd, an_user = user, an_type = ''nova_task'', an_risk = 0, an_status = Done,
                  an_moment = Some (cx_moment rnd), an_project = cb_project body,
                  an_payload = \<lparr>py_title = Some (pi_summary i), py_detail = None, py_priority = Some (priority_name (pi_priority i)),
                    py_destination = None, py_media_ids = None\<rparr>,
                  an_result = Some (no_result\<lparr>rs_task_id := Some (cx_task_id rnd)\<rparr>), an_approved_by = None\<rparr>;
                task = \<lparr>tk_id = cx_task_id rnd, tk_user = user, tk_project = cb_project body, tk_moment = Some (cx_moment rnd),
                  tk_action = cx_action_id rnd, tk_title = pi_summary i, tk_notes = cb_intent body,
                  tk_priority = priority_name (pi_priority i)\<rparr>;
                db1 = track (ce_analytics env) user ''task_created''
                  [(''tier'', JNum 0), (''priority'', JStr (priority_name (pi_priority i)))]
                  (db\<lparr>nv_actions := nv_actions db @ [action], nv_tasks := nv_tasks db @ [task]\<rparr>)
            in (Some (cx_task_id rnd, pi_summary i),
                nova_audit user ''action.execute'' (cx_action_id rnd)
                  [(''action_type'', JStr ''nova_task''), (''risk_tier'', JNum 0), (''task_id'', JStr (cx_task_id rnd)),
                   (''intent_parser'', JStr (parser_name (pi_parser i)))] db1))"

definition opt_str :: "string option \<Rightarrow> json" where
  "opt_str v = (case v of None \<Rightarrow> JNull | Some s \<Rightarrow> JStr s)"

definition tally_json :: "('k \<Rightarrow> string) \<Rightarrow> ('k \<times> nat) list \<Rightarrow> json" where
  "tally_json name t = JObj (map (\<lambda>(k, n). (name k, JNum (int n))) t)"

fun visual_name :: "visual_type \<Rightarrow> string" where
  "visual_name (Text_type t) = type_name t"
| "visual_name Auth_code = ''auth_code''"
| "visual_name Address = ''address''"

definition mode_text :: "source_mode \<Rightarrow> string" where
  "mode_text m = (case m of Instant_capture \<Rightarrow> ''instant_capture'' | Live_context \<Rightarrow> ''live_context'')"

definition safe_host :: "(string \<Rightarrow> string option) \<Rightarrow> source_meta \<Rightarrow> string option" where
  "safe_host host_of meta = (case sm_url meta of None \<Rightarrow> None | Some u \<Rightarrow> host_of u)"

definition capture_detail :: "'s capture_deps \<Rightarrow> capture_body \<Rightarrow> text_tally option \<Rightarrow> image_stage \<Rightarrow> parsed_intent option \<Rightarrow> nat \<Rightarrow>
    (string \<times> json) list" where
  "capture_detail env body tally img intent stored =
     [(''source_mode'', JStr (mode_text (cb_mode body))),
      (''url_host'', opt_str (safe_host (ce_host_of env) (cb_meta body))),
      (''intent_action'', opt_str (map_option (\<lambda>i. action_type_name (pi_action i)) intent)),
      (''intent_parser'', opt_str (map_option (\<lambda>i. parser_name (pi_parser i)) intent)),
      (''text_redaction'', JStr (if ce_redaction_on env then ''applied'' else ''skipped'')),
      (''redactions'', case tally of None \<Rightarrow> JNull | Some t \<Rightarrow> tally_json type_name t),
      (''image_redaction'', JStr (is_state img)),
      (''image_redactions'', tally_json visual_name (ir_tally (is_report img))),
      (''images_masked'', JNum (int (ir_masked (is_report img)))),
      (''image_storage_disabled'', JBool (\<not> ce_storage_on env)),
      (''strict_blocked'', JBool (is_state img = ''blocked_strict'')),
      (''media_stored'', JNum (int stored))]"

definition has_screenshot :: "image_stage \<Rightarrow> bool" where
  \<comment> \<open>\<open>typeof body.payload["screenshot_data_url"] === "string"\<close>, after the extraction\<close>
  "has_screenshot img = (case is_payload img of None \<Rightarrow> False | Some p \<Rightarrow> (case jget screenshot_key p of Some (JStr s) \<Rightarrow> True | _ \<Rightarrow> False))"

definition capture_event :: "capture_body \<Rightarrow> text_tally option \<Rightarrow> image_stage \<Rightarrow> string option \<Rightarrow> (string \<times> json) list" where
  "capture_event body tally img job =
     [(''has_screenshot'', JBool (has_screenshot img)),
      (''image_redaction'', JStr (is_state img)),
      (''has_intent'', JBool (truthy (cb_intent body))),
      (''linked'', JBool (truthy (cb_project body))),
      (''enrichment'', JStr (if truthy job then ''queued'' else ''skipped'')),
      (''redactions'', JNum (case tally of None \<Rightarrow> 0 | Some t \<Rightarrow> int (tally_total t)))]"

record capture_reply =
  rp_id :: string
  rp_project :: "string option"
  rp_captured :: int
  rp_redacted :: bool
  rp_job :: "string option"
  rp_suggestions :: "suggestion list"
  rp_image_state :: string
  rp_media :: "media_ref list"
  rp_intent :: "parsed_intent option"
  rp_task :: "(string \<times> string) option"

definition write_capture :: "'s capture_deps \<Rightarrow> capture_rnd \<Rightarrow> string \<Rightarrow> capture_body \<Rightarrow> text_tally option \<Rightarrow> image_stage \<Rightarrow>
    parsed_intent option \<Rightarrow> suggestion list \<Rightarrow> ('rl, 's) nova \<Rightarrow> capture_reply \<times> ('rl, 's) nova" where
  "write_capture env rnd user body tally img intent suggestions db =
     (let db1 = db\<lparr>nv_moments := nv_moments db @ [moment_of env rnd user body img intent]\<rparr>
      in case store_capture_media env rnd user img db1 of (media, db2) \<Rightarrow>
         case enqueue_capture env rnd user db2 of (job, db3) \<Rightarrow>
         case auto_task env rnd user body intent (log_override rnd user body suggestions db3) of (task, db4) \<Rightarrow>
           (\<lparr>rp_id = cx_moment rnd, rp_project = cb_project body, rp_captured = cx_now rnd, rp_redacted = ce_redaction_on env,
             rp_job = job, rp_suggestions = (if truthy (cb_project body) then [] else suggestions),
             rp_image_state = is_state img, rp_media = media, rp_intent = intent, rp_task = task\<rparr>,
            track (ce_analytics env) user
              (if cb_mode body = Live_context then ''live_moment_saved'' else ''instant_capture_saved'')
              (capture_event body tally img job)
              (nova_audit user ''capture'' (cx_moment rnd) (capture_detail env body tally img intent (length media)) db4)))"

definition project_known :: "string \<Rightarrow> capture_body \<Rightarrow> ('rl, 's) nova \<Rightarrow> bool" where
  "project_known user body db \<longleftrightarrow>
     (if truthy (cb_project body)
      then list_ex (\<lambda>p. pj_id p = the (cb_project body) \<and> pj_user p = user) (nv_projects db) else True)"

definition capture_moment :: "'s capture_deps \<Rightarrow> capture_rnd \<Rightarrow> string \<Rightarrow> capture_body option \<Rightarrow> ('rl, 's) nova \<Rightarrow>
    capture_reply response \<times> ('rl, 's) nova" where
  "capture_moment env rnd user parsed db =
     (case parsed of
        None \<Rightarrow> (Refuse 400 ''invalid_request'', db)
      | Some raw \<Rightarrow>
          if \<not> project_known user raw db then (Refuse 400 ''invalid_request'', db)
          else (case redacted_body env raw of (body, tally) \<Rightarrow>
                  case capture_images env (cx_schedule rnd) body of
                    Inl e \<Rightarrow> (Raise ''image redaction failed'', db)
                  | Inr img \<Rightarrow>
                      (case capture_intent user body db of
                         Inl e \<Rightarrow> (Raise e, db)
                       | Inr intent \<Rightarrow>
                           (case write_capture env rnd user body tally img intent (capture_suggestions env user body intent db) db of
                              (reply, db') \<Rightarrow> (Reply 201 reply, db')))))"

subsection \<open>The timeline\<close>

record enrichment_meta =
  mt_version :: nat
  mt_versions :: nat
  mt_provider :: "string option"
  mt_model :: "string option"

record timeline_item =
  ti_moment :: capture_row
  ti_media :: "media_ref list"
  ti_meta :: "enrichment_meta option"

definition attach_media :: "'s capture_deps \<Rightarrow> ('rl, 's) nova \<Rightarrow> capture_row list \<Rightarrow> (capture_row \<times> media_ref list) list" where
  "attach_media env db items =
     (let refs = (if ce_media env = None then [] else list_for_moments (map cm_id items) (nv_media db))
      in map (\<lambda>m. (m, case map_of refs (cm_id m) of None \<Rightarrow> [] | Some xs \<Rightarrow> xs)) items)"

definition latest_version :: "version_row list \<Rightarrow> version_row option" where
  \<comment> \<open>\<open>DISTINCT ON (moment_id) ... ORDER BY moment_id, version DESC\<close>\<close>
  "latest_version vs = (case sort_key (\<lambda>v. - int (vn_version v)) vs of [] \<Rightarrow> None | v # others \<Rightarrow> Some v)"

definition enrichment_meta_of :: "('rl, 's) nova \<Rightarrow> string \<Rightarrow> enrichment_meta option" where
  "enrichment_meta_of db mid =
     (let vs = filter (\<lambda>v. vn_moment v = mid) (nv_versions db)
      in map_option (\<lambda>v. \<lparr>mt_version = vn_version v, mt_versions = length vs, mt_provider = vn_provider v, mt_model = vn_model v\<rparr>)
           (latest_version vs))"

definition timeline_items :: "'s capture_deps \<Rightarrow> ('rl, 's) nova \<Rightarrow> capture_row list \<Rightarrow> timeline_item list" where
  "timeline_items env db rows =
     map (\<lambda>(m, refs). \<lparr>ti_moment = m, ti_media = refs, ti_meta = enrichment_meta_of db (cm_id m)\<rparr>)
       (attach_media env db (map row_to_moment rows))"

record list_query =
  lq_limit :: nat
  lq_before :: "int option"
  lq_project :: "string option"

definition moments_matching :: "string \<Rightarrow> list_query \<Rightarrow> capture_row list \<Rightarrow> capture_row list" where
  "moments_matching user q ms =
     filter (\<lambda>m. cm_user m = user \<and> (case lq_before q of None \<Rightarrow> True | Some t \<Rightarrow> cm_captured m < t) \<and>
       (case lq_project q of None \<Rightarrow> True | Some p \<Rightarrow> cm_project m = Some p)) ms"

definition list_moments :: "'s capture_deps \<Rightarrow> string \<Rightarrow> list_query option \<Rightarrow> ('rl, 's) nova \<Rightarrow> (timeline_item list \<times> int option) response" where
  "list_moments env user parsed db =
     (case parsed of
        None \<Rightarrow> Refuse 400 ''invalid_request''
      | Some q \<Rightarrow>
          let items = timeline_items env db
                (take (lq_limit q) (sort_key (\<lambda>m. - cm_captured m) (moments_matching user q (nv_moments db))))
          in Reply 200 (items, if length items = lq_limit q \<and> items \<noteq> [] then Some (cm_captured (ti_moment (last items))) else None))"

definition find_moment :: "string \<Rightarrow> string \<Rightarrow> ('rl, 's) nova \<Rightarrow> capture_row option" where
  "find_moment mid user db = find (\<lambda>m. cm_id m = mid \<and> cm_user m = user) (nv_moments db)"

definition get_moment :: "'s capture_deps \<Rightarrow> string \<Rightarrow> string option \<Rightarrow> ('rl, 's) nova \<Rightarrow> timeline_item response" where
  \<comment> \<open>the id is \<open>None\<close> when it is not a UUID\<close>
  "get_moment env user mid db =
     (case mid of
        None \<Rightarrow> Refuse 404 ''not_found''
      | Some i \<Rightarrow>
          (case find_moment i user db of
             None \<Rightarrow> Refuse 404 ''not_found''
           | Some m \<Rightarrow> Reply 200 (hd (timeline_items env db [m]))))"

definition list_projects :: "string \<Rightarrow> ('rl, 's) nova \<Rightarrow> (project_row \<times> nat \<times> nat) list response" where
  \<comment> \<open>the rows are in the order of creation\<close>
  "list_projects user db =
     Reply 200 (map (\<lambda>p. (p, length (filter (\<lambda>m. cm_project m = Some (pj_id p)) (nv_moments db)),
                            length (filter (\<lambda>t. tk_project t = Some (pj_id p)) (nv_tasks db))))
       (filter (\<lambda>p. pj_user p = user \<and> \<not> pj_archived p) (nv_projects db)))"

subsection \<open>Facts\<close>

lemma capture_images_facts:
  assumes "capture_images env schedule body = Inr img"
  shows "images_opt (is_payload img) = []"
    and "is_images img \<noteq> [] \<Longrightarrow> is_safe_media_redaction_state (Some (is_state img)) \<Longrightarrow>
           (case ce_ocr env of None \<Rightarrow> False
            | Some im \<Rightarrow> list_all2 (certified_image im) (images_of (cb_payload body)) (map fst (is_images img))) \<and> is_state img = ''applied''"
    and "ce_production env \<Longrightarrow> is_state img \<notin> {''failed'', ''coverage_insufficient''}"
proof -
  let ?opts = "\<lparr>po_ocr = ce_ocr env, po_strict = (cb_strict body \<or> ce_production env), po_storage_enabled = ce_storage_on env\<rparr>"
  obtain out where out: "redact_payload_images schedule (cb_payload body) ?opts = Inr out"
    using assms by (auto simp: capture_images_def split: sum.splits)
  note promise = redact_payload_images_report [OF out]
  define px where "px = (case io_payload out of None \<Rightarrow> (None, []) | Some p \<Rightarrow> extract_payload_images p)"
  have clean: "images_opt (fst px) = []" and imgs: "map fst (snd px) = images_opt (io_payload out)"
  proof -
    have "images_opt (fst (extract_payload_images p)) = [] \<and> map fst (snd (extract_payload_images p)) = images_of p" for p
      using extract_walk_eq(1) [of None p "[]"] without_images_clean(1) [of p] by (simp add: extract_payload_images_def)
    then show "images_opt (fst px) = []" "map fst (snd px) = images_opt (io_payload out)"
      unfolding px_def by (cases "io_payload out"; simp)+
  qed
  have img: "is_payload img = fst px" "is_images img = (if snd px \<noteq> [] \<and> ce_media env = None then [] else snd px)"
    "is_state img = (if snd px \<noteq> [] \<and> ce_media env = None then ''media_unavailable'' else state_name (ir_state (io_report out)))"
    using assms out by (auto simp: capture_images_def px_def [symmetric] Let_def split: prod.splits)
  show "images_opt (is_payload img) = []" using clean img by simp
  show "ce_production env \<Longrightarrow> is_state img \<notin> {''failed'', ''coverage_insufficient''}"
    using promise img by (cases "ir_state (io_report out)") (auto simp: report_promise_def)
  assume some: "is_images img \<noteq> []" and safe: "is_safe_media_redaction_state (Some (is_state img))"
  have "images_opt (io_payload out) \<noteq> []" using some img imgs by (auto split: if_splits)
  then show "(case ce_ocr env of None \<Rightarrow> False
      | Some im \<Rightarrow> list_all2 (certified_image im) (images_of (cb_payload body)) (map fst (is_images img))) \<and> is_state img = ''applied''"
    using promise img imgs some safe
    by (cases "ir_state (io_report out)") (auto simp: report_promise_def is_safe_media_redaction_state_def split: if_splits option.splits)
qed

lemma nova_audit_tables [simp]:
  "nv_moments (nova_audit u e sub d db) = nv_moments db" "nv_media (nova_audit u e sub d db) = nv_media db"
  "nv_tasks (nova_audit u e sub d db) = nv_tasks db" "nv_actions (nova_audit u e sub d db) = nv_actions db"
  "nv_projects (nova_audit u e sub d db) = nv_projects db" "nv_users (nova_audit u e sub d db) = nv_users db"
  "nv_sessions (nova_audit u e sub d db) = nv_sessions db" "nv_connections (nova_audit u e sub d db) = nv_connections db"
  "nv_versions (nova_audit u e sub d db) = nv_versions db" "nv_embeddings (nova_audit u e sub d db) = nv_embeddings db"
  "nv_owned (nova_audit u e sub d db) = nv_owned db" "nv_jobs (nova_audit u e sub d db) = nv_jobs db"
  "nv_events (nova_audit u e sub d db) = nv_events db" "nv_tombstones (nova_audit u e sub d db) = nv_tombstones db"
  "nv_limiter (nova_audit u e sub d db) = nv_limiter db"
  by (simp_all add: nova_audit_def)

lemma track_tables [simp]:
  "nv_moments (track b u e ps db) = nv_moments db" "nv_media (track b u e ps db) = nv_media db"
  "nv_tasks (track b u e ps db) = nv_tasks db" "nv_actions (track b u e ps db) = nv_actions db"
  "nv_projects (track b u e ps db) = nv_projects db" "nv_users (track b u e ps db) = nv_users db"
  "nv_sessions (track b u e ps db) = nv_sessions db" "nv_connections (track b u e ps db) = nv_connections db"
  "nv_versions (track b u e ps db) = nv_versions db" "nv_embeddings (track b u e ps db) = nv_embeddings db"
  "nv_owned (track b u e ps db) = nv_owned db" "nv_jobs (track b u e ps db) = nv_jobs db"
  "nv_audit (track b u e ps db) = nv_audit db" "nv_tombstones (track b u e ps db) = nv_tombstones db"
  "nv_limiter (track b u e ps db) = nv_limiter db"
  by (simp_all add: track_def)

lemma log_override_tables [simp]:
  "nv_moments (log_override rnd u b ss db) = nv_moments db" "nv_media (log_override rnd u b ss db) = nv_media db"
  "nv_tasks (log_override rnd u b ss db) = nv_tasks db" "nv_jobs (log_override rnd u b ss db) = nv_jobs db"
  by (simp_all add: log_override_def split: list.split option.split)

lemma auto_task_tables:
  assumes "auto_task env rnd u b i db = (t, db')"
  shows "nv_moments db' = nv_moments db" "nv_media db' = nv_media db" "nv_jobs db' = nv_jobs db"
    "\<exists>new. nv_tasks db' = nv_tasks db @ new \<and> list_all (\<lambda>k. tk_user k = u \<and> tk_moment k = Some (cx_moment rnd) \<and> tk_notes k = cb_intent b) new \<and>
       length new = (if creates_task i then 1 else 0)"
  using assms by (auto simp: auto_task_def creates_task_def Let_def split: option.splits if_splits)

lemma enqueue_capture_tables:
  assumes "enqueue_capture env rnd u db = (job, db')"
  shows "nv_media db' = nv_media db" "nv_tasks db' = nv_tasks db"
    "nv_moments db' = (case (ce_enqueue env, job) of (Some add, None) \<Rightarrow> nv_moments (set_status (cx_moment rnd) En_skipped db) | _ \<Rightarrow> nv_moments db)"
    "nv_jobs db' = nv_jobs db @ (if job = None then [] else [(cx_moment rnd, u)])"
  using assms by (auto simp: enqueue_capture_def set_status_def split: option.splits sum.splits)

lemma store_capture_media_tables:
  assumes "store_capture_media env rnd u img db = (refs, db')"
  shows "nv_moments db' = nv_moments db" "nv_tasks db' = nv_tasks db" "nv_jobs db' = nv_jobs db"
    "\<exists>new. md_rows (nv_media db') = md_rows (nv_media db) @ new \<and>
       list_all (\<lambda>r. mr_user r = u \<and> mr_moment r = cx_moment rnd \<and> mr_state r = is_state img) new \<and>
       (new \<noteq> [] \<longrightarrow> is_images img \<noteq> [] \<and> is_safe_media_redaction_state (Some (is_state img)))"
proof -
  show "nv_moments db' = nv_moments db" "nv_tasks db' = nv_tasks db" "nv_jobs db' = nv_jobs db"
    using assms by (auto simp: store_capture_media_def split: option.splits if_splits prod.splits)
  have one: "\<exists>new. md_rows w' = md_rows w @ new \<and> list_all (\<lambda>r. mr_user r = u \<and> mr_moment r = cx_moment rnd \<and> mr_state r = is_state img) new \<and>
      (new \<noteq> [] \<longrightarrow> is_safe_media_redaction_state (Some (is_state img)))"
    if "store_moment_images pipe ops u (cx_moment rnd) imgs (is_state img) w = (res, w')" for pipe ops imgs w res w'
    using that store_images_rows [of pipe ops u "cx_moment rnd" "is_state img" imgs w res w']
    by (cases "is_safe_media_redaction_state (Some (is_state img))") (auto simp: store_moment_images_def list_all_iff)
  show "\<exists>new. md_rows (nv_media db') = md_rows (nv_media db) @ new \<and>
       list_all (\<lambda>r. mr_user r = u \<and> mr_moment r = cx_moment rnd \<and> mr_state r = is_state img) new \<and>
       (new \<noteq> [] \<longrightarrow> is_images img \<noteq> [] \<and> is_safe_media_redaction_state (Some (is_state img)))"
    using assms one by (fastforce simp: store_capture_media_def split: option.splits if_splits prod.splits)
qed

definition clean_text :: "string \<Rightarrow> string" where
  "clean_text s = rr_text (redact_text s)"

lemma clean_text_Nil: "clean_text [] = []"
proof -
  have "find_sensitive_ranges [] = []" by code_simp
  then show ?thesis unfolding clean_text_def by (simp add: find_sensitive_ranges_Nil redact_text_unchanged)
qed

lemma redact_text_field_text: "fst (redact_text_field v t) = map_option clean_text v"
  using clean_text_Nil by (cases v) (simp_all add: redact_text_field_def clean_text_def Let_def)

lemma redact_capture_texts:
  assumes "redact_capture raw = (body, t)"
  shows "cb_extracted body = map_option clean_text (cb_extracted raw)" "cb_intent body = map_option clean_text (cb_intent raw)"
    "sm_title (cb_meta body) = map_option clean_text (sm_title (cb_meta raw))"
  using assms redact_text_field_text by (auto simp: redact_capture_def split: prod.splits) (metis fst_conv)+

lemma write_capture_tables:
  assumes w: "write_capture env rnd user body tally img intent sugg db = (reply, db')"
    and img: "capture_images env (cx_schedule rnd) body = Inr img"
  shows "\<exists>old m. nv_moments db' = old @ [m] \<and> cm_id m = cx_moment rnd \<and> cm_user m = user \<and> cm_payload m = is_payload img \<and>
      cm_extracted m = cb_extracted body \<and> cm_intent_text m = cb_intent body \<and> cm_meta m = cb_meta body \<and>
      cm_image_state m = is_state img \<and>
      (if list_all (\<lambda>x. cm_id x \<noteq> cx_moment rnd) (nv_moments db) then old = nv_moments db else True)"
    and "\<exists>tasks. nv_tasks db' = nv_tasks db @ tasks \<and> list_all (\<lambda>k. tk_user k = user \<and> tk_notes k = cb_intent body) tasks"
    and "\<exists>rows. md_rows (nv_media db') = md_rows (nv_media db) @ rows \<and>
      list_all (\<lambda>x. mr_user x = user \<and> mr_moment x = cx_moment rnd \<and> mr_state x = ''applied'' \<and>
        (case ce_ocr env of None \<Rightarrow> False
         | Some im \<Rightarrow> list_all2 (certified_image im) (images_of (cb_payload body)) (map fst (is_images img)))) rows"
proof -
  let ?m = "moment_of env rnd user body img intent"
  define db1 where "db1 = db\<lparr>nv_moments := nv_moments db @ [?m]\<rparr>"
  obtain media db2 where 2: "store_capture_media env rnd user img db1 = (media, db2)"
    by (cases "store_capture_media env rnd user img db1")
  obtain job db3 where 3: "enqueue_capture env rnd user db2 = (job, db3)" by (cases "enqueue_capture env rnd user db2")
  obtain task db4 where 4: "auto_task env rnd user body intent (log_override rnd user body sugg db3) = (task, db4)"
    by (cases "auto_task env rnd user body intent (log_override rnd user body sugg db3)")
  have end_tables: "nv_moments db' = nv_moments db4" "nv_tasks db' = nv_tasks db4" "nv_media db' = nv_media db4"
    using w 2 3 4 by (auto simp: write_capture_def Let_def db1_def [symmetric])
  note t2 = store_capture_media_tables [OF 2] and t3 = enqueue_capture_tables [OF 3] and t4 = auto_task_tables [OF 4]
  have start: "nv_moments db1 = nv_moments db @ [?m]" "nv_tasks db1 = nv_tasks db" "nv_media db1 = nv_media db" by (simp_all add: db1_def)
  have m4: "nv_moments db4 = nv_moments db3" using t4(1) by simp
  have m3: "nv_moments db3 = nv_moments db @ [?m] \<or>
      nv_moments db3 = map (\<lambda>m. if cm_id m = cx_moment rnd then m\<lparr>cm_status := En_skipped\<rparr> else m) (nv_moments db @ [?m])"
    using t3(3) t2(1) start(1) by (auto simp: set_status_def split: option.splits)
  show "\<exists>old m. nv_moments db' = old @ [m] \<and> cm_id m = cx_moment rnd \<and> cm_user m = user \<and> cm_payload m = is_payload img \<and>
      cm_extracted m = cb_extracted body \<and> cm_intent_text m = cb_intent body \<and> cm_meta m = cb_meta body \<and>
      cm_image_state m = is_state img \<and>
      (if list_all (\<lambda>x. cm_id x \<noteq> cx_moment rnd) (nv_moments db) then old = nv_moments db else True)"
    using m3
  proof
    assume "nv_moments db3 = nv_moments db @ [?m]"
    then show ?thesis using end_tables(1) m4 by (intro exI [of _ "nv_moments db"] exI [of _ ?m]) (simp add: moment_of_def)
  next
    assume e: "nv_moments db3 = map (\<lambda>m. if cm_id m = cx_moment rnd then m\<lparr>cm_status := En_skipped\<rparr> else m) (nv_moments db @ [?m])"
    have keep: "map (\<lambda>m. if cm_id m = i then m\<lparr>cm_status := En_skipped\<rparr> else m) ms = ms" if "list_all (\<lambda>x. cm_id x \<noteq> i) ms" for i ms
      using that by (induction ms) auto
    show ?thesis
      using e end_tables(1) m4 keep [of "cx_moment rnd" "nv_moments db"]
      by (intro exI [of _ "map (\<lambda>m. if cm_id m = cx_moment rnd then m\<lparr>cm_status := En_skipped\<rparr> else m) (nv_moments db)"]
          exI [of _ "?m\<lparr>cm_status := En_skipped\<rparr>"]) (simp add: moment_of_def)
  qed
  show "\<exists>tasks. nv_tasks db' = nv_tasks db @ tasks \<and> list_all (\<lambda>k. tk_user k = user \<and> tk_notes k = cb_intent body) tasks"
    using t4(4) t3(2) t2(2) start(2) end_tables(2) by (auto simp: list_all_iff)
  from t2(4) obtain rows where rows: "md_rows (nv_media db2) = md_rows (nv_media db1) @ rows"
    "list_all (\<lambda>r. mr_user r = user \<and> mr_moment r = cx_moment rnd \<and> mr_state r = is_state img) rows"
    "rows \<noteq> [] \<longrightarrow> is_images img \<noteq> [] \<and> is_safe_media_redaction_state (Some (is_state img))" by blast
  have "list_all (\<lambda>x. mr_user x = user \<and> mr_moment x = cx_moment rnd \<and> mr_state x = ''applied'' \<and>
        (case ce_ocr env of None \<Rightarrow> False
         | Some im \<Rightarrow> list_all2 (certified_image im) (images_of (cb_payload body)) (map fst (is_images img)))) rows"
    using rows capture_images_facts(2) [OF img] by (cases "rows = []") (auto simp: list_all_iff)
  moreover have "nv_media db' = nv_media db2" "nv_media db1 = nv_media db" using end_tables(3) t4(2) t3(1) start(3) by simp_all
  ultimately show "\<exists>rows. md_rows (nv_media db') = md_rows (nv_media db) @ rows \<and>
      list_all (\<lambda>x. mr_user x = user \<and> mr_moment x = cx_moment rnd \<and> mr_state x = ''applied'' \<and>
        (case ce_ocr env of None \<Rightarrow> False
         | Some im \<Rightarrow> list_all2 (certified_image im) (images_of (cb_payload body)) (map fst (is_images img)))) rows"
    using rows(1) by auto
qed

text \<open>C29. What a capture stores. A refused or failed capture changes nothing. Otherwise one moment is added, of the user, whose payload
  holds no inline image; with redaction on, its page text, instruction and title are the redacted ones, and so
  are the notes of the task it may create. Media rows are added only for this moment and user and only in the state
  \<open>applied\<close>, when every image of the payload was replaced by the result of a certified analysis; and in production no
  moment is ever recorded with a failed or insufficient image redaction.\<close>

theorem capture_stores_only_redacted:
  "case capture_moment env rnd user (Some raw) db of (r, db') \<Rightarrow>
     (case r of
        Reply status reply \<Rightarrow>
          \<exists>body tally img old m rows tasks.
            redacted_body env raw = (body, tally) \<and> capture_images env (cx_schedule rnd) body = Inr img \<and>
            nv_moments db' = old @ [m] \<and> cm_id m = cx_moment rnd \<and> cm_user m = user \<and> images_opt (cm_payload m) = [] \<and>
            (if list_all (\<lambda>x. cm_id x \<noteq> cx_moment rnd) (nv_moments db) then old = nv_moments db else True) \<and>
            (if ce_redaction_on env
             then cm_extracted m = map_option clean_text (cb_extracted raw) \<and> cm_intent_text m = map_option clean_text (cb_intent raw) \<and>
               sm_title (cm_meta m) = map_option clean_text (sm_title (cb_meta raw))
             else True) \<and>
            nv_tasks db' = nv_tasks db @ tasks \<and> list_all (\<lambda>k. tk_user k = user \<and> tk_notes k = cm_intent_text m) tasks \<and>
            md_rows (nv_media db') = md_rows (nv_media db) @ rows \<and>
            list_all (\<lambda>x. mr_user x = user \<and> mr_moment x = cm_id m \<and> mr_state x = ''applied'' \<and>
              (case ce_ocr env of None \<Rightarrow> False
               | Some im \<Rightarrow> list_all2 (certified_image im) (images_of (cb_payload body)) (map fst (is_images img)))) rows \<and>
            (if ce_production env then cm_image_state m \<notin> {''failed'', ''coverage_insufficient''} else True)
      | _ \<Rightarrow> db' = db)"
proof (cases "project_known user raw db")
  case False
  then show ?thesis by (simp add: capture_moment_def)
next
  case known: True
  obtain body tally where b: "redacted_body env raw = (body, tally)" by (cases "redacted_body env raw")
  show ?thesis
  proof (cases "capture_images env (cx_schedule rnd) body")
    case (Inl e)
    then show ?thesis using known b by (simp add: capture_moment_def)
  next
    case img: (Inr img)
    show ?thesis
    proof (cases "capture_intent user body db")
      case (Inl e)
      then show ?thesis using known b img by (simp add: capture_moment_def)
    next
      case (Inr intent)
      let ?sugg = "capture_suggestions env user body intent db" and ?m = "moment_of env rnd user body img intent"
      obtain reply db' where w: "write_capture env rnd user body tally img intent ?sugg db = (reply, db')"
        by (cases "write_capture env rnd user body tally img intent ?sugg db")
      have out: "capture_moment env rnd user (Some raw) db = (Reply 201 reply, db')"
        using known b img Inr w by (simp add: capture_moment_def)
      note t = write_capture_tables [OF w img]
      from t(1) obtain old m where m: "nv_moments db' = old @ [m]" "cm_id m = cx_moment rnd" "cm_user m = user" "cm_payload m = is_payload img"
        "cm_extracted m = cb_extracted body" "cm_intent_text m = cb_intent body" "cm_meta m = cb_meta body" "cm_image_state m = is_state img"
        "if list_all (\<lambda>x. cm_id x \<noteq> cx_moment rnd) (nv_moments db) then old = nv_moments db else True" by blast
      have texts: "if ce_redaction_on env
             then cm_extracted m = map_option clean_text (cb_extracted raw) \<and> cm_intent_text m = map_option clean_text (cb_intent raw) \<and>
               sm_title (cm_meta m) = map_option clean_text (sm_title (cb_meta raw))
             else True"
        using b m redact_capture_texts [of raw body] by (auto simp: redacted_body_def split: prod.splits)
      from t(2) obtain tasks where tasks: "nv_tasks db' = nv_tasks db @ tasks" "list_all (\<lambda>k. tk_user k = user \<and> tk_notes k = cb_intent body) tasks"
        by blast
      from t(3) obtain rows where rows: "md_rows (nv_media db') = md_rows (nv_media db) @ rows"
        "list_all (\<lambda>x. mr_user x = user \<and> mr_moment x = cx_moment rnd \<and> mr_state x = ''applied'' \<and>
          (case ce_ocr env of None \<Rightarrow> False
           | Some im \<Rightarrow> list_all2 (certified_image im) (images_of (cb_payload body)) (map fst (is_images img)))) rows"
        by blast
      have clean: "images_opt (cm_payload m) = []"
        "if ce_production env then cm_image_state m \<notin> {''failed'', ''coverage_insufficient''} else True"
        using capture_images_facts(1,3) [OF img] m(4,8) by simp_all
      show ?thesis
        unfolding out prod.case response.case
        by (intro exI [of _ body] exI [of _ tally] exI [of _ img] exI [of _ old] exI [of _ m] exI [of _ rows] exI [of _ tasks] conjI
            b img m(1-3,9) texts clean tasks(1) rows(1))
          (use m(2,6) tasks(2) rows(2) in simp_all)
    qed
  qed
qed

lemma timeline_moments: "map ti_moment (timeline_items env db rows) = map row_to_moment rows"
  by (simp add: timeline_items_def attach_media_def case_prod_unfold comp_def)

lemma row_to_moment_fields [simp]:
  "cm_user (row_to_moment m) = cm_user m" "cm_captured (row_to_moment m) = cm_captured m" "cm_id (row_to_moment m) = cm_id m"
  "cm_project (row_to_moment m) = cm_project m"
  by (simp_all add: row_to_moment_def)

lemma row_to_moment_clean: "(case cm_payload m of None \<Rightarrow> True | Some p \<Rightarrow> is_object p) \<Longrightarrow> images_opt (cm_payload (row_to_moment m)) = []"
  by (cases "cm_payload m") (simp_all add: row_to_moment_def sanitize_object_clean)

lemma sort_desc: "sorted_wrt (\<lambda>a b. f b \<le> f a) (sort_key (\<lambda>x. - f x) xs)" for f :: "'a \<Rightarrow> int"
  using sorted_sort_key [of "\<lambda>x. - f x" xs] by (simp add: sorted_map)

text \<open>A page of the timeline. It has at most as many items as asked for, newest first, all of the user and of the query, and no
  payload that is an object carries an inline image; a matching moment that is not on the page is no newer than any
  item of it, and then the page is full; the cursor is the time of the last item.\<close>

theorem timeline_page_is_sound:
  "case list_moments env user (Some q) db of
     Reply status (items, next_before) \<Rightarrow>
       length items \<le> lq_limit q \<and>
       sorted_wrt (\<lambda>a b. cm_captured (ti_moment b) \<le> cm_captured (ti_moment a)) items \<and>
       list_all (\<lambda>i. list_ex (\<lambda>m. ti_moment i = row_to_moment m) (moments_matching user q (nv_moments db)) \<and>
         cm_user (ti_moment i) = user) items \<and>
       (if list_all (\<lambda>m. case cm_payload m of None \<Rightarrow> True | Some p \<Rightarrow> is_object p) (nv_moments db)
        then list_all (\<lambda>i. images_opt (cm_payload (ti_moment i)) = []) items else True) \<and>
       list_all (\<lambda>m. if list_ex (\<lambda>i. ti_moment i = row_to_moment m) items then True
         else length items = lq_limit q \<and> list_all (\<lambda>i. cm_captured m \<le> cm_captured (ti_moment i)) items)
         (moments_matching user q (nv_moments db)) \<and>
       (case next_before of None \<Rightarrow> True | Some t \<Rightarrow> items \<noteq> [] \<and> t = cm_captured (ti_moment (last items)))
   | _ \<Rightarrow> False"
proof -
  define found where "found = sort_key (\<lambda>m. - cm_captured m) (moments_matching user q (nv_moments db))"
  define rows where "rows = take (lq_limit q) found"
  define items where "items = timeline_items env db rows"
  have eq: "list_moments env user (Some q) db =
      Reply 200 (items, if length items = lq_limit q \<and> items \<noteq> [] then Some (cm_captured (ti_moment (last items))) else None)"
    by (simp add: list_moments_def Let_def items_def rows_def found_def)
  have moments: "map ti_moment items = map row_to_moment rows" by (simp add: items_def timeline_moments)
  then have len: "length items = length rows" by (metis length_map)
  have nth: "i < length rows \<Longrightarrow> ti_moment (items ! i) = row_to_moment (rows ! i)" for i
    using moments len by (metis nth_map)
  have desc: "sorted_wrt (\<lambda>a b. cm_captured b \<le> cm_captured a) found" unfolding found_def by (rule sort_desc)
  have members: "set found = set (moments_matching user q (nv_moments db))" by (simp add: found_def)
  have in_rows: "\<exists>m\<in>set rows. ti_moment i = row_to_moment m" if "i \<in> set items" for i
    using that nth len by (metis in_set_conv_nth)
  have row_ok: "m \<in> set (moments_matching user q (nv_moments db))" if "m \<in> set rows" for m
    using in_set_takeD [OF that [unfolded rows_def]] members by blast
  have in_items: "\<exists>i\<in>set items. ti_moment i = row_to_moment m" if "m \<in> set rows" for m
    using that nth len by (metis in_set_conv_nth)
  have sorted: "sorted_wrt (\<lambda>a b. cm_captured (ti_moment b) \<le> cm_captured (ti_moment a)) items"
    using sorted_wrt_take [OF desc, of "lq_limit q"] nth len by (simp add: sorted_wrt_iff_nth_less rows_def)
  have left: "length items = lq_limit q \<and> list_all (\<lambda>i. cm_captured m \<le> cm_captured (ti_moment i)) items"
    if m: "m \<in> set (moments_matching user q (nv_moments db))" and out: "\<not> list_ex (\<lambda>i. ti_moment i = row_to_moment m) items" for m
  proof -
    have "m \<notin> set rows" using out in_items [of m] by (auto simp: list_ex_iff)
    from take_left_out [OF desc _ this [unfolded rows_def]] have
      t: "list_all (\<lambda>t. cm_captured m \<le> cm_captured t) rows" "length rows = lq_limit q"
      using m members by (simp_all add: rows_def)
    then show ?thesis using len in_rows by (fastforce simp: list_all_iff)
  qed
  have mine: "cm_user m = user" if "m \<in> set rows" for m using row_ok [OF that] by (simp add: moments_matching_def)
  show ?thesis
    unfolding eq response.case prod.case
  proof (intro conjI)
    show "length items \<le> lq_limit q" using len by (simp add: rows_def)
    show "list_all (\<lambda>i. list_ex (\<lambda>m. ti_moment i = row_to_moment m) (moments_matching user q (nv_moments db)) \<and> cm_user (ti_moment i) = user) items"
      using in_rows row_ok mine by (fastforce simp: list_all_iff list_ex_iff)
    show "if list_all (\<lambda>m. case cm_payload m of None \<Rightarrow> True | Some p \<Rightarrow> is_object p) (nv_moments db)
        then list_all (\<lambda>i. images_opt (cm_payload (ti_moment i)) = []) items else True"
      using in_rows row_ok row_to_moment_clean by (fastforce simp: list_all_iff moments_matching_def)
    show "list_all (\<lambda>m. if list_ex (\<lambda>i. ti_moment i = row_to_moment m) items then True
         else length items = lq_limit q \<and> list_all (\<lambda>i. cm_captured m \<le> cm_captured (ti_moment i)) items) (moments_matching user q (nv_moments db))"
      using left by (simp add: list_all_iff [of _ "moments_matching user q (nv_moments db)"])
  qed (use sorted in simp_all)
qed

end
