(* ===== verification/Lifecycle.thy ===== *)
theory Lifecycle
  imports Capture
begin

text \<open>
  The end of data: deleting a moment (\<open>routes-m3.ts\<close>), a project (\<open>routes-m4.ts\<close>) and an account, the exports and the
  choice of an enrichment version (\<open>routes-account.ts\<close>), and the audit and event routes (\<open>routes-m4.ts\<close>). The foreign
  keys of the migrations are part of the model: a deleted row takes with it the rows that reference it with
  \<open>ON DELETE CASCADE\<close> and clears the references declared \<open>ON DELETE SET NULL\<close>. Blobs live in the object store and
  are deleted before the rows.
\<close>

subsection \<open>Cascades\<close>

definition drop_moments :: "(capture_row \<Rightarrow> bool) \<Rightarrow> ('rl, 's) nova \<Rightarrow> ('rl, 's) nova" where
  \<comment> \<open>\<open>DELETE FROM context_moments WHERE p\<close>\<close>
  "drop_moments p db =
     (let gone = (\<lambda>i. i \<in> set (map cm_id (filter p (nv_moments db)))); kept = (\<lambda>r. case r of None \<Rightarrow> True | Some i \<Rightarrow> \<not> gone i)
      in db\<lparr>nv_moments := filter (\<lambda>m. \<not> p m) (nv_moments db),
           nv_media := (nv_media db)\<lparr>md_rows := filter (\<lambda>r. \<not> gone (mr_moment r)) (md_rows (nv_media db))\<rparr>,
           nv_versions := filter (\<lambda>v. \<not> gone (vn_moment v)) (nv_versions db),
           nv_owned := filter (\<lambda>w. kept (ow_moment w)) (nv_owned db),
           nv_tasks := map (\<lambda>t. if kept (tk_moment t) then t else t\<lparr>tk_moment := None\<rparr>) (nv_tasks db),
           nv_actions := map (\<lambda>a. if kept (an_moment a) then a else a\<lparr>an_moment := None\<rparr>) (nv_actions db)\<rparr>)"

definition drop_project :: "string \<Rightarrow> ('rl, 's) nova \<Rightarrow> ('rl, 's) nova" where
  \<comment> \<open>\<open>DELETE FROM projects WHERE id = $1\<close>\<close>
  "drop_project pid db =
     (let clear = (\<lambda>p. if p = Some pid then None else p)
      in db\<lparr>nv_projects := filter (\<lambda>p. pj_id p \<noteq> pid) (nv_projects db),
           nv_moments := map (\<lambda>m. m\<lparr>cm_project := clear (cm_project m)\<rparr>) (nv_moments db),
           nv_tasks := map (\<lambda>t. t\<lparr>tk_project := clear (tk_project t)\<rparr>) (nv_tasks db),
           nv_actions := map (\<lambda>a. a\<lparr>an_project := clear (an_project a)\<rparr>) (nv_actions db)\<rparr>)"

definition drop_user :: "string \<Rightarrow> ('rl, 's) nova \<Rightarrow> ('rl, 's) nova" where
  \<comment> \<open>\<open>DELETE FROM users WHERE id = $1\<close>: every table with a user cascades; the delete queue and the tombstones have no foreign key\<close>
  "drop_user user db =
     db\<lparr>nv_users := filter (\<lambda>u. us_id u \<noteq> user) (nv_users db),
        nv_sessions := filter (\<lambda>s. ss_user s \<noteq> user) (nv_sessions db),
        nv_projects := filter (\<lambda>p. pj_user p \<noteq> user) (nv_projects db),
        nv_moments := filter (\<lambda>m. cm_user m \<noteq> user) (nv_moments db),
        nv_tasks := filter (\<lambda>t. tk_user t \<noteq> user) (nv_tasks db),
        nv_actions := filter (\<lambda>a. an_user a \<noteq> user) (nv_actions db),
        nv_connections := filter (\<lambda>c. cn_user c \<noteq> user) (nv_connections db),
        nv_versions := filter (\<lambda>v. vn_user v \<noteq> user) (nv_versions db),
        nv_embeddings := filter (\<lambda>e. em_user e \<noteq> user) (nv_embeddings db),
        nv_owned := filter (\<lambda>w. ow_user w \<noteq> user) (nv_owned db),
        nv_audit := filter (\<lambda>a. aa_user a \<noteq> user) (nv_audit db),
        nv_events := filter (\<lambda>e. ev_user e \<noteq> user) (nv_events db),
        nv_media := (nv_media db)\<lparr>md_rows := filter (\<lambda>r. mr_user r \<noteq> user) (md_rows (nv_media db))\<rparr>\<rparr>"

subsection \<open>Deleting a moment\<close>

definition delete_blobs :: "'s capture_deps \<Rightarrow> string \<Rightarrow> string list \<Rightarrow> ('rl, 's) nova \<Rightarrow> nat \<times> nat \<times> ('rl, 's) nova" where
  \<comment> \<open>\<open>media ? media.deleteForMoments(...) : { deleted: 0, queued: 0 }\<close>\<close>
  "delete_blobs env user mids db =
     (if ce_media env = None then (0, 0, db)
      else (case delete_for_moments (ce_store env) user mids (nv_media db) of
              (deleted, queued, md) \<Rightarrow> (deleted, queued, db\<lparr>nv_media := md\<rparr>)))"

definition delete_tasks_of :: "(task_row \<Rightarrow> bool) \<Rightarrow> ('rl, 's) nova \<Rightarrow> nat \<times> ('rl, 's) nova" where
  "delete_tasks_of p db = (length (filter p (nv_tasks db)), db\<lparr>nv_tasks := filter (\<lambda>t. \<not> p t) (nv_tasks db)\<rparr>)"

definition delete_actions_of :: "(action_row \<Rightarrow> bool) \<Rightarrow> ('rl, 's) nova \<Rightarrow> nat \<times> ('rl, 's) nova" where
  \<comment> \<open>the reference of a task to its action is cleared as well; an empty id stands for null\<close>
  "delete_actions_of p db =
     (let gone = set (map an_id (filter p (nv_actions db)))
      in (length (filter p (nv_actions db)),
          db\<lparr>nv_actions := filter (\<lambda>a. \<not> p a) (nv_actions db),
             nv_tasks := map (\<lambda>t. if tk_action t \<in> gone then t\<lparr>tk_action := []\<rparr> else t) (nv_tasks db)\<rparr>))"

definition delete_embeddings :: "string list \<Rightarrow> ('rl, 's) nova \<Rightarrow> ('rl, 's) nova" where
  "delete_embeddings mids db =
     db\<lparr>nv_embeddings := filter (\<lambda>e. \<not> (em_kind e = ''moment'' \<and> em_owner e \<in> set mids)) (nv_embeddings db)\<rparr>"

record delete_reply =
  dl_moments :: nat
  dl_tasks :: nat
  dl_actions :: nat
  dl_media :: nat
  dl_queued :: nat

definition delete_moment :: "'s capture_deps \<Rightarrow> string \<Rightarrow> string option \<Rightarrow> ('rl, 's) nova \<Rightarrow> delete_reply response \<times> ('rl, 's) nova" where
  "delete_moment env user mid db =
     (case mid of
        None \<Rightarrow> (Refuse 404 ''not_found'', db)
      | Some i \<Rightarrow>
          (case find_moment i user db of
             None \<Rightarrow> (Refuse 404 ''not_found'', db)
           | Some m \<Rightarrow>
               case delete_blobs env user [i] db of (deleted, queued, db1) \<Rightarrow>
               case delete_tasks_of (\<lambda>t. tk_moment t = Some i \<and> tk_user t = user) db1 of (tasks, db2) \<Rightarrow>
               case delete_actions_of (\<lambda>a. an_moment a = Some i \<and> an_user a = user) db2 of (actions, db3) \<Rightarrow>
                 let db4 = nova_audit user ''moment.delete'' i
                       [(''url_host'', opt_str (safe_host (ce_host_of env) (cm_meta m))), (''deleted_tasks'', JNum (int tasks)),
                        (''deleted_actions'', JNum (int actions)), (''deleted_media_objects'', JNum (int deleted)),
                        (''queued_media_deletions'', JNum (int queued))]
                       (drop_moments (\<lambda>x. cm_id x = i) (delete_embeddings [i] db3))
                 in (Reply 200 \<lparr>dl_moments = 1, dl_tasks = tasks, dl_actions = actions, dl_media = deleted, dl_queued = queued\<rparr>,
                     track (ce_analytics env) user ''delete_requested'' [(''kind'', JStr ''moment'')] db4)))"

subsection \<open>Deleting a project\<close>

definition delete_content :: "'s capture_deps \<Rightarrow> string \<Rightarrow> string \<Rightarrow> ('rl, 's) nova \<Rightarrow> delete_reply \<times> ('rl, 's) nova" where
  "delete_content env user pid db =
     (let mids = map cm_id (filter (\<lambda>m. cm_project m = Some pid \<and> cm_user m = user) (nv_moments db))
      in case (if mids \<noteq> [] then delete_blobs env user mids db else (0, 0, db)) of (deleted, queued, db1) \<Rightarrow>
         case delete_tasks_of (\<lambda>t. tk_project t = Some pid \<and> tk_user t = user) (delete_embeddings mids db1) of (tasks, db2) \<Rightarrow>
         case delete_actions_of (\<lambda>a. an_project a = Some pid \<and> an_user a = user) db2 of (actions, db3) \<Rightarrow>
           (\<lparr>dl_moments = length mids, dl_tasks = tasks, dl_actions = actions, dl_media = deleted, dl_queued = queued\<rparr>,
            drop_moments (\<lambda>m. cm_project m = Some pid \<and> cm_user m = user) db3))"

definition delete_project :: "'s capture_deps \<Rightarrow> string \<Rightarrow> (string \<times> bool) option \<Rightarrow> ('rl, 's) nova \<Rightarrow> delete_reply response \<times> ('rl, 's) nova" where
  \<comment> \<open>the id and the flag \<open>delete_moments\<close>; \<open>None\<close> when either is malformed\<close>
  "delete_project env user parsed db =
     (case parsed of
        None \<Rightarrow> (Refuse 404 ''not_found'', db)
      | Some (pid, content) \<Rightarrow>
          (case find (\<lambda>p. pj_id p = pid \<and> pj_user p = user \<and> \<not> pj_archived p) (nv_projects db) of
             None \<Rightarrow> (Refuse 404 ''not_found'', db)
           | Some pr \<Rightarrow>
               case (if content then delete_content env user pid db
                     else (\<lparr>dl_moments = 0, dl_tasks = 0, dl_actions = 0, dl_media = 0, dl_queued = 0\<rparr>, db)) of (counts, db1) \<Rightarrow>
                 let db2 = nova_audit user ''project.delete'' pid
                       [(''deleted_moments'', JNum (int (dl_moments counts))), (''deleted_tasks'', JNum (int (dl_tasks counts))),
                        (''deleted_actions'', JNum (int (dl_actions counts))), (''deleted_media_objects'', JNum (int (dl_media counts))),
                        (''queued_media_deletions'', JNum (int (dl_queued counts))), (''content_deleted'', JBool content)]
                       (drop_project pid db1)
                 in (Reply 200 counts,
                     track (ce_analytics env) user ''delete_requested''
                       [(''kind'', JStr ''project''), (''moments'', JNum (int (dl_moments counts)))] db2)))"

subsection \<open>Deleting an account\<close>

record 'rl account_deps =
  ac_allow :: "string \<Rightarrow> 'rl \<Rightarrow> bool \<times> 'rl"
  ac_pw :: pw_lib
  ac_sha :: "string \<Rightarrow> string"

record account_counts =
  ct_projects :: nat
  ct_moments :: nat
  ct_tasks :: nat
  ct_actions :: nat
  ct_media :: nat
  ct_sessions :: nat
  ct_integrations :: nat

definition count_account :: "string \<Rightarrow> ('rl, 's) nova \<Rightarrow> account_counts" where
  "count_account user db =
     \<lparr>ct_projects = length (filter (\<lambda>p. pj_user p = user) (nv_projects db)),
      ct_moments = length (filter (\<lambda>m. cm_user m = user) (nv_moments db)),
      ct_tasks = length (filter (\<lambda>t. tk_user t = user) (nv_tasks db)),
      ct_actions = length (filter (\<lambda>a. an_user a = user) (nv_actions db)),
      ct_media = length (filter (\<lambda>r. mr_user r = user) (md_rows (nv_media db))),
      ct_sessions = length (filter (\<lambda>s. ss_user s = user \<and> ss_revoked s = None) (nv_sessions db)),
      ct_integrations = length (filter (\<lambda>c. cn_user c = user) (nv_connections db))\<rparr>"

definition lock_account :: "string \<Rightarrow> ('rl, 's) nova \<Rightarrow> ('rl, 's) nova" where
  "lock_account user db = db\<lparr>nv_users := map (\<lambda>u. if us_id u = user then u\<lparr>us_deleted := True\<rparr> else u) (nv_users db)\<rparr>"

definition revoke_account_sessions :: "int \<Rightarrow> string \<Rightarrow> ('rl, 's) nova \<Rightarrow> ('rl, 's) nova" where
  "revoke_account_sessions now user db =
     db\<lparr>nv_sessions := map (\<lambda>s. if ss_user s = user \<and> ss_revoked s = None then s\<lparr>ss_revoked := Some now\<rparr> else s) (nv_sessions db)\<rparr>"

fun queue_blob_key :: "string \<Rightarrow> string \<Rightarrow> queue_row list \<Rightarrow> queue_row list" where
  \<comment> \<open>the insert without the pipeline: on a conflict only the attempts grow\<close>
  "queue_blob_key user key [] =
     [\<lparr>q_user = user, q_key = key, q_attempts = 1, q_last_error = ''media pipeline unavailable at account deletion''\<rparr>]"
| "queue_blob_key user key (q # qs) =
     (if q_key q = key then q\<lparr>q_attempts := q_attempts q + 1\<rparr> # qs else q # queue_blob_key user key qs)"

definition account_media :: "'s capture_deps \<Rightarrow> string \<Rightarrow> ('rl, 's) nova \<Rightarrow> nat \<times> nat \<times> ('rl, 's) nova" where
  "account_media env user db =
     (let mine = filter (\<lambda>r. mr_user r = user) (md_rows (nv_media db))
      in if mine = [] then (0, 0, db)
         else if ce_media env \<noteq> None then delete_blobs env user (remdups (map mr_moment mine)) db
         else (let keys = concat (map blob_keys mine)
               in (0, length keys, db\<lparr>nv_media := (nv_media db)\<lparr>md_queue := fold (queue_blob_key user) keys (md_queue (nv_media db))\<rparr>\<rparr>)))"

definition wipe_tokens :: "string \<Rightarrow> ('rl, 's) nova \<Rightarrow> ('rl, 's) nova" where
  "wipe_tokens user db =
     db\<lparr>nv_connections := map (\<lambda>c. if cn_user c = user then c\<lparr>cn_token := [], cn_active := False\<rparr> else c) (nv_connections db)\<rparr>"

definition tombstone_detail :: "account_counts \<Rightarrow> nat \<Rightarrow> nat \<Rightarrow> (string \<times> json) list" where
  "tombstone_detail c deleted queued =
     [(''projects'', JNum (int (ct_projects c))), (''moments'', JNum (int (ct_moments c))), (''tasks'', JNum (int (ct_tasks c))),
      (''actions'', JNum (int (ct_actions c))), (''media_objects'', JNum (int (ct_media c))), (''sessions'', JNum (int (ct_sessions c))),
      (''integrations'', JNum (int (ct_integrations c))), (''media_blobs_deleted'', JNum (int deleted)),
      (''media_blobs_queued'', JNum (int queued))]"

definition bury_account :: "string \<Rightarrow> string \<Rightarrow> string \<Rightarrow> (string \<times> json) list \<Rightarrow> ('rl, 's) nova \<Rightarrow> ('rl, 's) nova" where
  \<comment> \<open>the transaction: tombstone and cascade, atomically\<close>
  "bury_account tid user hash detail db =
     drop_user user (db\<lparr>nv_tombstones := nv_tombstones db @ [\<lparr>tb_id = tid, tb_user = user, tb_email_hash = hash, tb_detail = detail\<rparr>]\<rparr>)"

text \<open>The destructive part is a sequence of steps between which the process can stop: \<open>account_after n\<close> is the database after the
  first \<open>n\<close> of them.\<close>

definition account_after :: "'s capture_deps \<Rightarrow> int \<Rightarrow> string \<Rightarrow> string \<Rightarrow> string \<Rightarrow> nat \<Rightarrow> ('rl, 's) nova \<Rightarrow> (nat \<times> nat) \<times> ('rl, 's) nova" where
  "account_after env now tid user hash n db =
     (let counts = count_account user db;
          db1 = (if 1 \<le> n then lock_account user db else db);
          db2 = (if 2 \<le> n then revoke_account_sessions now user db1 else db1)
      in case (if 3 \<le> n then account_media env user db2 else (0, 0, db2)) of (deleted, queued, db3) \<Rightarrow>
         let db4 = (if 4 \<le> n then wipe_tokens user db3 else db3)
         in ((deleted, queued), if 5 \<le> n then bury_account tid user hash (tombstone_detail counts deleted queued) db4 else db4))"

definition account_steps :: nat where "account_steps = 5"

definition account_owner :: "'rl account_deps \<Rightarrow> string \<Rightarrow> string \<Rightarrow> ('rl, 's) nova \<Rightarrow> user_row option" where
  \<comment> \<open>the user row, when it has a password and it is the given one\<close>
  "account_owner deps user password db =
     (case find (\<lambda>u. us_id u = user) (nv_users db) of
        None \<Rightarrow> None
      | Some u \<Rightarrow> if truthy (us_password_hash u) \<and> verify_password (ac_pw deps) password (us_password_hash u) then Some u else None)"

definition delete_account :: "'rl account_deps \<Rightarrow> 's capture_deps \<Rightarrow> int \<Rightarrow> string \<Rightarrow> request_info \<Rightarrow> auth_context \<Rightarrow>
    (string \<times> string) option \<Rightarrow> ('rl, 's) nova \<Rightarrow> (string \<times> nat \<times> nat) response \<times> ('rl, 's) nova" where
  \<comment> \<open>the body is the password and the confirmation; \<open>None\<close> when a field is missing\<close>
  "delete_account deps env now tid req auth body db =
     (if ac_kind auth \<noteq> Web then (Refuse 403 ''web_session_required'', db)
      else (case body of
              None \<Rightarrow> (Refuse 400 ''confirmation_required'', db)
            | Some (password, confirm) \<Rightarrow>
                if password = [] \<or> confirm \<noteq> ''DELETE'' then (Refuse 400 ''confirmation_required'', db)
                else (case ac_allow deps (''account-delete:'' @ rq_ip req) (nv_limiter db) of (ok, rl) \<Rightarrow>
                  let db0 = db\<lparr>nv_limiter := rl\<rparr>
                  in if \<not> ok then (Refuse 429 ''rate_limited'', db0)
                     else (case account_owner deps (ac_user auth) password db0 of
                             None \<Rightarrow> (Refuse 401 ''invalid_password'', db0)
                           | Some u \<Rightarrow>
                               (case account_after env now tid (ac_user auth) (ac_sha deps (to_lower (us_email u))) account_steps db0 of
                                  ((deleted, queued), db') \<Rightarrow> (Reply 200 (tid, deleted, queued), db'))))))"

subsection \<open>Facts\<close>

definition blob_settled :: "string \<Rightarrow> ('rl, fs) nova \<Rightarrow> string \<Rightarrow> bool" where
  \<comment> \<open>the blob is gone from the file store or its key waits in the delete queue\<close>
  "blob_settled root_path db k \<longleftrightarrow>
     fs_content (md_store (nv_media db)) (path_for root_path k) = None \<or> k \<in> set (queue_keys (nv_media db))"

definition moment_blobs :: "string \<Rightarrow> string list \<Rightarrow> ('rl, 's) nova \<Rightarrow> string list" where
  "moment_blobs user mids db =
     concat (map blob_keys (filter (\<lambda>r. mr_user r = user \<and> mr_moment r \<in> set mids) (md_rows (nv_media db))))"

definition user_blobs :: "string \<Rightarrow> ('rl, 's) nova \<Rightarrow> string list" where
  "user_blobs user db = concat (map blob_keys (filter (\<lambda>r. mr_user r = user) (md_rows (nv_media db))))"

lemma filter_map_other:
  "(\<And>x. P x \<Longrightarrow> P (g x)) \<Longrightarrow> (\<And>x. \<not> P x \<Longrightarrow> g x = x) \<Longrightarrow> filter (\<lambda>x. \<not> P x) (map g xs) = filter (\<lambda>x. \<not> P x) xs"
  by (induction xs) auto

lemma delete_blobs_rows:
  assumes "delete_blobs env user mids db = (d, q, db')"
  obtains md where "db' = db\<lparr>nv_media := md\<rparr>" "md_rows md = md_rows (nv_media db)"
proof -
  have rows: "md_rows w' = md_rows w" if "delete_keys ops u ks w = (n, w')" for ops :: "'b store_ops" and u ks n and w w' :: "'b media"
    using that by (induction ops u ks w arbitrary: n w' rule: delete_keys.induct) (auto split: sum.splits prod.splits)
  have all: "md_rows w' = md_rows w" if "delete_rows ops u rs w = (x, y, w')" for ops :: "'b store_ops" and u rs x y and w w' :: "'b media"
    using that by (induction ops u rs w arbitrary: x y w' rule: delete_rows.induct) (auto split: prod.splits dest!: rows)
  show thesis
  proof (cases "ce_media env")
    case None
    then show thesis using assms that [of "nv_media db"] by (simp add: delete_blobs_def)
  next
    case (Some pipe)
    then obtain md where md: "delete_for_moments (ce_store env) user mids (nv_media db) = (d, q, md)" "db' = db\<lparr>nv_media := md\<rparr>"
      using assms by (auto simp: delete_blobs_def split: prod.splits)
    show thesis by (rule that [OF md(2) all [OF md(1) [unfolded delete_for_moments_def]]])
  qed
qed

lemma delete_blobs_settled:
  assumes "delete_blobs env user mids db = (d, q, db')" "ce_store env = fs_store root_path" "ce_media env \<noteq> None"
  shows "list_all (blob_settled root_path db') (moment_blobs user mids db)"
proof -
  obtain md where md: "delete_rows (fs_store root_path) user
      (filter (\<lambda>r. mr_user r = user \<and> mr_moment r \<in> set mids) (md_rows (nv_media db))) (nv_media db) = (d, q, md)" "db' = db\<lparr>nv_media := md\<rparr>"
    using assms by (auto simp: delete_blobs_def delete_for_moments_def split: prod.splits)
  from fs.delete_rows_settles [OF md(1)] show ?thesis
    using md(2) by (simp add: blob_settled_def moment_blobs_def fs.settled_def list_all_iff)
qed

lemma queue_blob_keys: "set (map q_key (queue_blob_key u k qs)) = insert k (set (map q_key qs))"
  by (induction u k qs rule: queue_blob_key.induct) auto

lemma fold_queue_blob_keys: "set (map q_key (fold (queue_blob_key u) ks qs)) = set ks \<union> set (map q_key qs)"
  by (induction ks arbitrary: qs) (simp_all only: fold.simps comp_apply id_apply queue_blob_keys set_simps, auto)

lemma account_media_rows:
  assumes "account_media env user db = (d, q, db')"
  obtains md where "db' = db\<lparr>nv_media := md\<rparr>" "md_rows md = md_rows (nv_media db)"
proof (cases "filter (\<lambda>r. mr_user r = user) (md_rows (nv_media db)) = []")
  case True
  then show thesis using assms that [of "nv_media db"] by (simp add: account_media_def)
next
  case False
  show thesis
  proof (cases "ce_media env")
    case None
    then show thesis using assms False that by (auto simp: account_media_def Let_def)
  next
    case (Some pipe)
    then have "delete_blobs env user (remdups (map mr_moment (filter (\<lambda>r. mr_user r = user) (md_rows (nv_media db))))) db = (d, q, db')"
      using assms False by (simp add: account_media_def Let_def)
    then show thesis using that by (rule delete_blobs_rows)
  qed
qed

lemma account_media_settled:
  assumes "account_media env user db = (d, q, db')" "ce_store env = fs_store root_path"
  shows "list_all (blob_settled root_path db') (user_blobs user db)"
proof (cases "filter (\<lambda>r. mr_user r = user) (md_rows (nv_media db)) = []")
  case True
  then show ?thesis by (simp add: user_blobs_def)
next
  case False
  show ?thesis
  proof (cases "ce_media env")
    case None
    then show ?thesis
      using assms False fold_queue_blob_keys [of user "user_blobs user db" "md_queue (nv_media db)"]
      by (auto simp: account_media_def Let_def user_blobs_def [symmetric] blob_settled_def list_all_iff)
  next
    case (Some pipe)
    let ?ids = "remdups (map mr_moment (filter (\<lambda>r. mr_user r = user) (md_rows (nv_media db))))"
    have "delete_blobs env user ?ids db = (d, q, db')" using assms(1) False Some by (simp add: account_media_def Let_def)
    from delete_blobs_settled [OF this assms(2)] Some have "list_all (blob_settled root_path db') (moment_blobs user ?ids db)" by simp
    moreover have "moment_blobs user ?ids db = user_blobs user db"
      unfolding moment_blobs_def user_blobs_def by (rule arg_cong [where f = "\<lambda>xs. concat (map blob_keys xs)"], rule filter_cong) auto
    ultimately show ?thesis by simp
  qed
qed

definition without_user :: "string \<Rightarrow> ('rl, 's) nova \<Rightarrow> ('rl, 's) nova \<Rightarrow> bool" where
  \<comment> \<open>the second database has exactly the rows of the first that are not of the user\<close>
  "without_user user db db' \<longleftrightarrow>
     nv_users db' = filter (\<lambda>u. us_id u \<noteq> user) (nv_users db) \<and> nv_sessions db' = filter (\<lambda>s. ss_user s \<noteq> user) (nv_sessions db) \<and>
     nv_projects db' = filter (\<lambda>p. pj_user p \<noteq> user) (nv_projects db) \<and> nv_moments db' = filter (\<lambda>m. cm_user m \<noteq> user) (nv_moments db) \<and>
     nv_tasks db' = filter (\<lambda>t. tk_user t \<noteq> user) (nv_tasks db) \<and> nv_actions db' = filter (\<lambda>a. an_user a \<noteq> user) (nv_actions db) \<and>
     nv_connections db' = filter (\<lambda>c. cn_user c \<noteq> user) (nv_connections db) \<and>
     nv_versions db' = filter (\<lambda>v. vn_user v \<noteq> user) (nv_versions db) \<and>
     nv_embeddings db' = filter (\<lambda>e. em_user e \<noteq> user) (nv_embeddings db) \<and>
     nv_owned db' = filter (\<lambda>w. ow_user w \<noteq> user) (nv_owned db) \<and> nv_audit db' = filter (\<lambda>a. aa_user a \<noteq> user) (nv_audit db) \<and>
     nv_events db' = filter (\<lambda>e. ev_user e \<noteq> user) (nv_events db) \<and>
     md_rows (nv_media db') = filter (\<lambda>r. mr_user r \<noteq> user) (md_rows (nv_media db))"

lemma without_user_bury: "without_user user db (bury_account tid user hash detail db)"
  by (simp add: without_user_def bury_account_def drop_user_def)

lemma prepared_rows:
  "filter (\<lambda>u. us_id u \<noteq> user) (nv_users (lock_account user db)) = filter (\<lambda>u. us_id u \<noteq> user) (nv_users db)"
  "filter (\<lambda>s. ss_user s \<noteq> user) (nv_sessions (revoke_account_sessions now user db)) = filter (\<lambda>s. ss_user s \<noteq> user) (nv_sessions db)"
  "filter (\<lambda>c. cn_user c \<noteq> user) (nv_connections (wipe_tokens user db)) = filter (\<lambda>c. cn_user c \<noteq> user) (nv_connections db)"
proof -
  have tables: "nv_users (lock_account user db) = map (\<lambda>u. if us_id u = user then u\<lparr>us_deleted := True\<rparr> else u) (nv_users db)"
    "nv_sessions (revoke_account_sessions now user db) =
       map (\<lambda>s. if ss_user s = user \<and> ss_revoked s = None then s\<lparr>ss_revoked := Some now\<rparr> else s) (nv_sessions db)"
    "nv_connections (wipe_tokens user db) =
       map (\<lambda>c. if cn_user c = user then c\<lparr>cn_token := [], cn_active := False\<rparr> else c) (nv_connections db)"
    by (simp_all add: lock_account_def revoke_account_sessions_def wipe_tokens_def)
  show "filter (\<lambda>u. us_id u \<noteq> user) (nv_users (lock_account user db)) = filter (\<lambda>u. us_id u \<noteq> user) (nv_users db)"
    unfolding tables by (rule filter_map_other) auto
  show "filter (\<lambda>s. ss_user s \<noteq> user) (nv_sessions (revoke_account_sessions now user db)) = filter (\<lambda>s. ss_user s \<noteq> user) (nv_sessions db)"
    unfolding tables by (rule filter_map_other) auto
  show "filter (\<lambda>c. cn_user c \<noteq> user) (nv_connections (wipe_tokens user db)) = filter (\<lambda>c. cn_user c \<noteq> user) (nv_connections db)"
    unfolding tables by (rule filter_map_other) auto
qed

lemma prepared_fields [simp]:
  "nv_sessions (lock_account user db) = nv_sessions db" "nv_users (revoke_account_sessions now user db) = nv_users db"
  "nv_users (wipe_tokens user db) = nv_users db" "nv_sessions (wipe_tokens user db) = nv_sessions db"
  "nv_connections (lock_account user db) = nv_connections db" "nv_connections (revoke_account_sessions now user db) = nv_connections db"
  "nv_media (lock_account user db) = nv_media db" "nv_media (revoke_account_sessions now user db) = nv_media db"
  "nv_media (wipe_tokens user db) = nv_media db" "nv_tombstones (lock_account user db) = nv_tombstones db"
  "nv_tombstones (revoke_account_sessions now user db) = nv_tombstones db" "nv_tombstones (wipe_tokens user db) = nv_tombstones db"
  by (simp_all add: lock_account_def revoke_account_sessions_def wipe_tokens_def)

lemma prepared_tables [simp]:
  "nv_projects (wipe_tokens user db) = nv_projects db" "nv_moments (wipe_tokens user db) = nv_moments db"
  "nv_tasks (wipe_tokens user db) = nv_tasks db" "nv_actions (wipe_tokens user db) = nv_actions db"
  "nv_versions (wipe_tokens user db) = nv_versions db" "nv_embeddings (wipe_tokens user db) = nv_embeddings db"
  "nv_owned (wipe_tokens user db) = nv_owned db" "nv_audit (wipe_tokens user db) = nv_audit db" "nv_events (wipe_tokens user db) = nv_events db"
  "nv_projects (lock_account user db) = nv_projects db" "nv_moments (lock_account user db) = nv_moments db"
  "nv_tasks (lock_account user db) = nv_tasks db" "nv_actions (lock_account user db) = nv_actions db"
  "nv_versions (lock_account user db) = nv_versions db" "nv_embeddings (lock_account user db) = nv_embeddings db"
  "nv_owned (lock_account user db) = nv_owned db" "nv_audit (lock_account user db) = nv_audit db" "nv_events (lock_account user db) = nv_events db"
  "nv_projects (revoke_account_sessions now user db) = nv_projects db" "nv_moments (revoke_account_sessions now user db) = nv_moments db"
  "nv_tasks (revoke_account_sessions now user db) = nv_tasks db" "nv_actions (revoke_account_sessions now user db) = nv_actions db"
  "nv_versions (revoke_account_sessions now user db) = nv_versions db" "nv_embeddings (revoke_account_sessions now user db) = nv_embeddings db"
  "nv_owned (revoke_account_sessions now user db) = nv_owned db" "nv_audit (revoke_account_sessions now user db) = nv_audit db"
  "nv_events (revoke_account_sessions now user db) = nv_events db"
  by (simp_all add: lock_account_def revoke_account_sessions_def wipe_tokens_def)

lemma without_user_prepared:
  assumes "without_user user (wipe_tokens user ((revoke_account_sessions now user (lock_account user db))\<lparr>nv_media := md\<rparr>)) db'"
    "md_rows md = md_rows (nv_media db)"
  shows "without_user user db db'"
  using assms prepared_rows(1) [of user db] prepared_rows(2) [of user now "lock_account user db"]
    prepared_rows(3) [of user "(revoke_account_sessions now user (lock_account user db))\<lparr>nv_media := md\<rparr>"]
  unfolding without_user_def by simp

lemma account_after_all:
  assumes "account_after env now tid user hash account_steps db = ((d, q), db')"
  obtains md where
    "account_media env user (revoke_account_sessions now user (lock_account user db)) =
       (d, q, (revoke_account_sessions now user (lock_account user db))\<lparr>nv_media := md\<rparr>)"
    "md_rows md = md_rows (nv_media db)"
    "db' = bury_account tid user hash (tombstone_detail (count_account user db) d q)
       (wipe_tokens user ((revoke_account_sessions now user (lock_account user db))\<lparr>nv_media := md\<rparr>))"
proof -
  let ?r = "revoke_account_sessions now user (lock_account user db)"
  obtain db3 where m: "account_media env user ?r = (d, q, db3)"
    "db' = bury_account tid user hash (tombstone_detail (count_account user db) d q) (wipe_tokens user db3)"
    using assms by (auto simp: account_after_def account_steps_def Let_def split: prod.splits)
  from account_media_rows [OF m(1)] obtain md where "db3 = ?r\<lparr>nv_media := md\<rparr>" "md_rows md = md_rows (nv_media ?r)" by blast
  then show thesis using m that [of md] by (metis prepared_fields(7,8))
qed

lemma delete_account_replied:
  assumes "delete_account deps env now tid req auth body db = (Reply status counts, db')"
  shows "\<exists>password rl u d q. ac_kind auth = Web \<and> body = Some (password, ''DELETE'') \<and>
    find (\<lambda>u. us_id u = ac_user auth) (nv_users db) = Some u \<and> verify_password (ac_pw deps) password (us_password_hash u) \<and>
    account_after env now tid (ac_user auth) (ac_sha deps (to_lower (us_email u))) account_steps (db\<lparr>nv_limiter := rl\<rparr>) = ((d, q), db')"
proof -
  have web: "ac_kind auth = Web" using assms by (cases "ac_kind auth = Web") (simp_all add: delete_account_def)
  obtain password confirm where b: "body = Some (password, confirm)" using assms web by (cases body) (auto simp: delete_account_def)
  obtain ok rl where l: "ac_allow deps (''account-delete:'' @ rq_ip req) (nv_limiter db) = (ok, rl)" by fastforce
  have c: "password \<noteq> []" "confirm = ''DELETE''"
    using assms web b by (cases "password = [] \<or> confirm \<noteq> ''DELETE''"; simp add: delete_account_def)+
  let ?db = "db\<lparr>nv_limiter := rl\<rparr>"
  have ok using assms web b l c by (cases ok) (simp_all add: delete_account_def)
  obtain u where u: "account_owner deps (ac_user auth) password ?db = Some u"
    using assms web b l c \<open>ok\<close> by (cases "account_owner deps (ac_user auth) password ?db") (simp_all add: delete_account_def Let_def)
  obtain d q db2 where "account_after env now tid (ac_user auth) (ac_sha deps (to_lower (us_email u))) account_steps ?db = ((d, q), db2)"
    by (metis prod.exhaust)
  moreover from this have "db2 = db'" using assms web b l c \<open>ok\<close> u by (simp add: delete_account_def Let_def)
  moreover have "find (\<lambda>u. us_id u = ac_user auth) (nv_users db) = Some u" "verify_password (ac_pw deps) password (us_password_hash u)"
    using u by (auto simp: account_owner_def split: option.splits if_splits)
  ultimately show ?thesis using web b c by blast
qed

lemma delete_account_refused:
  assumes "delete_account deps env now tid req auth body db = (r, db')" "\<And>s x. r \<noteq> Reply s x"
  shows "\<exists>rl. db' = db\<lparr>nv_limiter := rl\<rparr>"
proof -
  have same: "\<exists>rl. db = db\<lparr>nv_limiter := rl\<rparr>" by (rule exI [of _ "nv_limiter db"]) simp
  show ?thesis
  proof (cases "ac_kind auth = Web")
    case False
    then have "db' = db" using assms(1) by (simp add: delete_account_def)
    then show ?thesis using same by simp
  next
    case web: True
    show ?thesis
    proof (cases body)
      case None
      then have "db' = db" using assms(1) web by (simp add: delete_account_def)
      then show ?thesis using same by simp
    next
      case (Some p)
      then obtain password confirm where b: "body = Some (password, confirm)" by (cases p) simp
      obtain ok rl where l: "ac_allow deps (''account-delete:'' @ rq_ip req) (nv_limiter db) = (ok, rl)" by fastforce
      show ?thesis
      proof (cases "password = [] \<or> confirm \<noteq> ''DELETE''")
        case True
        then have "db' = db" using assms(1) web b by (simp add: delete_account_def)
        then show ?thesis using same by simp
      next
        case False
        let ?db = "db\<lparr>nv_limiter := rl\<rparr>"
        show ?thesis
        proof (cases "ok \<and> account_owner deps (ac_user auth) password ?db \<noteq> None")
          case True
          then obtain u where u: "ok" "account_owner deps (ac_user auth) password ?db = Some u" by auto
          obtain d q db2 where "account_after env now tid (ac_user auth) (ac_sha deps (to_lower (us_email u))) account_steps ?db = ((d, q), db2)"
            by (metis prod.exhaust)
          then have "r = Reply 200 (tid, d, q)" using assms(1) web b l False u by (simp add: delete_account_def Let_def)
          then show ?thesis using assms(2) by simp
        next
          case no: False
          then have "db' = ?db" using assms(1) web b l False by (cases ok) (auto simp: delete_account_def Let_def)
          then show ?thesis by blast
        qed
      qed
    qed
  qed
qed

text \<open>C30. Deleting an account is complete and touches nobody else. A refused request changes only the attempt counter. After a
  successful one, every table holds exactly the rows it had that are not of the user; every blob of the user's media is
  gone from the store or its key is in the delete queue, with or without the media pipeline; and one tombstone is
  added, with the hash of the address and numbers only.\<close>

theorem account_deletion_is_complete:
  "case delete_account deps (env\<lparr>ce_store := fs_store root_path\<rparr>) now tid req auth body db of (r, db') \<Rightarrow>
     (case r of
        Reply status counts \<Rightarrow>
          ac_kind auth = Web \<and> without_user (ac_user auth) db db' \<and>
          list_all (blob_settled root_path db') (user_blobs (ac_user auth) db) \<and>
          (\<exists>u detail. u \<in> set (nv_users db) \<and> us_id u = ac_user auth \<and>
             (case body of None \<Rightarrow> False | Some (password, confirm) \<Rightarrow>
                verify_password (ac_pw deps) password (us_password_hash u) \<and> confirm = ''DELETE'') \<and>
             nv_tombstones db' = nv_tombstones db @
               [\<lparr>tb_id = tid, tb_user = ac_user auth, tb_email_hash = ac_sha deps (to_lower (us_email u)), tb_detail = detail\<rparr>] \<and>
             list_all (\<lambda>(k, v). case v of JNum n \<Rightarrow> True | _ \<Rightarrow> False) detail)
      | _ \<Rightarrow> \<exists>rl. db' = db\<lparr>nv_limiter := rl\<rparr>)"
proof -
  obtain r db' where out: "delete_account deps (env\<lparr>ce_store := fs_store root_path\<rparr>) now tid req auth body db = (r, db')"
    by (cases "delete_account deps (env\<lparr>ce_store := fs_store root_path\<rparr>) now tid req auth body db")
  show ?thesis
  proof (cases r)
    case (Reply status counts)
    let ?user = "ac_user auth"
    obtain password rl u d q where g: "ac_kind auth = Web" "body = Some (password, ''DELETE'')"
      "find (\<lambda>u. us_id u = ?user) (nv_users db) = Some u" "verify_password (ac_pw deps) password (us_password_hash u)"
      and a: "account_after (env\<lparr>ce_store := fs_store root_path\<rparr>) now tid ?user (ac_sha deps (to_lower (us_email u))) account_steps
        (db\<lparr>nv_limiter := rl\<rparr>) = ((d, q), db')"
      using delete_account_replied [OF out [unfolded Reply]] by metis
    let ?db = "db\<lparr>nv_limiter := rl\<rparr>"
    let ?r = "revoke_account_sessions now ?user (lock_account ?user ?db)"
    from account_after_all [OF a] obtain md where
      md: "account_media (env\<lparr>ce_store := fs_store root_path\<rparr>) ?user ?r = (d, q, ?r\<lparr>nv_media := md\<rparr>)"
      "md_rows md = md_rows (nv_media ?db)"
      "db' = bury_account tid ?user (ac_sha deps (to_lower (us_email u))) (tombstone_detail (count_account ?user ?db) d q)
         (wipe_tokens ?user (?r\<lparr>nv_media := md\<rparr>))" by metis
    have "without_user ?user ?db db'"
      by (rule without_user_prepared [OF _ md(2)]) (unfold md(3), rule without_user_bury)
    then have gone: "without_user ?user db db'" by (simp add: without_user_def)
    have store: "md_store (nv_media db') = md_store md" "queue_keys (nv_media db') = queue_keys md"
      by (simp_all add: md(3) bury_account_def drop_user_def wipe_tokens_def)
    have "user_blobs ?user ?r = user_blobs ?user db" by (simp add: user_blobs_def revoke_account_sessions_def lock_account_def)
    then have blobs: "list_all (blob_settled root_path db') (user_blobs ?user db)"
      using account_media_settled [OF md(1), of root_path] store by (simp add: blob_settled_def list_all_iff)
    have tomb: "nv_tombstones db' = nv_tombstones db @ [\<lparr>tb_id = tid, tb_user = ?user, tb_email_hash = ac_sha deps (to_lower (us_email u)),
        tb_detail = tombstone_detail (count_account ?user ?db) d q\<rparr>]"
      by (simp add: md(3) bury_account_def drop_user_def wipe_tokens_def revoke_account_sessions_def lock_account_def)
    have "u \<in> set (nv_users db)" "us_id u = ?user" using g(3) by (auto simp: find_Some_iff)
    then show ?thesis
      unfolding out prod.case Reply response.case
      using g(1,2,4) gone blobs tomb
      by (intro conjI exI [of _ u] exI [of _ "tombstone_detail (count_account ?user ?db) d q"]) (simp_all add: tombstone_detail_def)
  qed (use delete_account_refused [OF out] in \<open>simp_all add: out\<close>)
qed

definition session_view :: "('rl, 's) nova \<Rightarrow> 'rl auth_db" where
  \<comment> \<open>the tables that resolving a session reads\<close>
  "session_view db =
     \<lparr>db_users = nv_users db, db_sessions = nv_sessions db, db_pairing = [], db_resets = [], db_projects = [], db_audit = [],
      db_limiter = nv_limiter db\<rparr>"

lemma account_after_locked:
  assumes "account_after env now tid user hash (Suc n) db = (x, db')"
  shows "list_all (\<lambda>u. us_id u \<noteq> user \<or> us_deleted u) (nv_users db')"
proof -
  have lock: "list_all (\<lambda>u. us_id u \<noteq> user \<or> us_deleted u) (nv_users (lock_account user db))"
    unfolding lock_account_def by (simp add: list.pred_map comp_def, simp add: list_all_iff)
  have "nv_users db' = nv_users (lock_account user db) \<or> nv_users db' = filter (\<lambda>u. us_id u \<noteq> user) (nv_users (lock_account user db))"
  proof -
    let ?db2 = "if 2 \<le> Suc n then revoke_account_sessions now user (lock_account user db) else lock_account user db"
    obtain d q db3 where m: "(if 3 \<le> Suc n then account_media env user ?db2 else (0, 0, ?db2)) = (d, q, db3)"
      by (cases "if 3 \<le> Suc n then account_media env user ?db2 else (0, 0, ?db2)")
    have "nv_users db3 = nv_users ?db2"
      using m by (auto split: if_splits elim!: account_media_rows)
    then have "nv_users db3 = nv_users (lock_account user db)" by (auto simp: revoke_account_sessions_def)
    moreover have "nv_users db' = nv_users db3 \<or> nv_users db' = filter (\<lambda>u. us_id u \<noteq> user) (nv_users db3)"
      using assms m by (auto simp: account_after_def Let_def wipe_tokens_def bury_account_def drop_user_def split: if_splits)
    ultimately show ?thesis by simp
  qed
  then show ?thesis using lock by (auto simp: list_all_iff)
qed

text \<open>C31. An interrupted deletion leaves no usable account. Whenever the process stops after at least the first step, no token resolves
  to the user any more, and the login finds no account; so the user cannot repeat the request either.\<close>

theorem interrupted_deletion_is_locked:
  "case account_after env now tid user hash (Suc n) db of (x, db') \<Rightarrow>
     (case fst (resolve_session sha t token (session_view db')) of None \<Rightarrow> True | Some ctx \<Rightarrow> ac_user ctx \<noteq> user) \<and>
     user_live user (session_view db') = None"
proof -
  obtain x db' where a: "account_after env now tid user hash (Suc n) db = (x, db')"
    by (cases "account_after env now tid user hash (Suc n) db")
  note locked = account_after_locked [OF a]
  have "user_live user (session_view db') = None"
    using locked by (auto simp: user_live_def session_view_def find_None_iff list_all_iff)
  moreover have "case fst (resolve_session sha t token (session_view db')) of None \<Rightarrow> True | Some ctx \<Rightarrow> ac_user ctx \<noteq> user"
    using resolve_session_cases [of sha t token "session_view db'"] locked
    by (fastforce simp: session_view_def list_all_iff split: prod.splits option.splits)
  ultimately show ?thesis by (simp add: a)
qed

subsection \<open>Erasing moments\<close>

definition erased :: "string list \<Rightarrow> ('rl, 's) nova \<Rightarrow> bool" where
  \<comment> \<open>no moment, media row, enrichment version, embedding, task, action or other row that belongs to a moment
    (\<open>nv_owned\<close>) is one of the moments or refers to one; the audit trail and the queued jobs keep the ids
    they hold\<close>
  "erased ids db \<longleftrightarrow>
     list_all (\<lambda>m. cm_id m \<notin> set ids) (nv_moments db) \<and> list_all (\<lambda>r. mr_moment r \<notin> set ids) (md_rows (nv_media db)) \<and>
     list_all (\<lambda>v. vn_moment v \<notin> set ids) (nv_versions db) \<and>
     list_all (\<lambda>e. \<not> (em_kind e = ''moment'' \<and> em_owner e \<in> set ids)) (nv_embeddings db) \<and>
     list_all (\<lambda>w. ow_moment w \<notin> Some ` set ids) (nv_owned db) \<and> list_all (\<lambda>t. tk_moment t \<notin> Some ` set ids) (nv_tasks db) \<and>
     list_all (\<lambda>a. an_moment a \<notin> Some ` set ids) (nv_actions db)"

lemma drop_moments_erased:
  assumes "list_all (\<lambda>e. \<not> (em_kind e = ''moment'' \<and> em_owner e \<in> set ids)) (nv_embeddings db)"
    "set ids = set (map cm_id (filter p (nv_moments db)))" "list_all (\<lambda>m. p m \<or> cm_id m \<notin> set ids) (nv_moments db)"
  shows "erased ids (drop_moments p db)"
  using assms by (auto simp: erased_def drop_moments_def Let_def list_all_iff split: option.splits)

lemma delete_rows_keep_moments:
  "delete_tasks_of q db = (n, db') \<Longrightarrow> nv_moments db' = nv_moments db \<and> nv_media db' = nv_media db \<and> nv_embeddings db' = nv_embeddings db"
  "delete_actions_of q' db = (n, db') \<Longrightarrow> nv_moments db' = nv_moments db \<and> nv_media db' = nv_media db \<and> nv_embeddings db' = nv_embeddings db"
  by (auto simp: delete_tasks_of_def delete_actions_of_def Let_def)

lemma erased_audit [simp]:
  "erased ids (nova_audit u e sub d db) = erased ids db" "erased ids (track b u e ps db) = erased ids db"
  by (simp_all add: erased_def)

lemma erased_drop_project: "erased ids db \<Longrightarrow> erased ids (drop_project pid db)"
  by (auto simp: erased_def drop_project_def Let_def list_all_iff)

lemma blob_settled_media:
  "md_store (nv_media db') = md_store (nv_media db) \<Longrightarrow> md_queue (nv_media db') = md_queue (nv_media db) \<Longrightarrow>
     blob_settled root_path db' = blob_settled root_path db"
  by (simp add: blob_settled_def fun_eq_iff)

lemma delete_embeddings_fields [simp]:
  "nv_moments (delete_embeddings ids db) = nv_moments db" "nv_media (delete_embeddings ids db) = nv_media db"
  "nv_tasks (delete_embeddings ids db) = nv_tasks db" "nv_actions (delete_embeddings ids db) = nv_actions db"
  "list_all (\<lambda>e. \<not> (em_kind e = ''moment'' \<and> em_owner e \<in> set ids)) (nv_embeddings (delete_embeddings ids db))"
  by (simp_all add: delete_embeddings_def list_all_iff)

lemma drop_moments_fields [simp]:
  "nv_moments (drop_moments p db) = filter (\<lambda>m. \<not> p m) (nv_moments db)"
  "md_store (nv_media (drop_moments p db)) = md_store (nv_media db)" "md_queue (nv_media (drop_moments p db)) = md_queue (nv_media db)"
  "nv_projects (drop_moments p db) = nv_projects db"
  by (simp_all add: drop_moments_def Let_def)

definition moment_frame :: "string \<Rightarrow> ('rl, 's) nova \<Rightarrow> ('rl, 's) nova \<Rightarrow> bool" where
  \<comment> \<open>the tables that lose exactly the rows of the moment, and those that stay as they are\<close>
  "moment_frame i db db' \<longleftrightarrow>
     md_rows (nv_media db') = filter (\<lambda>r. mr_moment r \<noteq> i) (md_rows (nv_media db)) \<and>
     nv_versions db' = filter (\<lambda>v. vn_moment v \<noteq> i) (nv_versions db) \<and>
     nv_embeddings db' = filter (\<lambda>e. \<not> (em_kind e = ''moment'' \<and> em_owner e = i)) (nv_embeddings db) \<and>
     nv_owned db' = filter (\<lambda>w. ow_moment w \<noteq> Some i) (nv_owned db) \<and>
     nv_projects db' = nv_projects db \<and> nv_users db' = nv_users db \<and> nv_sessions db' = nv_sessions db \<and>
     nv_connections db' = nv_connections db \<and> nv_jobs db' = nv_jobs db"

lemma delete_rows_frame:
  "delete_tasks_of q db = (n, db') \<Longrightarrow> moment_frame i db' db'' = moment_frame i db db'' \<and> nv_audit db' = nv_audit db"
  "delete_actions_of r db = (n, db') \<Longrightarrow> moment_frame i db' db'' = moment_frame i db db'' \<and> nv_audit db' = nv_audit db"
  by (auto simp: delete_tasks_of_def delete_actions_of_def Let_def moment_frame_def)

lemma delete_blobs_frame:
  assumes "delete_blobs env user mids db = (d, q, db')"
  shows "moment_frame i db' db'' = moment_frame i db db'' \<and> nv_audit db' = nv_audit db"
  using assms by (rule delete_blobs_rows) (simp add: moment_frame_def)

lemma moment_frame_cong:
  "md_rows (nv_media a) = md_rows (nv_media b) \<Longrightarrow> nv_versions a = nv_versions b \<Longrightarrow> nv_embeddings a = nv_embeddings b \<Longrightarrow>
   nv_owned a = nv_owned b \<Longrightarrow> nv_projects a = nv_projects b \<Longrightarrow> nv_users a = nv_users b \<Longrightarrow> nv_sessions a = nv_sessions b \<Longrightarrow>
   nv_connections a = nv_connections b \<Longrightarrow> nv_jobs a = nv_jobs b \<Longrightarrow> moment_frame i db a = moment_frame i db b"
  by (simp add: moment_frame_def)

lemma drop_moments_frame:
  assumes "find_moment i user db = Some m"
  shows "moment_frame i db (drop_moments (\<lambda>x. cm_id x = i) (delete_embeddings [i] db))"
proof -
  have i: "set (map cm_id (filter (\<lambda>x. cm_id x = i) (nv_moments db))) = {i}"
    using assms by (force simp: find_moment_def find_Some_iff)
  have w: "(case ow_moment w of None \<Rightarrow> True | Some j \<Rightarrow> j \<noteq> i) \<longleftrightarrow> ow_moment w \<noteq> Some i" for w by (simp split: option.split)
  show ?thesis
    using i by (simp add: moment_frame_def drop_moments_def delete_embeddings_def Let_def w del: set_map set_filter)
qed

lemma moment_frame_audit [simp]:
  "moment_frame i db (nova_audit u e sub d db') = moment_frame i db db'" "moment_frame i db (track b u ev ps db') = moment_frame i db db'"
  by (simp_all add: moment_frame_def)

lemma delete_moment_tables [simp]:
  "length (nv_tasks (drop_moments p db)) = length (nv_tasks db)" "length (nv_actions (drop_moments p db)) = length (nv_actions db)"
  "nv_audit (drop_moments p db) = nv_audit db" "nv_audit (delete_embeddings ids db) = nv_audit db"
  by (simp_all add: drop_moments_def delete_embeddings_def Let_def)

lemma nova_audit_audit: 
  "nv_audit (nova_audit u e sub d db) = nv_audit db @ [\<lparr>aa_user = u, aa_event = e, aa_subject = sub, aa_detail = d\<rparr>]"
  by (simp add: nova_audit_def)


text \<open>Without the media pipeline the rows of the media go with the moment, but nothing is put into the delete queue: the key of the
  blob is forgotten. The deletion of an account queues the keys in that case; the deletions of a moment and of a project
  do not.\<close>

lemma blob_forgotten_without_pipeline:
  assumes "ce_media env = None" "find_moment i user db = Some m"
  shows "case delete_moment env user (Some i) db of (r, db') \<Rightarrow>
    md_store (nv_media db') = md_store (nv_media db) \<and> md_queue (nv_media db') = md_queue (nv_media db) \<and>
    list_all (\<lambda>r. mr_moment r \<noteq> i) (md_rows (nv_media db'))"
proof -
  have "m \<in> set (nv_moments db)" "cm_id m = i" using assms(2) by (auto simp: find_moment_def find_Some_iff)
  then show ?thesis
    using assms by (auto simp: delete_moment_def delete_blobs_def Let_def delete_tasks_of_def delete_actions_of_def drop_moments_def
        delete_embeddings_def list_all_iff)
qed

lemma delete_content_facts:
  fixes env :: "fs capture_deps"
  assumes "delete_content (env\<lparr>ce_store := fs_store root_path\<rparr>) user pid db = (counts, db1)"
  defines "mids \<equiv> map cm_id (filter (\<lambda>m. cm_project m = Some pid \<and> cm_user m = user) (nv_moments db))"
  shows "distinct (map cm_id (nv_moments db)) \<Longrightarrow> erased mids db1" "dl_moments counts = length mids" "nv_projects db1 = nv_projects db"
    "nv_moments db1 = filter (\<lambda>m. \<not> (cm_project m = Some pid \<and> cm_user m = user)) (nv_moments db)"
    "length (nv_tasks db1) + dl_tasks counts = length (nv_tasks db)" "length (nv_actions db1) + dl_actions counts = length (nv_actions db)"
    "ce_media env \<noteq> None \<Longrightarrow> list_all (blob_settled root_path db1) (moment_blobs user mids db)"
proof -
  let ?env = "env\<lparr>ce_store := fs_store root_path\<rparr>" and ?p = "\<lambda>m. cm_project m = Some pid \<and> cm_user m = user"
  obtain d q dbb where 1: "(if mids \<noteq> [] then delete_blobs ?env user mids db else (0, 0, db)) = (d, q, dbb)" by (metis prod.exhaust)
  obtain nt db2 where 2: "delete_tasks_of (\<lambda>t. tk_project t = Some pid \<and> tk_user t = user) (delete_embeddings mids dbb) = (nt, db2)"
    by (metis prod.exhaust)
  obtain na db3 where 3: "delete_actions_of (\<lambda>a. an_project a = Some pid \<and> an_user a = user) db2 = (na, db3)" by (metis prod.exhaust)
  have r: "counts = \<lparr>dl_moments = length mids, dl_tasks = nt, dl_actions = na, dl_media = d, dl_queued = q\<rparr>" "db1 = drop_moments ?p db3"
    using assms(1) unfolding delete_content_def Let_def mids_def [symmetric] 1 prod.case 2 3 by simp_all
  obtain md where md: "dbb = db\<lparr>nv_media := md\<rparr>"
  proof (cases "mids = []")
    case True
    then show thesis using 1 that [of "nv_media db"] by simp
  next
    case False
    then have "delete_blobs ?env user mids db = (d, q, dbb)" using 1 by simp
    then show thesis using that by (rule delete_blobs_rows)
  qed
  have keep: "nv_moments db3 = nv_moments db" "nv_media db3 = nv_media dbb" "nv_embeddings db3 = nv_embeddings (delete_embeddings mids dbb)"
    using delete_rows_keep_moments(1) [OF 2] delete_rows_keep_moments(2) [OF 3] md by auto
  show "dl_moments counts = length mids" by (simp add: r)
  show "nv_projects db1 = nv_projects db" using 2 3 md
    by (auto simp: r delete_tasks_of_def delete_actions_of_def delete_embeddings_def Let_def)
  show "nv_moments db1 = filter (\<lambda>m. \<not> ?p m) (nv_moments db)" by (simp add: r keep)
  show "length (nv_tasks db1) + dl_tasks counts = length (nv_tasks db)" "length (nv_actions db1) + dl_actions counts = length (nv_actions db)"
    using 2 3 md sum_length_filter_compl [of "\<lambda>t. tk_project t = Some pid \<and> tk_user t = user" "nv_tasks db"]
      sum_length_filter_compl [of "\<lambda>a. an_project a = Some pid \<and> an_user a = user" "nv_actions db"]
    by (auto simp: r delete_tasks_of_def delete_actions_of_def drop_moments_def Let_def)
  show "ce_media env \<noteq> None \<Longrightarrow> list_all (blob_settled root_path db1) (moment_blobs user mids db)"
  proof (cases "mids = []")
    case True
    then show ?thesis by (simp add: moment_blobs_def)
  next
    case False
    assume "ce_media env \<noteq> None"
    moreover have "delete_blobs ?env user mids db = (d, q, dbb)" using 1 False by simp
    ultimately have "list_all (blob_settled root_path dbb) (moment_blobs user mids db)" using delete_blobs_settled by fastforce
    moreover have "blob_settled root_path db1 = blob_settled root_path dbb" by (rule blob_settled_media) (simp_all add: r keep)
    ultimately show ?thesis by simp
  qed
  assume "distinct (map cm_id (nv_moments db))"
  then have "m = m'" if "m \<in> set (nv_moments db)" "m' \<in> set (nv_moments db)" "cm_id m = cm_id m'" for m m'
    using that by (metis distinct_map inj_onD)
  then show "erased mids db1"
    unfolding r by (intro drop_moments_erased) (auto simp: keep mids_def list_all_iff delete_embeddings_def)
qed

text \<open>Deleting a project. A refused request changes nothing, and afterwards the project is gone and no moment, task or action refers
  to it. With the flag, the moments of the user in it are erased from every table, the user's tasks and actions in it are
  counted and removed, and, when the media pipeline is available, each blob is gone from the store or waits in the
  delete queue; without the flag every moment stays and no media row or blob changes.\<close>

theorem project_deletion_is_complete:
  "case delete_project (env\<lparr>ce_store := fs_store root_path\<rparr>) user (Some (pid, content)) db of (r, db') \<Rightarrow>
     let mids = map cm_id (filter (\<lambda>m. cm_project m = Some pid \<and> cm_user m = user) (nv_moments db))
     in (case r of
        Reply status counts \<Rightarrow>
          list_ex (\<lambda>p. pj_id p = pid \<and> pj_user p = user) (nv_projects db) \<and>
          nv_projects db' = filter (\<lambda>p. pj_id p \<noteq> pid) (nv_projects db) \<and>
          list_all (\<lambda>m. cm_project m \<noteq> Some pid) (nv_moments db') \<and> list_all (\<lambda>t. tk_project t \<noteq> Some pid) (nv_tasks db') \<and>
          list_all (\<lambda>a. an_project a \<noteq> Some pid) (nv_actions db') \<and>
          (if content
           then (if distinct (map cm_id (nv_moments db)) then erased mids db' else True) \<and>
             dl_moments counts = length mids \<and>
             map cm_id (nv_moments db') = map cm_id (filter (\<lambda>m. \<not> (cm_project m = Some pid \<and> cm_user m = user)) (nv_moments db)) \<and>
             length (nv_tasks db') + dl_tasks counts = length (nv_tasks db) \<and>
             length (nv_actions db') + dl_actions counts = length (nv_actions db) \<and>
             (if ce_media env \<noteq> None then list_all (blob_settled root_path db') (moment_blobs user mids db) else True)
           else map cm_id (nv_moments db') = map cm_id (nv_moments db) \<and> nv_media db' = nv_media db)
      | _ \<Rightarrow> db' = db)"
proof (cases "find (\<lambda>p. pj_id p = pid \<and> pj_user p = user \<and> \<not> pj_archived p) (nv_projects db)")
  case None
  then show ?thesis by (simp add: delete_project_def Let_def)
next
  case found: (Some pr)
  let ?env = "env\<lparr>ce_store := fs_store root_path\<rparr>"
  obtain counts db1 where 1: "(if content then delete_content ?env user pid db
      else (\<lparr>dl_moments = 0, dl_tasks = 0, dl_actions = 0, dl_media = 0, dl_queued = 0\<rparr>, db)) = (counts, db1)" by (metis prod.exhaust)
  obtain db' where out: "delete_project ?env user (Some (pid, content)) db = (Reply 200 counts, db')"
    and db': "\<And>ids. erased ids db1 \<Longrightarrow> erased ids db'" "nv_projects db' = filter (\<lambda>p. pj_id p \<noteq> pid) (nv_projects db1)"
      "map cm_id (nv_moments db') = map cm_id (nv_moments db1)" "nv_media db' = nv_media db1"
      "length (nv_tasks db') = length (nv_tasks db1)" "length (nv_actions db') = length (nv_actions db1)"
      "list_all (\<lambda>m. cm_project m \<noteq> Some pid) (nv_moments db')" "list_all (\<lambda>t. tk_project t \<noteq> Some pid) (nv_tasks db')"
      "list_all (\<lambda>a. an_project a \<noteq> Some pid) (nv_actions db')"
  proof -
    have d: "nv_projects (drop_project pid db1) = filter (\<lambda>p. pj_id p \<noteq> pid) (nv_projects db1)"
      "map cm_id (nv_moments (drop_project pid db1)) = map cm_id (nv_moments db1)" "nv_media (drop_project pid db1) = nv_media db1"
      "length (nv_tasks (drop_project pid db1)) = length (nv_tasks db1)" "length (nv_actions (drop_project pid db1)) = length (nv_actions db1)"
      "list_all (\<lambda>m. cm_project m \<noteq> Some pid) (nv_moments (drop_project pid db1))"
      "list_all (\<lambda>t. tk_project t \<noteq> Some pid) (nv_tasks (drop_project pid db1))"
      "list_all (\<lambda>a. an_project a \<noteq> Some pid) (nv_actions (drop_project pid db1))"
      by (auto simp: drop_project_def Let_def list_all_iff)
    show thesis
      by (rule that, simp only: delete_project_def option.case prod.case found 1 Let_def, simp_all add: d erased_drop_project)
  qed
  have mine: "list_ex (\<lambda>p. pj_id p = pid \<and> pj_user p = user) (nv_projects db)" using found by (auto simp: find_Some_iff list_ex_iff)
  show ?thesis
  proof (cases content)
    case False
    then have "db1 = db" using 1 by simp
    then show ?thesis unfolding out prod.case response.case Let_def using db' mine False by simp
  next
    case True
    have settled: "blob_settled root_path db' = blob_settled root_path db1" by (rule blob_settled_media) (simp_all add: db'(4))
    from delete_content_facts [OF 1 [unfolded if_P [OF True]]] show ?thesis
      unfolding out prod.case response.case Let_def settled using db' mine True by simp
  qed
qed

end
