(* ===== verification/Data_Routes.thy ===== *)
theory Data_Routes
  imports Lifecycle
begin

text \<open>
  The routes that hand data out: the exports of \<open>routes-m3.ts\<close> and \<open>routes-account.ts\<close>, the enrichment versions of
  \<open>routes-account.ts\<close>, the audit page and the event intake of \<open>routes-m4.ts\<close>, and the live questions of \<open>routes-m3.ts\<close>,
  the one route that sends captured content to a model. The provider of the answers is a parameter.
\<close>

subsection \<open>Exports\<close>

record export_query =
  xq_project :: "string option"
  xq_from :: "int option"
  xq_to :: "int option"

definition export_rows_of :: "string \<Rightarrow> export_query \<Rightarrow> ('rl, 's) nova \<Rightarrow> capture_row list" where
  "export_rows_of user q db =
     sort_key cm_captured (filter (\<lambda>m. cm_user m = user \<and> (case xq_project q of None \<Rightarrow> True | Some p \<Rightarrow> cm_project m = Some p) \<and>
       (case xq_from q of None \<Rightarrow> True | Some t \<Rightarrow> t \<le> cm_captured m) \<and> (case xq_to q of None \<Rightarrow> True | Some t \<Rightarrow> cm_captured m \<le> t))
       (nv_moments db))"

record export_doc =
  xd_projects :: "project_row list"
  xd_moments :: "(capture_row \<times> export_ref list) list"
  xd_tasks :: "task_row list"
  xd_actions :: "action_row list"

definition with_media :: "(string \<times> 'm list) list \<Rightarrow> capture_row list \<Rightarrow> (capture_row \<times> 'm list) list" where
  "with_media refs rows = map (\<lambda>m. (row_to_moment m, case map_of refs (cm_id m) of None \<Rightarrow> [] | Some xs \<Rightarrow> xs)) rows"

definition is_filtered :: "export_query \<Rightarrow> bool" where
  "is_filtered q \<longleftrightarrow> xq_project q \<noteq> None \<or> xq_from q \<noteq> None \<or> xq_to q \<noteq> None"

definition export_data :: "'s capture_deps \<Rightarrow> string \<Rightarrow> export_query option \<Rightarrow> ('rl, 's) nova \<Rightarrow> export_doc response \<times> ('rl, 's) nova" where
  "export_data env user parsed db =
     (case parsed of
        None \<Rightarrow> (Refuse 400 ''invalid_request'', db)
      | Some q \<Rightarrow>
          let moments = export_rows_of user q db;
              tasks = filter (\<lambda>t. tk_user t = user) (nv_tasks db);
              actions = filter (\<lambda>a. an_user a = user) (nv_actions db);
              projects = filter (\<lambda>p. pj_user p = user \<and> \<not> pj_archived p) (nv_projects db);
              db1 = nova_audit user ''export'' []
                [(''moments'', JNum (int (length moments))), (''tasks'', JNum (int (length tasks))),
                 (''actions'', JNum (int (length actions))), (''filtered'', JBool (is_filtered q))] db;
              db2 = track (ce_analytics env) user ''export_requested''
                [(''moments'', JNum (int (length moments))), (''filtered'', JBool (is_filtered q))] db1
          in (case (case ce_media env of None \<Rightarrow> Inr [] | Some pipe \<Rightarrow>
                      export_for_moments pipe (ce_store env) user (map cm_id moments) (nv_media db2)) of
                Inl e \<Rightarrow> (Raise ''media export failed'', db2)
              | Inr refs \<Rightarrow>
                  (Reply 200 \<lparr>xd_projects = projects, xd_moments = with_media refs moments, xd_tasks = tasks, xd_actions = actions\<rparr>, db2)))"

datatype media_mode = Mode_refs | Mode_full

datatype account_media_item = Media_reference media_ref | Media_data export_ref

record connection_meta =
  \<comment> \<open>the columns of a connection that the export selects: no token\<close>
  co_provider :: string
  co_active :: bool
  co_account :: "string option"

record account_doc =
  xa_user :: "(string \<times> string \<times> string option) option"
  xa_projects :: "project_row list"
  xa_moments :: "(capture_row \<times> account_media_item list) list"
  xa_tasks :: "task_row list"
  xa_actions :: "action_row list"
  xa_integrations :: "connection_meta list"
  xa_sessions :: "(string \<times> session_kind \<times> string option) list"
  xa_audit :: "act_audit list"
  xa_events :: "event_row list"
  xa_versions :: "version_row list"

definition gate_export_ref :: "export_ref \<Rightarrow> export_ref" where
  \<comment> \<open>the route repeats the check of the media service\<close>
  "gate_export_ref x =
     (if is_safe_media_redaction_state (Some (ref_state (ex_ref x))) then x
      else x\<lparr>ex_data_url := None, ex_excluded_reason := Some ''redaction_not_applied''\<rparr>)"

definition account_media_refs :: "'s capture_deps \<Rightarrow> media_mode \<Rightarrow> string \<Rightarrow> string list \<Rightarrow> 's media \<Rightarrow>
    media_error + (string \<times> account_media_item list) list" where
  "account_media_refs env mode user ids md =
     (case ce_media env of
        None \<Rightarrow> Inr []
      | Some pipe \<Rightarrow>
          if ids = [] then Inr []
          else (case mode of
                  Mode_full \<Rightarrow>
                    (case export_for_moments pipe (ce_store env) user ids md of
                       Inl e \<Rightarrow> Inl e
                     | Inr full \<Rightarrow> Inr (map (\<lambda>(i, xs). (i, map (\<lambda>x. Media_data (gate_export_ref x)) xs)) full))
                | Mode_refs \<Rightarrow> Inr (map (\<lambda>(i, xs). (i, map Media_reference xs)) (list_for_moments ids md))))"

definition account_document :: "string \<Rightarrow> (string \<times> account_media_item list) list \<Rightarrow> capture_row list \<Rightarrow> ('rl, 's) nova \<Rightarrow> account_doc" where
  "account_document user refs moments db =
     \<lparr>xa_user = map_option (\<lambda>u. (us_id u, us_email u, us_display_name u)) (find (\<lambda>u. us_id u = user) (nv_users db)),
      xa_projects = filter (\<lambda>p. pj_user p = user) (nv_projects db),
      xa_moments = with_media refs moments,
      xa_tasks = filter (\<lambda>t. tk_user t = user) (nv_tasks db),
      xa_actions = filter (\<lambda>a. an_user a = user) (nv_actions db),
      xa_integrations = map (\<lambda>c. \<lparr>co_provider = cn_provider c, co_active = cn_active c, co_account = cn_account c\<rparr>)
        (filter (\<lambda>c. cn_user c = user) (nv_connections db)),
      xa_sessions = map (\<lambda>s. (ss_id s, ss_kind s, ss_label s)) (filter (\<lambda>s. ss_user s = user \<and> ss_revoked s = None) (nv_sessions db)),
      xa_audit = filter (\<lambda>a. aa_user a = user) (nv_audit db),
      xa_events = filter (\<lambda>e. ev_user e = user) (nv_events db),
      xa_versions = filter (\<lambda>v. vn_user v = user) (nv_versions db)\<rparr>"

definition mode_name_of :: "media_mode \<Rightarrow> string" where
  "mode_name_of m = (case m of Mode_refs \<Rightarrow> ''refs'' | Mode_full \<Rightarrow> ''full'')"

definition export_account :: "'s capture_deps \<Rightarrow> string \<Rightarrow> media_mode option \<Rightarrow> ('rl, 's) nova \<Rightarrow> account_doc response \<times> ('rl, 's) nova" where
  "export_account env user parsed db =
     (case parsed of
        None \<Rightarrow> (Refuse 400 ''invalid_request'', db)
      | Some mode \<Rightarrow>
          let moments = sort_key cm_captured (filter (\<lambda>m. cm_user m = user) (nv_moments db))
          in (case account_media_refs env mode user (map cm_id moments) (nv_media db) of
                Inl e \<Rightarrow> (Raise ''media export failed'', db)
              | Inr refs \<Rightarrow>
                  (Reply 200 (account_document user refs moments db),
                   track (ce_analytics env) user ''export_requested''
                     [(''moments'', JNum (int (length moments))), (''filtered'', JBool False)]
                     (nova_audit user ''export'' []
                       [(''scope'', JStr ''account''), (''media_mode'', JStr (mode_name_of mode)), (''moments'', JNum (int (length moments)))] db))))"

subsection \<open>Enrichment versions\<close>

definition list_versions :: "string \<Rightarrow> string option \<Rightarrow> ('rl, 's) nova \<Rightarrow> (capture_row \<times> version_row list) response" where
  "list_versions user mid db =
     (case mid of
        None \<Rightarrow> Refuse 404 ''not_found''
      | Some i \<Rightarrow>
          (case find_moment i user db of
             None \<Rightarrow> Refuse 404 ''not_found''
           | Some m \<Rightarrow>
               Reply 200 (m, sort_key (\<lambda>v. - int (vn_version v)) (filter (\<lambda>v. vn_moment v = i \<and> vn_user v = user) (nv_versions db)))))"

definition select_version :: "string \<Rightarrow> string option \<Rightarrow> nat option \<Rightarrow> ('rl, 's) nova \<Rightarrow> nat response \<times> ('rl, 's) nova" where
  "select_version user mid version db =
     (case mid of
        None \<Rightarrow> (Refuse 404 ''not_found'', db)
      | Some i \<Rightarrow>
          (case version of
             None \<Rightarrow> (Refuse 400 ''invalid_request'', db)
           | Some n \<Rightarrow>
               (case find (\<lambda>v. vn_moment v = i \<and> vn_user v = user \<and> vn_version v = n) (nv_versions db) of
                  None \<Rightarrow> (Refuse 404 ''not_found'', db)
                | Some v \<Rightarrow>
                    if find_moment i user db = None then (Refuse 404 ''not_found'', db)
                    else (Reply 200 n,
                      nova_audit user ''enrichment.version.selected'' i [(''version'', JNum (int n))]
                        (db\<lparr>nv_moments := map (\<lambda>m. if cm_id m = i \<and> cm_user m = user
                             then m\<lparr>cm_summary := vn_summary v, cm_enrichment := vn_enrichment v\<rparr> else m) (nv_moments db)\<rparr>)))))"

subsection \<open>Audit page and events\<close>

definition list_audit :: "(string \<Rightarrow> string option) \<Rightarrow> string \<Rightarrow> (string option \<times> nat) option \<Rightarrow> ('rl, 's) nova \<Rightarrow> (act_audit \<times> string) list response" where
  \<comment> \<open>newest first, which is the reverse order of the rows; the first argument is the table of labels. The cursor is left out.\<close>
  "list_audit label user parsed db =
     (case parsed of
        None \<Rightarrow> Refuse 400 ''invalid_request''
      | Some (event, limit) \<Rightarrow>
          Reply 200 (map (\<lambda>a. (a, case label (aa_event a) of None \<Rightarrow> aa_event a | Some l \<Rightarrow> l))
            (take limit (rev (filter (\<lambda>a. aa_user a = user \<and> (if truthy event then aa_event a = the event else True)) (nv_audit db))))))"

definition product_events :: "string list" where
  "product_events =
     [''extension_opened'', ''instant_capture_started'', ''instant_capture_saved'', ''live_session_started'', ''live_session_stopped'',
      ''live_question_asked'', ''live_moment_saved'', ''search_performed'', ''action_proposed'', ''action_approved'', ''action_rejected'',
      ''export_requested'', ''delete_requested'', ''capture_failed'', ''enrichment_failed'', ''transcription_failed'',
      ''onboarding_completed'', ''consent_reset'', ''task_created'', ''notion_action_executed'', ''feedback_submitted'']"

definition event_valid :: "string \<times> (string \<times> json) list \<Rightarrow> bool" where
  \<comment> \<open>\<open>productEventRequestSchema\<close>\<close>
  "event_valid e \<longleftrightarrow> fst e \<in> set product_events \<and>
     list_all (\<lambda>(k, v). case v of JNum n \<Rightarrow> True | JBool b \<Rightarrow> True | JStr s \<Rightarrow> length s \<le> 40 | _ \<Rightarrow> False) (snd e)"

definition post_event :: "bool \<Rightarrow> string \<Rightarrow> string \<times> (string \<times> json) list \<Rightarrow> ('rl, 's) nova \<Rightarrow> unit response \<times> ('rl, 's) nova" where
  "post_event analytics user e db =
     (if \<not> event_valid e then (Refuse 400 ''invalid_event'', db)
      else (let db1 = track analytics user (fst e) (snd e) db
            in (Reply 202 (),
                if fst e = ''live_session_started'' then nova_audit user ''live.session.start'' [] (snd e) db1
                else if fst e = ''live_session_stopped'' then nova_audit user ''live.session.stop'' [] (snd e) db1
                else db1)))"

subsection \<open>Live questions\<close>

record qa_exchange =
  qx_question :: string
  qx_answer :: string
  qx_at :: string

record live_request =
  lr_question :: string
  lr_url :: "string option"
  lr_title :: "string option"
  lr_frames :: "string list"
  lr_snippets :: "string list"
  lr_qa :: "qa_exchange list"
  lr_started :: "string option"

record live_answer =
  la_answer :: string
  la_grounded :: bool
  la_model :: "string option"

definition clean_field :: "string \<Rightarrow> string" where
  \<comment> \<open>a text under an object key: a data URI is left alone\<close>
  "clean_field s = (if is_data_url (JStr s) then s else clean_text s)"

definition redact_live :: "live_request \<Rightarrow> live_request" where
  "redact_live r =
     r\<lparr>lr_title := (if truthy (lr_title r) then map_option clean_text (lr_title r) else lr_title r),
       lr_snippets := map clean_text (lr_snippets r),
       lr_qa := map (\<lambda>x. \<lparr>qx_question = clean_field (qx_question x), qx_answer = clean_field (qx_answer x), qx_at = clean_field (qx_at x)\<rparr>) (lr_qa r)\<rparr>"

definition prepare_live :: "'s capture_deps \<Rightarrow> live_request \<Rightarrow> image_error + (live_request \<times> frames_outcome)" where
  "prepare_live env raw =
     (let r = (if ce_redaction_on env then redact_live raw else raw)
      in case redact_frames (lr_frames r) (ce_ocr env) of
           Inl e \<Rightarrow> Inl e
         | Inr fr \<Rightarrow> Inr (r\<lparr>lr_frames := fo_frames fr\<rparr>, fr))"

definition live_detail :: "live_request \<Rightarrow> frames_outcome \<Rightarrow> live_answer \<Rightarrow> (string \<times> json) list" where
  "live_detail req fr a =
     [(''frames'', JNum (int (length (lr_frames req)))), (''snippets'', JNum (int (length (lr_snippets req)))),
      (''image_redaction'', JStr (if fo_redacted fr then ''applied'' else ''skipped'')),
      (''frames_masked_regions'', JNum (int (fo_masked fr))), (''frames_dropped'', JNum (int (fo_dropped fr))),
      (''grounding'', JStr (if la_grounded a then ''grounded'' else ''insufficient_context'')), (''model'', opt_str (la_model a))]"

definition answer_live :: "'s capture_deps \<Rightarrow> (live_request \<Rightarrow> string + live_answer) option \<Rightarrow> string \<Rightarrow> live_request option \<Rightarrow> ('rl, 's) nova \<Rightarrow>
    live_answer response \<times> ('rl, 's) nova" where
  "answer_live env provider user parsed db =
     (case provider of
        None \<Rightarrow> (Refuse 503 ''live_qa_unavailable'', db)
      | Some answer \<Rightarrow>
          (case parsed of
             None \<Rightarrow> (Refuse 400 ''invalid_request'', db)
           | Some raw \<Rightarrow>
               (case prepare_live env raw of
                  Inl e \<Rightarrow> (Raise ''frame redaction failed'', db)
                | Inr (req, fr) \<Rightarrow>
                    (case answer req of
                       Inl e \<Rightarrow> (Refuse 502 ''live_qa_failed'', db)
                     | Inr a \<Rightarrow>
                         (Reply 200 a,
                          track (ce_analytics env) user ''live_question_asked''
                            [(''grounding'', JStr (if la_grounded a then ''grounded'' else ''insufficient_context'')),
                             (''frames'', JNum (int (length (lr_frames req))))]
                            (nova_audit user ''live.qa'' [] (live_detail req fr a) db))))))"

subsection \<open>Properties\<close>

definition own_data :: "string \<Rightarrow> ('rl, 's) nova \<Rightarrow> string \<Rightarrow> export_ref \<Rightarrow> bool" where
  \<comment> \<open>a medium of the user and of the moment, with data only in a safe redaction state\<close>
  "own_data user db mo x \<longleftrightarrow>
     (\<exists>row. row \<in> set (md_rows (nv_media db)) \<and> mr_user row = user \<and> mr_moment row = mo \<and> ex_ref x = to_ref row \<and>
        (ex_data_url x = None \<or> mr_state row \<in> {''applied'', ''none''}))"

definition own_item :: "string \<Rightarrow> ('rl, 's) nova \<Rightarrow> string \<Rightarrow> account_media_item \<Rightarrow> bool" where
  \<comment> \<open>a reference carries no pixels and is one of a medium of the moment\<close>
  "own_item user db mo x \<longleftrightarrow>
     (case x of
        Media_reference r \<Rightarrow> (\<exists>row. row \<in> set (md_rows (nv_media db)) \<and> mr_moment row = mo \<and> r = to_ref row)
      | Media_data e \<Rightarrow> own_data user db mo e)"

definition object_payloads :: "('rl, 's) nova \<Rightarrow> bool" where
  "object_payloads db \<longleftrightarrow> list_all (\<lambda>m. case cm_payload m of None \<Rightarrow> True | Some p \<Rightarrow> is_object p) (nv_moments db)"

lemma exported_rows:
  assumes "list_all (\<lambda>(i, xs). list_all (P i) xs) refs" "set rows \<subseteq> {m \<in> set (nv_moments db). cm_user m = user}"
  shows "list_all (\<lambda>(m, xs). cm_user m = user \<and> list_all (P (cm_id m)) xs \<and>
    (if object_payloads db then images_opt (cm_payload m) = [] else True)) (with_media refs rows)"
proof -
  have "cm_user m = user \<and> list_all (P (cm_id m)) xs \<and> (if object_payloads db then images_opt (cm_payload m) = [] else True)"
    if mem: "(m, xs) \<in> set (with_media refs rows)" for m xs
  proof -
    from mem obtain r where r: "m = row_to_moment r" "r \<in> set rows"
      "xs = (case map_of refs (cm_id r) of None \<Rightarrow> [] | Some ys \<Rightarrow> ys)" by (auto simp: with_media_def)
    have "list_all (P (cm_id r)) xs" using r(3) assms(1) by (fastforce simp: list_all_iff split: option.splits dest: map_of_SomeD)
    moreover have "cm_user r = user" "r \<in> set (nv_moments db)" using r(2) assms(2) by auto
    ultimately show ?thesis using r(1) row_to_moment_clean [of r] by (simp add: object_payloads_def list_all_iff)
  qed
  then show ?thesis by (auto simp: list_all_iff)
qed

lemma exported_moments: "fst ` set (with_media refs rows) = row_to_moment ` set rows"
  by (force simp: with_media_def image_iff)

lemma export_refs_own:
  assumes "export_for_moments pipe ops user ids (nv_media db) = Inr refs"
  shows "list_all (\<lambda>(i, xs). list_all (own_data user db i) xs) refs"
  using export_for_moments_own [OF assms]
  by (fastforce simp: own_data_def list_all_iff split: option.splits)

lemma account_refs_own:
  assumes "account_media_refs env mode user ids (nv_media db) = Inr refs"
  shows "list_all (\<lambda>(i, xs). list_all (own_item user db i) xs) refs"
proof (cases "ce_media env = None \<or> ids = []")
  case True
  then show ?thesis using assms by (auto simp: account_media_refs_def split: option.splits)
next
  case False
  then obtain pipe where p: "ce_media env = Some pipe" "ids \<noteq> []" by auto
  have gate: "own_data user db i x \<Longrightarrow> own_data user db i (gate_export_ref x)" for i x
    by (auto simp: own_data_def gate_export_ref_def)
  show ?thesis
  proof (cases mode)
    case Mode_refs
    then show ?thesis using assms p list_for_moments_rows [of "nv_media db" ids]
      by (fastforce simp: account_media_refs_def own_item_def list_all_iff)
  next
    case Mode_full
    then obtain full where f: "export_for_moments pipe (ce_store env) user ids (nv_media db) = Inr full"
      and r: "refs = map (\<lambda>(i, xs). (i, map (\<lambda>x. Media_data (gate_export_ref x)) xs)) full"
      using assms p by (auto simp: account_media_refs_def split: sum.splits)
    show ?thesis using export_refs_own [OF f] gate unfolding r by (fastforce simp: own_item_def list_all_iff)
  qed
qed

text \<open>C33. Both exports hold the data of the user, all of it and nothing of anyone else, and no unsafe pixels. In the
  export of the moments every moment is one of the user's, in the asked project and dates; in both, the payload of a
  moment carries no inline image when the stored payloads are objects, and the media under a moment are media of that
  moment, those with data being the user's own and in a safe redaction state. The tasks, actions and projects are
  exactly the user's (the projects without the archived ones in the first export), and so are, in the account export,
  the moments, the audit rows, the events, the enrichment versions, the sessions that are not revoked and the
  connections, of which a provider, a status and an account name are shown and no token; the user row is the user's.\<close>

theorem exports_are_clean:
  "(case export_data env user parsed db of (r, db') \<Rightarrow>
      (case r of
         Reply status doc \<Rightarrow>
           (case parsed of None \<Rightarrow> False | Some q \<Rightarrow>
             fst ` set (xd_moments doc) = row_to_moment ` {m \<in> set (nv_moments db). cm_user m = user \<and>
               (if xq_project q = None then True else cm_project m = xq_project q) \<and>
               (if xq_from q = None then True else the (xq_from q) \<le> cm_captured m) \<and>
               (if xq_to q = None then True else cm_captured m \<le> the (xq_to q))}) \<and>
           list_all (\<lambda>(m, xs). cm_user m = user \<and> list_all (own_data user db (cm_id m)) xs \<and>
             (if object_payloads db then images_opt (cm_payload m) = [] else True)) (xd_moments doc) \<and>
           set (xd_tasks doc) = {t \<in> set (nv_tasks db). tk_user t = user} \<and>
           set (xd_actions doc) = {a \<in> set (nv_actions db). an_user a = user} \<and>
           set (xd_projects doc) = {p \<in> set (nv_projects db). pj_user p = user \<and> \<not> pj_archived p}
       | _ \<Rightarrow> True)) \<and>
   (case export_account env user mode db of (r, db') \<Rightarrow>
      (case r of
         Reply status doc \<Rightarrow>
           (case xa_user doc of
              None \<Rightarrow> list_all (\<lambda>u. us_id u \<noteq> user) (nv_users db)
            | Some (i, email, name) \<Rightarrow> i = user \<and>
                (\<exists>u. u \<in> set (nv_users db) \<and> us_id u = user \<and> us_email u = email \<and> us_display_name u = name)) \<and>
           fst ` set (xa_moments doc) = row_to_moment ` {m \<in> set (nv_moments db). cm_user m = user} \<and>
           list_all (\<lambda>(m, xs). cm_user m = user \<and> list_all (own_item user db (cm_id m)) xs \<and>
             (if object_payloads db then images_opt (cm_payload m) = [] else True)) (xa_moments doc) \<and>
           set (xa_tasks doc) = {t \<in> set (nv_tasks db). tk_user t = user} \<and>
           set (xa_actions doc) = {a \<in> set (nv_actions db). an_user a = user} \<and>
           set (xa_projects doc) = {p \<in> set (nv_projects db). pj_user p = user} \<and>
           set (xa_integrations doc) = {\<lparr>co_provider = cn_provider c, co_active = cn_active c, co_account = cn_account c\<rparr> | c.
             c \<in> set (nv_connections db) \<and> cn_user c = user} \<and>
           set (xa_sessions doc) = {(ss_id s, ss_kind s, ss_label s) | s.
             s \<in> set (nv_sessions db) \<and> ss_user s = user \<and> ss_revoked s = None} \<and>
           set (xa_audit doc) = {a \<in> set (nv_audit db). aa_user a = user} \<and>
           set (xa_events doc) = {e \<in> set (nv_events db). ev_user e = user} \<and>
           set (xa_versions doc) = {v \<in> set (nv_versions db). vn_user v = user}
       | _ \<Rightarrow> True))"
  (is "?data \<and> ?account")
proof (intro conjI)
  show ?data
  proof (cases parsed)
    case None
    then show ?thesis by (simp add: export_data_def)
  next
    case (Some q)
    define rows where "rows = export_rows_of user q db"
    have mine: "set rows \<subseteq> {m \<in> set (nv_moments db). cm_user m = user}" by (auto simp: rows_def export_rows_of_def)
    have those: "set rows = {m \<in> set (nv_moments db). cm_user m = user \<and>
        (if xq_project q = None then True else cm_project m = xq_project q) \<and>
        (if xq_from q = None then True else the (xq_from q) \<le> cm_captured m) \<and>
        (if xq_to q = None then True else cm_captured m \<le> the (xq_to q))}"
      unfolding rows_def export_rows_of_def
      by (cases "xq_project q"; cases "xq_from q"; cases "xq_to q") simp_all
    have own: "list_all (\<lambda>(i, xs). list_all (own_data user db i) xs) refs"
      if "(case ce_media env of None \<Rightarrow> Inr [] | Some pipe \<Rightarrow> export_for_moments pipe (ce_store env) user (map cm_id rows) (nv_media db)) = Inr refs" for refs
      using that by (auto split: option.splits dest: export_refs_own)
    show ?thesis
    proof (cases "case ce_media env of None \<Rightarrow> Inr [] | Some pipe \<Rightarrow> export_for_moments pipe (ce_store env) user (map cm_id rows) (nv_media db)")
      case (Inr refs)
      have "\<exists>db'. export_data env user parsed db =
          (Reply 200 \<lparr>xd_projects = filter (\<lambda>p. pj_user p = user \<and> \<not> pj_archived p) (nv_projects db), xd_moments = with_media refs rows,
             xd_tasks = filter (\<lambda>t. tk_user t = user) (nv_tasks db), xd_actions = filter (\<lambda>a. an_user a = user) (nv_actions db)\<rparr>, db')"
        unfolding export_data_def Some option.case Let_def rows_def [symmetric] track_tables nova_audit_tables Inr by simp
      then obtain db' where out: "export_data env user parsed db =
          (Reply 200 \<lparr>xd_projects = filter (\<lambda>p. pj_user p = user \<and> \<not> pj_archived p) (nv_projects db), xd_moments = with_media refs rows,
             xd_tasks = filter (\<lambda>t. tk_user t = user) (nv_tasks db), xd_actions = filter (\<lambda>a. an_user a = user) (nv_actions db)\<rparr>, db')"
        by blast
      show ?thesis
        unfolding out prod.case response.case
        unfolding Some option.case export_doc.simps exported_moments those
        using exported_rows [where P = "own_data user db", OF own [OF Inr] mine] by (simp split del: if_split)
    qed (unfold export_data_def Some option.case Let_def rows_def [symmetric] track_tables nova_audit_tables, simp)
  qed
  show ?account
  proof (cases mode)
    case None
    then show ?thesis by (simp add: export_account_def)
  next
    case (Some m)
    define rows where "rows = sort_key cm_captured (filter (\<lambda>m. cm_user m = user) (nv_moments db))"
    have mine: "set rows \<subseteq> {m \<in> set (nv_moments db). cm_user m = user}" by (auto simp: rows_def)
    have those: "set rows = {m \<in> set (nv_moments db). cm_user m = user}" by (auto simp: rows_def)
    show ?thesis
    proof (cases "account_media_refs env m user (map cm_id rows) (nv_media db)")
      case (Inr refs)
      then obtain db' where "export_account env user mode db = (Reply 200 (account_document user refs rows db), db')"
        by (simp add: export_account_def Some Let_def rows_def [symmetric])
      moreover have "case find (\<lambda>u. us_id u = user) (nv_users db) of
          None \<Rightarrow> list_all (\<lambda>u. us_id u \<noteq> user) (nv_users db) | Some u \<Rightarrow> u \<in> set (nv_users db) \<and> us_id u = user"
        by (auto simp: find_None_iff find_Some_iff list_all_iff split: option.split)
      ultimately show ?thesis
        using exported_rows [where P = "own_item user db", OF account_refs_own [OF Inr] mine] exported_moments [of refs rows] those
        by (auto simp: account_document_def split: option.splits)
    qed (simp add: export_account_def Some Let_def rows_def [symmetric])
  qed
qed

lemma live_detail_sizes:
  "list_all (\<lambda>(k, v). case v of JNum n \<Rightarrow> True | JNull \<Rightarrow> k = ''model'' | JStr s \<Rightarrow> k = ''model'' \<and> la_model a = Some s \<or>
     s \<in> {''applied'', ''skipped'', ''grounded'', ''insufficient_context''} | _ \<Rightarrow> False) (live_detail req fr a)"
  by (cases "la_model a") (simp_all add: live_detail_def opt_str_def)

text \<open>C34. What a live question hands to the model, and what it leaves behind. When an answer comes back it is the
  provider's answer to one request, in which, with redaction on, the page title, every snippet and every text of the
  recent exchanges is the redacted form of the given one (a data URI in an exchange is left as it is); with an OCR
  engine every frame is the result of a certified analysis of one of the given frames, in order, the others being
  dropped and counted. The question and the URL are sent as they are, whatever the switches say; with redaction off
  the texts, and without an engine the frames, are sent as they are, too. The only other effects are one analytics
  event and one audit row that holds counts, two flags and the name of the model; a question that is refused or fails
  changes nothing.\<close>

theorem live_question_sends_redacted:
  "(case answer_live env (Some answer) user (Some raw) db of
      (Reply status a, db') \<Rightarrow>
        (\<exists>req dropped. answer req = Inr a \<and>
           lr_question req = lr_question raw \<and> lr_url req = lr_url raw \<and>
           (if ce_redaction_on env
            then lr_title req = map_option clean_text (lr_title raw) \<and> lr_snippets req = map clean_text (lr_snippets raw) \<and>
              lr_qa req = map (\<lambda>x. \<lparr>qx_question = clean_field (qx_question x), qx_answer = clean_field (qx_answer x),
                qx_at = clean_field (qx_at x)\<rparr>) (lr_qa raw)
            else lr_title req = lr_title raw \<and> lr_snippets req = lr_snippets raw \<and> lr_qa req = lr_qa raw) \<and>
           (case ce_ocr env of
              None \<Rightarrow> lr_frames req = lr_frames raw
            | Some im \<Rightarrow> length (lr_frames req) + dropped = length (lr_frames raw) \<and>
                (\<exists>us. subseq us (lr_frames raw) \<and> list_all2 (certified_image im) us (lr_frames req)))) \<and>
        (\<exists>detail events. db' = db\<lparr>nv_audit := nv_audit db @
             [\<lparr>aa_user = user, aa_event = ''live.qa'', aa_subject = [], aa_detail = detail\<rparr>], nv_events := nv_events db @ events\<rparr> \<and>
           length events \<le> 1 \<and>
           list_all (\<lambda>(k, v). case v of JNum n \<Rightarrow> True | JNull \<Rightarrow> k = ''model'' | JStr s \<Rightarrow> k = ''model'' \<and> la_model a = Some s \<or>
             s \<in> {''applied'', ''skipped'', ''grounded'', ''insufficient_context''} | _ \<Rightarrow> False) detail)
    | (_, db') \<Rightarrow> db' = db)"
proof (cases "prepare_live env raw")
  case (Inl e)
  then show ?thesis by (simp add: answer_live_def)
next
  case (Inr rf)
  obtain req fr where rf: "rf = (req, fr)" by (cases rf)
  let ?r = "if ce_redaction_on env then redact_live raw else raw"
  have frames: "lr_frames ?r = lr_frames raw" by (simp add: redact_live_def)
  have title: "lr_title (redact_live raw) = map_option clean_text (lr_title raw)"
    using clean_text_Nil by (cases "lr_title raw") (auto simp: redact_live_def truthy_def)
  have p: "redact_frames (lr_frames raw) (ce_ocr env) = Inr fr" "req = ?r\<lparr>lr_frames := fo_frames fr\<rparr>"
    using Inr frames rf by (auto simp: prepare_live_def Let_def split: sum.splits)
  have ocr: "case ce_ocr env of
      None \<Rightarrow> lr_frames req = lr_frames raw
    | Some im \<Rightarrow> length (lr_frames req) + fo_dropped fr = length (lr_frames raw) \<and>
        (\<exists>us. subseq us (lr_frames raw) \<and> list_all2 (certified_image im) us (lr_frames req))"
    using redact_frames_fail_closed [where frames = "lr_frames raw" and ocr = "ce_ocr env"] p by (auto split: option.splits)
  have texts: "lr_question req = lr_question raw" "lr_url req = lr_url raw"
    "if ce_redaction_on env
     then lr_title req = map_option clean_text (lr_title raw) \<and> lr_snippets req = map clean_text (lr_snippets raw) \<and>
       lr_qa req = map (\<lambda>x. \<lparr>qx_question = clean_field (qx_question x), qx_answer = clean_field (qx_answer x),
         qx_at = clean_field (qx_at x)\<rparr>) (lr_qa raw)
     else lr_title req = lr_title raw \<and> lr_snippets req = lr_snippets raw \<and> lr_qa req = lr_qa raw"
    unfolding p(2) using title by (simp_all add: redact_live_def)
  show ?thesis
  proof (cases "answer req")
    case (Inl e)
    then show ?thesis using Inr rf by (simp add: answer_live_def)
  next
    case ans: (Inr a)
    let ?d = "live_detail req fr a"
    let ?ps = "[(''grounding'', JStr (if la_grounded a then ''grounded'' else ''insufficient_context'')), (''frames'', JNum (int (length (lr_frames req))))]"
    let ?ev = "if ce_analytics env then [\<lparr>ev_user = user, ev_name = ''live_question_asked'', ev_props = safe_props ?ps\<rparr>] else []"
    have out: "answer_live env (Some answer) user (Some raw) db =
        (Reply 200 a, track (ce_analytics env) user ''live_question_asked'' ?ps (nova_audit user ''live.qa'' [] ?d db))"
      using Inr rf ans by (simp add: answer_live_def)
    have db': "track (ce_analytics env) user ''live_question_asked'' ?ps (nova_audit user ''live.qa'' [] ?d db) =
        db\<lparr>nv_audit := nv_audit db @ [\<lparr>aa_user = user, aa_event = ''live.qa'', aa_subject = [], aa_detail = ?d\<rparr>],
          nv_events := nv_events db @ ?ev\<rparr>"
      by (simp add: track_def nova_audit_def)
    have "length ?ev \<le> 1" by simp
    with ans texts ocr live_detail_sizes [of a req fr] show ?thesis
      unfolding out prod.case response.case db' by blast
  qed
qed

end
