(* ===== verification/Enrich.thy ===== *)
theory Enrich
  imports Capture Facts
begin

text \<open>
  Enrichment: the local heuristics of \<open>packages/context-engine/src/local-enrichment.ts\<close> and the pipeline of
  \<open>services/worker/src/enrich.ts\<close>. The model that drafts an enrichment and the one that embeds a text are parameters that
  can fail; vectors are not kept. The pipeline works on the tables of the API, the entities with their mentions and
  the memory.
\<close>

subsection \<open>Drafts\<close>

record entity =
  en_kind :: string
  en_name :: string

record candidate =
  ca_type :: string
  ca_title :: string
  ca_detail :: "string option"
  ca_tier :: nat

record draft =
  dr_summary :: string
  dr_entities :: "entity list"
  dr_tags :: "string list"
  dr_candidates :: "candidate list"
  dr_priority :: priority
  dr_refined :: "action_type option"
  dr_provider :: parser
  dr_model :: "string option"

record local_input =
  lo_extracted :: "string option"
  lo_intent_text :: "string option"
  lo_intent :: "parsed_intent option"
  lo_meta :: source_meta
  lo_has_task :: bool

definition or_empty :: "string option \<Rightarrow> string" where
  "or_empty v = (case v of None \<Rightarrow> [] | Some s \<Rightarrow> s)"

definition captured_context :: string where "captured_context = ''Captured context''"

definition local_summary :: "local_input \<Rightarrow> string" where
  "local_summary input =
     (let title = squeeze (or_empty (sm_title (lo_meta input))); body = squeeze (or_empty (lo_extracted input))
      in case lo_intent input of
           Some i \<Rightarrow>
             if pi_summary i \<noteq> [] \<and> pi_summary i \<noteq> captured_context then take 300 (pi_summary i)
             else (let combined = join_with dash_sep (filter (\<lambda>s. s \<noteq> []) [title, take 240 body])
                   in take 300 (if combined = [] then captured_context else combined))
         | None \<Rightarrow>
             (let combined = join_with dash_sep (filter (\<lambda>s. s \<noteq> []) [title, take 240 body])
              in take 300 (if combined = [] then captured_context else combined)))"

definition topic_word :: re where
  "topic_word = Cat (CC upper_az) (plus_re (CC alpha))"

definition topic_re :: re where
  "topic_re = cats [WordB, topic_word, plus_re (Cat spaces topic_word), WordB]"

definition local_entities :: "(string \<Rightarrow> string option) \<Rightarrow> local_input \<Rightarrow> entity list" where
  "local_entities host_of input =
     (case sm_url (lo_meta input) of None \<Rightarrow> [] | Some u \<Rightarrow> (case host_of u of None \<Rightarrow> [] | Some h \<Rightarrow> [\<lparr>en_kind = ''url'', en_name = h\<rparr>])) @
     map (\<lambda>t. \<lparr>en_kind = ''topic'', en_name = t\<rparr>) (take 3 (map matched (match_all topic_re None (or_empty (sm_title (lo_meta input))))))"

definition first_ones :: "'a list \<Rightarrow> 'a list" where
  \<comment> \<open>the elements of a JavaScript set, in the order of their first insertion\<close>
  "first_ones xs = rev (remdups (rev xs))"

definition host_label :: "string \<Rightarrow> string" where
  "host_label host = hd (split_on CHR ''.'' (if starts_with host ''www.'' then drop 4 host else host))"

definition local_tags :: "(string \<Rightarrow> string option) \<Rightarrow> local_input \<Rightarrow> string list" where
  "local_tags host_of input =
     take 12 (first_ones (
       (case lo_intent input of None \<Rightarrow> [] | Some i \<Rightarrow> [map (\<lambda>c. if c = CHR ''_'' then CHR ''-'' else c) (action_type_name (pi_action i))]) @
       (case sm_url (lo_meta input) of None \<Rightarrow> [] | Some u \<Rightarrow> (case host_of u of None \<Rightarrow> [] | Some h \<Rightarrow> [host_label h])) @
       (case lo_intent input of None \<Rightarrow> [] | Some i \<Rightarrow> if pi_priority i = High_priority then [''urgent''] else [])))"

definition local_candidates :: "local_input \<Rightarrow> candidate list" where
  "local_candidates input =
     (case lo_intent input of
        None \<Rightarrow> []
      | Some i \<Rightarrow>
          if pi_action i = Research \<and> \<not> lo_has_task input
          then [\<lparr>ca_type = ''nova_task'', ca_title = take 512 (''Research: '' @ pi_summary i), ca_detail = lo_intent_text input, ca_tier = 0\<rparr>]
          else [])"

definition local_draft :: "(string \<Rightarrow> string option) \<Rightarrow> local_input \<Rightarrow> draft" where
  "local_draft host_of input =
     \<lparr>dr_summary = local_summary input, dr_entities = local_entities host_of input, dr_tags = local_tags host_of input,
      dr_candidates = local_candidates input,
      dr_priority = (case lo_intent input of None \<Rightarrow> Normal_priority | Some i \<Rightarrow> pi_priority i),
      dr_refined = None, dr_provider = Heuristic, dr_model = None\<rparr>"

subsection \<open>The tables of the worker\<close>

record entity_row =
  et_id :: string
  et_user :: string
  et_kind :: string
  et_name :: string
  et_normalized :: string

record mention_row =
  me_moment :: string
  me_entity :: string
  me_confidence :: rat

record ('rl, 's) brain =
  br_nova :: "('rl, 's) nova"
  br_entities :: "entity_row list"
  br_mentions :: "mention_row list"
  br_memory :: memory_db

record enrich_request =
  rx_title :: "string option"
  rx_url :: "string option"
  rx_extracted :: "string option"
  rx_intent :: "string option"

record enrich_deps =
  ed_enricher :: "(enrich_request \<Rightarrow> string + draft) option"
  ed_embedder :: "(string \<Rightarrow> string + unit) option"
  ed_analytics :: bool
  ed_facts :: bool
  ed_host_of :: "string \<Rightarrow> string option"
  ed_sha :: "string \<Rightarrow> string"
  ed_nfkc :: "string \<Rightarrow> string"
  ed_local_only :: "string \<Rightarrow> bool option" \<comment> \<open>the column of the project\<close>
  ed_new_id :: "nat \<Rightarrow> string"

definition update_moment :: "string \<Rightarrow> (capture_row \<Rightarrow> capture_row) \<Rightarrow> ('rl, 's) brain \<Rightarrow> ('rl, 's) brain" where
  \<comment> \<open>\<open>UPDATE context_moments SET f WHERE id = $1\<close>\<close>
  "update_moment mid f br =
     br\<lparr>br_nova := (br_nova br)\<lparr>nv_moments := map (\<lambda>m. if cm_id m = mid then f m else m) (nv_moments (br_nova br))\<rparr>\<rparr>"

definition worker_event :: "bool \<Rightarrow> string \<Rightarrow> string \<Rightarrow> (string \<times> json) list \<Rightarrow> ('rl, 's) brain \<Rightarrow> ('rl, 's) brain" where
  "worker_event enabled user event props br =
     (if \<not> enabled then br
      else br\<lparr>br_nova := (br_nova br)\<lparr>nv_events := nv_events (br_nova br) @ [\<lparr>ev_user = user, ev_name = event, ev_props = props\<rparr>]\<rparr>\<rparr>)"

definition mark_failed :: "string \<Rightarrow> string \<Rightarrow> string \<Rightarrow> ('rl, 's) brain \<Rightarrow> ('rl, 's) brain" where
  \<comment> \<open>the text of the error is kept in the audit row; the column for it is not modelled\<close>
  "mark_failed mid user err br =
     (let br1 = update_moment mid (\<lambda>m. m\<lparr>cm_status := En_failed\<rparr>) br;
          br2 = br1\<lparr>br_nova := nova_audit user ''enrichment.failed'' mid [(''error'', JStr (take 300 err))] (br_nova br1)\<rparr>
      in worker_event True user ''enrichment_failed'' [] br2)"

subsection \<open>The pipeline\<close>

definition input_of :: "('rl, 's) brain \<Rightarrow> capture_row \<Rightarrow> local_input" where
  "input_of br m =
     \<lparr>lo_extracted = cm_extracted m, lo_intent_text = cm_intent_text m, lo_intent = cm_intent m, lo_meta = cm_meta m,
      lo_has_task = list_ex (\<lambda>t. tk_moment t = Some (cm_id m)) (nv_tasks (br_nova br))\<rparr>"

definition draft_of :: "enrich_deps \<Rightarrow> ('rl, 's) brain \<Rightarrow> capture_row \<Rightarrow> draft" where
  "draft_of deps br m =
     (case ed_enricher deps of
        None \<Rightarrow> local_draft (ed_host_of deps) (input_of br m)
      | Some enrich \<Rightarrow>
          (case enrich \<lparr>rx_title = sm_title (cm_meta m), rx_url = sm_url (cm_meta m), rx_extracted = cm_extracted m, rx_intent = cm_intent_text m\<rparr> of
             Inl e \<Rightarrow> local_draft (ed_host_of deps) (input_of br m)
           | Inr d \<Rightarrow> d))"

definition refine_intent :: "draft \<Rightarrow> capture_row \<Rightarrow> ('rl, 's) brain \<Rightarrow> ('rl, 's) brain" where
  "refine_intent d m br =
     (case (dr_refined d, cm_intent m) of
        (Some a, Some i) \<Rightarrow>
          if dr_provider d = Llm \<and> a \<noteq> pi_action i
          then update_moment (cm_id m)
            (\<lambda>x. x\<lparr>cm_intent := Some (i\<lparr>pi_action := a, pi_priority := dr_priority d, pi_parser := Llm, pi_model := dr_model d\<rparr>)\<rparr>) br
          else br
      | _ \<Rightarrow> br)"

definition add_entity :: "enrich_deps \<Rightarrow> draft \<Rightarrow> capture_row \<Rightarrow> entity \<Rightarrow> ('rl, 's) brain \<Rightarrow> ('rl, 's) brain" where
  \<comment> \<open>the upsert keeps the name of an existing entity; a mention is added once\<close>
  "add_entity deps d m e br =
     (let normalized = js_trim (to_lower (en_name e))
      in if normalized = [] then br
         else (case (case find (\<lambda>r. et_user r = cm_user m \<and> et_kind r = en_kind e \<and> et_normalized r = normalized) (br_entities br) of
                       Some r \<Rightarrow> (et_id r, br)
                     | None \<Rightarrow>
                         let new = ed_new_id deps (length (br_entities br))
                         in (new, br\<lparr>br_entities := br_entities br @ [\<lparr>et_id = new, et_user = cm_user m, et_kind = en_kind e, et_name = en_name e,
                                et_normalized = normalized\<rparr>]\<rparr>)) of
                 (eid, br1) \<Rightarrow>
                   if list_ex (\<lambda>x. me_moment x = cm_id m \<and> me_entity x = eid) (br_mentions br1) then br1
                   else br1\<lparr>br_mentions := br_mentions br1 @ [\<lparr>me_moment = cm_id m, me_entity = eid,
                          me_confidence = (if dr_provider d = Llm then 8/10 else 5/10)\<rparr>]\<rparr>))"

definition proposal :: "enrich_deps \<Rightarrow> draft \<Rightarrow> capture_row \<Rightarrow> candidate \<Rightarrow> nat \<Rightarrow> action_row" where
  "proposal deps d m c n =
     \<lparr>an_id = ed_new_id deps n, an_user = cm_user m, an_type = ca_type c, an_risk = ca_tier c, an_status = Proposed,
      an_moment = Some (cm_id m), an_project = cm_project m,
      an_payload = \<lparr>py_title = Some (ca_title c), py_detail = ca_detail c, py_priority = Some (priority_name (dr_priority d)),
        py_destination = None, py_media_ids = None\<rparr>, an_result = None, an_approved_by = None\<rparr>"

definition propose :: "enrich_deps \<Rightarrow> draft \<Rightarrow> capture_row \<Rightarrow> candidate \<Rightarrow> ('rl, 's) brain \<Rightarrow> ('rl, 's) brain" where
  "propose deps d m c br =
     (if list_ex (\<lambda>a. an_moment a = Some (cm_id m) \<and> an_type a = ca_type c \<and> py_title (an_payload a) = Some (ca_title c)) (nv_actions (br_nova br))
      then br
      else br\<lparr>br_nova := (br_nova br)\<lparr>nv_actions := nv_actions (br_nova br) @ [proposal deps d m c (length (nv_actions (br_nova br)))]\<rparr>\<rparr>)"

definition fact_source_of :: "enrich_deps \<Rightarrow> capture_row \<Rightarrow> fact_source" where
  "fact_source_of deps m =
     \<lparr>fs_moment = cm_id m, fs_user = cm_user m, fs_extracted = cm_extracted m, fs_intent = cm_intent_text m,
      fs_state = (if cm_redacted m then ''applied'' else ''skipped''), fs_captured = cm_captured m, fs_mode = Some (mode_text (cm_mode m)),
      fs_local_only = (case cm_project m of None \<Rightarrow> None | Some p \<Rightarrow> ed_local_only deps p)\<rparr>"

definition embed_text :: "draft \<Rightarrow> capture_row \<Rightarrow> string" where
  "embed_text d m =
     join_with [CHR 0x0A] (filter (\<lambda>s. s \<noteq> [])
       [or_empty (sm_title (cm_meta m)), dr_summary d, or_empty (cm_intent_text m), take 8000 (or_empty (cm_extracted m))])"

definition embed_moment :: "enrich_deps \<Rightarrow> draft \<Rightarrow> capture_row \<Rightarrow> ('rl, 's) brain \<Rightarrow> (string + bool) \<times> ('rl, 's) brain" where
  "embed_moment deps d m br =
     (case ed_embedder deps of
        None \<Rightarrow> (Inr False, br)
      | Some vectorize \<Rightarrow>
          (case vectorize (embed_text d m) of
             Inl e \<Rightarrow> (Inl e, br)
           | Inr u \<Rightarrow>
               (Inr True, br\<lparr>br_nova := (br_nova br)\<lparr>nv_embeddings :=
                  filter (\<lambda>e. \<not> (em_kind e = ''moment'' \<and> em_owner e = cm_id m)) (nv_embeddings (br_nova br)) @
                  [\<lparr>em_user = cm_user m, em_kind = ''moment'', em_owner = cm_id m\<rparr>]\<rparr>\<rparr>)))"

definition candidate_json :: "candidate \<Rightarrow> json" where
  "candidate_json c =
     JObj [(''action_type'', JStr (ca_type c)), (''title'', JStr (ca_title c)), (''detail'', opt_str (ca_detail c)), (''risk_tier'', JNum (int (ca_tier c)))]"

definition enrichment_json :: "draft \<Rightarrow> suggestion list \<Rightarrow> bool \<Rightarrow> json" where
  \<comment> \<open>confidences in hundredths, as JSON numbers are integers here\<close>
  "enrichment_json d projects embedded =
     JObj [(''tags'', JArr (map JStr (dr_tags d))), (''priority_signal'', JStr (priority_name (dr_priority d))),
       (''action_candidates'', JArr (map candidate_json (dr_candidates d))),
       (''project_candidates'', JArr (map (\<lambda>p. JObj [(''id'', JStr (sg_id p)), (''name'', JStr (sg_name p)),
          (''confidence'', JNum \<lfloor>100 * sg_confidence p\<rfloor>)]) projects)),
       (''provider'', JStr (parser_name (dr_provider d))), (''model'', opt_str (dr_model d)), (''embedded'', JBool embedded)]"

definition next_version :: "string \<Rightarrow> version_row list \<Rightarrow> nat" where
  \<comment> \<open>\<open>coalesce(max(version), 0) + 1\<close>\<close>
  "next_version mid vs = Suc (foldl max 0 (map vn_version (filter (\<lambda>v. vn_moment v = mid) vs)))"

definition finish_enrichment :: "draft \<Rightarrow> capture_row \<Rightarrow> suggestion list \<Rightarrow> bool \<Rightarrow> ('rl, 's) brain \<Rightarrow> ('rl, 's) brain" where
  "finish_enrichment d m projects embedded br =
     (let result = enrichment_json d projects embedded; nova = br_nova br;
          version = \<lparr>vn_moment = cm_id m, vn_user = cm_user m, vn_version = next_version (cm_id m) (nv_versions nova), vn_summary = Some (dr_summary d),
            vn_enrichment = Some result, vn_provider = Some (parser_name (dr_provider d)), vn_model = dr_model d\<rparr>;
          br1 = update_moment (cm_id m) (\<lambda>x. x\<lparr>cm_summary := Some (dr_summary d), cm_enrichment := Some result, cm_status := En_completed\<rparr>)
            (br\<lparr>br_nova := nova\<lparr>nv_versions := nv_versions nova @ [version]\<rparr>\<rparr>)
      in br1\<lparr>br_nova := nova_audit (cm_user m) ''enrichment.completed'' (cm_id m)
           [(''provider'', JStr (parser_name (dr_provider d))), (''embedded'', JBool embedded), (''entities'', JNum (int (length (dr_entities d)))),
            (''candidates'', JNum (int (length (dr_candidates d))))] (br_nova br1)\<rparr>)"

definition gather :: "enrich_deps \<Rightarrow> draft \<Rightarrow> capture_row \<Rightarrow> ('rl, 's) brain \<Rightarrow> suggestion list \<times> ('rl, 's) brain" where
  \<comment> \<open>steps 2 to 5b: intent, entities, proposals, project candidates, facts\<close>
  "gather deps d m br =
     (let br1 = fold (propose deps d m) (dr_candidates d) (fold (add_entity deps d m) (dr_entities d) (refine_intent d m br));
          br2 = (if dr_candidates d = [] then br1
                 else worker_event (ed_analytics deps) (cm_user m) ''action_proposed''
                   [(''count'', JNum (int (length (dr_candidates d)))), (''provider'', JStr (parser_name (dr_provider d)))] br1);
          projects = suggest_projects (ed_host_of deps) (nv_projects (br_nova br2)) (map source_of (nv_moments (br_nova br2))) (cm_user m)
            (case cm_intent m of None \<Rightarrow> None | Some i \<Rightarrow> pi_project_hint i) (sm_url (cm_meta m)) 3
      in (projects,
          if ed_facts deps
          then br2\<lparr>br_memory := snd (write_moment_facts (ed_sha deps) (ed_nfkc deps) (ed_new_id deps) (Some (fact_source_of deps m)) (br_memory br2))\<rparr>
          else br2))"

definition enrich_moment :: "enrich_deps \<Rightarrow> string \<Rightarrow> ('rl, 's) brain \<Rightarrow> (string + draft) \<times> ('rl, 's) brain" where
  "enrich_moment deps mid br =
     (case find (\<lambda>m. cm_id m = mid) (nv_moments (br_nova br)) of
        None \<Rightarrow> (Inl (''moment '' @ mid @ '' not found''), br)
      | Some m \<Rightarrow>
          let br1 = update_moment mid (\<lambda>x. x\<lparr>cm_status := En_processing\<rparr>) br; d = draft_of deps br1 m
          in (case gather deps d m br1 of (projects, br2) \<Rightarrow>
                case embed_moment deps d m br2 of
                  (Inl e, br3) \<Rightarrow> (Inl e, br3)
                | (Inr embedded, br3) \<Rightarrow> (Inr d, finish_enrichment d m projects embedded br3)))"

definition enrichment_job :: "enrich_deps \<Rightarrow> string \<Rightarrow> string \<Rightarrow> nat \<Rightarrow> nat \<Rightarrow> ('rl, 's) brain \<Rightarrow> bool \<times> ('rl, 's) brain" where
  \<comment> \<open>one attempt of the worker with its number and the limit: only the last failure marks the moment\<close>
  "enrichment_job deps mid user attempt attempts br =
     (case enrich_moment deps mid br of
        (Inr d, br') \<Rightarrow> (True, br')
      | (Inl e, br') \<Rightarrow> (False, if attempts \<le> attempt then mark_failed mid user e br' else br'))"

subsection \<open>What enriching changes\<close>

definition same_capture :: "capture_row \<Rightarrow> capture_row \<Rightarrow> bool" where
  \<comment> \<open>equal but for the intent, the summary, the enrichment and its status\<close>
  "same_capture x y \<longleftrightarrow>
     y = x\<lparr>cm_intent := cm_intent y, cm_summary := cm_summary y, cm_enrichment := cm_enrichment y, cm_status := cm_status y\<rparr>"

definition other_tables :: "('rl, 's) nova \<Rightarrow> ('rl, 's) nova \<Rightarrow> bool" where
  "other_tables db db' \<longleftrightarrow>
     nv_tasks db' = nv_tasks db \<and> nv_jobs db' = nv_jobs db \<and> nv_users db' = nv_users db \<and> nv_sessions db' = nv_sessions db \<and>
     nv_projects db' = nv_projects db \<and> nv_connections db' = nv_connections db \<and> nv_media db' = nv_media db \<and>
     nv_owned db' = nv_owned db \<and> nv_tombstones db' = nv_tombstones db \<and> nv_limiter db' = nv_limiter db"

definition enriches :: "capture_row \<Rightarrow> ('rl, 's) brain \<Rightarrow> ('rl, 's) brain \<Rightarrow> bool" where
  "enriches m br br' \<longleftrightarrow>
     other_tables (br_nova br) (br_nova br') \<and>
     list_all2 (\<lambda>x y. if cm_id x = cm_id m then same_capture x y else y = x) (nv_moments (br_nova br)) (nv_moments (br_nova br')) \<and>
     (\<exists>new. nv_actions (br_nova br') = nv_actions (br_nova br) @ new \<and>
        list_all (\<lambda>a. an_status a = Proposed \<and> an_user a = cm_user m \<and> an_moment a = Some (cm_id m)) new)"

lemma same_capture_refl [simp]: "same_capture x x"
  by (simp add: same_capture_def)

lemma same_capture_trans: "same_capture x y \<Longrightarrow> same_capture y z \<Longrightarrow> same_capture x z"
  by (cases x, cases y, cases z) (simp add: same_capture_def)

lemma same_capture_id: "same_capture x y \<Longrightarrow> cm_id y = cm_id x"
  by (cases x, cases y) (simp add: same_capture_def)

lemma enriches_same:
  assumes "nv_moments (br_nova br') = nv_moments (br_nova br)" "nv_actions (br_nova br') = nv_actions (br_nova br)"
    "other_tables (br_nova br) (br_nova br')"
  shows "enriches m br br'"
  using assms by (auto simp: enriches_def intro!: list.rel_refl)

lemma enriches_refl [simp]: "enriches m br br"
  by (rule enriches_same) (simp_all add: other_tables_def)

lemma enriches_trans:
  assumes "enriches m br br1" "enriches m br1 br2"
  shows "enriches m br br2"
proof -
  let ?R = "\<lambda>x y. if cm_id x = cm_id m then same_capture x y else y = x"
  have step: "?R x z" if "?R x y" "?R y z" for x y z
  proof (cases "cm_id x = cm_id m")
    case True
    then have "same_capture x y" using that(1) by simp
    moreover from this have "same_capture y z" using that(2) same_capture_id [of x y] True by simp
    ultimately show ?thesis using True same_capture_trans by simp
  qed (use that in simp)
  have legs: "list_all2 ?R (nv_moments (br_nova br)) (nv_moments (br_nova br1))" "list_all2 ?R (nv_moments (br_nova br1)) (nv_moments (br_nova br2))"
    using assms by (simp_all add: enriches_def)
  have "list_all2 ?R (nv_moments (br_nova br)) (nv_moments (br_nova br2))"
    unfolding list_all2_conv_all_nth
  proof (intro conjI allI impI)
    show "length (nv_moments (br_nova br)) = length (nv_moments (br_nova br2))" using legs by (simp add: list_all2_conv_all_nth)
    fix i assume i: "i < length (nv_moments (br_nova br))"
    have 1: "?R (nv_moments (br_nova br) ! i) (nv_moments (br_nova br1) ! i)" by (rule list_all2_nthD [OF legs(1) i])
    have "i < length (nv_moments (br_nova br1))" using i list_all2_lengthD [OF legs(1)] by simp
    from step [OF 1 list_all2_nthD [OF legs(2) this]] show "?R (nv_moments (br_nova br) ! i) (nv_moments (br_nova br2) ! i)" .
  qed
  moreover have "other_tables (br_nova br) (br_nova br2)"
    using assms unfolding enriches_def other_tables_def by (elim conjE) simp
  moreover from assms obtain as bs where
    "nv_actions (br_nova br1) = nv_actions (br_nova br) @ as" "list_all (\<lambda>a. an_status a = Proposed \<and> an_user a = cm_user m \<and> an_moment a = Some (cm_id m)) as"
    "nv_actions (br_nova br2) = nv_actions (br_nova br1) @ bs" "list_all (\<lambda>a. an_status a = Proposed \<and> an_user a = cm_user m \<and> an_moment a = Some (cm_id m)) bs"
    unfolding enriches_def by blast
  then have "\<exists>new. nv_actions (br_nova br2) = nv_actions (br_nova br) @ new \<and>
      list_all (\<lambda>a. an_status a = Proposed \<and> an_user a = cm_user m \<and> an_moment a = Some (cm_id m)) new"
    by (intro exI [of _ "as @ bs"]) simp
  ultimately show ?thesis unfolding enriches_def by blast
qed

lemma enriches_fold: "(\<And>x br. enriches m br (step x br)) \<Longrightarrow> enriches m br (fold step xs br)"
  by (induction xs arbitrary: br) (auto intro: enriches_trans)

lemma enriches_update:
  assumes "\<And>x. same_capture x (f x)"
  shows "enriches m br (update_moment (cm_id m) f br)"
  using assms by (auto simp: enriches_def update_moment_def other_tables_def list.rel_map intro!: list.rel_refl)

lemma enriches_refine: "enriches m br (refine_intent d m br)"
  by (auto simp: refine_intent_def same_capture_def split: option.split intro!: enriches_update)

lemma enriches_entity: "enriches m br (add_entity deps d m e br)"
  by (rule enriches_same) (simp_all add: add_entity_def Let_def other_tables_def split: option.split)

lemma enriches_propose: "enriches m br (propose deps d m c br)"
  by (auto simp: enriches_def propose_def proposal_def other_tables_def intro!: list.rel_refl)

lemma enriches_event: "enriches m br (worker_event b u e ps br)"
  by (rule enriches_same) (simp_all add: worker_event_def other_tables_def)

lemma enriches_embed: "embed_moment deps d m br = (r, br') \<Longrightarrow> enriches m br br'"
  by (rule enriches_same) (auto simp: embed_moment_def other_tables_def split: option.splits sum.splits)

lemma enriches_gather: "gather deps d m br = (projects, br') \<Longrightarrow> enriches m br br'"
proof -
  assume g: "gather deps d m br = (projects, br')"
  let ?br1 = "fold (propose deps d m) (dr_candidates d) (fold (add_entity deps d m) (dr_entities d) (refine_intent d m br))"
  have 1: "enriches m br ?br1"
    using enriches_trans [OF enriches_trans [OF enriches_refine enriches_fold [OF enriches_entity]] enriches_fold [OF enriches_propose]] .
  have 2: "enriches m ?br1 br2" if "br2 = (if dr_candidates d = [] then ?br1 else worker_event a u e ps ?br1)" for br2 a u e ps
    using that by (simp add: enriches_event)
  have 3: "enriches m br2 (if b then br2\<lparr>br_memory := x\<rparr> else br2)" for br2 :: "('a, 'b) brain" and b x
    by (rule enriches_same) (simp_all add: other_tables_def)
  show ?thesis
    using g unfolding gather_def Let_def by (auto intro!: enriches_trans [OF enriches_trans [OF 1 2 [OF refl]] 3])
qed

lemma enriches_finish: "enriches m br (finish_enrichment d m projects embedded br)"
proof -
  let ?v = "br\<lparr>br_nova := (br_nova br)\<lparr>nv_versions := vs\<rparr>\<rparr>"
  have 1: "enriches m br (br\<lparr>br_nova := (br_nova br)\<lparr>nv_versions := vs\<rparr>\<rparr>)" for vs by (rule enriches_same) (simp_all add: other_tables_def)
  have 2: "enriches m b (b\<lparr>br_nova := nova_audit u e sub ps (br_nova b)\<rparr>)" for b :: "('a, 'b) brain" and u e sub ps
    by (rule enriches_same) (simp_all add: other_tables_def)
  show ?thesis
    unfolding finish_enrichment_def Let_def
    by (rule enriches_trans [OF enriches_trans [OF 1 enriches_update] 2]) (simp add: same_capture_def)
qed

lemma foldl_max_start: "a \<le> foldl max a xs" for a :: nat
proof (induction xs arbitrary: a)
  case (Cons y ys)
  show ?case using Cons.IH [of "max a y"] by simp
qed simp

lemma foldl_max_ge: "x \<in> set xs \<Longrightarrow> x \<le> foldl max a xs" for x a :: nat
proof (induction xs arbitrary: a)
  case (Cons y ys)
  then show ?case using foldl_max_start [of "max a y" ys] by auto
qed simp

lemma finish_enrichment_version:
  "\<exists>v. nv_versions (br_nova (finish_enrichment d m projects embedded br)) = nv_versions (br_nova br) @ [v] \<and>
     vn_moment v = cm_id m \<and> vn_user v = cm_user m \<and> vn_summary v = Some (dr_summary d) \<and>
     list_all (\<lambda>w. if vn_moment w = cm_id m then vn_version w < vn_version v else True) (nv_versions (br_nova br)) \<and>
     list_all (\<lambda>x. if cm_id x = cm_id m
        then cm_summary x = vn_summary v \<and> cm_enrichment x = vn_enrichment v \<and> cm_status x = En_completed else True)
       (nv_moments (br_nova (finish_enrichment d m projects embedded br)))"
proof -
  define v where "v = \<lparr>vn_moment = cm_id m, vn_user = cm_user m, vn_version = next_version (cm_id m) (nv_versions (br_nova br)),
    vn_summary = Some (dr_summary d), vn_enrichment = Some (enrichment_json d projects embedded),
    vn_provider = Some (parser_name (dr_provider d)), vn_model = dr_model d\<rparr>"
  have versions: "nv_versions (br_nova (finish_enrichment d m projects embedded br)) = nv_versions (br_nova br) @ [v]"
    by (simp add: finish_enrichment_def Let_def update_moment_def v_def)
  have moments: "nv_moments (br_nova (finish_enrichment d m projects embedded br)) =
      map (\<lambda>x. if cm_id x = cm_id m then x\<lparr>cm_summary := Some (dr_summary d), cm_enrichment := Some (enrichment_json d projects embedded),
        cm_status := En_completed\<rparr> else x) (nv_moments (br_nova br))"
    by (simp add: finish_enrichment_def Let_def update_moment_def)
  have "vn_version w < vn_version v" if "w \<in> set (nv_versions (br_nova br))" "vn_moment w = cm_id m" for w
    using that foldl_max_ge [of "vn_version w" "map vn_version (filter (\<lambda>v. vn_moment v = cm_id m) (nv_versions (br_nova br)))" 0]
    by (simp add: v_def next_version_def less_Suc_eq_le)
  then show ?thesis
    using moments by (intro exI [of _ v] conjI versions) (auto simp: list_all_iff v_def)
qed

text \<open>C36. Enriching only adds. Whatever the models answer, no task, job, project, media, session or account changes; of the moments only the
  one enriched changes, and of it only the intent, the summary, the enrichment and the status; actions are only added,
  as proposals that wait for the user. The pipeline fails only for a missing moment, which changes nothing, or when the
  embedding fails; otherwise it appends a version with a number above all before, and the moment shows that version.\<close>

theorem enrichment_only_adds:
  "case enrich_moment deps mid br of (r, br') \<Rightarrow>
     (case find (\<lambda>m. cm_id m = mid) (nv_moments (br_nova br)) of
        None \<Rightarrow> br' = br \<and> isl r
      | Some m \<Rightarrow>
          enriches m br br' \<and>
          (case r of
             Inl e \<Rightarrow> (case ed_embedder deps of None \<Rightarrow> False | Some embed_fn \<Rightarrow> \<exists>txt. embed_fn txt = Inl e)
           | Inr d \<Rightarrow>
               \<exists>old v. nv_versions (br_nova br') = old @ [v] \<and> vn_moment v = mid \<and> vn_summary v = Some (dr_summary d) \<and>
                 list_all (\<lambda>w. if vn_moment w = mid then vn_version w < vn_version v else True) old \<and>
                 list_all (\<lambda>x. if cm_id x = mid
                    then cm_summary x = vn_summary v \<and> cm_enrichment x = vn_enrichment v \<and> cm_status x = En_completed else True)
                   (nv_moments (br_nova br'))))"
proof (cases "find (\<lambda>m. cm_id m = mid) (nv_moments (br_nova br))")
  case None
  then show ?thesis by (simp add: enrich_moment_def)
next
  case (Some m)
  then have mid: "cm_id m = mid" by (auto simp: find_Some_iff)
  define br1 where "br1 = update_moment mid (\<lambda>x. x\<lparr>cm_status := En_processing\<rparr>) br"
  define d where "d = draft_of deps br1 m"
  obtain projects br2 where g: "gather deps d m br1 = (projects, br2)" by fastforce
  obtain r br3 where e: "embed_moment deps d m br2 = (r, br3)" by fastforce
  have 1: "enriches m br br1" unfolding br1_def mid [symmetric] by (rule enriches_update) (simp add: same_capture_def)
  have 3: "enriches m br br3" using enriches_trans [OF enriches_trans [OF 1 enriches_gather [OF g]] enriches_embed [OF e]] .
  show ?thesis
  proof (cases r)
    case (Inl err)
    have out: "enrich_moment deps mid br = (Inl err, br3)"
      using Some g e Inl by (simp add: enrich_moment_def Let_def br1_def [symmetric] d_def [symmetric])
    have "case ed_embedder deps of None \<Rightarrow> False | Some embed_fn \<Rightarrow> \<exists>txt. embed_fn txt = Inl err"
      using e Inl by (auto simp: embed_moment_def split: option.splits sum.splits)
    then show ?thesis unfolding out prod.case Some option.case sum.case using 3 by simp
  next
    case (Inr embedded)
    have out: "enrich_moment deps mid br = (Inr d, finish_enrichment d m projects embedded br3)"
      using Some g e Inr by (simp add: enrich_moment_def Let_def br1_def [symmetric] d_def [symmetric])
    show ?thesis
      unfolding out prod.case Some option.case sum.case
      using enriches_trans [OF 3 enriches_finish] finish_enrichment_version [of d m projects embedded br3] mid by blast
  qed
qed

text \<open>A local draft always has a summary of 1 to 300 characters, at most four entities, at most twelve distinct tags, and at most one
  candidate, a task of tier 0 with a title of at most 512 characters.\<close>

lemma local_draft_is_bounded:
  "(let d = local_draft host_of input
    in 0 < length (dr_summary d) \<and> length (dr_summary d) \<le> 300 \<and> length (dr_entities d) \<le> 4 \<and> length (dr_tags d) \<le> 12 \<and> distinct (dr_tags d) \<and>
       length (dr_candidates d) \<le> 1 \<and> list_all (\<lambda>c. ca_tier c = 0 \<and> 0 < length (ca_title c) \<and> length (ca_title c) \<le> 512) (dr_candidates d))"
proof -
  have "length (local_entities host_of input) \<le> 4" by (auto simp: local_entities_def split: option.split)
  moreover have "0 < length (local_summary input) \<and> length (local_summary input) \<le> 300"
    by (auto simp: local_summary_def Let_def captured_context_def split: option.split)
  moreover have "length (local_tags host_of input) \<le> 12 \<and> distinct (local_tags host_of input)"
    by (simp add: local_tags_def first_ones_def)
  moreover have "length (local_candidates input) \<le> 1 \<and>
      list_all (\<lambda>c. ca_tier c = 0 \<and> 0 < length (ca_title c) \<and> length (ca_title c) \<le> 512) (local_candidates input)"
    by (simp add: local_candidates_def split: option.split)
  ultimately show ?thesis by (simp add: local_draft_def Let_def)
qed

end
