(* ===== verification/Integrations.thy ===== *)
theory Integrations
  imports Action_Worker Auth
begin

text \<open>
  The Notion connection of a user: \<^verbatim>\<open>services/api/src/routes-integrations.ts\<close> with its two clients,
  \<^verbatim>\<open>integrations/notion-oauth.ts\<close> and \<^verbatim>\<open>integrations/notion-api.ts\<close>. A handler takes the dependencies, the clock,
  what it draws at random, the authenticated caller and the parsed request. The table of connections is kept with
  all its columns; the approval handlers and the worker see it through \<open>connection_of\<close>. SHA-256, base64, the URL
  parser and \<open>fetch\<close> are parameters; queries do not fail, apart from the unique index on \<open>state_hash\<close>.
\<close>

subsection \<open>Tables\<close>

record oauth_state =
  os_user :: string
  os_provider :: string
  os_hash :: string
  os_expires :: int
  os_used :: "int option"

datatype connection_status = Cs_active | Cs_revoked | Cs_error

record integration_row =
  iw_user :: string
  iw_provider :: string
  iw_status :: connection_status
  iw_account :: "string option"
  iw_token :: bytes
  iw_workspace :: "string option"
  iw_bot :: "string option"
  iw_default :: "destination option"
  iw_mapping :: "notion_mapping option"
  iw_created :: int
  iw_updated :: int

record ('q, 's, 'p) ig_db =
  ig_states :: "oauth_state list"
  ig_rows :: "integration_row list"
  ig_act :: "('q, 's, 'p) act_db" \<comment> \<open>the other tables, and the state of the provider\<close>

definition connection_of :: "integration_row \<Rightarrow> connection_row" where
  "connection_of r =
     \<lparr>cn_user = iw_user r, cn_provider = iw_provider r, cn_active = (iw_status r = Cs_active), cn_token = iw_token r,
      cn_account = iw_account r, cn_default = iw_default r, cn_mapping = iw_mapping r\<rparr>"

definition act_view :: "('q, 's, 'p) ig_db \<Rightarrow> ('q, 's, 'p) act_db" where
  \<comment> \<open>the database as the action handlers and the worker read it\<close>
  "act_view db = (ig_act db)\<lparr>ax_connections := map connection_of (ig_rows db)\<rparr>"

definition ig_audit :: "string \<Rightarrow> string \<Rightarrow> (string \<times> json) list \<Rightarrow> ('q, 's, 'p) ig_db \<Rightarrow> ('q, 's, 'p) ig_db" where
  "ig_audit user event detail db = db\<lparr>ig_act := act_audit_add user event [] detail (ig_act db)\<rparr>"

definition opt_json :: "string option \<Rightarrow> json" where
  "opt_json v = (case v of None \<Rightarrow> JNull | Some s \<Rightarrow> JStr s)"

definition active_row :: "string \<Rightarrow> integration_row \<Rightarrow> bool" where
  \<comment> \<open>\<open>user_id = $1 AND provider = 'notion' AND status = 'active'\<close>\<close>
  "active_row user r \<longleftrightarrow> iw_user r = user \<and> iw_provider r = ''notion'' \<and> iw_status r = Cs_active"

subsection \<open>The OAuth client\<close>

definition utf8 :: "char \<Rightarrow> nat list" where
  "utf8 c = (let n = of_char c :: nat in if n < 128 then [n] else [192 + n div 64, 128 + n mod 64])"

definition hex_digit_up :: "nat \<Rightarrow> char" where
  "hex_digit_up n = (if n < 10 then char_of (48 + n) else char_of (55 + n))"

definition form_safe :: "char \<Rightarrow> bool" where
  "form_safe c \<longleftrightarrow> (let n = of_char c :: nat in
     48 \<le> n \<and> n \<le> 57 \<or> 65 \<le> n \<and> n \<le> 90 \<or> 97 \<le> n \<and> n \<le> 122 \<or> c \<in> {CHR ''*'', CHR ''-'', CHR ''.'', CHR ''_''})"

definition form_char :: "char \<Rightarrow> string" where
  "form_char c =
     (if form_safe c then [c] else if c = CHR '' '' then ''+''
      else concat (map (\<lambda>n. [CHR ''%'', hex_digit_up (n div 16), hex_digit_up (n mod 16)]) (utf8 c)))"

definition form_encode :: "string \<Rightarrow> string" where
  \<comment> \<open>the serializer of \<open>URLSearchParams\<close>\<close>
  "form_encode s = concat (map form_char s)"

definition form_query :: "(string \<times> string) list \<Rightarrow> string" where
  "form_query ps = join_with ''&'' (map (\<lambda>(k, v). form_encode k @ ''='' @ form_encode v) ps)"

record oauth_config =
  og_client_id :: string
  og_client_secret :: string
  og_redirect_uri :: string

record oauth_result =
  ou_token :: string
  ou_workspace :: "string option"
  ou_workspace_id :: "string option"
  ou_bot :: "string option"

datatype exchange_error = Oauth_error string | Other_error string

record 'h oauth_client =
  oc_authorize_url :: "string \<Rightarrow> string"
  oc_exchange_code :: "string \<Rightarrow> 'h \<Rightarrow> (exchange_error + oauth_result) \<times> 'h"

definition authorize_params :: "oauth_config \<Rightarrow> string \<Rightarrow> (string \<times> string) list" where
  "authorize_params cfg state =
     [(''client_id'', og_client_id cfg), (''response_type'', ''code''), (''owner'', ''user''),
      (''redirect_uri'', og_redirect_uri cfg), (''state'', state)]"

definition authorize_url :: "oauth_config \<Rightarrow> string \<Rightarrow> string" where
  "authorize_url cfg state = ''https://api.notion.com/v1/oauth/authorize?'' @ form_query (authorize_params cfg state)"

record token_request =
  tr_authorization :: string
  tr_code :: string
  tr_redirect_uri :: string

definition exchange_code ::
  "(string \<Rightarrow> string) \<Rightarrow> oauth_config \<Rightarrow> (token_request \<Rightarrow> 'h \<Rightarrow> http_result \<times> 'h) \<Rightarrow> string \<Rightarrow> 'h \<Rightarrow>
     (exchange_error + oauth_result) \<times> 'h" where
  \<comment> \<open>an \<open>access_token\<close> that is no string counts as missing\<close>
  "exchange_code b64 cfg fetch code h =
     (case fetch \<lparr>tr_authorization = ''Basic '' @ b64 (og_client_id cfg @ '':'' @ og_client_secret cfg),
                  tr_code = code, tr_redirect_uri = og_redirect_uri cfg\<rparr> h of (res, h1) \<Rightarrow>
        (case res of
           Unreachable e \<Rightarrow> Inl (Other_error e)
         | Response status body \<Rightarrow>
             if \<not> (200 \<le> status \<and> status \<le> 299)
             then Inl (Oauth_error (''token exchange failed ('' @ nat_str status @ '')''))
             else (case body of
                Inl e \<Rightarrow> Inl (Other_error e)
              | Inr JNull \<Rightarrow> Inl (Other_error ''TypeError'')
              | Inr v \<Rightarrow>
                  if truthy (str_at ''access_token'' v)
                  then Inr \<lparr>ou_token = the (str_at ''access_token'' v), ou_workspace = str_at ''workspace_name'' v,
                            ou_workspace_id = str_at ''workspace_id'' v, ou_bot = str_at ''bot_id'' v\<rparr>
                  else Inl (Oauth_error ''token exchange returned no access_token'')), h1))"

definition http_oauth_client ::
  "(string \<Rightarrow> string) \<Rightarrow> oauth_config \<Rightarrow> (token_request \<Rightarrow> 'h \<Rightarrow> http_result \<times> 'h) \<Rightarrow> 'h oauth_client" where
  "http_oauth_client b64 cfg fetch = \<lparr>oc_authorize_url = authorize_url cfg, oc_exchange_code = exchange_code b64 cfg fetch\<rparr>"

subsection \<open>The read-only client\<close>

datatype api_request = Api_search | Api_database string

record 'h notion_api =
  na_destinations :: "string \<Rightarrow> 'h \<Rightarrow> (string + destination list) \<times> 'h"
  na_properties :: "string \<Rightarrow> string \<Rightarrow> 'h \<Rightarrow> (string + db_properties) \<times> 'h"

definition api_call ::
  "(string \<Rightarrow> api_request \<Rightarrow> 'h \<Rightarrow> http_result \<times> 'h) \<Rightarrow> string \<Rightarrow> string \<Rightarrow> api_request \<Rightarrow> 'h \<Rightarrow> (string + json) \<times> 'h" where
  "api_call fetch what token rq h =
     (case fetch token rq h of
        (Unreachable e, h1) \<Rightarrow> (Inl e, h1)
      | (Response status body, h1) \<Rightarrow>
          (if \<not> (200 \<le> status \<and> status \<le> 299) then Inl (what @ '' failed ('' @ nat_str status @ '')'') else body, h1))"

definition nonempty :: "string \<Rightarrow> string option" where
  \<comment> \<open>\<open>s || null\<close>\<close>
  "nonempty s = (if s = [] then None else Some s)"

definition api_page_title :: "json \<Rightarrow> string option" where
  "api_page_title page =
     (case find (\<lambda>p. str_at ''type'' p = Some ''title'' \<and> arr_items (jget ''title'' p) \<noteq> [])
             (map snd (obj_entries (jget ''properties'' page))) of
        None \<Rightarrow> None
      | Some p \<Rightarrow> nonempty (title_text p))"

definition api_database_title :: "json \<Rightarrow> string option" where
  "api_database_title v = (if arr_items (jget ''title'' v) = [] then None else nonempty (title_text v))"

definition default_to :: "'a option \<Rightarrow> 'a \<Rightarrow> 'a" where
  "default_to v d = (case v of None \<Rightarrow> d | Some x \<Rightarrow> x)"

definition destination_of :: "json \<Rightarrow> destination option" where
  \<comment> \<open>one round of the loop over \<open>results\<close>\<close>
  "destination_of item =
     (if str_at ''object'' item = Some ''page''
      then Some \<lparr>ds_id = id_of item, ds_kind = Page_parent, ds_title = default_to (api_page_title item) ''Untitled page''\<rparr>
      else if str_at ''object'' item = Some ''database''
      then Some \<lparr>ds_id = id_of item, ds_kind = Database_parent, ds_title = default_to (api_database_title item) ''Untitled database''\<rparr>
      else None)"

definition list_destinations ::
  "(string \<Rightarrow> api_request \<Rightarrow> 'h \<Rightarrow> http_result \<times> 'h) \<Rightarrow> string \<Rightarrow> 'h \<Rightarrow> (string + destination list) \<times> 'h" where
  "list_destinations fetch token h =
     (case api_call fetch ''notion search'' token Api_search h of
        (Inl e, h1) \<Rightarrow> (Inl e, h1)
      | (Inr body, h1) \<Rightarrow>
          (if body = JNull \<or> JNull \<in> set (arr_items (jget ''results'' body)) then Inl ''TypeError''
           else Inr (List.map_filter destination_of (arr_items (jget ''results'' body))), h1))"

definition api_database_properties ::
  "(string \<Rightarrow> api_request \<Rightarrow> 'h \<Rightarrow> http_result \<times> 'h) \<Rightarrow> string \<Rightarrow> string \<Rightarrow> 'h \<Rightarrow> (string + db_properties) \<times> 'h" where
  "api_database_properties fetch token database_id h =
     (case api_call fetch ''notion database fetch'' token (Api_database database_id) h of
        (Inl e, h1) \<Rightarrow> (Inl e, h1)
      | (Inr body, h1) \<Rightarrow>
          (if body = JNull \<or> JNull \<in> set (map snd (obj_entries (jget ''properties'' body))) then Inl ''TypeError''
           else Inr (map (\<lambda>(name, p). (name, default_to (str_at ''type'' p) ''unknown'')) (obj_entries (jget ''properties'' body))), h1))"

definition http_notion_api :: "(string \<Rightarrow> api_request \<Rightarrow> 'h \<Rightarrow> http_result \<times> 'h) \<Rightarrow> 'h notion_api" where
  "http_notion_api fetch = \<lparr>na_destinations = list_destinations fetch, na_properties = api_database_properties fetch\<rparr>"

subsection \<open>Dependencies and request bodies\<close>

record 'h ig_deps =
  gd_sha :: "string \<Rightarrow> string"
  gd_crypto :: crypto
  gd_key :: "bytes option" \<comment> \<open>the current key\<close>
  gd_read_keys :: "bytes list option"
  gd_oauth :: "'h oauth_client option"
  gd_api :: "'h notion_api option"

definition integration_keys :: "crypto \<Rightarrow> string option \<Rightarrow> string option \<Rightarrow> box_error + (bytes option \<times> bytes list option)" where
  \<comment> \<open>what \<open>registerIntegrationRoutes\<close> computes from the environment; an error stops the boot\<close>
  "integration_keys c key previous =
     (if \<not> truthy key then Inr (None, None)
      else (case parse_encryption_key c (the key) of
        Inl e \<Rightarrow> Inl e
      | Inr k \<Rightarrow>
          if \<not> truthy previous then Inr (Some k, Some [k])
          else (case parse_key_list c (the previous) of Inl e \<Rightarrow> Inl e | Inr ks \<Rightarrow> Inr (Some k, Some (k # ks)))))"

definition notion_ready :: "'h ig_deps \<Rightarrow> ('h oauth_client \<times> bytes) option" where
  "notion_ready d = (case (gd_oauth d, gd_key d) of (Some c, Some k) \<Rightarrow> Some (c, k) | _ \<Rightarrow> None)"

definition len_within :: "nat \<Rightarrow> nat \<Rightarrow> string \<Rightarrow> bool" where
  "len_within lo hi s \<longleftrightarrow> lo \<le> length s \<and> length s \<le> hi"

definition callback_ok :: "string \<times> string \<Rightarrow> bool" where
  \<comment> \<open>code and state\<close>
  "callback_ok b \<longleftrightarrow> len_within 1 2048 (fst b) \<and> len_within 16 512 (snd b)"

definition destination_ok :: "destination \<Rightarrow> bool" where
  "destination_ok t \<longleftrightarrow> len_within 8 64 (ds_id t) \<and> len_within 1 300 (ds_title t)"

definition mapping_ok :: "notion_mapping \<Rightarrow> bool" where
  "mapping_ok m \<longleftrightarrow> distinct (map fst m) \<and>
     (case map_of m F_title of Some (Some t) \<Rightarrow> True | _ \<Rightarrow> False) \<and>
     list_all (\<lambda>(f, v). case v of None \<Rightarrow> True | Some name \<Rightarrow> len_within 1 200 name) m"

record destination_body =
  db_destination :: "destination option"
  db_mapping :: "notion_mapping option"

definition destination_body_ok :: "destination_body \<Rightarrow> bool" where
  "destination_body_ok b \<longleftrightarrow>
     (case db_destination b of None \<Rightarrow> True | Some t \<Rightarrow> destination_ok t) \<and>
     (case db_mapping b of None \<Rightarrow> True | Some m \<Rightarrow> mapping_ok m)"

subsection \<open>Connecting\<close>

definition state_ttl_minutes :: nat where "state_ttl_minutes = 10"

definition state_ttl :: int where
  "state_ttl = int state_ttl_minutes * 60000"

definition oauth_start :: "'p ig_deps \<Rightarrow> int \<Rightarrow> string \<Rightarrow> auth_context \<Rightarrow> ('q, 's, 'p) ig_db \<Rightarrow>
    string response \<times> ('q, 's, 'p) ig_db" where
  "oauth_start d now random auth db =
     (if ac_kind auth \<noteq> Web then (Refuse 403 ''web_session_required'', db)
      else (case notion_ready d of
        None \<Rightarrow> (Refuse 503 ''notion_not_configured'', db)
      | Some (client, key) \<Rightarrow>
          if gd_sha d random \<in> set (map os_hash (ig_states db)) then (Raise ''23505'', db)
          else (Reply 201 (oc_authorize_url client random),
                ig_audit (ac_user auth) ''notion.connect.start'' []
                  (db\<lparr>ig_states := ig_states db @
                     [\<lparr>os_user = ac_user auth, os_provider = ''notion'', os_hash = gd_sha d random,
                       os_expires = now + state_ttl, os_used = None\<rparr>]\<rparr>))))"

definition claimable :: "string \<Rightarrow> string \<Rightarrow> int \<Rightarrow> oauth_state \<Rightarrow> bool" where
  "claimable hash user now s \<longleftrightarrow>
     os_hash s = hash \<and> os_user s = user \<and> os_provider s = ''notion'' \<and> os_used s = None \<and> now < os_expires s"

definition claim_state :: "string \<Rightarrow> string \<Rightarrow> int \<Rightarrow> ('q, 's, 'p) ig_db \<Rightarrow> bool \<times> ('q, 's, 'p) ig_db" where
  \<comment> \<open>\<open>UPDATE oauth_states SET used_at = now() WHERE ... RETURNING id\<close>\<close>
  "claim_state hash user now db =
     (list_ex (claimable hash user now) (ig_states db),
      db\<lparr>ig_states := map (\<lambda>s. if claimable hash user now s then s\<lparr>os_used := Some now\<rparr> else s) (ig_states db)\<rparr>)"

definition connect_row :: "integration_row \<Rightarrow> integration_row \<Rightarrow> integration_row" where
  \<comment> \<open>\<open>DO UPDATE SET\<close>: everything but the creation time; the new \<open>meta\<close> has no destination\<close>
  "connect_row new r = new\<lparr>iw_created := iw_created r\<rparr>"

definition upsert_connection :: "integration_row \<Rightarrow> integration_row list \<Rightarrow> integration_row list" where
  \<comment> \<open>\<open>ON CONFLICT (user_id, provider)\<close>\<close>
  "upsert_connection new rows =
     (if list_ex (\<lambda>r. iw_user r = iw_user new \<and> iw_provider r = iw_provider new) rows
      then map (\<lambda>r. if iw_user r = iw_user new \<and> iw_provider r = iw_provider new then connect_row new r else r) rows
      else rows @ [new])"

definition ascii_bytes :: "string \<Rightarrow> bytes" where
  \<comment> \<open>the UTF-8 bytes of a token, which is ASCII\<close>
  "ascii_bytes s = map of_char s"

definition exchange_reason :: "exchange_error \<Rightarrow> string" where
  "exchange_reason e = (case e of Oauth_error m \<Rightarrow> m | Other_error m \<Rightarrow> ''exchange_error'')"

definition new_connection :: "int \<Rightarrow> string \<Rightarrow> oauth_result \<Rightarrow> bytes \<Rightarrow> integration_row" where
  "new_connection now user r box =
     \<lparr>iw_user = user, iw_provider = ''notion'', iw_status = Cs_active, iw_account = ou_workspace r, iw_token = box,
      iw_workspace = ou_workspace_id r, iw_bot = ou_bot r, iw_default = None, iw_mapping = None,
      iw_created = now, iw_updated = now\<rparr>"

definition store_connection :: "'p ig_deps \<Rightarrow> int \<Rightarrow> bytes \<Rightarrow> bytes \<Rightarrow> string \<Rightarrow> oauth_result \<Rightarrow> ('q, 's, 'p) ig_db \<Rightarrow>
    string option response \<times> ('q, 's, 'p) ig_db" where
  "store_connection d now key iv user r db =
     (case encrypt_bytes (gd_crypto d) key iv (ascii_bytes (ou_token r)) of
        Inl e \<Rightarrow> (Raise ''encryption'', db)
      | Inr box \<Rightarrow>
          (Reply 200 (ou_workspace r),
           ig_audit user ''notion.connect.completed'' [(''workspace'', opt_json (ou_workspace r))]
             (db\<lparr>ig_rows := upsert_connection (new_connection now user r box) (ig_rows db)\<rparr>)))"

definition ask_provider :: "('p \<Rightarrow> 'a \<times> 'p) \<Rightarrow> ('q, 's, 'p) ig_db \<Rightarrow> 'a \<times> ('q, 's, 'p) ig_db" where
  \<comment> \<open>a call of one of the clients\<close>
  "ask_provider f db =
     (case f (ax_provider (ig_act db)) of (r, p) \<Rightarrow> (r, db\<lparr>ig_act := (ig_act db)\<lparr>ax_provider := p\<rparr>\<rparr>))"

definition oauth_callback :: "'p ig_deps \<Rightarrow> int \<Rightarrow> bytes \<Rightarrow> auth_context \<Rightarrow> (string \<times> string) option \<Rightarrow> ('q, 's, 'p) ig_db \<Rightarrow>
    string option response \<times> ('q, 's, 'p) ig_db" where
  \<comment> \<open>the body is \<open>None\<close> when it has another shape; the reply is the name of the workspace\<close>
  "oauth_callback d now iv auth body db =
     (if ac_kind auth \<noteq> Web then (Refuse 403 ''web_session_required'', db)
      else (case notion_ready d of
        None \<Rightarrow> (Refuse 503 ''notion_not_configured'', db)
      | Some (client, key) \<Rightarrow>
          (case body of
             None \<Rightarrow> (Refuse 400 ''invalid_request'', db)
           | Some b \<Rightarrow>
               if \<not> callback_ok b then (Refuse 400 ''invalid_request'', db)
               else (case claim_state (gd_sha d (snd b)) (ac_user auth) now db of
                  (False, db1) \<Rightarrow>
                    (Refuse 400 ''invalid_state'',
                     ig_audit (ac_user auth) ''notion.connect.failed'' [(''reason'', JStr ''invalid_state'')] db1)
                | (True, db1) \<Rightarrow>
                    (case ask_provider (oc_exchange_code client (fst b)) db1 of
                       (Inl e, db2) \<Rightarrow>
                         (Refuse 502 ''notion_exchange_failed'',
                          ig_audit (ac_user auth) ''notion.connect.failed'' [(''reason'', JStr (exchange_reason e))] db2)
                     | (Inr r, db2) \<Rightarrow> store_connection d now key iv (ac_user auth) r db2)))))"

subsection \<open>Destinations\<close>

definition active_connection :: "string \<Rightarrow> ('q, 's, 'p) ig_db \<Rightarrow> integration_row option" where
  "active_connection user db = find (active_row user) (ig_rows db)"

definition with_token :: "'p ig_deps \<Rightarrow> integration_row \<Rightarrow> (string \<Rightarrow> 'p \<Rightarrow> (string + 'a) \<times> 'p) \<Rightarrow> ('q, 's, 'p) ig_db \<Rightarrow>
    (string + 'a) \<times> ('q, 's, 'p) ig_db" where
  \<comment> \<open>the \<open>try\<close> blocks: decrypt the token of the row, then call the client\<close>
  "with_token d conn call db =
     (case decrypt_bytes_with_any (gd_crypto d) (case gd_read_keys d of None \<Rightarrow> [] | Some ks \<Rightarrow> ks) (iw_token conn) of
        Inl e \<Rightarrow> (Inl ''decrypt'', db)
      | Inr token \<Rightarrow> ask_provider (call (token_text token)) db)"

record destinations_reply =
  dl_items :: "destination list"
  dl_default :: "destination option"
  dl_mapping :: "notion_mapping option"

definition notion_configured :: "'p ig_deps \<Rightarrow> 'p notion_api option" where
  \<comment> \<open>\<open>encryptionKey && notionApi\<close>\<close>
  "notion_configured d = (if gd_key d = None then None else gd_api d)"

definition get_destinations :: "'p ig_deps \<Rightarrow> string \<Rightarrow> ('q, 's, 'p) ig_db \<Rightarrow> destinations_reply response \<times> ('q, 's, 'p) ig_db" where
  "get_destinations d user db =
     (case notion_configured d of
        None \<Rightarrow> (Refuse 503 ''notion_not_configured'', db)
      | Some api \<Rightarrow>
          (case active_connection user db of
             None \<Rightarrow> (Refuse 409 ''notion_not_connected'', db)
           | Some conn \<Rightarrow>
               (case with_token d conn (na_destinations api) db of
                  (Inl e, db1) \<Rightarrow> (Refuse 502 ''notion_unreachable'', db1)
                | (Inr items, db1) \<Rightarrow>
                    (Reply 200 \<lparr>dl_items = items, dl_default = iw_default conn, dl_mapping = iw_mapping conn\<rparr>, db1))))"

definition get_properties :: "'p ig_deps \<Rightarrow> string \<Rightarrow> string \<Rightarrow> ('q, 's, 'p) ig_db \<Rightarrow>
    (string \<times> db_properties) response \<times> ('q, 's, 'p) ig_db" where
  "get_properties d user param db =
     (if \<not> len_within 8 64 param then (Refuse 404 ''not_found'', db)
      else (case notion_configured d of
        None \<Rightarrow> (Refuse 503 ''notion_not_configured'', db)
      | Some api \<Rightarrow>
          (case active_connection user db of
             None \<Rightarrow> (Refuse 409 ''notion_not_connected'', db)
           | Some conn \<Rightarrow>
               (case with_token d conn (\<lambda>token. na_properties api token param) db of
                  (Inl e, db1) \<Rightarrow> (Refuse 502 ''notion_unreachable'', db1)
                | (Inr properties, db1) \<Rightarrow> (Reply 200 (param, properties), db1)))))"

definition check_mapping :: "'p ig_deps \<Rightarrow> string \<Rightarrow> destination option \<Rightarrow> notion_mapping option \<Rightarrow> ('q, 's, 'p) ig_db \<Rightarrow>
    ((nat \<times> string) + notion_mapping option) \<times> ('q, 's, 'p) ig_db" where
  \<comment> \<open>the block of \<open>parsed.data.property_mapping\<close>: an early reply, or the mapping to save\<close>
  "check_mapping d user dest mapping db =
     (case mapping of
        None \<Rightarrow> (Inr None, db)
      | Some m \<Rightarrow>
          (case dest of
             None \<Rightarrow> (Inl (400, ''invalid_mapping''), db)
           | Some t \<Rightarrow>
               if ds_kind t \<noteq> Database_parent then (Inl (400, ''invalid_mapping''), db)
               else (case notion_configured d of
                  None \<Rightarrow> (Inl (503, ''notion_not_configured''), db)
                | Some api \<Rightarrow>
                    (case active_connection user db of
                       None \<Rightarrow> (Inl (409, ''notion_not_connected''), db)
                     | Some conn \<Rightarrow>
                         (case with_token d conn (\<lambda>token. na_properties api token (ds_id t)) db of
                            (Inl e, db1) \<Rightarrow> (Inl (502, ''notion_unreachable''), db1)
                          | (Inr properties, db1) \<Rightarrow>
                              (if validate_notion_mapping m properties \<noteq> [] then Inl (400, ''invalid_mapping'')
                               else Inr (Some m), db1))))))"

definition set_meta :: "int \<Rightarrow> destination option \<Rightarrow> notion_mapping option \<Rightarrow> integration_row \<Rightarrow> integration_row" where
  \<comment> \<open>the \<open>CASE\<close> over the two parameters\<close>
  "set_meta now dest mapping r =
     (case dest of
        None \<Rightarrow> r\<lparr>iw_default := None, iw_mapping := None, iw_updated := now\<rparr>
      | Some t \<Rightarrow> r\<lparr>iw_default := Some t, iw_mapping := mapping, iw_updated := now\<rparr>)"

definition destination_detail :: "destination option \<Rightarrow> notion_mapping option \<Rightarrow> (string \<times> json) list" where
  "destination_detail dest mapping =
     [(''destination_title'', opt_json (map_option ds_title dest)),
      (''destination_type'', opt_json (map_option (\<lambda>t. case ds_kind t of Page_parent \<Rightarrow> ''page_id'' | Database_parent \<Rightarrow> ''database_id'') dest)),
      (''mapped_fields'', JNum (case mapping of None \<Rightarrow> 0 | Some m \<Rightarrow> int (length m))),
      (''cleared'', JBool (dest = None))]"

definition put_destination :: "'p ig_deps \<Rightarrow> int \<Rightarrow> string \<Rightarrow> destination_body option \<Rightarrow> ('q, 's, 'p) ig_db \<Rightarrow>
    (destination option \<times> notion_mapping option) response \<times> ('q, 's, 'p) ig_db" where
  "put_destination d now user body db =
     (case body of
        None \<Rightarrow> (Refuse 400 ''invalid_request'', db)
      | Some b \<Rightarrow>
          if \<not> destination_body_ok b then (Refuse 400 ''invalid_request'', db)
          else (case check_mapping d user (db_destination b) (db_mapping b) db of
             (Inl (code, e), db1) \<Rightarrow> (Refuse code e, db1)
           | (Inr mapping, db1) \<Rightarrow>
               if active_connection user db1 = None then (Refuse 409 ''notion_not_connected'', db1)
               else (Reply 200 (db_destination b, mapping),
                     ig_audit user ''notion.destination.set'' (destination_detail (db_destination b) mapping)
                       (db1\<lparr>ig_rows := map (\<lambda>r. if active_row user r then set_meta now (db_destination b) mapping r else r)
                          (ig_rows db1)\<rparr>))))"

definition disconnect :: "int \<Rightarrow> string \<Rightarrow> ('q, 's, 'p) ig_db \<Rightarrow> unit response \<times> ('q, 's, 'p) ig_db" where
  "disconnect now user db =
     (if active_connection user db = None then (Refuse 404 ''not_found'', db)
      else (Reply 200 (),
            ig_audit user ''notion.disconnect'' []
              (db\<lparr>ig_rows := map (\<lambda>r. if active_row user r then r\<lparr>iw_status := Cs_revoked, iw_token := [], iw_updated := now\<rparr> else r)
                 (ig_rows db)\<rparr>)))"

record connection_summary =
  cs_provider :: string
  cs_status :: connection_status
  cs_account :: "string option"
  cs_connected :: int
  cs_updated :: int

definition list_integrations :: "(string \<Rightarrow> nat) \<Rightarrow> string \<Rightarrow> ('q, 's, 'p) ig_db \<Rightarrow> connection_summary list response" where
  \<comment> \<open>the collation of the column is a parameter\<close>
  "list_integrations collate user db =
     Reply 200 (map (\<lambda>r. \<lparr>cs_provider = iw_provider r, cs_status = iw_status r, cs_account = iw_account r,
                           cs_connected = iw_created r, cs_updated = iw_updated r\<rparr>)
       (sort_key (\<lambda>r. collate (iw_provider r)) (filter (\<lambda>r. iw_user r = user) (ig_rows db))))"

subsection \<open>The preview of an action\<close>

record preview_item =
  pm_id :: string
  pm_kind :: image_kind
  pm_state :: string
  pm_width :: "nat option"
  pm_height :: "nat option"
  pm_eligible :: bool

record preview_reply =
  pw_action :: string
  pw_status :: action_status
  pw_risk :: nat
  pw_connected :: bool
  pw_workspace :: "string option"
  pw_destination :: "destination option"
  pw_mapping :: "notion_mapping option"
  pw_media_included :: bool
  pw_media_items :: "preview_item list"
  pw_approved_ids :: "string list"
  pw_title :: string
  pw_summary :: "string option"
  pw_url :: "string option"
  pw_host :: "string option"
  pw_instruction :: "string option"
  pw_tags :: "string list"
  pw_moment :: "(string \<times> string option \<times> string) option"
  pw_sections :: "page_section list"

definition preview_host :: "(string \<Rightarrow> string option) \<Rightarrow> string option \<Rightarrow> string option" where
  \<comment> \<open>\<open>safeHost\<close>; the argument is \<open>new URL(url).host\<close>, \<open>None\<close> its exception\<close>
  "preview_host host_of url = (if truthy url then host_of (the url) else None)"

definition preview_source :: "action_row \<Rightarrow> moment_row option \<Rightarrow> notion_source" where
  \<comment> \<open>the second argument of \<open>buildNotionPageContent\<close>, from the joined row\<close>
  "preview_source a mom =
     (case mom of
        None \<Rightarrow>
          \<lparr>ns_moment_id = an_moment a, ns_moment_title = None, ns_moment_summary = None, ns_source_url = None,
           ns_captured_at = None, ns_extracted_text = None, ns_instruction = None, ns_tags = [], ns_action_id = Some (an_id a),
           ns_text_redaction = None, ns_image_redaction = Some ''none'', ns_masked_regions = 0\<rparr>
      | Some m \<Rightarrow>
          \<lparr>ns_moment_id = an_moment a, ns_moment_title = mo_title m, ns_moment_summary = mo_summary m,
           ns_source_url = mo_url m, ns_captured_at = Some (mo_captured m), ns_extracted_text = mo_text m,
           ns_instruction = mo_intent m, ns_tags = mo_tags m, ns_action_id = Some (an_id a),
           ns_text_redaction = mo_redaction m, ns_image_redaction = Some (default_to (mo_image_state m) ''none''),
           ns_masked_regions = mo_image_masked m\<rparr>)"

definition preview_items :: "string \<Rightarrow> string option \<Rightarrow> ('q, 's, 'p) act_db \<Rightarrow> preview_item list" where
  \<comment> \<open>the media of the action's moment, oldest first, with their eligibility\<close>
  "preview_items user moment db =
     (case moment of
        None \<Rightarrow> []
      | Some mid \<Rightarrow>
          map (\<lambda>r. \<lparr>pm_id = mr_id r, pm_kind = mr_kind r, pm_state = mr_state r, pm_width = mr_width r,
                     pm_height = mr_height r, pm_eligible = (mr_state r = ''applied'')\<rparr>)
            (filter (\<lambda>r. mr_moment r = mid \<and> mr_user r = user) (md_rows (ax_media db))))"

definition preview :: "(string \<Rightarrow> string option) \<Rightarrow> string option \<Rightarrow> string \<Rightarrow> ('q, 's, 'p) act_db \<Rightarrow> preview_reply response" where
  \<comment> \<open>the id of the path is \<open>None\<close> when it is no UUID\<close>
  "preview host_of param user db =
     (case param of
        None \<Rightarrow> Refuse 404 ''not_found''
      | Some aid \<Rightarrow>
          (case find_action aid user db of
             None \<Rightarrow> Refuse 404 ''not_found''
           | Some a \<Rightarrow>
               if an_type a \<noteq> ''notion_page'' then Refuse 400 ''preview_unavailable''
               else
                 let mom = (case an_moment a of None \<Rightarrow> None | Some i \<Rightarrow> find (\<lambda>m. mo_id m = i) (ax_moments db));
                     conn = connected user ''notion'' db;
                     dest = coalesce (py_destination (an_payload a)) (Option.bind conn cn_default);
                     approved = (case py_media_ids (an_payload a) of None \<Rightarrow> [] | Some ids \<Rightarrow> ids);
                     url = Option.bind mom mo_url;
                     content = build_notion_page_content (default_to (py_title (an_payload a)) ''Nova Context page'')
                       (py_detail (an_payload a)) (preview_source a mom)
                 in if an_moment a \<noteq> None \<and> mom = None then Raise ''TypeError''
                    else Reply 200
                      \<lparr>pw_action = an_id a, pw_status = an_status a, pw_risk = an_risk a, pw_connected = (conn \<noteq> None),
                       pw_workspace = Option.bind conn cn_account, pw_destination = dest,
                       pw_mapping = (case dest of None \<Rightarrow> None
                         | Some t \<Rightarrow> if ds_kind t = Database_parent then Option.bind conn cn_mapping else None),
                       pw_media_included = (approved \<noteq> []), pw_media_items = preview_items user (an_moment a) db,
                       pw_approved_ids = approved, pw_title = pc_title content,
                       pw_summary = coalesce (Option.bind mom mo_summary) (py_detail (an_payload a)),
                       pw_url = url, pw_host = preview_host host_of url, pw_instruction = Option.bind mom mo_intent,
                       pw_tags = (case mom of None \<Rightarrow> [] | Some m \<Rightarrow> mo_tags m),
                       pw_moment = (case (an_moment a, mom) of (Some i, Some m) \<Rightarrow> Some (i, mo_title m, mo_captured m) | _ \<Rightarrow> None),
                       pw_sections = pc_sections content\<rparr>))"

subsection \<open>Traces of requests\<close>

datatype ig_event =
    Ev_start string auth_context
  | Ev_callback bytes auth_context "(string \<times> string) option"
  | Ev_destination string "destination_body option"
  | Ev_disconnect string

datatype ig_outcome = Oc_started | Oc_connected | Oc_other

fun ig_step :: "'p ig_deps \<Rightarrow> int \<times> ig_event \<Rightarrow> ('q, 's, 'p) ig_db \<Rightarrow> ig_outcome \<times> ('q, 's, 'p) ig_db" where
  "ig_step d (now, Ev_start random auth) db =
     (case oauth_start d now random auth db of (Reply _ _, db1) \<Rightarrow> (Oc_started, db1) | (_, db1) \<Rightarrow> (Oc_other, db1))"
| "ig_step d (now, Ev_callback iv auth body) db =
     (case oauth_callback d now iv auth body db of (Reply _ _, db1) \<Rightarrow> (Oc_connected, db1) | (_, db1) \<Rightarrow> (Oc_other, db1))"
| "ig_step d (now, Ev_destination user body) db = (Oc_other, snd (put_destination d now user body db))"
| "ig_step d (now, Ev_disconnect user) db = (Oc_other, snd (disconnect now user db))"

type_synonym ig_log = "((int \<times> ig_event) \<times> ig_outcome) list"

fun ig_run :: "'p ig_deps \<Rightarrow> (int \<times> ig_event) list \<Rightarrow> ('q, 's, 'p) ig_db \<Rightarrow> ig_log \<times> ('q, 's, 'p) ig_db" where
  "ig_run d [] db = ([], db)"
| "ig_run d (e # es) db =
     (case ig_step d e db of (out, db1) \<Rightarrow> (case ig_run d es db1 of (hist, db2) \<Rightarrow> ((e, out) # hist, db2)))"

fun started :: "'p ig_deps \<Rightarrow> string \<Rightarrow> string \<Rightarrow> (int \<times> ig_event) \<times> ig_outcome \<Rightarrow> bool" where
  \<comment> \<open>a start of the user that minted a state with this hash\<close>
  "started d user hash ((now, Ev_start random auth), out) \<longleftrightarrow>
     out = Oc_started \<and> ac_kind auth = Web \<and> ac_user auth = user \<and> gd_sha d random = hash"
| "started d user hash _ \<longleftrightarrow> False"

fun connects :: "'p ig_deps \<Rightarrow> string \<Rightarrow> string \<Rightarrow> (int \<times> ig_event) \<times> ig_outcome \<Rightarrow> bool" where
  \<comment> \<open>a callback of the user with a state of this hash that connected\<close>
  "connects d user hash ((now, Ev_callback iv auth (Some b)), out) \<longleftrightarrow>
     out = Oc_connected \<and> ac_user auth = user \<and> gd_sha d (snd b) = hash"
| "connects d user hash _ \<longleftrightarrow> False"

fun justified :: "'p ig_deps \<Rightarrow> ig_log \<Rightarrow> ig_log \<Rightarrow> bool" where
  \<comment> \<open>every connection of the second hist follows a start of the same user, with the same state, at most ten minutes old\<close>
  "justified d past [] \<longleftrightarrow> True"
| "justified d past (x # xs) \<longleftrightarrow>
     (case x of
        ((now, Ev_callback iv auth (Some b)), Oc_connected) \<Rightarrow>
          list_ex (\<lambda>y. started d (ac_user auth) (gd_sha d (snd b)) y \<and> now < fst (fst y) + state_ttl) past
      | (_, Oc_connected) \<Rightarrow> False
      | _ \<Rightarrow> True) \<and>
     justified d (past @ [x]) xs"

definition counted :: "(((int \<times> ig_event) \<times> ig_outcome) \<Rightarrow> bool) \<Rightarrow> ig_log \<Rightarrow> nat" where
  "counted p hist = length (filter p hist)"

subsection \<open>Facts about the handlers\<close>

lemma ig_audit_fields [simp]:
  "ig_states (ig_audit u e dt db) = ig_states db" "ig_rows (ig_audit u e dt db) = ig_rows db"
  by (simp_all add: ig_audit_def)

lemma ask_provider_keeps:
  "ask_provider f db = (r, db') \<Longrightarrow> ig_states db' = ig_states db \<and> ig_rows db' = ig_rows db"
  by (auto simp: ask_provider_def split: prod.splits)

lemma with_token_keeps:
  "with_token d conn call db = (r, db') \<Longrightarrow> ig_states db' = ig_states db \<and> ig_rows db' = ig_rows db"
  by (auto simp: with_token_def split: sum.splits dest!: ask_provider_keeps)

lemma check_mapping_keeps:
  "check_mapping d user dest mapping db = (r, db') \<Longrightarrow> ig_states db' = ig_states db \<and> ig_rows db' = ig_rows db"
  by (auto simp: check_mapping_def split: option.splits if_splits prod.splits sum.splits dest!: with_token_keeps)

lemma store_connection_states: "store_connection d now key iv user r db = (rep, db') \<Longrightarrow> ig_states db' = ig_states db"
  by (auto simp: store_connection_def split: sum.splits)

lemma put_destination_states: "ig_states (snd (put_destination d now user body db)) = ig_states db"
  by (auto simp: put_destination_def split: option.splits prod.splits sum.splits dest: check_mapping_keeps)

lemma disconnect_states: "ig_states (snd (disconnect now user db)) = ig_states db"
  by (simp add: disconnect_def)

definition claimed :: "string \<Rightarrow> string \<Rightarrow> int \<Rightarrow> oauth_state list \<Rightarrow> oauth_state list" where
  "claimed hash user now = map (\<lambda>s. if claimable hash user now s then s\<lparr>os_used := Some now\<rparr> else s)"

lemma store_connection_reply:
  "store_connection d now key iv user r db = (Reply c w, db') \<Longrightarrow> c = 200"
  by (auto simp: store_connection_def split: sum.splits)

lemma callback_cases:
  assumes "oauth_callback d now iv auth body db = (r, db')"
  obtains (refused) "\<forall>c w. r \<noteq> Reply c w" "ig_states db' = ig_states db"
  | (spent) b where "body = Some b" "\<forall>c w. r \<noteq> Reply c w" "ig_states db' = claimed (gd_sha d (snd b)) (ac_user auth) now (ig_states db)"
  | (stored) b w where "body = Some b" "r = Reply 200 w" "ac_kind auth = Web"
      "list_ex (claimable (gd_sha d (snd b)) (ac_user auth) now) (ig_states db)"
      "ig_states db' = claimed (gd_sha d (snd b)) (ac_user auth) now (ig_states db)"
proof (cases "ac_kind auth = Web \<and> notion_ready d \<noteq> None \<and> body \<noteq> None \<and> callback_ok (the body)")
  case False
  then show ?thesis
    using assms by (intro refused) (auto simp: oauth_callback_def split: if_splits option.splits)
next
  case True
  then obtain client key b where w: "ac_kind auth = Web" "notion_ready d = Some (client, key)" "body = Some b" "callback_ok b" by auto
  obtain ok db1 where cl: "claim_state (gd_sha d (snd b)) (ac_user auth) now db = (ok, db1)" by fastforce
  have c1: "ok \<longleftrightarrow> list_ex (claimable (gd_sha d (snd b)) (ac_user auth) now) (ig_states db)"
    "ig_states db1 = claimed (gd_sha d (snd b)) (ac_user auth) now (ig_states db)"
    using cl by (auto simp: claim_state_def claimed_def)
  obtain res db2 where ask: "ask_provider (oc_exchange_code client (fst b)) db1 = (res, db2)" by fastforce
  have c2: "ig_states db2 = ig_states db1" using ask_provider_keeps [OF ask] by simp
  show ?thesis
  proof (cases ok)
    case False
    then show ?thesis
      using assms w cl c1 by (intro spent [of b]) (auto simp: oauth_callback_def)
  next
    case ok: True
    show ?thesis
    proof (cases res)
      case (Inl e)
      then show ?thesis using assms w cl c1 c2 ok ask by (intro spent [of b]) (auto simp: oauth_callback_def)
    next
      case (Inr o')
      then have st: "store_connection d now key iv (ac_user auth) o' db2 = (r, db')"
        using assms w cl ok ask by (simp add: oauth_callback_def)
      have c3: "ig_states db' = claimed (gd_sha d (snd b)) (ac_user auth) now (ig_states db)"
        using store_connection_states [OF st] c1 c2 by simp
      show ?thesis
      proof (cases "\<exists>c x. r = Reply c x")
        case True
        then obtain c x where "r = Reply c x" by blast
        then show ?thesis using store_connection_reply st w c1 ok c3 by (intro stored [of b x]) auto
      next
        case False
        then show ?thesis using spent w c3 by blast
      qed
    qed
  qed
qed

lemma start_cases:
  assumes "oauth_start d now random auth db = (r, db')"
  obtains (refused) "\<forall>c w. r \<noteq> Reply c w" "ig_states db' = ig_states db"
  | (minted) w where "r = Reply 201 w" "ac_kind auth = Web"
      "ig_states db' = ig_states db @ [\<lparr>os_user = ac_user auth, os_provider = ''notion'', os_hash = gd_sha d random,
         os_expires = now + state_ttl, os_used = None\<rparr>]"
proof (cases "ac_kind auth = Web")
  case False
  then have "r = Refuse 403 ''web_session_required''" "db' = db" using assms by (simp_all add: oauth_start_def)
  then show ?thesis by (intro refused) simp_all
next
  case web: True
  show ?thesis
  proof (cases "notion_ready d")
    case None
    then have "r = Refuse 503 ''notion_not_configured''" "db' = db" using assms web by (simp_all add: oauth_start_def)
    then show ?thesis by (intro refused) simp_all
  next
    case (Some ck)
    then obtain client key where ck: "notion_ready d = Some (client, key)" by (cases ck) auto
    show ?thesis
    proof (cases "gd_sha d random \<in> set (map os_hash (ig_states db))")
      case True
      then have "r = Raise ''23505''" "db' = db" using assms web ck by (simp_all add: oauth_start_def)
      then show ?thesis by (intro refused) simp_all
    next
      case False
      show ?thesis
        by (rule minted [of "oc_authorize_url client random"]) (use False assms web ck in \<open>auto simp: oauth_start_def\<close>)
    qed
  qed
qed

subsection \<open>Every connection follows its own start\<close>

definition free_for :: "string \<Rightarrow> string \<Rightarrow> oauth_state list \<Rightarrow> nat" where
  "free_for user hash states = length (filter (\<lambda>s. os_user s = user \<and> os_hash s = hash \<and> os_used s = None) states)"

definition tracked :: "'p ig_deps \<Rightarrow> ig_log \<Rightarrow> oauth_state list \<Rightarrow> bool" where
  "tracked d past states \<longleftrightarrow>
     (\<forall>u h. counted (connects d u h) past + free_for u h states
        \<le> counted (started d u h) past) \<and>
     (\<forall>s \<in> set states. list_ex (\<lambda>y. started d (os_user s) (os_hash s) y \<and> os_expires s = fst (fst y) + state_ttl) past)"

lemma counted_snoc: "counted p (hist @ [x]) = counted p hist + (if p x then 1 else 0)"
  by (simp add: counted_def)

lemma free_for_simps [simp]:
  "free_for u h [] = 0"
  "free_for u h (s # states) = (if os_user s = u \<and> os_hash s = h \<and> os_used s = None then 1 else 0) + free_for u h states"
  "free_for u h (xs @ ys) = free_for u h xs + free_for u h ys"
  by (simp_all add: free_for_def)

lemma claimed_Cons [simp]:
  "claimed hash user now [] = []"
  "claimed hash user now (s # states) = (if claimable hash user now s then s\<lparr>os_used := Some now\<rparr> else s) # claimed hash user now states"
  by (simp_all add: claimed_def)

lemma free_claimed_le:
  "free_for u h (claimed hash user now states) + of_bool (u = user \<and> h = hash \<and> list_ex (claimable hash user now) states)
   \<le> free_for u h states"
proof (induction states)
  case (Cons s states)
  show ?case
  proof (cases "claimable hash user now s")
    case True
    then have "os_user s = user" "os_hash s = hash" "os_used s = None" by (simp_all add: claimable_def)
    then show ?thesis using Cons.IH True by (cases "u = user \<and> h = hash") (auto simp: of_bool_def split: if_splits)
  next
    case False
    then show ?thesis using Cons.IH by simp
  qed
qed simp

lemma tracked_rows:
  assumes "tracked d past states" "\<And>s'. s' \<in> set states' \<Longrightarrow> \<exists>s \<in> set states. os_user s' = os_user s \<and> os_hash s' = os_hash s \<and> os_expires s' = os_expires s"
  shows "\<forall>s' \<in> set states'. list_ex (\<lambda>y. started d (os_user s') (os_hash s') y \<and> os_expires s' = fst (fst y) + state_ttl) (past @ hist)"
proof
  fix s' assume "s' \<in> set states'"
  then obtain s where s: "s \<in> set states" "os_user s' = os_user s" "os_hash s' = os_hash s" "os_expires s' = os_expires s"
    using assms(2) by blast
  then have "list_ex (\<lambda>y. started d (os_user s) (os_hash s) y \<and> os_expires s = fst (fst y) + state_ttl) past"
    using assms(1) by (simp add: tracked_def)
  then show "list_ex (\<lambda>y. started d (os_user s') (os_hash s') y \<and> os_expires s' = fst (fst y) + state_ttl) (past @ hist)"
    using s by simp
qed

lemma tracked_same:
  assumes "tracked d past states" "\<And>u h. \<not> connects d u h x"
  shows "tracked d (past @ [x]) states"
proof -
  have "\<forall>s' \<in> set states. list_ex (\<lambda>y. started d (os_user s') (os_hash s') y \<and> os_expires s' = fst (fst y) + state_ttl) (past @ [x])"
    by (rule tracked_rows [OF assms(1)]) blast
  moreover have "counted (connects d u h) (past @ [x]) + free_for u h states
      \<le> counted (started d u h) (past @ [x])" for u h
    using assms by (simp add: counted_snoc tracked_def le_SucI)
  ultimately show ?thesis by (simp add: tracked_def)
qed

lemma claimed_rows:
  "s' \<in> set (claimed hash user now states) \<Longrightarrow>
     \<exists>s \<in> set states. os_user s' = os_user s \<and> os_hash s' = os_hash s \<and> os_expires s' = os_expires s"
  by (auto simp: claimed_def)

lemma tracked_claimed:
  assumes t: "tracked d past states"
    and c: "\<And>u h. connects d u h x \<Longrightarrow> u = user \<and> h = hash \<and> list_ex (claimable hash user now) states"
  shows "tracked d (past @ [x]) (claimed hash user now states)"
proof -
  have "counted (connects d u h) (past @ [x]) +
      free_for u h (claimed hash user now states)
      \<le> counted (started d u h) (past @ [x])" for u h
  proof -
    have "counted (connects d u h) past + free_for u h states
        \<le> counted (started d u h) past" using t by (simp add: tracked_def)
    then show ?thesis
      using free_claimed_le [of u h hash user now states] c [of u h] by (auto simp: counted_snoc split: if_splits)
  qed
  moreover have "\<forall>s' \<in> set (claimed hash user now states). list_ex (\<lambda>y. started d (os_user s') (os_hash s') y \<and>
      os_expires s' = fst (fst y) + state_ttl) (past @ [x])"
    by (rule tracked_rows [OF t claimed_rows])
  ultimately show ?thesis by (simp add: tracked_def)
qed

lemma tracked_minted:
  assumes t: "tracked d past states" and x: "started d user hash x" "\<And>u h. \<not> connects d u h x"
    and s: "os_user s = user" "os_hash s = hash" "os_expires s = fst (fst x) + state_ttl"
  shows "tracked d (past @ [x]) (states @ [s])"
proof -
  have "\<forall>s' \<in> set states. list_ex (\<lambda>y. started d (os_user s') (os_hash s') y \<and> os_expires s' = fst (fst y) + state_ttl) (past @ [x])"
    by (rule tracked_rows [OF t]) blast
  then have "\<forall>s' \<in> set (states @ [s]). list_ex (\<lambda>y. started d (os_user s') (os_hash s') y \<and> os_expires s' = fst (fst y) + state_ttl) (past @ [x])"
    using x s by simp
  moreover have "counted (connects d u h) (past @ [x]) + free_for u h (states @ [s])
      \<le> counted (started d u h) (past @ [x])" for u h
  proof -
    have "counted (connects d u h) past + free_for u h states
        \<le> counted (started d u h) past" using t by (simp add: tracked_def)
    then show ?thesis using x s by (auto simp: counted_snoc)
  qed
  ultimately show ?thesis by (simp add: tracked_def)
qed

lemma claimable_justified:
  assumes "tracked d past states" "list_ex (claimable hash user now) states"
  shows "list_ex (\<lambda>y. started d user hash y \<and> now < fst (fst y) + state_ttl) past"
proof -
  obtain s where s: "s \<in> set states" "claimable hash user now s" using assms(2) by (auto simp: list_ex_iff)
  then have "list_ex (\<lambda>y. started d user hash y \<and> os_expires s = fst (fst y) + state_ttl) past"
    using assms(1) by (auto simp: tracked_def claimable_def)
  then show ?thesis using s(2) by (auto simp: list_ex_iff claimable_def)
qed

lemma ig_step_tracked:
  assumes "ig_step d e db = (out, db')" "tracked d past (ig_states db)"
  shows "tracked d (past @ [(e, out)]) (ig_states db') \<and> justified d past [(e, out)]"
proof (cases "(d, e, db)" rule: ig_step.cases)
  case (1 d' now random auth db0)
  obtain r db1 where st: "oauth_start d now random auth db = (r, db1)" by fastforce
  have eq: "db' = db1" "out = (case r of Reply _ _ \<Rightarrow> Oc_started | _ \<Rightarrow> Oc_other)"
    using assms(1) 1 st by (auto split: response.splits)
  from st show ?thesis
  proof (cases rule: start_cases)
    case refused
    then have "out = Oc_other" using eq by (cases r) auto
    then show ?thesis using refused eq 1 tracked_same [OF assms(2)] by simp
  next
    case (minted w)
    then show ?thesis
      using eq 1 tracked_minted [OF assms(2), of "ac_user auth" "gd_sha d random" "(e, out)"] by simp
  qed
next
  case (2 d' now iv auth body db0)
  obtain r db1 where cb: "oauth_callback d now iv auth body db = (r, db1)" by fastforce
  have eq: "db' = db1" "out = (case r of Reply _ _ \<Rightarrow> Oc_connected | _ \<Rightarrow> Oc_other)"
    using assms(1) 2 cb by (auto split: response.splits)
  from cb show ?thesis
  proof (cases rule: callback_cases)
    case refused
    then have "out = Oc_other" using eq by (cases r) auto
    then show ?thesis using refused eq 2 tracked_same [OF assms(2), of "(e, out)"] by (cases body) auto
  next
    case (spent b)
    then have "out = Oc_other" using eq by (cases r) auto
    then show ?thesis using spent eq 2 tracked_claimed [OF assms(2), of "(e, out)"] by auto
  next
    case (stored b w)
    then have "out = Oc_connected" using eq by simp
    then show ?thesis
      using stored eq 2 tracked_claimed [OF assms(2), of "(e, out)"] claimable_justified [OF assms(2) stored(4)] by auto
  qed
next
  case (3 d' now user body db0)
  then show ?thesis using assms put_destination_states [of d now user body db] tracked_same [OF assms(2), of "(e, out)"] by auto
next
  case (4 d' now user db0)
  then show ?thesis using assms disconnect_states [of now user db] tracked_same [OF assms(2), of "(e, out)"] by auto
qed

lemma ig_run_tracked:
  assumes "ig_run d es db = (hist, db')" "tracked d past (ig_states db)"
  shows "tracked d (past @ hist) (ig_states db') \<and> justified d past hist"
  using assms
proof (induction es arbitrary: db past hist)
  case (Cons e es)
  obtain out db1 hist1 where s: "ig_step d e db = (out, db1)" "ig_run d es db1 = (hist1, db')" "hist = (e, out) # hist1"
    using Cons.prems(1) by (auto split: prod.splits)
  have t: "tracked d (past @ [(e, out)]) (ig_states db1)" "justified d past [(e, out)]"
    using ig_step_tracked [OF s(1) Cons.prems(2)] by simp_all
  then show ?case using Cons.IH [OF s(2) t(1)] s(3) by simp
qed simp

text \<open>C37. Over any sequence of requests by any users, a Notion account is connected only at the end of a flow that
  the same user started: every callback that connects follows a start from a web session of this user that minted
  the state it brings, at most ten minutes earlier, and no state connects more often than it was minted, so a
  state that leaked, expired or was used once connects nobody.\<close>

theorem oauth_connects_own_flow_once:
  "case ig_run d es (db\<lparr>ig_states := []\<rparr>) of (hist, db') \<Rightarrow>
     justified d [] hist \<and> counted (connects d user hash) hist \<le> counted (started d user hash) hist"
proof -
  obtain hist db' where run: "ig_run d es (db\<lparr>ig_states := []\<rparr>) = (hist, db')" by fastforce
  have "tracked d [] (ig_states (db\<lparr>ig_states := []\<rparr>))" by (simp add: tracked_def counted_def)
  from ig_run_tracked [OF run this]
  have "tracked d hist (ig_states db')" "justified d [] hist" by simp_all
  then show ?thesis using run unfolding tracked_def by (auto dest: add_leD1)
qed

definition oc_client :: "unit oauth_client" where
  \<comment> \<open>a client for the examples, whose provider answers with the code as the token\<close>
  "oc_client =
     \<lparr>oc_authorize_url = (\<lambda>st. ''https://n/?state='' @ st),
      oc_exchange_code = (\<lambda>code h. (Inr \<lparr>ou_token = code, ou_workspace = Some ''ws'', ou_workspace_id = None, ou_bot = None\<rparr>, h))\<rparr>"

definition oc_deps :: "unit ig_deps" where
  "oc_deps = \<lparr>gd_sha = (\<lambda>t. ''h'' @ t), gd_crypto = toy_crypto, gd_key = Some (replicate 32 1), gd_read_keys = Some [replicate 32 1],
     gd_oauth = Some oc_client, gd_api = None\<rparr>"

definition oc_auth :: auth_context where
  "oc_auth = \<lparr>ac_user = ''u'', ac_session = ''s'', ac_kind = Web, ac_email = ''e''\<rparr>"

definition oc_db :: "(unit, unit, unit) ig_db" where
  "oc_db = \<lparr>ig_states = [\<lparr>os_user = ''u'', os_provider = ''notion'', os_hash = ''h0123456789abcdef'', os_expires = 100, os_used = None\<rparr>],
     ig_rows = [],
     ig_act = \<lparr>ax_actions = [], ax_moments = [], ax_tasks = [], ax_connections = [], ax_audit = [],
               ax_media = \<lparr>md_store = (), md_rows = [], md_queue = []\<rparr>, ax_queue = (), ax_provider = ()\<rparr>\<rparr>"

subsection \<open>The token\<close>

lemma token_text_ascii: "token_text (ascii_bytes s) = s"
proof -
  have "char_of (unat (of_char c :: 8 word)) = c" for c
  proof -
    have "(of_char c :: 8 word) = of_nat (of_char c :: nat)" by (rule of_nat_of_char [symmetric])
    then have "unat (of_char c :: 8 word) = (of_char c :: nat) mod 256" by (simp add: unat_of_nat)
    then show ?thesis by simp
  qed
  then show ?thesis by (simp add: token_text_def ascii_bytes_def comp_def map_idI)
qed

lemma callback_stores:
  assumes "oauth_callback d now iv auth body db = (Reply c w, db')"
  obtains client key b r box where "gd_oauth d = Some client" "gd_key d = Some key" "body = Some b"
    "fst (oc_exchange_code client (fst b) (ax_provider (ig_act db))) = Inr r" "w = ou_workspace r"
    "encrypt_bytes (gd_crypto d) key iv (ascii_bytes (ou_token r)) = Inr box"
    "ig_rows db' = upsert_connection (new_connection now (ac_user auth) r box) (ig_rows db)"
proof -
  obtain client key b where w: "ac_kind auth = Web" "notion_ready d = Some (client, key)" "body = Some b" "callback_ok b"
    using assms by (auto simp: oauth_callback_def split: if_splits option.splits)
  obtain ok db1 where cl: "claim_state (gd_sha d (snd b)) (ac_user auth) now db = (ok, db1)" by fastforce
  have k1: "ig_rows db1 = ig_rows db" "ig_act db1 = ig_act db" using cl by (auto simp: claim_state_def)
  have ok using assms w cl by (cases ok) (auto simp: oauth_callback_def)
  obtain res db2 where ask: "ask_provider (oc_exchange_code client (fst b)) db1 = (res, db2)" by fastforce
  obtain r where r: "res = Inr r" "store_connection d now key iv (ac_user auth) r db2 = (Reply c w, db')"
    using assms w cl ask \<open>ok\<close> by (cases res) (auto simp: oauth_callback_def)
  have rd: "gd_oauth d = Some client" "gd_key d = Some key" using w(2) by (auto simp: notion_ready_def split: option.splits)
  have ex: "fst (oc_exchange_code client (fst b) (ax_provider (ig_act db))) = Inr r"
    using ask r(1) k1 by (auto simp: ask_provider_def split: prod.splits)
  obtain box where box: "encrypt_bytes (gd_crypto d) key iv (ascii_bytes (ou_token r)) = Inr box"
    "ig_rows db' = upsert_connection (new_connection now (ac_user auth) r box) (ig_rows db2)" "w = ou_workspace r"
    using r(2) by (auto simp: store_connection_def split: sum.splits)
  show ?thesis by (rule that [OF rd w(3) ex box(3,1)]) (use box(2) ask_provider_keeps [OF ask] k1 in simp)
qed

lemma find_map_all:
  "(\<And>x. x \<in> set xs \<Longrightarrow> P (f x) \<Longrightarrow> f x = y) \<Longrightarrow> (\<exists>x \<in> set xs. P (f x)) \<Longrightarrow> find P (map f xs) = Some y"
  by (induction xs) auto

lemma connected_upsert:
  assumes "ig_rows db' = upsert_connection (new_connection now user r box) rows"
  obtains conn where "connected user ''notion'' (act_view db') = Some conn" "cn_token conn = box" "cn_account conn = ou_workspace r"
    "cn_default conn = None" "cn_mapping conn = None"
proof -
  let ?new = "new_connection now user r box"
  define key where "key x \<longleftrightarrow> iw_user x = user \<and> iw_provider x = ''notion''" for x :: integration_row
  define P where "P c \<longleftrightarrow> cn_user c = user \<and> cn_provider c = ''notion'' \<and> cn_active c" for c :: connection_row
  have new: "connection_of (connect_row ?new x) = connection_of ?new" "P (connection_of ?new)" for x
    by (simp_all add: connection_of_def connect_row_def new_connection_def P_def)
  have P: "P (connection_of x) \<Longrightarrow> key x" for x by (simp add: P_def connection_of_def key_def)
  have "find P (map connection_of (ig_rows db')) = Some (connection_of ?new)"
  proof (cases "\<exists>x \<in> set rows. key x")
    case True
    then have "ig_rows db' = map (\<lambda>x. if key x then connect_row ?new x else x) rows"
      using assms by (auto simp: upsert_connection_def list_ex_iff key_def new_connection_def)
    moreover have "find P (map (\<lambda>x. connection_of (if key x then connect_row ?new x else x)) rows) = Some (connection_of ?new)"
      by (rule find_map_all) (use True new P in \<open>auto split: if_splits\<close>)
    ultimately show ?thesis by (simp add: comp_def)
  next
    case False
    then have "ig_rows db' = rows @ [?new]"
      using assms by (auto simp: upsert_connection_def list_ex_iff key_def new_connection_def)
    moreover have "find P (map connection_of rows @ [connection_of ?new]) = Some (connection_of ?new)"
      using False P new(2) by (induction rows) auto
    ultimately show ?thesis by simp
  qed
  then have "connected user ''notion'' (act_view db') = Some (connection_of ?new)"
    by (simp add: connected_def act_view_def P_def [abs_def])
  then show ?thesis by (rule that) (simp_all add: connection_of_def new_connection_def)
qed

lemma upsert_active:
  assumes "iw_status new = Cs_active" "iw_provider new = ''notion''"
  shows "list_all (active_row (iw_user new))
    (filter (\<lambda>r. iw_user r = iw_user new \<and> iw_provider r = ''notion'') (upsert_connection new rows))"
  using assms by (auto simp: upsert_connection_def list_all_iff list_ex_iff active_row_def connect_row_def)

lemma upsert_others:
  "filter (\<lambda>x. iw_user x \<noteq> iw_user new) (upsert_connection new rows) = filter (\<lambda>x. iw_user x \<noteq> iw_user new) rows"
proof -
  have "filter (\<lambda>x. iw_user x \<noteq> iw_user new)
      (map (\<lambda>r. if iw_user r = iw_user new \<and> iw_provider r = iw_provider new then connect_row new r else r) rows) =
    filter (\<lambda>x. iw_user x \<noteq> iw_user new) rows"
    by (induction rows) (auto simp: connect_row_def)
  then show ?thesis by (simp add: upsert_connection_def)
qed

lemma disconnected:
  assumes "disconnect now user db = (Reply c x, db')"
  shows "connected user ''notion'' (act_view db') = None"
    "list_all (\<lambda>r. \<not> active_row user r) (ig_rows db')"
    "list_all (active_row user) (filter (\<lambda>r. iw_user r = user \<and> iw_provider r = ''notion'') (ig_rows db)) \<Longrightarrow>
       list_all (\<lambda>r. iw_token r = []) (filter (\<lambda>r. iw_user r = user \<and> iw_provider r = ''notion'') (ig_rows db'))"
proof -
  have rows: "ig_rows db' = map (\<lambda>r. if active_row user r then r\<lparr>iw_status := Cs_revoked, iw_token := [], iw_updated := now\<rparr> else r) (ig_rows db)"
    using assms by (auto simp: disconnect_def split: if_splits)
  show none: "list_all (\<lambda>r. \<not> active_row user r) (ig_rows db')"
  proof -
    have "\<not> active_row user (if active_row user r then r\<lparr>iw_status := Cs_revoked, iw_token := [], iw_updated := now\<rparr> else r)" for r
      by (simp add: active_row_def)
    then show ?thesis by (simp only: rows list_all_iff set_map ball_simps) blast
  qed
  then show "connected user ''notion'' (act_view db') = None"
  proof -
    assume n: "list_all (\<lambda>r. \<not> active_row user r) (ig_rows db')"
    have "\<not> (cn_user c = user \<and> cn_provider c = ''notion'' \<and> cn_active c)" if c: "c \<in> set (map connection_of (ig_rows db'))" for c
    proof -
      obtain r where r: "r \<in> set (ig_rows db')" "c = connection_of r" using c by auto
      then have "\<not> active_row user r" using n by (simp add: list_all_iff)
      then show ?thesis by (simp add: r(2) active_row_def connection_of_def)
    qed
    moreover have "ax_connections (act_view db') = map connection_of (ig_rows db')" by (simp add: act_view_def)
    ultimately show ?thesis by (simp only: connected_def find_None_iff) blast
  qed
  show "list_all (\<lambda>r. iw_token r = []) (filter (\<lambda>r. iw_user r = user \<and> iw_provider r = ''notion'') (ig_rows db'))"
    if a: "list_all (active_row user) (filter (\<lambda>r. iw_user r = user \<and> iw_provider r = ''notion'') (ig_rows db))"
  proof -
    have "iw_token r' = []" if r': "r' \<in> set (ig_rows db')" "iw_user r' = user" "iw_provider r' = ''notion''" for r'
    proof -
      obtain r where r: "r \<in> set (ig_rows db)" "r' = (if active_row user r then r\<lparr>iw_status := Cs_revoked, iw_token := [], iw_updated := now\<rparr> else r)"
        using r'(1) unfolding rows by auto
      show ?thesis
      proof (cases "active_row user r")
        case False
        then have "r' = r" using r(2) by simp
        then show ?thesis using a r(1) r'(2,3) False by (simp add: list_all_iff)
      qed (use r(2) in simp)
    qed
    then show ?thesis by (simp add: list_all_iff)
  qed
qed

text \<open>C38. What a finished flow stores. When a callback connects, the row of this user, and no row of anybody else,
  holds the token that the provider gave for this code, sealed under the current key, with the name of the
  workspace and no destination of an earlier connection. The worker of this user opens it to exactly this token
  with every keyring that has the key; after a disconnection it finds no connection and no ciphertext of the user's
  Notion account is left.\<close>

theorem connected_token_round_trip:
  assumes "oauth_callback d now iv auth body db = (Reply c w, db')"
    and "gcm_ok (gd_crypto d)" "length iv = iv_len" "wd_crypto deps = gd_crypto d"
    and "gd_key d = Some key" "key \<in> set (wd_keys deps)" "jb_user j = ac_user auth"
  shows "(\<exists>client b r conn. gd_oauth d = Some client \<and> body = Some b \<and>
      fst (oc_exchange_code client (fst b) (ax_provider (ig_act db))) = Inr r \<and>
      open_token j deps (act_view db') = (Inr (conn, ou_token r), act_view db') \<and>
      cn_account conn = ou_workspace r \<and> cn_default conn = None \<and> cn_mapping conn = None) \<and>
    filter (\<lambda>x. iw_user x \<noteq> ac_user auth) (ig_rows db') = filter (\<lambda>x. iw_user x \<noteq> ac_user auth) (ig_rows db) \<and>
    (case disconnect later (ac_user auth) db' of
       (Reply _ _, db2) \<Rightarrow>
         fst (open_token j deps (act_view db2)) = Inl (Run_unrecoverable ''notion_not_connected'') \<and>
         list_all (\<lambda>r. iw_token r = []) (filter (\<lambda>r. iw_user r = ac_user auth \<and> iw_provider r = ''notion'') (ig_rows db2))
     | _ \<Rightarrow> False)"
proof -
  obtain client b r box where s: "gd_oauth d = Some client" "body = Some b"
    "fst (oc_exchange_code client (fst b) (ax_provider (ig_act db))) = Inr r"
    "encrypt_bytes (gd_crypto d) key iv (ascii_bytes (ou_token r)) = Inr box"
    "ig_rows db' = upsert_connection (new_connection now (ac_user auth) r box) (ig_rows db)"
    using callback_stores [OF assms(1)] assms(5) by (metis option.inject)
  obtain conn where conn: "connected (ac_user auth) ''notion'' (act_view db') = Some conn" "cn_token conn = box"
    "cn_account conn = ou_workspace r" "cn_default conn = None" "cn_mapping conn = None"
    by (rule connected_upsert [OF s(5)])
  have "decrypt_bytes_with_any (wd_crypto deps) (wd_keys deps) box = Inr (ascii_bytes (ou_token r))"
    using decrypt_with_any_sealed [OF s(4) assms(3,2), of "wd_keys deps"] assms(4,6) by simp
  then have opened: "open_token j deps (act_view db') = (Inr (conn, ou_token r), act_view db')"
    using conn(1,2) assms(6,7) by (cases "wd_keys deps") (simp_all add: open_token_def token_text_ascii)
  have others: "filter (\<lambda>x. iw_user x \<noteq> ac_user auth) (ig_rows db') = filter (\<lambda>x. iw_user x \<noteq> ac_user auth) (ig_rows db)"
    using upsert_others [of "new_connection now (ac_user auth) r box" "ig_rows db"] s(5) by (simp add: new_connection_def)
  have act: "list_all (active_row (ac_user auth)) (filter (\<lambda>r. iw_user r = ac_user auth \<and> iw_provider r = ''notion'') (ig_rows db'))"
    using upsert_active [of "new_connection now (ac_user auth) r box" "ig_rows db"] s(5) by (simp add: new_connection_def)
  have "active_connection (ac_user auth) db' \<noteq> None"
    using conn(1) by (auto simp: active_connection_def connected_def act_view_def connection_of_def active_row_def find_None_iff find_Some_iff)
  then obtain db2 where dis: "disconnect later (ac_user auth) db' = (Reply 200 (), db2)" by (simp add: disconnect_def)
  have "fst (open_token j deps (act_view db2)) = Inl (Run_unrecoverable ''notion_not_connected'')"
    using disconnected(1) [OF dis] assms(7) by (simp add: open_token_def terminal_def)
  then show ?thesis
    using s(1,2,3) opened conn(3-5) others dis disconnected(3) [OF dis act] by auto
qed

definition oc_worker :: "(unit, unit) worker_deps" where
  "oc_worker = \<lparr>wd_notion = http_notion_client (\<lambda>_ h. (Unreachable [], h)), wd_keys = [replicate 32 1], wd_store = None, wd_crypto = toy_crypto\<rparr>"

theorem connected_token_round_trip_witness:
  "\<exists>db' conn db2. oauth_callback oc_deps 50 (replicate 12 0) oc_auth (Some (''tok'', ''0123456789abcdef'')) oc_db = (Reply 200 (Some ''ws''), db') \<and>
     open_token \<lparr>jb_action = ''a'', jb_user = ''u''\<rparr> oc_worker (act_view db') = (Inr (conn, ''tok''), act_view db') \<and>
     disconnect 60 ''u'' db' = (Reply 200 (), db2) \<and>
     fst (open_token \<lparr>jb_action = ''a'', jb_user = ''u''\<rparr> oc_worker (act_view db2)) = Inl (Run_unrecoverable ''notion_not_connected'')"
proof -
  obtain r db' where cb: "oauth_callback oc_deps 50 (replicate 12 0) oc_auth (Some (''tok'', ''0123456789abcdef'')) oc_db = (r, db')" by fastforce
  then have r: "r = Reply 200 (Some ''ws'')"
    by (simp add: oauth_callback_def oc_deps_def oc_auth_def oc_db_def notion_ready_def callback_ok_def len_within_def claim_state_def
        claimable_def ask_provider_def oc_client_def store_connection_def encrypt_bytes_def key_len_def toy_crypto_def)
  note all = connected_token_round_trip [OF cb [unfolded r], of oc_worker "replicate 32 1" "\<lparr>jb_action = ''a'', jb_user = ''u''\<rparr>" 60]
  have "gcm_ok (gd_crypto oc_deps)" "length (replicate 12 (0 :: 8 word)) = iv_len" "wd_crypto oc_worker = gd_crypto oc_deps"
    "gd_key oc_deps = Some (replicate 32 1)" "replicate 32 1 \<in> set (wd_keys oc_worker)" "ac_user oc_auth = ''u''"
    by (simp_all add: oc_deps_def toy_crypto_ok iv_len_def oc_worker_def oc_auth_def)
  note t = all [OF this(1-5), simplified this(6)]
  have "gd_oauth oc_deps = Some c \<Longrightarrow> fst (oc_exchange_code c (fst (''tok'', ''0123456789abcdef'')) p) = Inr o' \<Longrightarrow> ou_token o' = ''tok''" for c p o'
    by (auto simp: oc_deps_def oc_client_def)
  moreover obtain rep db2 where dis: "disconnect 60 ''u'' db' = (rep, db2)" by fastforce
  ultimately show ?thesis using t cb r by (cases rep) (auto simp: disconnect_def split: if_splits)
qed

subsection \<open>Saved destinations\<close>

definition others :: "string \<Rightarrow> integration_row list \<Rightarrow> integration_row list" where
  \<comment> \<open>the rows that a request of the user may not change\<close>
  "others user rows = filter (\<lambda>r. \<not> active_row user r) rows"

lemma check_mapping_saved:
  assumes "check_mapping d user dest mapping db = (Inr saved, db1)"
  shows "case saved of None \<Rightarrow> mapping = None
    | Some m \<Rightarrow> mapping = Some m \<and>
        (\<exists>t conn token api live. dest = Some t \<and> ds_kind t = Database_parent \<and> active_connection user db = Some conn \<and>
           gd_api d = Some api \<and>
           decrypt_bytes_with_any (gd_crypto d) (case gd_read_keys d of None \<Rightarrow> [] | Some ks \<Rightarrow> ks) (iw_token conn) = Inr token \<and>
           fst (na_properties api (token_text token) (ds_id t) (ax_provider (ig_act db))) = Inr live \<and>
           validate_notion_mapping m live = [])"
proof (cases mapping)
  case None
  then show ?thesis using assms by (auto simp: check_mapping_def)
next
  case (Some m)
  obtain t where t: "dest = Some t" "ds_kind t = Database_parent"
    using assms Some by (auto simp: check_mapping_def split: option.splits if_splits)
  obtain api where api: "notion_configured d = Some api"
    using assms Some t by (cases "notion_configured d") (auto simp: check_mapping_def)
  obtain conn where conn: "active_connection user db = Some conn"
    using assms Some t api by (cases "active_connection user db") (auto simp: check_mapping_def)
  obtain live where live: "with_token d conn (\<lambda>token. na_properties api token (ds_id t)) db = (Inr live, db1)"
    "validate_notion_mapping m live = []" "saved = Some m"
    using assms Some t api conn by (auto simp: check_mapping_def split: prod.splits sum.splits if_splits)
  have "gd_api d = Some api" using api by (simp add: notion_configured_def split: if_splits)
  moreover obtain token where "decrypt_bytes_with_any (gd_crypto d) (case gd_read_keys d of None \<Rightarrow> [] | Some ks \<Rightarrow> ks) (iw_token conn) = Inr token"
    "fst (na_properties api (token_text token) (ds_id t) (ax_provider (ig_act db))) = Inr live"
    using live(1) by (auto simp: with_token_def ask_provider_def split: sum.splits prod.splits)
  ultimately show ?thesis using Some t conn live by auto
qed

lemma set_meta_active: "active_row user (set_meta now dest mapping r) = active_row user r"
  by (simp add: set_meta_def active_row_def split: option.split)

text \<open>C39. The default destination of a user. Whatever the answer, no row but the user's own active connection changes.
  A positive answer means that there is one, that it now holds exactly the destination that was sent, and that a mapping is
  saved only for a database, after the live schema of this very database, read with the user's own token, had a
  property of a fitting type for every mapped field; a destination without a mapping, or no destination, clears an older one. Any other answer
  leaves the table as it was.\<close>

theorem saved_destination_is_validated:
  "(case put_destination d now user body db of
      (Reply _ (dest, saved), db') \<Rightarrow>
        (\<exists>b. body = Some b \<and> dest = db_destination b \<and>
          (case saved of None \<Rightarrow> db_mapping b = None
           | Some m \<Rightarrow> db_mapping b = Some m \<and>
               (\<exists>t conn token api live. dest = Some t \<and> ds_kind t = Database_parent \<and> active_connection user db = Some conn \<and>
                  gd_api d = Some api \<and>
                  decrypt_bytes_with_any (gd_crypto d) (case gd_read_keys d of None \<Rightarrow> [] | Some ks \<Rightarrow> ks) (iw_token conn) = Inr token \<and>
                  fst (na_properties api (token_text token) (ds_id t) (ax_provider (ig_act db))) = Inr live \<and>
                  validate_notion_mapping m live = []))) \<and>
        list_ex (active_row user) (ig_rows db') \<and>
        list_all (\<lambda>r. iw_default r = dest \<and> iw_mapping r = saved) (filter (active_row user) (ig_rows db')) \<and>
        others user (ig_rows db') = others user (ig_rows db) \<and>
        map iw_token (ig_rows db') = map iw_token (ig_rows db)
    | (_, db') \<Rightarrow> ig_rows db' = ig_rows db)"
proof (cases "body = None \<or> \<not> destination_body_ok (the body)")
  case True
  then show ?thesis by (auto simp: put_destination_def split: option.splits)
next
  case False
  then obtain b where b: "body = Some b" "destination_body_ok b" by auto
  obtain res db1 where ch: "check_mapping d user (db_destination b) (db_mapping b) db = (res, db1)" by fastforce
  have rows1: "ig_rows db1 = ig_rows db" using check_mapping_keeps [OF ch] by simp
  show ?thesis
  proof (cases res)
    case (Inl e)
    then show ?thesis using b ch rows1 by (cases e) (simp add: put_destination_def)
  next
    case (Inr saved)
    note sv = check_mapping_saved [OF ch [unfolded Inr]]
    show ?thesis
    proof (cases "active_connection user db1 = None")
      case True
      then show ?thesis using b ch rows1 Inr by (simp add: put_destination_def)
    next
      case False
      define upd where "upd r = (if active_row user r then set_meta now (db_destination b) saved r else r)" for r
      have out: "put_destination d now user body db = (Reply 200 (db_destination b, saved),
          ig_audit user ''notion.destination.set'' (destination_detail (db_destination b) saved) (db1\<lparr>ig_rows := map upd (ig_rows db)\<rparr>))"
        using b ch rows1 Inr False by (simp add: put_destination_def upd_def [abs_def])
      have upd: "active_row user (upd r) = active_row user r" "iw_token (upd r) = iw_token r"
        "\<not> active_row user r \<Longrightarrow> upd r = r" "active_row user r \<Longrightarrow> iw_default (upd r) = db_destination b"
        "active_row user r \<Longrightarrow> saved = None \<or> db_destination b \<noteq> None \<Longrightarrow> iw_mapping (upd r) = saved" for r
        by (auto simp: upd_def set_meta_active) (auto simp: set_meta_def split: option.splits)
      have dest: "saved = None \<or> db_destination b \<noteq> None" using sv by (auto split: option.splits)
      have "others user (map upd rs) = others user rs" for rs
        by (induction rs) (simp_all add: others_def upd)
      moreover have "list_ex (active_row user) (map upd (ig_rows db))"
        using False rows1 by (auto simp: active_connection_def find_None_iff list_ex_iff upd)
      moreover have "list_all (\<lambda>r. iw_default r = db_destination b \<and> iw_mapping r = saved) (filter (active_row user) (map upd rs))" for rs
        by (induction rs) (auto simp: upd(1,4) intro: upd(5) [OF _ dest])
      moreover have "map iw_token (map upd rs) = map iw_token rs" for rs by (simp add: upd)
      ultimately show ?thesis using b out sv by simp
    qed
  qed
qed

subsection \<open>The preview and the page\<close>

lemma preview_source_eq: "preview_source a mom = page_source a mom"
  by (cases mom) (simp_all add: preview_source_def page_source_def default_to_def)

lemma preview_content:
  assumes "preview host_of (Some aid) user db = Reply c pv"
  obtains a where "find_action aid user db = Some a" "an_type a = ''notion_page''"
    "pw_title pv = pc_title (page_content_of a (moment_of a db))" "pw_sections pv = pc_sections (page_content_of a (moment_of a db))"
    "pw_media_items pv = preview_items user (an_moment a) db"
    "pw_connected pv \<longleftrightarrow> connected user ''notion'' db \<noteq> None"
proof -
  obtain a where a: "find_action aid user db = Some a" "an_type a = ''notion_page''"
    using assms by (auto simp: preview_def split: option.splits if_splits)
  show ?thesis
    by (rule that [OF a]) (use assms a in \<open>auto simp: preview_def Let_def preview_source_eq page_content_of_def moment_of_def default_to_def split: if_splits option.splits\<close>)
qed

fun as_previewed :: "preview_reply \<Rightarrow> string list \<Rightarrow> provider_call \<Rightarrow> bool" where
  "as_previewed pv ids (Call_create token parent content props uploads k) \<longleftrightarrow>
     pc_title content = pw_title pv \<and> pc_sections content = pw_sections pv \<and> length uploads = length ids"
| "as_previewed pv ids (Call_upload token name data v) \<longleftrightarrow>
     list_ex (\<lambda>item. pm_eligible item \<and> pm_id item \<in> set ids \<and> starts_with name (''nova-'' @ pm_id item @ ''.'')) (pw_media_items pv)"
| "as_previewed pv ids _ \<longleftrightarrow> True"

fun as_shown :: "preview_reply \<Rightarrow> provider_call \<Rightarrow> bool" where
  "as_shown pv (Call_create token parent content props uploads k) \<longleftrightarrow>
     pc_title content = pw_title pv \<and> pc_sections content = pw_sections pv \<and> length uploads = length (pw_approved_ids pv)"
| "as_shown pv (Call_upload token name data v) \<longleftrightarrow> list_ex (\<lambda>i. starts_with name (''nova-'' @ i @ ''.'')) (pw_approved_ids pv)"
| "as_shown pv _ \<longleftrightarrow> True"

lemma unique_action:
  assumes "distinct (map an_id (ax_actions db))" "find_action aid user db = Some a" "x \<in> set (ax_actions db)" "an_id x = aid"
  shows "x = a"
  using assms by (auto simp: find_action_def find_Some_iff distinct_map inj_on_def)

lemma approved_row:
  assumes ext: "approve_external queue (Some provider) aid user body db = (Reply c r, db1)"
    and a: "find_action aid user db = Some a" "distinct (map an_id (ax_actions db))"
  obtains b where "body = Some b" "connected user provider db \<noteq> None"
    "set (media_of_body b) \<subseteq> set (eligible_ids aid user (media_of_body b) db)"
    "find_action aid user db1 = Some (set_queued user (ab_destination b) (media_of_body b) a)"
proof -
  obtain b p where q: "body = Some b" "connected user provider db \<noteq> None"
    "set (media_of_body b) \<subseteq> set (eligible_ids aid user (media_of_body b) db)"
    "find (pending aid user) (ax_actions db) = Some p"
    "ax_actions db1 = map (\<lambda>a. if pending aid user a then set_queued user (ab_destination b) (media_of_body b) a else a) (ax_actions db)"
    by (rule approve_external_queued [OF ext]) blast
  let ?q = "set_queued user (ab_destination b) (media_of_body b)"
  have p: "p \<in> set (ax_actions db)" "pending aid user p" using q(4) by (auto simp: find_Some_iff)
  have ain: "a \<in> set (ax_actions db)" "an_id a = aid" "an_user a = user" using a(1) by (auto simp: find_action_def find_Some_iff)
  note uniq = unique_action [OF a(2,1)]
  have pa: "p = a" using uniq p by (simp add: pending_def)
  have "find (\<lambda>x. an_id x = aid \<and> an_user x = user) (map (\<lambda>a. if pending aid user a then ?q a else a) (ax_actions db)) = Some (?q a)"
  proof (rule find_map_all)
    fix x assume x: "x \<in> set (ax_actions db)" "an_id (if pending aid user x then ?q x else x) = aid \<and> an_user (if pending aid user x then ?q x else x) = user"
    then have "an_id x = aid" by (simp add: set_queued_def split: if_splits option.splits)
    then have "x = a" using uniq x(1) by blast
    then show "(if pending aid user x then ?q x else x) = ?q a" using p(2) pa by simp
  next
    show "\<exists>x\<in>set (ax_actions db). an_id (if pending aid user x then ?q x else x) = aid \<and> an_user (if pending aid user x then ?q x else x) = user"
      using ain p(2) pa by (intro bexI [of _ a]) (simp_all add: set_queued_def)
  qed
  then have "find_action aid user db1 = Some (?q a)" by (simp add: find_action_def q(5))
  then show ?thesis using that q(1-3) by blast
qed

lemma eligible_item:
  assumes "m \<in> set (eligible_ids aid user ids db)" "m \<in> set ids"
    and "find_action aid user db = Some a" "distinct (map an_id (ax_actions db))"
  shows "list_ex (\<lambda>it. pm_eligible it \<and> pm_id it \<in> set ids \<and> starts_with (upload_name m ty) (''nova-'' @ pm_id it @ ''.''))
    (preview_items user (an_moment a) db)"
proof -
  obtain r x where r: "r \<in> set (md_rows (ax_media db))" "mr_id r = m" "mr_user r = user" "mr_state r = ''applied''"
    "x \<in> set (ax_actions db)" "an_id x = aid" "an_moment x = Some (mr_moment r)"
    using eligible_idsD [OF assms(1)] by (auto simp: list_ex_iff)
  then have "an_moment a = Some (mr_moment r)" using unique_action [OF assms(4,3)] by blast
  then show ?thesis using r(1-4) assms(2) by (force simp: preview_items_def list_ex_iff upload_name_def starts_with_def)
qed

lemma same_content:
  "an_id b = an_id a \<Longrightarrow> an_moment b = an_moment a \<Longrightarrow> py_title (an_payload b) = py_title (an_payload a) \<Longrightarrow>
     py_detail (an_payload b) = py_detail (an_payload a) \<Longrightarrow> page_content_of b mom = page_content_of a mom"
  by (simp add: page_content_of_def page_source_def)

lemma run_calls:
  assumes "find_action aid user db = Some a" "running (an_status a)" "list_all no_dot (approved_media a)"
    "execute_action \<lparr>jb_action = aid, jb_user = user\<rparr> (traced_deps client keys store cr) attempt db = (out, db')"
  obtains cs where "snd (ax_provider db') = snd (ax_provider db) @ cs"
    "list_all (run_call_allowed \<lparr>jb_action = aid, jb_user = user\<rparr> (traced_deps client keys store cr) a db) cs"
proof -
  have "moved snd \<lparr>jb_action = aid, jb_user = user\<rparr> (run_call_allowed \<lparr>jb_action = aid, jb_user = user\<rparr> (traced_deps client keys store cr) a db)
      db db' (outcome_post a out)"
    by (rule tl.execute_running [OF _ _ assms(2,3,4)]) (use assms(1) in \<open>simp_all add: traced_deps_def row_after_def\<close>)
  then show ?thesis using that by (auto simp: moved_def)
qed

lemma run_in_previewed_state:
  assumes pv: "preview host_of (Some aid) user db = Reply c pv" and a: "find_action aid user db = Some a"
    and allowed: "run_call_allowed \<lparr>jb_action = aid, jb_user = user\<rparr> deps a db call"
  shows "as_shown pv call"
proof -
  have ids: "pw_approved_ids pv = approved_media a"
    using pv a by (auto simp: preview_def Let_def approved_media_def split: option.splits if_splits)
  show ?thesis
  proof (cases call)
    case (Call_upload t name data v)
    then obtain m ty where "m \<in> set (approved_media a)" "name = upload_name m ty"
      using allowed by (auto simp: run_call_allowed_def call_allowed_def)
    then show ?thesis using Call_upload ids by (auto simp: list_ex_iff upload_name_def starts_with_def intro!: bexI [of _ m])
  next
    case (Call_create t parent cont props uploads k)
    have "pw_title pv = pc_title (page_content_of a (moment_of a db)) \<and> pw_sections pv = pc_sections (page_content_of a (moment_of a db))"
      using preview_content [OF pv] a by (metis option.inject)
    then show ?thesis using Call_create allowed ids by (auto simp: run_call_allowed_def call_allowed_def)
  qed simp_all
qed

lemma published_later:
  assumes pv: "preview host_of (Some aid) user db = Reply c pv"
    and ap: "approve queue task_id (Some aid) user body db = (Reply c' Approved_queued, db1)"
  shows "case (find_action aid user db, find_action aid user db1, find_action aid user dbr) of
      (Some a, Some a1, Some ar) \<Rightarrow>
        if distinct (map an_id (ax_actions db)) \<and> list_all no_dot (case body of None \<Rightarrow> [] | Some b \<Rightarrow> media_of_body b) \<and>
          running (an_status ar) \<and> an_payload ar = an_payload a1 \<and> an_moment ar = an_moment a1 \<and> moment_of ar dbr = moment_of a db
        then pw_connected pv \<and>
          (case execute_action \<lparr>jb_action = aid, jb_user = user\<rparr> (traced_deps client keys store cr) attempt dbr of (out, db2) \<Rightarrow>
             \<exists>cs. snd (ax_provider db2) = snd (ax_provider dbr) @ cs \<and>
               list_all (as_previewed pv (case body of None \<Rightarrow> [] | Some b \<Rightarrow> media_of_body b)) cs)
        else True
    | _ \<Rightarrow> True"
proof -
  obtain a where a: "find_action aid user db = Some a" "an_type a = ''notion_page''"
    "pw_title pv = pc_title (page_content_of a (moment_of a db))" "pw_sections pv = pc_sections (page_content_of a (moment_of a db))"
    "pw_media_items pv = preview_items user (an_moment a) db"
    "pw_connected pv \<longleftrightarrow> connected user ''notion'' db \<noteq> None"
    by (rule preview_content [OF pv])
  have ext: "approve_external queue (Some ''notion'') aid user body db = (Reply c' Approved_queued, db1)"
    using ap
  proof (cases rule: approve_reply_cases)
    case (queued a' ad)
    then show ?thesis by (cases ad) auto
  next
    case inline
    then show ?thesis by (elim approve_internal_finished) simp
  qed
  show ?thesis
  proof (cases "\<exists>a1 ar. find_action aid user db1 = Some a1 \<and> find_action aid user dbr = Some ar \<and>
      distinct (map an_id (ax_actions db)) \<and> list_all no_dot (case body of None \<Rightarrow> [] | Some b \<Rightarrow> media_of_body b) \<and>
      running (an_status ar) \<and> an_payload ar = an_payload a1 \<and> an_moment ar = an_moment a1 \<and> moment_of ar dbr = moment_of a db")
    case False
    then show ?thesis using a(1) by (auto split: option.split)
  next
    case True
    then obtain a1 ar where r: "find_action aid user db1 = Some a1" "find_action aid user dbr = Some ar"
      and ok: "distinct (map an_id (ax_actions db))" "list_all no_dot (case body of None \<Rightarrow> [] | Some b \<Rightarrow> media_of_body b)"
      and ar: "running (an_status ar)" "an_payload ar = an_payload a1" "an_moment ar = an_moment a1" "moment_of ar dbr = moment_of a db" by blast
    obtain b where q: "body = Some b" "connected user ''notion'' db \<noteq> None"
      "set (media_of_body b) \<subseteq> set (eligible_ids aid user (media_of_body b) db)"
      "find_action aid user db1 = Some (set_queued user (ab_destination b) (media_of_body b) a)"
      using approved_row [OF ext a(1)] ok by blast
    have a1: "a1 = set_queued user (ab_destination b) (media_of_body b) a" using q(4) r(1) by simp
    have ids: "approved_media ar = media_of_body b" "an_id ar = an_id a"
      using ar(2) a1 a(1) r(2) by (auto simp: set_queued_def approved_media_def find_action_def find_Some_iff split: option.split)
    have content: "page_content_of ar (moment_of ar dbr) = page_content_of a (moment_of a db)"
      using same_content [OF ids(2)] ar a1 by (simp add: set_queued_def split: option.split)
    let ?j = "\<lparr>jb_action = aid, jb_user = user\<rparr>" and ?deps = "traced_deps client keys store cr"
    obtain out db2 where ex: "execute_action ?j ?deps attempt dbr = (out, db2)" by fastforce
    have nd: "list_all no_dot (approved_media ar)" using ok(2) ids(1) q(1) by simp
    obtain cs where cs: "snd (ax_provider db2) = snd (ax_provider dbr) @ cs" "list_all (run_call_allowed ?j ?deps ar dbr) cs"
      by (rule run_calls [OF r(2) ar(1) nd ex])
    have "as_previewed pv (media_of_body b) call" if allowed: "run_call_allowed ?j ?deps ar dbr call" for call
    proof (cases call)
      case (Call_upload t name data v)
      then obtain m ty where "m \<in> set (media_of_body b)" "name = upload_name m ty"
        using allowed ids(1) by (auto simp: run_call_allowed_def call_allowed_def)
      then show ?thesis using Call_upload q(3) ok a(1) eligible_item [of m aid user "media_of_body b" db a ty] by (auto simp: a(5))
    next
      case (Call_create t parent cont props uploads k)
      then show ?thesis using allowed ids(1) content a(3,4) by (auto simp: run_call_allowed_def call_allowed_def)
    qed simp_all
    then have "list_all (as_previewed pv (media_of_body b)) cs" using cs(2) by (auto simp: list_all_iff)
    then show ?thesis using q(1,2) a(1,6) r ex cs(1) ok ar by auto
  qed
qed

text \<open>C40. The preview and the worker build the page from the same data. (1) In whatever state a run starts, every page it
  asks for has the title and the sections that the preview shows in that same state, and every file it uploads is one of the
  approved ids that this preview lists. (2) When an action was previewed and then approved, and a run starts at any later time
  with the approved payload on the row and the moment as it was at the preview, every page it asks for has the title and the
  sections of that earlier preview, and every file it uploads was listed by it as eligible and ticked in the approval. The
  content is not frozen by the approval: when the moment changes in between, as by an enrichment that finishes or by the
  selection of another version, the page differs from the preview, see the lemma \<open>enrichment_changes_the_page\<close>.\<close>

theorem preview_is_what_is_published:
  "(case (preview host_of (Some aid) user dbr, find_action aid user dbr) of
      (Reply _ pv, Some a) \<Rightarrow>
        if running (an_status a) \<and> list_all no_dot (approved_media a)
        then (case execute_action \<lparr>jb_action = aid, jb_user = user\<rparr> (traced_deps client keys store cr) attempt dbr of (out, db2) \<Rightarrow>
          \<exists>cs. snd (ax_provider db2) = snd (ax_provider dbr) @ cs \<and> list_all (as_shown pv) cs)
        else True
    | _ \<Rightarrow> True) \<and>
   (case (preview host_of (Some aid) user db, approve queue task_id (Some aid) user body db) of
      (Reply _ pv, (Reply _ Approved_queued, db1)) \<Rightarrow>
        (case (find_action aid user db, find_action aid user db1, find_action aid user dbr) of
           (Some a, Some a1, Some ar) \<Rightarrow>
             if distinct (map an_id (ax_actions db)) \<and> list_all no_dot (case body of None \<Rightarrow> [] | Some b \<Rightarrow> media_of_body b) \<and>
               running (an_status ar) \<and> an_payload ar = an_payload a1 \<and> an_moment ar = an_moment a1 \<and> moment_of ar dbr = moment_of a db
             then pw_connected pv \<and>
               (case execute_action \<lparr>jb_action = aid, jb_user = user\<rparr> (traced_deps client keys store cr) attempt dbr of (out, db2) \<Rightarrow>
                  \<exists>cs. snd (ax_provider db2) = snd (ax_provider dbr) @ cs \<and>
                    list_all (as_previewed pv (case body of None \<Rightarrow> [] | Some b \<Rightarrow> media_of_body b)) cs)
             else True
         | _ \<Rightarrow> True)
    | _ \<Rightarrow> True)"
  (is "?same \<and> ?later")
proof (intro conjI)
  show ?same
  proof (cases "\<exists>c pv a. preview host_of (Some aid) user dbr = Reply c pv \<and> find_action aid user dbr = Some a \<and>
      running (an_status a) \<and> list_all no_dot (approved_media a)")
    case True
    then obtain c pv a where x: "preview host_of (Some aid) user dbr = Reply c pv" "find_action aid user dbr = Some a"
      "running (an_status a)" "list_all no_dot (approved_media a)" by blast
    obtain out db2 where ex: "execute_action \<lparr>jb_action = aid, jb_user = user\<rparr> (traced_deps client keys store cr) attempt dbr = (out, db2)"
      by fastforce
    obtain cs where cs: "snd (ax_provider db2) = snd (ax_provider dbr) @ cs"
      "list_all (run_call_allowed \<lparr>jb_action = aid, jb_user = user\<rparr> (traced_deps client keys store cr) a dbr) cs"
      by (rule run_calls [OF x(2-4) ex])
    have "list_all (as_shown pv) cs" using cs(2) run_in_previewed_state [OF x(1,2)] by (auto simp: list_all_iff)
    then show ?thesis using x ex cs(1) by auto
  qed (auto split: response.split option.split)
  show ?later
  proof (cases "\<exists>c pv c' db1. preview host_of (Some aid) user db = Reply c pv \<and>
      approve queue task_id (Some aid) user body db = (Reply c' Approved_queued, db1)")
    case False
    then show ?thesis by (auto split: response.split prod.split approve_reply.split)
  next
    case True
    then obtain c pv c' db1 where pv: "preview host_of (Some aid) user db = Reply c pv"
      and ap: "approve queue task_id (Some aid) user body db = (Reply c' Approved_queued, db1)" by blast
    show ?thesis
      using published_later [OF pv ap, of dbr client keys store cr attempt]
      unfolding pv ap prod.case response.case approve_reply.case .
  qed
qed

text \<open>The content is built when the worker runs: a summary that changes after the preview is on the page.\<close>

lemma enrichment_changes_the_page:
  "pc_sections (page_content_of a (Some (mo\<lparr>mo_summary := Some ''before''\<rparr>))) \<noteq>
   pc_sections (page_content_of a (Some (mo\<lparr>mo_summary := Some ''after''\<rparr>)))"
proof -
  have "hd (pc_sections (page_content_of a (Some (mo\<lparr>mo_summary := Some (c # s)\<rparr>)))) = (Some ''Summary'', c # s)" for c s
    by (simp add: page_content_of_def build_notion_page_content_def page_source_def when_text_def coalesce_def truthy_def)
  then have "hd (pc_sections (page_content_of a (Some (mo\<lparr>mo_summary := Some ''before''\<rparr>)))) \<noteq>
      hd (pc_sections (page_content_of a (Some (mo\<lparr>mo_summary := Some ''after''\<rparr>))))" by simp
  then show ?thesis by metis
qed

end
