(* ===== verification/Spec2Isabelle.thy ===== *)
theory Spec2Isabelle
  imports Live_Buffer Store_Identity Media_Ops Rate_Limit Auth Action_Steps Gate_Session Restore_Target
    Backup_Remote Env_Config Data_Routes Enrich Integrations
begin

text \<open>
  Nova Context captures what a user sees in the browser, redacts it before it is stored, enriches it, and carries out
  actions on it that the user approved. The repository is a TypeScript monorepo: \<open>packages/context-engine\<close> holds the
  pure logic, \<open>services/api\<close> the HTTP service with its database, object store and operator commands,
  \<open>services/worker\<close> the queue consumer, \<open>tools/validation-gate\<close> the release gate, and \<open>apps\<close> the user
  interfaces. This development models the logic of the first four.

  \<^bold>\<open>How the parts interact.\<close> A capture is checked and redacted (text by patterns, images by recognised words), its
  images move to the media pipeline, and an enrichment job is queued. The worker summarises the moment, extracts
  facts and proposes actions. The user previews and approves an action, the approval queues a job, and the worker
  publishes to Notion with the token of the user's connection. Deletions remove rows and queue blobs that could not be
  removed; operator commands sweep orphans, rotate keys, and back up the database and the blobs; the gate decides
  from all of this whether a release may go out.

  \<^bold>\<open>Theories and sources.\<close>
  \<^item> \<open>Prelude\<close>: strings, JSON values, lists, replies, steps that may stop early. \<open>Regex\<close>: the backtracking
    matcher of ECMAScript and its search and replace loops.
  \<^item> \<open>Redaction\<close> (\<open>data-url.ts\<close>, \<open>redaction.ts\<close>), \<open>Visual_Redaction\<close> (\<open>visual-redaction.ts\<close>),
    \<open>Inline_Media\<close> (\<open>capture-mode.ts\<close>, \<open>legacy-media.ts\<close>, \<open>image-redaction.ts\<close>), \<open>Live_Buffer\<close>
    (\<open>live-buffer.ts\<close>).
  \<^item> \<open>Object_Store\<close> and \<open>Store_Identity\<close> (\<open>object-store.ts\<close>), \<open>Secret_Box\<close> (\<open>secret-box.ts\<close>), \<open>Media\<close>
    (\<open>media-service.ts\<close>, \<open>media-gate.ts\<close>), \<open>Media_Ops\<close> (\<open>media/cleanup.ts\<close>, \<open>db/rotate-media-key.ts\<close>,
    \<open>db/verify-media.ts\<close>, \<open>db/backfill-media.ts\<close>).
  \<^item> \<open>Rate_Limit\<close> (\<open>auth/rate-limit.ts\<close>), \<open>Auth\<close> (\<open>auth/passwords.ts\<close>, \<open>auth/sessions.ts\<close>,
    \<open>auth/plugin.ts\<close>, \<open>routes-auth.ts\<close>), \<open>Env_Config\<close> (\<open>env.ts\<close>).
  \<^item> \<open>Notion\<close> (\<open>notion-page.ts\<close>, \<open>notion-mapping.ts\<close>, the worker's \<open>notion-client.ts\<close>), \<open>Actions\<close> (the
    approval side of \<open>routes-m2.ts\<close>), \<open>Action_Worker\<close> (\<open>services/worker/src/actions.ts\<close>), \<open>Action_Steps\<close>
    (the same statements as an interleaving of several runs and requests), \<open>Integrations\<close>
    (\<open>routes-integrations.ts\<close>, \<open>integrations/notion-oauth.ts\<close>, \<open>integrations/notion-api.ts\<close>).
  \<^item> \<open>Intent\<close> (the intent parser of \<open>model-router\<close>, \<open>suggest.ts\<close>, \<open>consent.ts\<close>), \<open>Capture\<close> (the capture route
    and the timeline of \<open>app.ts\<close>, \<open>analytics.ts\<close>), \<open>Lifecycle\<close> (deletions of \<open>routes-m3.ts\<close> and
    \<open>routes-account.ts\<close>), \<open>Data_Routes\<close> (exports, versions, audit, live questions), \<open>Facts\<close> and \<open>Enrich\<close>
    (\<open>worker/src/memory\<close>, \<open>local-enrichment.ts\<close>, \<open>worker/src/enrich.ts\<close>).
  \<^item> \<open>Sanitize\<close>, \<open>Gate\<close>, \<open>Gate_Config\<close>, \<open>Gate_Session\<close> (\<open>tools/validation-gate\<close>), \<open>Restore_Target\<close>
    (\<open>backup/target.ts\<close> and its guards), \<open>Backup_Media\<close> (\<open>backup/media-s3.ts\<close>), \<open>Backup_Manifest\<close>
    (\<open>backup/crypto.ts\<close>, \<open>backup/manifest.ts\<close>), \<open>Backup_Remote\<close> (\<open>backup/sealed-backup-s3.ts\<close>).

  \<^bold>\<open>State and operations.\<close> Each table is a list of records, in the order of insertion, and a handler is a function of
  its dependencies, the clock, what it draws at random, the parsed request and the state; it returns its reply and the
  new state. A reply is a body with its status, an error code, or an exception. The worker's steps return either an
  outcome that ends the run or a value. Where interleaving matters (\<open>Action_Steps\<close>) the statements are rules of a
  step relation, and the invariant holds in every reachable state.

  \<^bold>\<open>What the lemmas show.\<close> Redaction: the two implementations of the text redaction agree, no part of a sensitive word
  stays visible, and a report never claims more than was masked. Media: reads need a safe state of redaction, a deletion loses no
  blob, rotation keeps the plaintexts, the sweep removes only orphans. Access: the hook fails closed, codes and states are
  used once, revocation is complete, attempts in a window are bounded. Actions: what the preview shows is what is
  published, only after the approval, with the token of the owner's connection, at most once per job. Lifecycle: a deletion
  leaves no row of the subject, and an interrupted one leaves the account locked. Operations: backups commit last, are
  complete and intact, and restore to the same content; guards authorize only what their specification allows; the gate's
  verdict is the one of its declarative specification.

  \<^bold>\<open>Fuel and termination.\<close> All definitions are total but the listing of an S3 store, a \<open>partial_function\<close> whose result is proved for every
  finite chain of pages; none stops early for want of fuel. An optional iteration of the matcher must consume input, so a repetition makes at most as many rounds as characters
  are left; the loop over all matches has a \<open>termination\<close> proof, since it consumes input or advances by one. A job has three attempts,
  as configured for its queue. Retry loops carry the bound of the code.

  \<^bold>\<open>Conventions and parameters.\<close> A string is a list of characters that stand for UTF-16 units in the range of Latin-1, with
  a few unused codes for the typographic characters that the program writes. Numbers in JSON are integers. AES-GCM, SHA-256,
  scrypt, base64, OCR, image coding, S3, Redis, \<open>fetch\<close>, \<open>new URL\<close> and the language models are parameters, and what is
  assumed of them stands as a named hypothesis at the theorem that needs it (such as \<open>gcm_ok\<close> or \<open>pw_ok\<close>), each
  with an instance. Queries do not fail unless a handler treats the failure. A handler is atomic, except in
  \<open>Action_Steps\<close> and where a theory cuts it into its statements.

  \<^bold>\<open>Not modelled.\<close> The web application, the extension and the browser shell (rendering and browser interfaces), process
  start-up, queue wiring and logging, the calls of external models and of the OCR engine, the operator's read-only probes,
  reports and smoke test, search, task, transcription and feedback routes (single queries or provider calls), database
  scripts, and the argument parsing of the command-line tools. They hold no invariant of their own beyond the functions
  modelled here.
\<close>

end
